(* ===== verification/Prelude.thy ===== *)
theory Prelude
  imports Complex_Main "HOL-Library.Word" "HOL-Library.Sublist" "HOL-Library.List_Lexorder"
    "HOL-Library.Char_ord"
begin

text \<open>
  Shared vocabulary of the development: the machine integers and strings of the two source
  languages, decimal rendering, JavaScript's 32-bit operators and its string helpers, and the
  generic lemmas on lists that the component theories use. JavaScript strings that come from
  \<open>readAsBinaryString\<close> hold code units below 256 only, so they are HOL strings; Go byte
  slices are lists of 8-bit words.
\<close>

named_theorems js_ops \<open>evaluation rules for JavaScript operators\<close>

type_synonym byte = "8 word"
type_synonym bytes = "byte list"

section \<open>Characters and bytes\<close>

text \<open>\<open>readAsBinaryString\<close> maps each byte to the code unit of the same number.\<close>

definition byte_char :: "byte \<Rightarrow> char" where
  "byte_char b = char_of (unat b)"

definition char_byte :: "char \<Rightarrow> byte" where
  "char_byte c = word_of_nat (of_char c)"

definition latin1 :: "bytes \<Rightarrow> string" where
  "latin1 bs = map byte_char bs"

definition to_bytes :: "string \<Rightarrow> bytes" where
  "to_bytes s = map char_byte s"

lemma of_char_lt_256 [simp]: "of_char c < (256::nat)"
proof -
  have "of_char (char_of (of_char c :: nat)) = (of_char c :: nat) mod 256"
    by (rule of_char_of)
  then show ?thesis by simp
qed

lemma byte_lt_256 [simp]: "unat (b :: byte) < 256"
  using unsigned_less [of b, where 'a = nat] by simp

lemma byte_char_inverse [simp]: "char_byte (byte_char b) = b"
  by (simp add: char_byte_def byte_char_def of_char_of)

lemma char_byte_inverse [simp]: "byte_char (char_byte c) = c"
proof -
  have "unat (word_of_nat (of_char c) :: byte) = of_char c"
    by (simp add: unsigned_of_nat take_bit_nat_eq_self_iff)
  then show ?thesis by (simp add: char_byte_def byte_char_def)
qed

lemma latin1_to_bytes [simp]: "latin1 (to_bytes s) = s"
  by (simp add: latin1_def to_bytes_def comp_def)

lemma to_bytes_latin1 [simp]: "to_bytes (latin1 bs) = bs"
  by (simp add: latin1_def to_bytes_def comp_def)

lemma length_to_bytes [simp]: "length (to_bytes s) = length s"
  by (simp add: to_bytes_def)

lemma length_latin1 [simp]: "length (latin1 bs) = length bs"
  by (simp add: latin1_def)

lemma to_bytes_append [simp]: "to_bytes (s @ t) = to_bytes s @ to_bytes t"
  by (simp add: to_bytes_def)

lemma to_bytes_Cons [simp]: "to_bytes (c # s) = char_byte c # to_bytes s"
  by (simp add: to_bytes_def)

lemma to_bytes_Nil [simp]: "to_bytes [] = []"
  by (simp add: to_bytes_def)

lemma latin1_append [simp]: "latin1 (s @ t) = latin1 s @ latin1 t"
  by (simp add: latin1_def)

lemma latin1_Cons [simp]: "latin1 (b # s) = byte_char b # latin1 s"
  by (simp add: latin1_def)

lemma latin1_Nil [simp]: "latin1 [] = []"
  by (simp add: latin1_def)

lemma to_bytes_inject [simp]: "to_bytes s = to_bytes t \<longleftrightarrow> s = t"
  by (metis latin1_to_bytes)

lemma of_char_byte_char: "of_char (byte_char b) = unat b"
  by (simp add: byte_char_def)

lemma uint_of_char_of_unat: "of_char (char_of (unat (b :: byte))) = uint b"
proof -
  have "of_char (char_of (unat b)) = int (of_char (char_of (unat b)))"
    by (rule of_nat_of_char [symmetric])
  then show ?thesis by simp
qed

section \<open>Decimal numerals\<close>

definition digit :: "nat \<Rightarrow> char" where
  "digit d = char_of (48 + d)"

fun show_nat :: "nat \<Rightarrow> string" where
  "show_nat n = (if n < 10 then [digit n] else show_nat (n div 10) @ [digit (n mod 10)])"

declare show_nat.simps [simp del]

definition show_int :: "int \<Rightarrow> string" where
  "show_int i = (if i < 0 then CHR ''-'' # show_nat (nat (- i)) else show_nat (nat i))"

text \<open>\<open>String.prototype.padStart(2, '0')\<close>.\<close>

definition padStart2 :: "string \<Rightarrow> string" where
  "padStart2 s = replicate (2 - length s) (CHR ''0'') @ s"

definition two_digits :: "nat \<Rightarrow> string" where
  "two_digits n = [digit (n div 10), digit (n mod 10)]"

lemma digit_numerals:
  "digit 0 = CHR ''0''" "digit 1 = CHR ''1''" "digit 2 = CHR ''2''" "digit 3 = CHR ''3''"
  "digit 4 = CHR ''4''" "digit 5 = CHR ''5''" "digit 6 = CHR ''6''" "digit 7 = CHR ''7''"
  "digit 8 = CHR ''8''" "digit 9 = CHR ''9''"
  by code_simp+

lemmas digit_zero = digit_numerals(1)

lemma show_nat_lt_10: "n < 10 \<Longrightarrow> show_nat n = [digit n]"
  by (simp add: show_nat.simps [of n])

lemma show_nat_lt_100: "\<not> n < 10 \<Longrightarrow> n < 100 \<Longrightarrow> show_nat n = [digit (n div 10), digit (n mod 10)]"
  by (simp add: show_nat.simps [of n] show_nat.simps [of "n div 10"])

lemma padStart2_show_nat: "n < 100 \<Longrightarrow> padStart2 (show_nat n) = two_digits n"
proof (cases "n < 10")
  case True
  then show ?thesis
    by (simp add: show_nat_lt_10 padStart2_def two_digits_def digit_zero)
next
  case False
  assume "n < 100"
  with False show ?thesis by (simp add: show_nat_lt_100 padStart2_def two_digits_def)
qed

text \<open>Reading a numeral back: the value of a list of decimal digits.\<close>

fun digit_value :: "char \<Rightarrow> nat option" where
  "digit_value c = (let n = of_char c in if 48 \<le> n \<and> n \<le> 57 then Some (n - 48) else None)"

declare digit_value.simps [simp del]

fun read_digits :: "nat \<Rightarrow> string \<Rightarrow> nat option" where
  "read_digits acc [] = Some acc"
| "read_digits acc (c # cs) =
     (case digit_value c of None \<Rightarrow> None | Some d \<Rightarrow> read_digits (10 * acc + d) cs)"

lemma digit_value_digit [simp]: "d < 10 \<Longrightarrow> digit_value (digit d) = Some d"
  by (simp add: digit_value.simps digit_def of_char_of)

lemma read_digits_append:
  "read_digits acc (xs @ ys) =
     (case read_digits acc xs of None \<Rightarrow> None | Some a \<Rightarrow> read_digits a ys)"
  by (induction acc xs rule: read_digits.induct) (auto split: option.splits)

lemma read_digits_show_nat [simp]: "read_digits 0 (show_nat n) = Some n"
proof (induction n rule: show_nat.induct)
  case (1 n)
  show ?case
  proof (cases "n < 10")
    case True
    then show ?thesis by (simp add: show_nat_lt_10)
  next
    case False
    with "1.IH" show ?thesis
      by (simp add: show_nat.simps [of n] read_digits_append)
  qed
qed

lemma show_nat_nonempty [simp]: "show_nat n \<noteq> []"
  by (subst show_nat.simps) simp

lemma show_nat_hd: "\<exists>d < 10. hd (show_nat n) = digit d"
proof (induction n rule: show_nat.induct)
  case (1 n)
  then show ?case
    by (cases "n < 10") (auto simp: show_nat.simps [of n] hd_append)
qed

lemma set_show_nat: "c \<in> set (show_nat n) \<Longrightarrow> \<exists>d < 10. c = digit d"
proof (induction n rule: show_nat.induct)
  case (1 n)
  then show ?case
    by (cases "n < 10") (auto simp: show_nat.simps [of n] intro: exI [of _ "n mod 10"])
qed

section \<open>Go slices and strings\<close>

text \<open>
  A slice expression \<open>s[a:b]\<close> and an index expression \<open>s[i]\<close>; \<open>None\<close> is the run-time
  panic. A Go string is a sequence of bytes, so it is a HOL string; the conversions between
  \<open>string\<close> and \<open>[]byte\<close> are \<^const>\<open>to_bytes\<close> and \<^const>\<open>latin1\<close>.
\<close>

definition slice :: "'a list \<Rightarrow> nat \<Rightarrow> nat \<Rightarrow> 'a list option" where
  "slice s a b = (if a \<le> b \<and> b \<le> length s then Some (take (b - a) (drop a s)) else None)"

definition index_at :: "'a list \<Rightarrow> nat \<Rightarrow> 'a option" where
  "index_at s i = (if i < length s then Some (s ! i) else None)"

lemma index_at_lt [simp]: "i < length s \<Longrightarrow> index_at s i = Some (s ! i)"
  by (simp add: index_at_def)

lemma index_at_ge [simp]: "\<not> i < length s \<Longrightarrow> index_at s i = None"
  by (simp add: index_at_def)

lemma length_slice: "slice s a b = Some t \<Longrightarrow> length t = b - a"
  by (auto simp: slice_def split: if_splits)

text \<open>\<open>sort.Search(n, f)\<close>: binary search for the least index at which \<open>f\<close> holds.\<close>

function sort_search_loop :: "(nat \<Rightarrow> bool) \<Rightarrow> nat \<Rightarrow> nat \<Rightarrow> nat" where
  "sort_search_loop f i j =
     (if i < j
      then let h = (i + j) div 2
           in if \<not> f h then sort_search_loop f (h + 1) j else sort_search_loop f i h
      else i)"
  by pat_completeness auto
termination
  by (relation "measure (\<lambda>(f, i, j). j - i)") auto

declare sort_search_loop.simps [simp del]

definition sort_search :: "nat \<Rightarrow> (nat \<Rightarrow> bool) \<Rightarrow> nat" where
  "sort_search n f = sort_search_loop f 0 n"

text \<open>The loop invariant: below \<open>i\<close> the predicate fails, from \<open>j\<close> on it holds.\<close>

definition search_bounds :: "nat \<Rightarrow> (nat \<Rightarrow> bool) \<Rightarrow> nat \<Rightarrow> nat \<Rightarrow> bool" where
  "search_bounds n f i j \<longleftrightarrow>
     i \<le> j \<and> j \<le> n \<and> (\<forall>k < i. \<not> f k) \<and> (\<forall>k < n. j \<le> k \<longrightarrow> f k)"

lemma sort_search_loop_least:
  assumes "\<And>a b. a \<le> b \<Longrightarrow> b < n \<Longrightarrow> f a \<Longrightarrow> f b" and "search_bounds n f i j"
  shows "search_bounds n f (sort_search_loop f i j) (sort_search_loop f i j)"
  using assms
proof (induction f i j rule: sort_search_loop.induct)
  case (1 f i j)
  let ?h = "(i + j) div 2"
  note bounds = "1.prems"(2) [unfolded search_bounds_def]
  show ?case
  proof (cases "i < j")
    case False
    then have "sort_search_loop f i j = i" by (simp add: sort_search_loop.simps [of f i j])
    moreover have "i = j" using False bounds by simp
    ultimately show ?thesis using "1.prems"(2) by simp
  next
    case True
    then have h: "i \<le> ?h" "?h < j" by auto
    show ?thesis
    proof (cases "f ?h")
      case f: True
      have "f k" if "?h \<le> k" "k < n" for k
        using "1.prems"(1) [OF that f] .
      then have "search_bounds n f i ?h"
        unfolding search_bounds_def using bounds h by simp
      from "1.IH"(2) [OF True refl _ "1.prems"(1) this] f True show ?thesis
        by (simp add: sort_search_loop.simps [of f i j])
    next
      case f: False
      have "\<not> f k" if "k < ?h + 1" for k
      proof
        assume "f k"
        moreover have "k \<le> ?h" "?h < n" using that h bounds by simp_all
        ultimately show False using "1.prems"(1) f by blast
      qed
      then have "search_bounds n f (?h + 1) j"
        unfolding search_bounds_def using bounds h by simp
      from "1.IH"(1) [OF True refl f "1.prems"(1) this] f True show ?thesis
        by (simp add: sort_search_loop.simps [of f i j])
    qed
  qed
qed

lemma sort_search_least:
  assumes "\<And>a b. a \<le> b \<Longrightarrow> b < n \<Longrightarrow> f a \<Longrightarrow> f b"
  shows "sort_search n f \<le> n \<and> (\<forall>k < sort_search n f. \<not> f k)
    \<and> (\<forall>k < n. sort_search n f \<le> k \<longrightarrow> f k)"
proof -
  have "search_bounds n f 0 n" by (simp add: search_bounds_def)
  with assms have "search_bounds n f (sort_search n f) (sort_search n f)"
    unfolding sort_search_def by (rule sort_search_loop_least)
  then show ?thesis by (simp add: search_bounds_def)
qed

text \<open>On a sorted list the search finds exactly the entry it is given.\<close>

lemma sort_search_finds:
  assumes "sorted_wrt (<) xs" and "i < length xs" and "xs ! i = (x :: 'a :: linorder)"
  shows "sort_search (length xs) (\<lambda>k. x \<le> xs ! k) = i"
proof -
  let ?s = "sort_search (length xs) (\<lambda>k. x \<le> xs ! k)"
  have mono: "xs ! a \<le> xs ! b" if "a \<le> b" "b < length xs" for a b
    using assms(1) that by (metis le_neq_implies_less order_less_imp_le order_refl sorted_wrt_nth_less)
  have least: "?s \<le> length xs \<and> (\<forall>k < ?s. \<not> x \<le> xs ! k) \<and> (\<forall>k < length xs. ?s \<le> k \<longrightarrow> x \<le> xs ! k)"
    by (rule sort_search_least) (use mono in \<open>meson order_trans\<close>)
  then have "\<not> i < ?s" using assms(3) by blast
  moreover have "\<not> ?s < i"
  proof
    assume "?s < i"
    then have "x \<le> xs ! ?s" using least assms(2) by (meson order_refl order_less_trans)
    moreover have "xs ! ?s < x"
      using assms \<open>?s < i\<close> by (metis sorted_wrt_nth_less)
    ultimately show False by simp
  qed
  ultimately show ?thesis by simp
qed

section \<open>JavaScript numbers\<close>

text \<open>
  A JavaScript number that is an integer or \<open>NaN\<close>, which is what \<open>charCodeAt\<close> gives and
  what the decoder's arithmetic produces. The bit operators apply \<open>ToInt32\<close> first, which
  sends \<open>NaN\<close> to 0 and every integer to its residue modulo \<open>2^32\<close>.
\<close>

datatype jsnum = NaN | Num int

fun to_int32 :: "jsnum \<Rightarrow> 32 word" where
  "to_int32 NaN = 0"
| "to_int32 (Num i) = word_of_int i"

definition js_and :: "jsnum \<Rightarrow> jsnum \<Rightarrow> jsnum" where
  "js_and a b = Num (sint (and (to_int32 a) (to_int32 b)))"

definition js_or :: "jsnum \<Rightarrow> jsnum \<Rightarrow> jsnum" where
  "js_or a b = Num (sint (or (to_int32 a) (to_int32 b)))"

definition js_shl :: "jsnum \<Rightarrow> nat \<Rightarrow> jsnum" where
  "js_shl a n = Num (sint (push_bit n (to_int32 a)))"

definition js_ushr :: "jsnum \<Rightarrow> nat \<Rightarrow> jsnum" where
  "js_ushr a n = Num (uint (drop_bit n (to_int32 a)))"

fun js_add :: "jsnum \<Rightarrow> jsnum \<Rightarrow> jsnum" where
  "js_add (Num a) (Num b) = Num (a + b)"
| "js_add _ _ = NaN"

fun js_show :: "jsnum \<Rightarrow> string" where
  "js_show NaN = ''NaN''"
| "js_show (Num i) = show_int i"

definition charCodeAt :: "string \<Rightarrow> nat \<Rightarrow> jsnum" where
  "charCodeAt s i = (if i < length s then Num (of_char (s ! i)) else NaN)"

section \<open>Bit fields of small numbers\<close>

lemma and_div_nat: "(and n m) div 2 ^ k = and (n div 2 ^ k) (m div 2 ^ k)" for n m :: nat
  by (simp flip: drop_bit_eq_div)

lemma and_mask_nat: "and n (2 ^ k - 1) = n mod 2 ^ k" for n :: nat
  unfolding mask_eq_exp_minus_1 [symmetric] take_bit_eq_mod [symmetric] take_bit_eq_mask ..

lemma and_masks_nat:
  fixes n :: nat
  shows "and n 1 = n mod 2" and "and n 3 = n mod 4" and "and n 15 = n mod 16"
    and "and n 31 = n mod 32" and "and n 63 = n mod 64"
proof -
  show "and n 1 = n mod 2" using and_mask_nat [of n 1] by simp
  show "and n 3 = n mod 4" using and_mask_nat [of n 2] by simp
  show "and n 15 = n mod 16" using and_mask_nat [of n 4] by simp
  show "and n 31 = n mod 32" using and_mask_nat [of n 5] by simp
  show "and n 63 = n mod 64" using and_mask_nat [of n 6] by simp
qed

lemma field_masks:
  fixes n :: nat
  shows "and n 60 div 4 = n div 4 mod 16" and "and n 62 div 2 = n div 2 mod 32"
    and "and n 192 div 64 = n div 64 mod 4" and "and n 240 div 16 = n div 16 mod 16"
proof -
  have p: "(4::nat) = 2 ^ 2" "(2::nat) = 2 ^ 1" "(64::nat) = 2 ^ 6" "(16::nat) = 2 ^ 4" by simp_all
  have d: "(60::nat) div 2 ^ 2 = 15" "(62::nat) div 2 ^ 1 = 31" "(192::nat) div 2 ^ 6 = 3"
    "(240::nat) div 2 ^ 4 = 15" by simp_all
  show "and n 60 div 4 = n div 4 mod 16"
    using and_div_nat [of n 60 2] unfolding d and_masks_nat by simp
  show "and n 62 div 2 = n div 2 mod 32"
    using and_div_nat [of n 62 1] unfolding d and_masks_nat by simp
  show "and n 192 div 64 = n div 64 mod 4"
    using and_div_nat [of n 192 6] unfolding d and_masks_nat by simp
  show "and n 240 div 16 = n div 16 mod 16"
    using and_div_nat [of n 240 4] unfolding d and_masks_nat by simp
qed

lemma byte_of_nat_div: "n < 256 \<Longrightarrow> m < 256 \<Longrightarrow> (word_of_nat n :: byte) div word_of_nat m = word_of_nat (n div m)"
  by (simp add: word_unat_eq_iff unat_div unsigned_of_nat take_bit_nat_eq_self
      le_less_trans [OF div_le_dividend])

lemma byte_of_nat_mod: "n < 256 \<Longrightarrow> m < 256 \<Longrightarrow> (word_of_nat n :: byte) mod word_of_nat m = word_of_nat (n mod m)"
  by (simp add: word_unat_eq_iff unat_mod unsigned_of_nat take_bit_nat_eq_self
      le_less_trans [OF mod_less_eq_dividend])

lemma byte_of_nat_and: "and (word_of_nat n :: byte) (word_of_nat m) = word_of_nat (and n m)"
  by (simp add: of_nat_and_eq)

lemma char_byte_digit: "d < 10 \<Longrightarrow> char_byte (digit d) = 48 + word_of_nat d"
  by (simp add: char_byte_def digit_def)

lemma byte_masks:
  "and (word_of_nat n :: byte) 3 = word_of_nat (n mod 4)"
  "and (word_of_nat n :: byte) 15 = word_of_nat (n mod 16)"
  "and (word_of_nat n :: byte) 63 = word_of_nat (n mod 64)"
  "and (word_of_nat n :: byte) 1 = word_of_nat (n mod 2)"
  using byte_of_nat_and [of n 3] byte_of_nat_and [of n 15] byte_of_nat_and [of n 63]
    byte_of_nat_and [of n 1]
  unfolding and_masks_nat by simp_all

lemma and_lt_256: "and n m < 256" if "m < 256" for n m :: nat
proof -
  have "int (and n m) \<le> int m" by (simp add: of_nat_and_eq AND_upper2)
  then show ?thesis using that by simp
qed

lemma byte_mask_div:
  "(and (word_of_nat n :: byte) 62) div 2 = word_of_nat (n div 2 mod 32)"
  "(and (word_of_nat n :: byte) 192) div 64 = word_of_nat (n div 64 mod 4)"
  "(and (word_of_nat n :: byte) 240) div 16 = word_of_nat (n div 16 mod 16)"
  using byte_of_nat_and [of n 62] byte_of_nat_and [of n 192] byte_of_nat_and [of n 240]
    byte_of_nat_div [of "and n 62" 2] byte_of_nat_div [of "and n 192" 64]
    byte_of_nat_div [of "and n 240" 16]
  unfolding field_masks by (simp_all add: and_lt_256)

section \<open>Global replacement\<close>

text \<open>
  \<open>String.prototype.replace\<close> with a global two-character literal pattern: leftmost matches
  that do not overlap.
\<close>

fun replace2 :: "char \<Rightarrow> char \<Rightarrow> string \<Rightarrow> string \<Rightarrow> string" where
  "replace2 a b r (x # y # zs) =
     (if x = a \<and> y = b then r @ replace2 a b r zs else x # replace2 a b r (y # zs))"
| "replace2 a b r [x] = [x]"
| "replace2 a b r [] = []"

lemma charCodeAt_in [simp]: "i < length s \<Longrightarrow> charCodeAt s i = Num (of_char (s ! i))"
  by (simp add: charCodeAt_def)

lemma charCodeAt_latin1: "i < length bs \<Longrightarrow> charCodeAt (latin1 bs) i = Num (uint (bs ! i))"
  by (simp add: latin1_def byte_char_def take_bit_nat_eq_self_iff uint_of_char_of_unat)

end
