(* ===== verification/Wire_Codes.thy ===== *)
theory Wire_Codes
  imports Prelude
begin

text \<open>
  The code list of the compressed VISSv2 protocol, in the two places where the repository
  keeps it: the server's \<open>codelist\<close> (\<open>utils/computils.go\<close>) and the web client's
  \<open>keywordlist\<close> (\<open>client/client-1.0/Javascript/uuiddata.js\<close>). A byte of 128 or more in a
  compressed message is 128 plus an index into this list.
\<close>

section \<open>The web client's list\<close>

definition keywordlist :: "string list" where
  "keywordlist =
     [''action'', ''requestId'', ''value'', ''ts'', ''path'', ''subscriptionId'', ''data'',
      ''dp'', ''filter'', ''authorization'', ''get'', ''set'', ''subscribe'', ''unsubscribe'',
      ''subscription'', ''nuint8'', ''uint8'', ''nuint16'', ''uint16'', ''nuint24'', ''uint24'',
      ''nuint32'', ''uint32'', ''bool'', ''float'', ''unknown'']"

section \<open>The server's list and its index constants\<close>

definition codeList :: "string list" where
  "codeList =
     [''action'', ''requestId'', ''value'', ''ts'', ''path'', ''subscriptionId'', ''data'',
      ''dp'', ''filter'', ''authorization'',
      ''get'', ''set'', ''subscribe'', ''unsubscribe'', ''subscription'',
      ''nuint8'', ''uint8'', ''nuint16'', ''uint16'', ''nuint24'', ''uint24'',
      ''nuint32'', ''uint32'', ''bool'', ''float'', ''unknown'']"

definition CODELISTINDEXREQID :: byte where "CODELISTINDEXREQID = 1"
definition CODELISTINDEXVALUE :: byte where "CODELISTINDEXVALUE = 2"
definition CODELISTINDEXTS :: byte where "CODELISTINDEXTS = 3"
definition CODELISTINDEXPATH :: byte where "CODELISTINDEXPATH = 4"
definition CODELISTINDEXSUBID :: byte where "CODELISTINDEXSUBID = 5"
definition CODELISTKEYS :: byte where "CODELISTKEYS = 10"
definition CODELISTKEYVALUES :: byte where "CODELISTKEYVALUES = 15"

lemmas code_index_defs =
  CODELISTINDEXREQID_def CODELISTINDEXVALUE_def CODELISTINDEXTS_def CODELISTINDEXPATH_def
  CODELISTINDEXSUBID_def CODELISTKEYS_def CODELISTKEYVALUES_def

text \<open>\<open>getCodeListIndex\<close>: the first index whose entry is the token, or 255.\<close>

fun codeListLoop :: "byte \<Rightarrow> string list \<Rightarrow> string \<Rightarrow> byte" where
  "codeListLoop i [] token = 255"
| "codeListLoop i (c # cs) token = (if c = token then i else codeListLoop (i + 1) cs token)"

definition getCodeListIndex :: "string \<Rightarrow> byte" where
  "getCodeListIndex token = codeListLoop 0 codeList token"

lemma length_codeList [simp]: "length codeList = 26"
  by (simp add: codeList_def)

lemma getCodeListIndex_codes:
  "getCodeListIndex ''action'' = 0" "getCodeListIndex ''requestId'' = CODELISTINDEXREQID"
  "getCodeListIndex ''value'' = CODELISTINDEXVALUE" "getCodeListIndex ''ts'' = CODELISTINDEXTS"
  "getCodeListIndex ''path'' = CODELISTINDEXPATH"
  "getCodeListIndex ''subscriptionId'' = CODELISTINDEXSUBID"
  "getCodeListIndex ''filter'' = 8" "getCodeListIndex ''authorization'' = 9"
  "getCodeListIndex ''get'' = 10" "getCodeListIndex ''set'' = 11"
  "getCodeListIndex ''subscribe'' = 12" "getCodeListIndex ''unsubscribe'' = 13"
  "getCodeListIndex ''subscription'' = 14"
  "getCodeListIndex ''nuint8'' = 15" "getCodeListIndex ''uint8'' = 16"
  "getCodeListIndex ''nuint16'' = 17" "getCodeListIndex ''uint16'' = 18"
  "getCodeListIndex ''nuint24'' = 19" "getCodeListIndex ''uint24'' = 20"
  "getCodeListIndex ''nuint32'' = 21" "getCodeListIndex ''uint32'' = 22"
  "getCodeListIndex ''bool'' = 23" "getCodeListIndex ''float'' = 24"
  "getCodeListIndex ''unknown'' = 25"
  by (simp_all add: getCodeListIndex_def codeList_def code_index_defs)

lemma codeListLoop_found:
  assumes "length cs + unat i < 255" and "codeListLoop i cs token \<noteq> 255"
  shows "unat i \<le> unat (codeListLoop i cs token)
    \<and> unat (codeListLoop i cs token) < unat i + length cs
    \<and> cs ! (unat (codeListLoop i cs token) - unat i) = token"
  using assms
proof (induction i cs token rule: codeListLoop.induct)
  case (1 i token)
  then show ?case by simp
next
  case (2 i c cs token)
  show ?case
  proof (cases "c = token")
    case True
    then show ?thesis by simp
  next
    case False
    have i1: "unat (i + 1) = unat i + 1"
      using "2.prems"(1) by (simp add: unat_word_ariths)
    with 2 False have "unat (i + 1) \<le> unat (codeListLoop (i + 1) cs token)
      \<and> unat (codeListLoop (i + 1) cs token) < unat (i + 1) + length cs
      \<and> cs ! (unat (codeListLoop (i + 1) cs token) - unat (i + 1)) = token"
      by simp
    with False i1 show ?thesis by (auto simp: nth_Cons')
  qed
qed

lemma getCodeListIndex_found:
  assumes "getCodeListIndex token \<noteq> 255"
  shows "unat (getCodeListIndex token) < 26 \<and> codeList ! unat (getCodeListIndex token) = token"
  using codeListLoop_found [of codeList 0 token] assms by (simp add: getCodeListIndex_def)

end
