(* ===== verification/Wire_Encode.thy ===== *)
theory Wire_Encode
  imports Wire_Codes
begin

text \<open>
  The server's encoder, \<open>CompressMessage\<close> of \<open>utils/computils.go\<close>, operation by operation.
  A run-time panic (an index or a slice out of range) is \<open>None\<close>. The leaf path list, which
  the program reads from a file, is the argument \<open>paths\<close>; \<open>strconv.ParseFloat(s, 32)\<close> is
  the argument \<open>parseFloat32\<close>, giving the IEEE-754 pattern of the number or no value on an
  error. Slices are taken to have no spare capacity.
\<close>

section \<open>Timestamps\<close>

definition twoToOneByte :: "bytes \<Rightarrow> byte" where
  "twoToOneByte two = (two ! 0 - 48) * 10 + (two ! 1 - 48)"

definition compressTS :: "bytes \<Rightarrow> bytes option" where
  "compressTS ts =
     (case (slice ts 18 20, slice ts 15 17, slice ts 12 14, slice ts 9 11, slice ts 6 8, index_at ts 4) of
        (Some s, Some mi, Some h, Some d, Some mo, Some y) \<Rightarrow>
          let second = twoToOneByte s; minute = twoToOneByte mi; hour = twoToOneByte h;
              day = twoToOneByte d; month = twoToOneByte mo; year = y - 48
          in Some [year * 4 + month div 4,
                   (and month 3) * 64 + day * 2 + hour div 16,
                   (and hour 15) * 16 + minute div 4,
                   (and minute 3) * 64 + second]
      | _ \<Rightarrow> None)"

section \<open>Paths\<close>

definition compressPath :: "string list \<Rightarrow> bytes \<Rightarrow> bytes option" where
  "compressPath paths path =
     (let comparePath = map (\<lambda>c. if c = CHR ''/'' then CHR ''.'' else c) (latin1 path)
      in if paths = [] then Some path
         else case slice comparePath 1 (length comparePath - 1) of
           None \<Rightarrow> None
         | Some inner \<Rightarrow>
             let index = sort_search (length paths) (\<lambda>i. inner \<le> paths ! i)
             in if index < length paths \<and> paths ! index = inner
                then Some [word_of_nat ((and index 0xFF00) div 256), word_of_nat (and index 0x00FF)]
                else Some path)"

section \<open>Values\<close>

text \<open>\<open>strconv.Atoi\<close>: a sign, at least one digit, within a 64-bit \<open>int\<close>.\<close>

definition atoi :: "string \<Rightarrow> int option" where
  "atoi s =
     (let neg = (s \<noteq> [] \<and> hd s = CHR ''-'');
          ds = (if s \<noteq> [] \<and> (hd s = CHR ''-'' \<or> hd s = CHR ''+'') then tl s else s)
      in if ds = [] then None
         else case read_digits 0 ds of
           None \<Rightarrow> None
         | Some n \<Rightarrow>
             let v = (if neg then - int n else int n)
             in if - (2 ^ 63) \<le> v \<and> v < 2 ^ 63 then Some v else None)"

definition getIntType :: "nat \<Rightarrow> bool \<Rightarrow> string" where
  "getIntType byteSize isPos =
     (if byteSize = 1 then (if isPos then ''uint8'' else ''nuint8'')
      else if byteSize = 2 then (if isPos then ''uint16'' else ''nuint16'')
      else if byteSize = 3 then (if isPos then ''uint24'' else ''nuint24'')
      else if isPos then ''uint32'' else ''nuint32'')"

text \<open>
  \<open>compressIntValue\<close> is called on values that \<open>Atoi\<close> accepts. The \<open>int\<close> is 64 bits wide:
  negating its least value gives that value again.
\<close>

definition compressIntValue :: "bytes \<Rightarrow> bytes" where
  "compressIntValue value =
     (let v = (case atoi (latin1 (take (length value - 2) (drop 1 value))) of None \<Rightarrow> 0 | Some i \<Rightarrow> i);
          isPos = (\<not> v < 0);
          intVal = (if v < 0 then sint (word_of_int (v * -1) :: 64 word) else v)
      in if intVal < 256
         then [getCodeListIndex (getIntType 1 isPos) + 128, word_of_int intVal]
         else if intVal < 65536
         then [getCodeListIndex (getIntType 2 isPos) + 128,
               word_of_int ((and intVal 0xFF00) div 256),
               word_of_int (and intVal 0x00FF)]
         else if intVal < 16777216
         then [getCodeListIndex (getIntType 3 isPos) + 128,
               word_of_int ((and intVal 0xFF0000) div 65536),
               word_of_int ((and intVal 0xFF00) div 256),
               word_of_int (and intVal 0x00FF)]
         else if uint (word_of_int intVal :: 32 word) \<le> 4294967296 - 1
         then [getCodeListIndex (getIntType 4 isPos) + 128,
               ucast ((and (word_of_int intVal :: 32 word) 0xFF000000) div 16777216),
               word_of_int ((and intVal 0xFF0000) div 65536),
               word_of_int ((and intVal 0xFF00) div 256),
               word_of_int (and intVal 0x00FF)]
         else value)"

definition compressBoolValue :: "bytes \<Rightarrow> bytes" where
  "compressBoolValue value =
     [getCodeListIndex ''bool'' + 128,
      if latin1 value = CHR 0x22 # ''true'' @ [CHR 0x22] then 1 else 0]"

text \<open>\<open>binary.Write\<close> of a \<open>float32\<close>, little endian.\<close>

definition float32ToByte :: "32 word \<Rightarrow> bytes" where
  "float32ToByte w =
     [ucast w, ucast (drop_bit 8 w), ucast (drop_bit 16 w), ucast (drop_bit 24 w)]"

definition compressFloatValue :: "(string \<Rightarrow> 32 word option) \<Rightarrow> bytes \<Rightarrow> bytes" where
  "compressFloatValue parseFloat32 value =
     (getCodeListIndex ''float'' + 128) #
     float32ToByte (case parseFloat32 (latin1 (take (length value - 2) (drop 1 value))) of
                      None \<Rightarrow> 0 | Some w \<Rightarrow> w)"

definition compressOtherValue :: "bytes \<Rightarrow> bytes" where
  "compressOtherValue value = (getCodeListIndex ''unknown'' + 128) # value"

text \<open>The magnitude that an IEEE-754 single pattern stands for, and the code's range test.\<close>

definition f32_is_nan :: "32 word \<Rightarrow> bool" where
  "f32_is_nan w \<longleftrightarrow> uint (drop_bit 23 (and w 0x7FFFFFFF)) = 255 \<and> and w 0x7FFFFF \<noteq> 0"

definition f32_abs :: "32 word \<Rightarrow> rat" where
  "f32_abs w =
     (let e = unat (drop_bit 23 (and w 0x7FFFFFFF)); m = rat_of_int (uint (and w 0x7FFFFF))
      in if e = 0 then m / 2 ^ 149 else (2 ^ 23 + m) * 2 ^ e / 2 ^ 150)"

definition isFloatType :: "(string \<Rightarrow> 32 word option) \<Rightarrow> string \<Rightarrow> bool" where
  "isFloatType parseFloat32 value =
     (case parseFloat32 value of
        None \<Rightarrow> False
      | Some w \<Rightarrow>
          if f32_is_nan w then True
          else if f32_abs w < 1175494351 / 10 ^ 47 \<or> 3402823466 * 10 ^ 29 < f32_abs w then False
          else True)"

definition AnalyzeValueType :: "(string \<Rightarrow> 32 word option) \<Rightarrow> string \<Rightarrow> nat" where
  "AnalyzeValueType parseFloat32 value =
     (if atoi value \<noteq> None then 1
      else if value = ''true'' \<or> value = ''false'' then 2
      else if isFloatType parseFloat32 value then 3
      else 0)"

definition compressValue :: "(string \<Rightarrow> 32 word option) \<Rightarrow> bytes \<Rightarrow> bytes option" where
  "compressValue parseFloat32 value =
     (case slice value 1 (length value - 1) of
        None \<Rightarrow> None
      | Some inner \<Rightarrow>
          let t = AnalyzeValueType parseFloat32 (latin1 inner)
          in Some (if t = 1 then compressIntValue value
                   else if t = 2 then compressBoolValue value
                   else if t = 3 then compressFloatValue parseFloat32 value
                   else compressOtherValue value))"

section \<open>Tokens\<close>

fun nextQuoteFrom :: "nat \<Rightarrow> bytes \<Rightarrow> nat option" where
  "nextQuoteFrom i [] = None"
| "nextQuoteFrom i (b # bs) = (if b = 34 then Some i else nextQuoteFrom (i + 1) bs)"

definition NextQuoteMark :: "bytes \<Rightarrow> nat \<Rightarrow> nat" where
  "NextQuoteMark message offset =
     (case nextQuoteFrom offset (drop offset message) of None \<Rightarrow> offset | Some i \<Rightarrow> i)"

text \<open>\<open>string(b)\<close> of a byte is the UTF-8 encoding of the rune with that number.\<close>

definition rune_bytes :: "byte \<Rightarrow> bytes" where
  "rune_bytes b = (if b < 128 then [b] else [0xC0 + drop_bit 6 b, 0x80 + and b 0x3F])"

definition readUncompressedMessage :: "bytes \<Rightarrow> nat \<Rightarrow> bytes option" where
  "readUncompressedMessage message offset =
     (case index_at message offset of
        None \<Rightarrow> None
      | Some b \<Rightarrow>
          if b = 34
          then slice message offset (NextQuoteMark message (offset + 1) + 1)
          else Some (rune_bytes b))"

lemma show_nat_not_sign: "hd (show_nat n) \<noteq> CHR ''-''" "hd (show_nat n) \<noteq> CHR ''+''"
proof -
  obtain d where "d < 10" and d: "hd (show_nat n) = digit d" using show_nat_hd by blast
  then have "digit_value (digit d) = Some d" by simp
  moreover have "digit_value (CHR ''-'') = None" "digit_value (CHR ''+'') = None" by (simp_all add: digit_value.simps)
  ultimately show "hd (show_nat n) \<noteq> CHR ''-''" "hd (show_nat n) \<noteq> CHR ''+''"
    unfolding d by (metis option.distinct(1))+
qed

lemma atoi_show_int:
  assumes "\<bar>v\<bar> < 2 ^ 63"
  shows "atoi (show_int v) = Some v"
  using assms by (auto simp: atoi_def show_int_def show_nat_not_sign Let_def)

lemma nextQuoteFrom_found:
  "34 \<notin> set w \<Longrightarrow> nextQuoteFrom i (w @ 34 # rest) = Some (i + length w)"
  by (induction w arbitrary: i) auto

lemma nextQuoteFrom_ge: "nextQuoteFrom i bs = Some k \<Longrightarrow> i \<le> k"
  by (induction i bs rule: nextQuoteFrom.induct) (auto split: if_splits)

lemma NextQuoteMark_ge: "offset \<le> NextQuoteMark message offset"
  by (auto simp: NextQuoteMark_def split: option.splits dest: nextQuoteFrom_ge)

lemma readUncompressedMessage_nonempty:
  assumes "readUncompressedMessage message offset = Some token"
  shows "offset < length message" and "0 < length token"
proof -
  show "offset < length message"
    using assms by (cases "offset < length message") (auto simp: readUncompressedMessage_def)
  then show "0 < length token"
    using assms NextQuoteMark_ge [of "offset + 1" message]
    by (auto simp: readUncompressedMessage_def rune_bytes_def slice_def split: if_splits)
qed

section \<open>The encoder\<close>

text \<open>
  One token of \<open>CompressMessage\<close>: the bytes appended to the output and the new values of
  \<open>tokenState\<close> and \<open>isArray\<close>. \<open>offset\<close> is the offset after the token.
\<close>

definition compressToken ::
  "(string \<Rightarrow> 32 word option) \<Rightarrow> string list \<Rightarrow> bytes \<Rightarrow> nat \<Rightarrow> bytes \<Rightarrow> byte \<Rightarrow> bool
   \<Rightarrow> (bytes \<times> byte \<times> bool) option" where
  "compressToken parseFloat32 paths message offset token tokenState isArray =
     (if length token = 1
      then let t = token ! 0 in
        if t \<noteq> 32 \<and> t \<noteq> 44
        then if (t = 123 \<and> offset = 1) \<or> (t = 125 \<and> offset = length message) \<or> t = 58
             then Some ([], tokenState, isArray)
             else Some (token, tokenState, if t = 93 then False else if t = 91 then True else isArray)
        else Some ([], tokenState, isArray)
      else
        let listIndex = getCodeListIndex (latin1 (take (length token - 2) (drop 1 token)))
        in if listIndex < word_of_nat (length codeList)
           then if listIndex = CODELISTINDEXTS \<or> listIndex = CODELISTINDEXVALUE
                   \<or> listIndex = CODELISTINDEXPATH \<or> listIndex = CODELISTINDEXREQID
                   \<or> listIndex = CODELISTINDEXSUBID
                then Some ([listIndex + 128], listIndex, False)
                else Some ([listIndex + 128], tokenState, isArray)
           else if tokenState = CODELISTINDEXTS
           then map_option (\<lambda>c. (c, 255, isArray)) (compressTS token)
           else if tokenState = CODELISTINDEXVALUE \<or> tokenState = CODELISTINDEXREQID
                   \<or> tokenState = CODELISTINDEXSUBID
           then map_option (\<lambda>c. (c, if isArray then tokenState else 255, isArray))
                  (compressValue parseFloat32 token)
           else if tokenState = CODELISTINDEXPATH
           then map_option (\<lambda>c. (c, 255, isArray)) (compressPath paths token)
           else map_option (\<lambda>b. (if b = 58 then token @ [58] else token, tokenState, isArray))
                  (index_at message offset))"

function compressLoop ::
  "(string \<Rightarrow> 32 word option) \<Rightarrow> string list \<Rightarrow> bytes \<Rightarrow> nat \<Rightarrow> byte \<Rightarrow> bool \<Rightarrow> bytes \<Rightarrow> bytes option"
  where
  "compressLoop parseFloat32 paths message offset tokenState isArray message2 =
     (if offset < length message
      then case readUncompressedMessage message offset of
          None \<Rightarrow> None
        | Some token \<Rightarrow>
            (case compressToken parseFloat32 paths message (offset + length token) token tokenState isArray of
               None \<Rightarrow> None
             | Some (out, tokenState', isArray') \<Rightarrow>
                 compressLoop parseFloat32 paths message (offset + length token) tokenState' isArray'
                   (message2 @ out))
      else Some message2)"
  by pat_completeness auto
termination
  by (relation "measure (\<lambda>(pf, ps, message, offset, ts, ia, m2). length message - offset)")
     (auto dest!: readUncompressedMessage_nonempty(2) simp flip: length_greater_0_conv)

declare compressLoop.simps [simp del]

definition CompressMessage ::
  "(string \<Rightarrow> 32 word option) \<Rightarrow> string list \<Rightarrow> bytes \<Rightarrow> bytes option" where
  "CompressMessage parseFloat32 paths message =
     compressLoop parseFloat32 paths message 0 255 False []"

end
