(* ===== verification/Wire_Decode.thy ===== *)
theory Wire_Decode
  imports Wire_Encode
begin

text \<open>
  The server's and the Go clients' decoder, \<open>DecompressMessage\<close> of \<open>utils/computils.go\<close>. A
  run-time panic is \<open>None\<close>; the leaf path list is the argument \<open>paths\<close> and \<open>fmt.Sprintf\<close> of a
  \<open>float32\<close> with \<open>"%f"\<close> is the argument \<open>fmtFloat32\<close>, on the IEEE-754 pattern.
\<close>

section \<open>Paths, timestamps and values\<close>

definition decompressPath :: "string list \<Rightarrow> bytes \<Rightarrow> bytes option" where
  "decompressPath paths index =
     (case (index_at index 0, index_at index 1) of
        (Some hi, Some lo) \<Rightarrow>
          map_option (\<lambda>p. 34 # to_bytes p @ [34]) (index_at paths (unat hi * 256 + unat lo))
      | _ \<Rightarrow> None)"

definition two_byte_digits :: "byte \<Rightarrow> bytes" where
  "two_byte_digits v = [v div 10 + 48, v mod 10 + 48]"

definition decompressTs :: "bytes \<Rightarrow> bytes option" where
  "decompressTs ts =
     (case (index_at ts 0, index_at ts 1, index_at ts 2, index_at ts 3) of
        (Some t0, Some t1, Some t2, Some t3) \<Rightarrow>
          Some ([34, 50, 48, 50, t0 div 4 + 48, 45]
            @ two_byte_digits ((and t1 0xC0) div 64 + (and t0 0x3) * 4) @ [45]
            @ two_byte_digits ((and t1 0x3E) div 2) @ [84]
            @ two_byte_digits ((and t2 0xF0) div 16 + (and t1 0x1) * 16) @ [58]
            @ two_byte_digits ((and t3 0xC0) div 64 + (and t2 0x0F) * 4) @ [58]
            @ two_byte_digits (and t3 0x3F) @ [90, 34])
      | _ \<Rightarrow> None)"

definition convert4BytesToF32 :: "bytes \<Rightarrow> 32 word option" where
  "convert4BytesToF32 b =
     (case (index_at b 0, index_at b 1, index_at b 2, index_at b 3) of
        (Some b0, Some b1, Some b2, Some b3) \<Rightarrow>
          Some (or (ucast b0) (or (push_bit 8 (ucast b1))
                 (or (push_bit 16 (ucast b2)) (push_bit 24 (ucast b3)))))
      | _ \<Rightarrow> None)"

text \<open>The big-endian number in the \<open>n\<close> bytes after the type byte.\<close>

fun be_number :: "int \<Rightarrow> nat \<Rightarrow> bytes \<Rightarrow> int option" where
  "be_number acc 0 bs = Some acc"
| "be_number acc (Suc n) [] = None"
| "be_number acc (Suc n) (b # bs) = be_number (acc * 256 + uint b) n bs"

definition quoted_int :: "bool \<Rightarrow> nat \<Rightarrow> bytes \<Rightarrow> (bytes \<times> nat) option" where
  "quoted_int neg n v =
     map_option (\<lambda>i. (to_bytes (CHR 0x22 # (if neg then ''-'' else []) @ show_int i @ [CHR 0x22]), n + 1))
       (be_number 0 n (tl v))"

definition stringsIndexQuote :: "bytes \<Rightarrow> int" where
  "stringsIndexQuote bs = (case nextQuoteFrom 0 bs of None \<Rightarrow> - 1 | Some i \<Rightarrow> int i)"

definition decompressOneValue :: "(32 word \<Rightarrow> string) \<Rightarrow> bytes \<Rightarrow> (bytes \<times> nat) option" where
  "decompressOneValue fmtFloat32 v =
     (case index_at v 0 of
        None \<Rightarrow> None
      | Some b \<Rightarrow>
        (case index_at codeList (unat (b - 128)) of
           None \<Rightarrow> None
         | Some code \<Rightarrow>
             if code = ''nuint8'' then quoted_int True 1 v
             else if code = ''uint8'' then quoted_int False 1 v
             else if code = ''nuint16'' then quoted_int True 2 v
             else if code = ''uint16'' then quoted_int False 2 v
             else if code = ''nuint24'' then quoted_int True 3 v
             else if code = ''uint24'' then quoted_int False 3 v
             else if code = ''nuint32'' then quoted_int True 4 v
             else if code = ''uint32'' then quoted_int False 4 v
             else if code = ''bool''
             then map_option (\<lambda>x. (to_bytes (CHR 0x22 # (if x = 0 then ''false'' else ''true'') @ [CHR 0x22]), 2))
                    (index_at v 1)
             else if code = ''float''
             then map_option (\<lambda>w. (to_bytes (CHR 0x22 # fmtFloat32 w @ [CHR 0x22]), 5))
                    (Option.bind (slice v 1 5) convert4BytesToF32)
             else (case slice v 3 (length v) of
                 None \<Rightarrow> None
               | Some tail \<Rightarrow>
                   let bytesRead = nat (stringsIndexQuote tail + 4)
                   in map_option (\<lambda>u. (u, bytesRead)) (slice v 1 bytesRead))))"

lemma stringsIndexQuote_ge: "3 \<le> stringsIndexQuote bs + 4"
  by (simp add: stringsIndexQuote_def split: option.splits)

lemma decompressOneValue_reads:
  assumes "decompressOneValue f v = Some (u, n)"
  shows "0 < n"
proof -
  have "0 < nat (stringsIndexQuote tail + 4)" for tail
    using stringsIndexQuote_ge [of tail] by linarith
  then show ?thesis
    using assms
    by (auto simp: decompressOneValue_def quoted_int_def Let_def simp del: zero_less_nat_eq
        split: option.splits if_splits)
qed

text \<open>
  \<open>decompressValue\<close>: one value, or an array of values between brackets. The code's loop
  variable is \<open>index\<close>; the loop stops on \<open>]\<close>, on \<open>{\<close>, and after a value at index 0.
\<close>

function decompressValueLoop ::
  "(32 word \<Rightarrow> string) \<Rightarrow> bytes \<Rightarrow> nat \<Rightarrow> bytes \<Rightarrow> (bytes \<times> nat) option" where
  "decompressValueLoop fmt v index u =
     (case index_at v index of
        None \<Rightarrow> None
      | Some b \<Rightarrow>
          if b = 91 \<or> b = 93 \<or> b = 44 \<or> b = 123
          then if b = 93 \<or> b = 123 then Some (u @ [b], index + 1)
               else decompressValueLoop fmt v (index + 1) (u @ [b])
          else (case decompressOneValue fmt (drop index v) of
              None \<Rightarrow> None
            | Some (one, bytesRead) \<Rightarrow>
                let u' = u @ one @
                      (if index + bytesRead < length v \<and> v ! (index + bytesRead) = b then [44] else [])
                in if index = 0 then Some (u', index + bytesRead)
                   else decompressValueLoop fmt v (index + bytesRead) u'))"
  by pat_completeness auto
termination
  by (relation "measure (\<lambda>(f, v, index, u). length v - index)")
     (auto simp: index_at_def dest!: decompressOneValue_reads split: if_splits)

declare decompressValueLoop.simps [simp del]

definition decompressValue :: "(32 word \<Rightarrow> string) \<Rightarrow> bytes \<Rightarrow> (bytes \<times> nat) option" where
  "decompressValue fmt v = decompressValueLoop fmt v 0 []"

section \<open>Tokens and messages\<close>

text \<open>
  The payload after a code byte: what \<open>readCompressedMessage\<close> appends for it, and how many
  bytes it takes.
\<close>

definition codePayload ::
  "(32 word \<Rightarrow> string) \<Rightarrow> string list \<Rightarrow> byte \<Rightarrow> bytes \<Rightarrow> (bytes \<times> nat) option" where
  "codePayload fmt paths c rest =
     (if c = CODELISTINDEXPATH then map_option (\<lambda>p. (p, 2)) (decompressPath paths rest)
      else if c = getCodeListIndex ''ts'' then map_option (\<lambda>t. (t, 4)) (decompressTs rest)
      else if c = CODELISTINDEXVALUE \<or> c = CODELISTINDEXREQID \<or> c = CODELISTINDEXSUBID
      then decompressValue fmt rest
      else Some ([], 0))"

definition readCompressedMessage ::
  "(32 word \<Rightarrow> string) \<Rightarrow> string list \<Rightarrow> bytes \<Rightarrow> nat \<Rightarrow> (bytes \<times> nat) option" where
  "readCompressedMessage fmt paths message offset =
     (case index_at message offset of
        None \<Rightarrow> None
      | Some b \<Rightarrow>
          if 128 \<le> b then
            let c = b - 128;
                name = (if c < CODELISTKEYVALUES
                        then 34 # to_bytes (codeList ! unat c) @ [34]
                             @ (if b < CODELISTKEYS + 128 then [58] else [])
                        else [])
            in (case codePayload fmt paths c (drop (offset + 1) message) of
                  None \<Rightarrow> None
                | Some (payload, n) \<Rightarrow>
                    let bytesRead = 1 + n
                    in if c < CODELISTKEYVALUES \<and> c \<noteq> getCodeListIndex ''action''
                          \<and> c \<noteq> getCodeListIndex ''filter'' \<and> c \<noteq> getCodeListIndex ''authorization''
                          \<and> offset + bytesRead \<noteq> length message
                       then (case index_at message (offset + bytesRead) of
                               None \<Rightarrow> None
                             | Some next \<Rightarrow>
                                 let last = message ! (offset + bytesRead - 1)
                                 in Some (name @ payload @
                                      (if next \<noteq> 125 \<and> next \<noteq> 93 \<and> last \<noteq> 123 \<and> last \<noteq> 91
                                       then [44] else []), bytesRead))
                       else Some (name @ payload, bytesRead))
          else Some ([b] @ (if offset + 1 < length message \<and> b = 125 \<and> message ! (offset + 1) = 123
                            then [44] else []), 1))"

lemma readCompressedMessage_reads:
  assumes "readCompressedMessage fmt paths message offset = Some (t, n)"
  shows "0 < n"
  using assms
  by (auto simp: readCompressedMessage_def Let_def split: option.splits if_splits)

function decompressLoop ::
  "(32 word \<Rightarrow> string) \<Rightarrow> string list \<Rightarrow> bytes \<Rightarrow> nat \<Rightarrow> bytes \<Rightarrow> bytes option" where
  "decompressLoop fmt paths message offset message2 =
     (if offset < length message
      then case readCompressedMessage fmt paths message offset of
          None \<Rightarrow> None
        | Some (token, n) \<Rightarrow> decompressLoop fmt paths message (offset + n) (message2 @ token)
      else Some message2)"
  by pat_completeness auto
termination
  by (relation "measure (\<lambda>(f, p, message, offset, m2). length message - offset)")
     (auto dest!: readCompressedMessage_reads)

declare decompressLoop.simps [simp del]

definition DecompressMessage :: "(32 word \<Rightarrow> string) \<Rightarrow> string list \<Rightarrow> bytes \<Rightarrow> bytes option" where
  "DecompressMessage fmt paths message =
     (if message = [] then Some message
      else map_option (\<lambda>m. m @ (if last message \<noteq> 125 then [125] else []))
             (decompressLoop fmt paths message 0 (if hd message \<noteq> 123 then [123] else [])))"

end
