(* ===== verification/Wire_Roundtrip.thy ===== *)
theory Wire_Roundtrip
  imports Wire_Decode
begin

text \<open>
  The server's encoder against its own decoder (both \<open>utils/computils.go\<close>): timestamps,
  leaf paths, integers, and a whole get request. Where a value is not read back as it was
  written, the theorem says exactly when.
\<close>

section \<open>Self-delimiting codes\<close>

text \<open>
  What the message layer relies on in the value layer: a value that is written in front of
  anything is read back, with the number of bytes it took. Such a code is prefix free, so a
  sequence of values can be split in one way only.
\<close>

locale prefix_codec =
  fixes valid :: "'a \<Rightarrow> bool" and enc :: "'a \<Rightarrow> bytes" and dec :: "bytes \<Rightarrow> ('b \<times> nat) option"
    and shown :: "'a \<Rightarrow> 'b"
  assumes dec_enc: "valid x \<Longrightarrow> dec (enc x @ rest) = Some (shown x, length (enc x))"
    and shown_inj: "valid x \<Longrightarrow> valid y \<Longrightarrow> shown x = shown y \<Longrightarrow> x = y"
    and enc_nonempty: "valid x \<Longrightarrow> enc x \<noteq> []"
begin

lemma enc_unique:
  assumes "valid x" and "valid y" and "enc x @ r = enc y @ s"
  shows "x = y \<and> r = s"
proof -
  have "Some (shown x, length (enc x)) = Some (shown y, length (enc y))"
    using dec_enc [OF assms(1), of r] dec_enc [OF assms(2), of s] assms(3) by simp
  then have "x = y" using shown_inj assms(1,2) by simp
  with assms(3) show ?thesis by simp
qed

lemma concat_enc_inj:
  assumes "list_all valid xs" and "list_all valid ys"
    and "concat (map enc xs) = concat (map enc ys)"
  shows "xs = ys"
  using assms
proof (induction xs arbitrary: ys)
  case Nil
  then show ?case using enc_nonempty by (cases ys) auto
next
  case (Cons x xs)
  then obtain y ys' where ys: "ys = y # ys'"
    using enc_nonempty by (cases ys) auto
  with Cons.prems have "x = y \<and> concat (map enc xs) = concat (map enc ys')"
    by (intro enc_unique) simp_all
  with Cons ys show ?case by simp
qed

end

section \<open>Timestamps\<close>

definition ts_token :: "nat \<Rightarrow> nat \<Rightarrow> nat \<Rightarrow> nat \<Rightarrow> nat \<Rightarrow> nat \<Rightarrow> string" where
  "ts_token year month day hour minute second =
     [CHR 0x22] @ two_digits (year div 100) @ two_digits (year mod 100) @ ''-''
       @ two_digits month @ ''-'' @ two_digits day @ ''T'' @ two_digits hour @ '':''
       @ two_digits minute @ '':'' @ two_digits second @ ''Z'' @ [CHR 0x22]"

definition ts_fields :: "nat \<Rightarrow> nat \<Rightarrow> nat \<Rightarrow> nat \<Rightarrow> nat \<Rightarrow> nat \<Rightarrow> bool" where
  "ts_fields year month day hour minute second \<longleftrightarrow>
     year < 10000 \<and> month < 16 \<and> day < 32 \<and> hour < 32 \<and> minute < 64 \<and> second < 64"

lemma twoToOneByte_two_digits:
  assumes "n < 100"
  shows "twoToOneByte (to_bytes (two_digits n)) = word_of_nat n"
proof -
  have "n = n div 10 * 10 + n mod 10" by simp
  then have "(word_of_nat n :: byte) = word_of_nat (n div 10) * 10 + word_of_nat (n mod 10)"
    by (metis of_nat_add of_nat_mult of_nat_numeral)
  moreover have "n div 10 < 10" "n mod 10 < 10" using assms by auto
  ultimately show ?thesis
    by (simp add: twoToOneByte_def two_digits_def char_byte_digit)
qed

lemma compressTS_words:
  assumes "ts_fields year month day hour minute second"
  shows "compressTS (to_bytes (ts_token year month day hour minute second)) =
    Some (let y = word_of_nat (year mod 10); mo = word_of_nat month; d = word_of_nat day;
            h = word_of_nat hour; mi = word_of_nat minute; s = word_of_nat second
          in [y * 4 + mo div 4, and mo 3 * 64 + d * 2 + h div 16, and h 15 * 16 + mi div 4,
              and mi 3 * 64 + s])"
proof -
  have two: "twoToOneByte [char_byte (digit (n div 10)), char_byte (digit (n mod 10))] = word_of_nat n"
    if "n < 100" for n
    using twoToOneByte_two_digits [OF that] by (simp add: two_digits_def)
  have y: "char_byte (digit (year mod 100 mod 10)) - 48 = word_of_nat (year mod 10)"
    by (simp add: char_byte_digit mod_mod_cancel)
  show ?thesis
    using assms
    by (simp add: compressTS_def ts_token_def two_digits_def slice_def ts_fields_def two y [unfolded mod_mod_cancel] Let_def)
qed

definition ts_packed :: "nat \<Rightarrow> nat \<Rightarrow> nat \<Rightarrow> nat \<Rightarrow> nat \<Rightarrow> nat \<Rightarrow> nat list" where
  "ts_packed year month day hour minute second =
     [year mod 10 * 4 + month div 4, month mod 4 * 64 + day * 2 + hour div 16,
      hour mod 16 * 16 + minute div 4, minute mod 4 * 64 + second]"

lemma compressTS_packed:
  assumes "ts_fields year month day hour minute second"
  shows "compressTS (to_bytes (ts_token year month day hour minute second)) =
    Some (map word_of_nat (ts_packed year month day hour minute second))"
proof -
  have div: "(word_of_nat n :: byte) div 4 = word_of_nat (n div 4)"
    "(word_of_nat n :: byte) div 16 = word_of_nat (n div 16)" if "n < 64" for n
    using byte_of_nat_div [of n 4] byte_of_nat_div [of n 16] that by simp_all
  have mask: "and (word_of_nat n :: byte) 3 = word_of_nat (n mod 4)"
    "and (word_of_nat n :: byte) 15 = word_of_nat (n mod 16)" for n
    using byte_of_nat_and [of n 3] byte_of_nat_and [of n 15] unfolding and_masks_nat by simp_all
  show ?thesis
    using assms
    by (simp add: compressTS_words [OF assms] ts_packed_def ts_fields_def div mask)
qed

lemma ts_packed_lt_256:
  assumes "ts_fields year month day hour minute second"
    and "b \<in> set (ts_packed year month day hour minute second)"
  shows "b < 256"
  using assms by (auto simp: ts_packed_def ts_fields_def)

lemma ts_packed_fields:
  assumes "ts_fields year month day hour minute second"
    and "ts_packed year month day hour minute second = [b0, b1, b2, b3]"
  shows "b0 div 4 mod 16 = year mod 10" and "b0 mod 4 * 4 + b1 div 64 mod 4 = month"
    and "b1 div 2 mod 32 = day" and "b1 mod 2 * 16 + b2 div 16 mod 16 = hour"
    and "b2 mod 16 * 4 + b3 div 64 mod 4 = minute" and "b3 mod 64 = second"
proof -
  have q: "(a * k + r) div k = a" "(a * k + r) mod k = r" if "r < k" for a k r :: nat
    using that by simp_all
  have b: "b0 = year mod 10 * 4 + month div 4" "b1 = month mod 4 * 64 + (day * 2 + hour div 16)"
    "b2 = hour mod 16 * 16 + minute div 4" "b3 = minute mod 4 * 64 + second"
    using assms(2) by (simp_all add: ts_packed_def)
  have small: "month div 4 < 4" "day * 2 + hour div 16 < 64" "hour div 16 < 2" "minute div 4 < 16"
    "second < 64" "year mod 10 < 16" "month < 16" "day < 32" "hour < 32" "minute < 64"
    using assms(1) by (auto simp: ts_fields_def)
  show "b0 div 4 mod 16 = year mod 10"
    unfolding b q(1) [OF small(1)] using small(6) by simp
  show "b0 mod 4 * 4 + b1 div 64 mod 4 = month"
    unfolding b q(1) [OF small(2)] q(2) [OF small(1)] by simp
  have b1: "b1 = (month mod 4 * 32 + day) * 2 + hour div 16" using b(2) by simp
  show "b1 div 2 mod 32 = day"
    unfolding b1 q(1) [OF small(3)] q(2) [OF small(8)] ..
  show "b1 mod 2 * 16 + b2 div 16 mod 16 = hour"
    unfolding b1 b(3) q(1) [OF small(4)] q(2) [OF small(3)] by simp
  show "b2 mod 16 * 4 + b3 div 64 mod 4 = minute"
    unfolding b(3,4) q(1) [OF small(5)] q(2) [OF small(4)] by simp
  show "b3 mod 64 = second"
    unfolding b q(2) [OF small(5)] ..
qed

lemma two_byte_digits_of_nat:
  assumes "n < 100"
  shows "two_byte_digits (word_of_nat n) = to_bytes (two_digits n)"
proof -
  have "(word_of_nat n :: byte) div 10 = word_of_nat (n div 10)"
    "(word_of_nat n :: byte) mod 10 = word_of_nat (n mod 10)"
    using byte_of_nat_div [of n 10] byte_of_nat_mod [of n 10] assms by simp_all
  then show ?thesis
    using assms by (simp add: two_byte_digits_def two_digits_def char_byte_digit add.commute)
qed

lemma decompressTs_of_nat:
  assumes "b0 < 256" "b1 < 256" "b2 < 256" "b3 < 256"
    and "b0 div 4 = year mod 10" and "b0 mod 4 * 4 + b1 div 64 mod 4 = month"
    and "b1 div 2 mod 32 = day" and "b1 mod 2 * 16 + b2 div 16 mod 16 = hour"
    and "b2 mod 16 * 4 + b3 div 64 mod 4 = minute" and "b3 mod 64 = second"
    and "month < 16"
    and "year div 10 = 202"
  shows "decompressTs (map word_of_nat [b0, b1, b2, b3]) =
    Some (to_bytes (ts_token year month day hour minute second))"
proof -
  have fields: "(and (word_of_nat b1 :: byte) 192) div 64 + and (word_of_nat b0) 3 * 4 = word_of_nat month"
    "(and (word_of_nat b1 :: byte) 62) div 2 = word_of_nat day"
    "(and (word_of_nat b2 :: byte) 240) div 16 + and (word_of_nat b1) 1 * 16 = word_of_nat hour"
    "(and (word_of_nat b3 :: byte) 192) div 64 + and (word_of_nat b2) 15 * 4 = word_of_nat minute"
    "and (word_of_nat b3 :: byte) 63 = word_of_nat second"
    by (simp_all add: byte_masks byte_mask_div flip: assms(6-10))
  have small: "month < 100" "day < 100" "hour < 100" "minute < 100" "second < 100"
  proof -
    have p: "p * 16 + q < 100" if "p < 2" "q < 16" for p q :: nat using that by simp
    have q: "p * 4 + q < 100" if "p < 16" "q < 4" for p q :: nat using that by simp
    have r: "n mod 32 < 100" "n mod 64 < 100" for n :: nat
      by (rule less_trans [OF mod_less_divisor]; simp)+
    show "month < 100" using assms(11) by simp
    show "day < 100" using r(1) [of "b1 div 2"] unfolding assms(7) .
    show "second < 100" using r(2) [of b3] unfolding assms(10) .
    show "hour < 100" using p [of "b1 mod 2" "b2 div 16 mod 16"] unfolding assms(8) by simp
    show "minute < 100" using q [of "b2 mod 16" "b3 div 64 mod 4"] unfolding assms(9) by simp
  qed
  have year: "year = 2020 + year mod 10" using div_mult_mod_eq [of year 10] assms(12) by simp
  have "(word_of_nat b0 :: byte) div 4 = word_of_nat (year mod 10)"
    using byte_of_nat_div [of b0 4] assms(1,5) by simp
  moreover have "two_digits (year div 100) = ''20''" and
    "two_digits (year mod 100) = [CHR ''2'', digit (year mod 10)]"
  proof -
    define r where "r = year mod 10"
    have r: "r < 10" by (simp add: r_def)
    have y: "year = 20 * 100 + (20 + r)" "20 + r < 100" "20 + r = 2 * 10 + r"
      using year r unfolding r_def by simp_all
    have q: "(a * k + b) div k = a" "(a * k + b) mod k = b" if "b < k" for a b k :: nat
      using that by simp_all
    have "year div 100 = 20" unfolding y(1) by (rule q(1)) (rule y(2))
    moreover have m: "year mod 100 = 20 + r" unfolding y(1) by (rule q(2)) (rule y(2))
    moreover have "year mod 100 div 10 = 2" unfolding m y(3) by (rule q(1)) (rule r)
    moreover have "year mod 100 mod 10 = r" unfolding m y(3) by (rule q(2)) (rule r)
    ultimately have "year div 100 = 20" "year mod 100 div 10 = 2" "year mod 100 mod 10 = year mod 10"
      unfolding r_def by simp_all
    then show "two_digits (year div 100) = ''20''"
      "two_digits (year mod 100) = [CHR ''2'', digit (year mod 10)]"
      by (simp_all add: two_digits_def digit_numerals)
  qed
  ultimately show ?thesis
    using small
    by (simp add: decompressTs_def fields two_byte_digits_of_nat ts_token_def char_byte_digit)
      (simp add: char_byte_def)
qed

lemma ts_packed_obtain:
  assumes "ts_fields year month day hour minute second"
  obtains b0 b1 b2 b3 where "ts_packed year month day hour minute second = [b0, b1, b2, b3]"
    and "b0 < 256" "b1 < 256" "b2 < 256" "b3 < 256"
  using ts_packed_lt_256 [OF assms] by (simp add: ts_packed_def)

text \<open>
  C1: the server's four-byte timestamp form keeps every field of an
  ISO time of the years 2020 to 2029: compressing the quoted time and decompressing the result
  gives the same text back.
\<close>

theorem go_timestamp_roundtrip:
  assumes "ts_fields year month day hour minute second" and "year div 10 = 202"
  shows "\<exists>c. compressTS (to_bytes (ts_token year month day hour minute second)) = Some c
    \<and> length c = 4
    \<and> decompressTs c = Some (to_bytes (ts_token year month day hour minute second))"
proof -
  obtain b0 b1 b2 b3 where b: "ts_packed year month day hour minute second = [b0, b1, b2, b3]"
    "b0 < 256" "b1 < 256" "b2 < 256" "b3 < 256"
    by (rule ts_packed_obtain [OF assms(1)])
  have "b0 = year mod 10 * 4 + month div 4" "month < 16"
    using b(1) assms(1) by (simp_all add: ts_packed_def ts_fields_def)
  then have y: "b0 div 4 = year mod 10" by (simp add: div_less)
  show ?thesis
    using compressTS_packed [OF assms(1)] b(1)
      decompressTs_of_nat [OF b(2-5) y ts_packed_fields(2-6) [OF assms(1) b(1)] \<open>month < 16\<close> assms(2)]
    by auto
qed

lemma go_timestamp_roundtrip_witness:
  "\<exists>c. compressTS (to_bytes (ts_token 2024 5 17 13 45 59)) = Some c \<and> length c = 4
    \<and> decompressTs c = Some (to_bytes (ts_token 2024 5 17 13 45 59))"
proof -
  have "ts_fields 2024 5 17 13 45 59" by (simp add: ts_fields_def)
  then show ?thesis by (rule go_timestamp_roundtrip) simp
qed

section \<open>Paths\<close>

text \<open>The JSON token of a path, and its dotted form.\<close>

definition quoted :: "string \<Rightarrow> bytes" where
  "quoted s = 34 # to_bytes s @ [34]"

definition dotted :: "string \<Rightarrow> string" where
  "dotted s = map (\<lambda>c. if c = CHR ''/'' then CHR ''.'' else c) s"

lemma length_quoted [simp]: "length (quoted s) = length s + 2"
  by (simp add: quoted_def)

lemma slice_quoted: "slice (quoted s) 1 (length (quoted s) - 1) = Some (to_bytes s)"
  by (simp add: quoted_def slice_def)

lemma latin1_quoted: "latin1 (quoted s) = CHR 0x22 # s @ [CHR 0x22]"
proof -
  have "byte_char 34 = CHR 0x22" by code_simp
  then show ?thesis by (simp add: quoted_def)
qed

lemma index_bytes:
  fixes index :: nat
  assumes "index < 65536"
  shows "and index 0xFF00 div 256 = index div 256" and "and index 0x00FF = index mod 256"
proof -
  have "and index 0xFF00 div 2 ^ 8 = and (index div 2 ^ 8) (0xFF00 div 2 ^ 8)" by (rule and_div_nat)
  then have "and index 0xFF00 div 256 = and (index div 256) 255" by simp
  also have "\<dots> = index div 256 mod 256" using and_mask_nat [of "index div 256" 8] by simp
  also have "\<dots> = index div 256" using assms by simp
  finally show "and index 0xFF00 div 256 = index div 256" .
  show "and index 0x00FF = index mod 256" using and_mask_nat [of index 8] by simp
qed

lemma compressPath_index:
  assumes "sorted_wrt (<) paths" and "length paths \<le> 65536" and "i < length paths"
    and "dotted p = paths ! i"
  shows "compressPath paths (quoted p) = Some [word_of_nat (i div 256), word_of_nat (i mod 256)]"
proof -
  have "map (\<lambda>c. if c = CHR ''/'' then CHR ''.'' else c) (latin1 (quoted p)) =
    CHR 0x22 # dotted p @ [CHR 0x22]"
    by (simp add: latin1_quoted dotted_def)
  moreover have "slice (CHR 0x22 # dotted p @ [CHR 0x22]) 1 (length (dotted p) + 1) = Some (dotted p)"
    by (simp add: slice_def)
  moreover have "sort_search (length paths) (\<lambda>k. dotted p \<le> paths ! k) = i"
    using assms by (intro sort_search_finds) simp_all
  ultimately show ?thesis
    using assms by (auto simp: compressPath_def Let_def index_bytes)
qed

text \<open>
  a leaf path of a sorted path list of at most 65536 entries, written
  with dots or with slashes, is compressed to its two-byte index, and the server's decoder gives
  back the dotted path.
\<close>

theorem go_path_roundtrip:
  assumes "sorted_wrt (<) paths" and "length paths \<le> 65536" and "dotted p \<in> set paths"
  shows "\<exists>c. compressPath paths (quoted p) = Some c \<and> length c = 2
    \<and> decompressPath paths (c @ rest) = Some (quoted (dotted p))"
proof -
  obtain i where i: "i < length paths" "paths ! i = dotted p"
    using assms(3) by (auto simp: in_set_conv_nth)
  then have "unat (word_of_nat (i div 256) :: byte) * 256 + unat (word_of_nat (i mod 256) :: byte) = i"
    using assms(2) by (simp add: unsigned_of_nat take_bit_nat_eq_self)
  then show ?thesis
    using compressPath_index [OF assms(1,2) i(1)] i
    by (simp add: decompressPath_def quoted_def)
qed

lemma go_path_roundtrip_witness:
  "\<exists>c. compressPath [''Vehicle.Mass'', ''Vehicle.Speed''] (quoted ''Vehicle/Speed'') = Some c
    \<and> length c = 2
    \<and> decompressPath [''Vehicle.Mass'', ''Vehicle.Speed''] (c @ [129]) = Some (quoted (dotted ''Vehicle/Speed''))"
proof -
  have s: "sorted_wrt (<) [''Vehicle.Mass'', ''Vehicle.Speed'']" by code_simp
  show ?thesis by (rule go_path_roundtrip [OF s]) (simp_all add: dotted_def)
qed

section \<open>Integers\<close>

fun be_bytes :: "nat \<Rightarrow> nat \<Rightarrow> bytes" where
  "be_bytes 0 n = []"
| "be_bytes (Suc k) n = word_of_nat (n div 256 ^ k mod 256) # be_bytes k n"

definition int_size :: "nat \<Rightarrow> nat" where
  "int_size n = (if n < 256 then 1 else if n < 65536 then 2 else if n < 16777216 then 3 else 4)"

definition int_code :: "int \<Rightarrow> byte" where
  "int_code v = getCodeListIndex (getIntType (int_size (nat \<bar>v\<bar>)) (\<not> v < 0)) + 128"

definition sign_of :: "int \<Rightarrow> string" where
  "sign_of v = (if v < 0 then ''-'' else [])"

lemma length_be_bytes [simp]: "length (be_bytes k n) = k"
  by (induction k n rule: be_bytes.induct) simp_all

lemma show_int_sign: "show_int v = sign_of v @ show_nat (nat \<bar>v\<bar>)"
  by (simp add: show_int_def sign_of_def)

lemma and_bytes_nat:
  fixes n :: nat
  shows "and n 0xFF00 div 256 = n div 256 mod 256" and "and n 0xFF0000 div 65536 = n div 65536 mod 256"
    and "and n 0x00FF = n mod 256" and "and n 0xFF000000 div 16777216 = n div 16777216 mod 256"
proof -
  have m: "and x 255 = x mod 256" for x :: nat using and_mask_nat [of x 8] by simp
  show "and n 0x00FF = n mod 256" by (rule m)
  show "and n 0xFF00 div 256 = n div 256 mod 256"
    using and_div_nat [of n "0xFF00" 8] m [of "n div 256"] by simp
  show "and n 0xFF0000 div 65536 = n div 65536 mod 256"
    using and_div_nat [of n "0xFF0000" 16] m [of "n div 65536"] by simp
  show "and n 0xFF000000 div 16777216 = n div 16777216 mod 256"
    using and_div_nat [of n "0xFF000000" 24] m [of "n div 16777216"] by simp
qed

lemma and_bytes_int:
  "word_of_int (and (int n) 0xFF00 div 256) = (word_of_nat (n div 256 mod 256) :: byte)"
  "word_of_int (and (int n) 0xFF0000 div 65536) = (word_of_nat (n div 65536 mod 256) :: byte)"
  "word_of_int (and (int n) 0x00FF) = (word_of_nat (n mod 256) :: byte)"
proof -
  have "and (int n) (int m) = int (and n m)" for m by (simp add: of_nat_and_eq)
  from this [of "0xFF00"] this [of "0xFF0000"] this [of "0xFF"]
  have i: "and (int n) 0xFF00 = int (and n 0xFF00)" "and (int n) 0xFF0000 = int (and n 0xFF0000)"
    "and (int n) 0xFF = int (and n 0xFF)" by simp_all
  have d: "int a div 256 = int (a div 256)" "int a div 65536 = int (a div 65536)" for a
    by (simp_all add: zdiv_int)
  show "word_of_int (and (int n) 0xFF00 div 256) = (word_of_nat (n div 256 mod 256) :: byte)"
    "word_of_int (and (int n) 0xFF0000 div 65536) = (word_of_nat (n div 65536 mod 256) :: byte)"
    "word_of_int (and (int n) 0x00FF) = (word_of_nat (n mod 256) :: byte)"
    unfolding i d and_bytes_nat of_int_of_nat_eq by (rule refl)+
qed

lemma top_byte:
  "ucast ((and (word_of_int (int n) :: 32 word) 0xFF000000) div 16777216) =
    (word_of_nat (n div 16777216 mod 256) :: byte)"
proof -
  have n: "unat (word_of_int (int n) :: 32 word) = n mod 2 ^ 32"
    by (simp add: unsigned_of_nat take_bit_eq_mod)
  have a: "unat (and (word_of_int (int n) :: 32 word) 0xFF000000) = and (n mod 2 ^ 32) 0xFF000000"
    unfolding unsigned_and_eq n by simp
  have "unat ((and (word_of_int (int n) :: 32 word) 0xFF000000) div 16777216) =
    and (n mod 2 ^ 32) 0xFF000000 div 16777216"
    unfolding unat_div a by simp
  also have "\<dots> = n mod (16777216 * 256) div 16777216 mod 256" unfolding and_bytes_nat by simp
  also have "\<dots> = n div 16777216 mod 256" by (simp only: mod_mult2_eq) simp
  finally show ?thesis by (simp add: unsigned_ucast_eq word_unat_eq_iff unsigned_of_nat take_bit_eq_mod)
qed

lemma sint_word64_self: "- (2 ^ 63) \<le> i \<Longrightarrow> i < 2 ^ 63 \<Longrightarrow> sint (word_of_int i :: 64 word) = i"
  by (simp add: sint_sbintrunc' signed_take_bit_int_eq_self)

lemma be_bytes_sizes:
  "n < 256 \<Longrightarrow> be_bytes 1 n = [word_of_nat n]"
  "n < 65536 \<Longrightarrow> be_bytes 2 n = [word_of_nat (n div 256 mod 256), word_of_nat (n mod 256)]"
  "be_bytes 3 n = [word_of_nat (n div 65536 mod 256), word_of_nat (n div 256 mod 256),
    word_of_nat (n mod 256)]"
  "be_bytes 4 n = [word_of_nat (n div 16777216 mod 256), word_of_nat (n div 65536 mod 256),
    word_of_nat (n div 256 mod 256), word_of_nat (n mod 256)]"
  using be_bytes.simps(2) [of 0 n] be_bytes.simps(2) [of 1 n] be_bytes.simps(2) [of 2 n]
    be_bytes.simps(2) [of 3 n]
  by (simp_all add: numeral_2_eq_2 [symmetric] numeral_3_eq_3 [symmetric])

lemma compressIntValue_bytes:
  assumes "\<bar>v\<bar> < 2 ^ 63"
  shows "compressIntValue (quoted (show_int v)) =
    int_code v # be_bytes (int_size (nat \<bar>v\<bar>)) (nat \<bar>v\<bar>)"
proof -
  define n where "n = nat \<bar>v\<bar>"
  have t: "latin1 (take (length (quoted (show_int v)) - 2) (drop 1 (quoted (show_int v)))) = show_int v"
    by (simp add: quoted_def)
  have v: "(if v < 0 then sint (word_of_int (v * -1) :: 64 word) else v) = int n"
    using assms sint_word64_self [of "- v"] by (auto simp: n_def)
  have u: "uint (word_of_int (int n) :: 32 word) \<le> 4294967296 - 1"
    using unsigned_less [of "word_of_int (int n) :: 32 word", where 'a = int] by simp
  have lt: "int n < 256 \<longleftrightarrow> n < 256" "int n < 65536 \<longleftrightarrow> n < 65536"
    "int n < 16777216 \<longleftrightarrow> n < 16777216"
    by simp_all
  show ?thesis
    unfolding compressIntValue_def Let_def int_code_def n_def [symmetric] t v
      atoi_show_int [OF assms] option.case lt and_bytes_int top_byte int_size_def
    using u be_bytes_sizes [of n] by (cases "n < 256"; cases "n < 65536"; cases "n < 16777216") simp_all
qed

lemma be_number_be_bytes:
  "be_number acc k (be_bytes k n @ rest) = Some (acc * 256 ^ k + int (n mod 256 ^ k))"
proof (induction k arbitrary: acc)
  case (Suc k)
  have "uint (word_of_nat (n div 256 ^ k mod 256) :: byte) = int (n div 256 ^ k mod 256)"
    by (simp add: unsigned_of_nat take_bit_nat_eq_self)
  moreover have "int (n mod 256 ^ Suc k) = int (n div 256 ^ k mod 256) * 256 ^ k + int (n mod 256 ^ k)"
  proof -
    have "n mod (256 ^ k * 256) = 256 ^ k * (n div 256 ^ k mod 256) + n mod 256 ^ k"
      by (rule mod_mult2_eq)
    then show ?thesis by (simp add: mult.commute)
  qed
  ultimately show ?case by (simp add: Suc.IH algebra_simps)
qed simp

lemma int_size_mod: "n < 2 ^ 32 \<Longrightarrow> n mod 256 ^ int_size n = n"
  "n mod 256 ^ int_size n = n mod 2 ^ 32"
  by (simp_all add: int_size_def)

lemma int_code_cases:
  "int_code v = (if v < 0 then 143 else 144) + 2 * (word_of_nat (int_size (nat \<bar>v\<bar>)) - 1)"
  by (simp add: int_code_def int_size_def getIntType_def getCodeListIndex_codes)

lemma quoted_int_be_bytes:
  "quoted_int neg k (code # be_bytes k n @ rest) =
    Some (quoted ((if neg then ''-'' else []) @ show_nat (n mod 256 ^ k)), k + 1)"
  by (simp add: quoted_int_def be_number_be_bytes quoted_def show_int_def)
    (simp add: char_byte_def)

lemma codeList_int_types:
  assumes "k = 1 \<or> k = 2 \<or> k = 3 \<or> k = 4"
  shows "index_at codeList (unat (getCodeListIndex (getIntType k pos))) = Some (getIntType k pos)"
proof -
  have "getCodeListIndex (getIntType k pos) \<noteq> 255"
    using assms by (cases pos) (auto simp: getIntType_def getCodeListIndex_codes)
  then show ?thesis using getCodeListIndex_found [of "getIntType k pos"] by simp
qed

lemma decompressOneValue_int:
  assumes "k = 1 \<or> k = 2 \<or> k = 3 \<or> k = 4"
  shows "decompressOneValue fmt ((getCodeListIndex (getIntType k pos) + 128) # be_bytes k n @ rest) =
    Some (quoted ((if pos then [] else ''-'') @ show_nat (n mod 256 ^ k)), k + 1)"
proof -
  let ?code = "getCodeListIndex (getIntType k pos)"
  have "decompressOneValue fmt ((?code + 128) # be_bytes k n @ rest) =
    quoted_int (\<not> pos) k ((?code + 128) # be_bytes k n @ rest)"
    using assms codeList_int_types [OF assms, of pos]
    by (elim disjE; cases pos;
        simp add: decompressOneValue_def getIntType_def getCodeListIndex_codes)
  then show ?thesis using quoted_int_be_bytes by simp
qed

lemma int_size_range: "int_size n = 1 \<or> int_size n = 2 \<or> int_size n = 3 \<or> int_size n = 4"
  by (simp add: int_size_def)

lemma go_int_decoded:
  assumes "\<bar>v\<bar> < 2 ^ 63"
  shows "decompressOneValue fmt (compressIntValue (quoted (show_int v)) @ rest) =
    Some (quoted (sign_of v @ show_nat (nat \<bar>v\<bar> mod 2 ^ 32)),
          length (compressIntValue (quoted (show_int v))))"
  using decompressOneValue_int [OF int_size_range, of fmt "nat \<bar>v\<bar>" "\<not> v < 0" "nat \<bar>v\<bar>" rest]
  by (simp add: compressIntValue_bytes [OF assms] int_code_def int_size_mod(2) sign_of_def)

lemma show_nat_inject [simp]: "show_nat m = show_nat n \<longleftrightarrow> m = n"
  by (metis option.inject read_digits_show_nat)

lemma quoted_inject [simp]: "quoted s = quoted t \<longleftrightarrow> s = t"
  by (simp add: quoted_def)

lemma compressIntValue_nonempty: "\<bar>v\<bar> < 2 ^ 63 \<Longrightarrow> compressIntValue (quoted (show_int v)) \<noteq> []"
  by (simp add: compressIntValue_bytes)

lemma show_int_inject: "show_int v = show_int w \<Longrightarrow> v = w"
  using show_nat_not_sign(1) by (auto simp: show_int_def split: if_splits) (metis list.sel(1))+

lemma go_int_decoded_exact:
  assumes "\<bar>v\<bar> < 2 ^ 32"
  shows "decompressOneValue fmt (compressIntValue (quoted (show_int v)) @ rest) =
    Some (quoted (show_int v), length (compressIntValue (quoted (show_int v))))"
  using go_int_decoded [of v fmt rest] assms by (simp add: show_int_sign nat_less_iff)

interpretation int_codec: prefix_codec "\<lambda>v. \<bar>v\<bar> < 2 ^ 32" "\<lambda>v. compressIntValue (quoted (show_int v))"
  "decompressOneValue fmt" "\<lambda>v. quoted (show_int v)" for fmt
  by unfold_locales
    (simp_all add: go_int_decoded_exact compressIntValue_nonempty show_int_inject)

text \<open>
  C5: an array of integers below \<open>2^32\<close> in magnitude is determined by its encoding: two
  arrays with the same bytes are equal, so the concatenated typed values need no separators.
\<close>

theorem int_array_code_injective:
  assumes "list_all (\<lambda>v. \<bar>v\<bar> < 2 ^ 32) xs" and "list_all (\<lambda>v. \<bar>v\<bar> < 2 ^ 32) ys"
    and "concat (map (\<lambda>v. compressIntValue (quoted (show_int v))) xs) =
      concat (map (\<lambda>v. compressIntValue (quoted (show_int v))) ys)"
  shows "xs = ys"
  using int_codec.concat_enc_inj [OF assms] .

lemma int_array_code_injective_witness:
  "list_all (\<lambda>v. \<bar>v\<bar> < 2 ^ 32) [3, - 70000 :: int] \<and> [3, - 70000] = [3, - 70000 :: int]"
  using int_array_code_injective [of "[3, - 70000]" "[3, - 70000]"] by simp

text \<open>
  C3: a decimal integer that fits a 64-bit \<open>int\<close> survives the server's
  typed encoding exactly when its magnitude is below \<open>2^32\<close>. (The code means to leave larger
  values uncoded, but its test \<open>uint32(intVal) <= 4294967296-1\<close> is always true.)
\<close>

theorem go_int_roundtrip_iff:
  assumes "\<bar>v\<bar> < 2 ^ 63"
  shows "decompressOneValue fmt (compressIntValue (quoted (show_int v)) @ rest) =
      Some (quoted (show_int v), length (compressIntValue (quoted (show_int v))))
    \<longleftrightarrow> \<bar>v\<bar> < 2 ^ 32"
proof -
  have "nat \<bar>v\<bar> mod 2 ^ 32 = nat \<bar>v\<bar> \<longleftrightarrow> nat \<bar>v\<bar> < 2 ^ 32"
    by (metis mod_less mod_less_divisor pos2 zero_less_power)
  moreover have "nat \<bar>v\<bar> < 2 ^ 32 \<longleftrightarrow> \<bar>v\<bar> < 2 ^ 32"
    by (simp add: nat_less_iff)
  ultimately show ?thesis
    unfolding go_int_decoded [OF assms] by (simp only: show_int_sign option.inject prod.inject
      quoted_inject same_append_eq show_nat_inject simp_thms)
qed

lemma go_int_roundtrip_iff_witness:
  "decompressOneValue (\<lambda>_. []) (compressIntValue (quoted (show_int (- 1234))) @ [])
     = Some (quoted (show_int (- 1234)), length (compressIntValue (quoted (show_int (- 1234)))))
   \<and> decompressOneValue (\<lambda>_. []) (compressIntValue (quoted (show_int 4294967296)) @ [])
     \<noteq> Some (quoted (show_int 4294967296), length (compressIntValue (quoted (show_int 4294967296))))"
  using go_int_roundtrip_iff [of "- 1234" "\<lambda>_. []" "[]"]
    go_int_roundtrip_iff [of 4294967296 "\<lambda>_. []" "[]"] by simp

section \<open>A whole request\<close>

lemma compressLoop_token:
  assumes "drop offset message = token @ rest" and "token \<noteq> []"
    and "readUncompressedMessage message offset = Some token"
    and "compressToken pf paths message (offset + length token) token ts ia = Some (out, ts', ia')"
  shows "compressLoop pf paths message offset ts ia m2 =
      compressLoop pf paths message (offset + length token) ts' ia' (m2 @ out)"
    and "drop (offset + length token) message = rest"
proof -
  have "offset < length message" using assms(1,2) by (metis append_is_Nil_conv drop_all leI)
  then show "compressLoop pf paths message offset ts ia m2 =
      compressLoop pf paths message (offset + length token) ts' ia' (m2 @ out)"
    using assms by (subst compressLoop.simps) simp
  show "drop (offset + length token) message = rest"
    using assms(1) by (metis add.commute append_eq_conv_conj drop_drop)
qed

lemma drop_eq_length: "drop offset message = xs \<Longrightarrow> xs \<noteq> [] \<Longrightarrow> length message = offset + length xs"
  by (metis drop_all le_add_diff_inverse leI length_drop less_imp_le_nat)

lemma drop_eq_nth: "drop offset message = xs \<Longrightarrow> k < length xs \<Longrightarrow> message ! (offset + k) = xs ! k"
  by (metis drop_all leI less_imp_le_nat list.size(3) not_less_zero nth_drop)

lemma readUncompressed_quoted:
  assumes "drop offset message = quoted s @ rest" and "34 \<notin> set (to_bytes s)"
  shows "readUncompressedMessage message offset = Some (quoted s)"
proof -
  have len: "length message = offset + length (quoted s @ rest)"
    using assms(1) by (rule drop_eq_length) (simp add: quoted_def)
  have "message ! offset = 34"
    using drop_eq_nth [OF assms(1), of 0] by (simp add: quoted_def)
  moreover have "drop (offset + 1) message = drop 1 (drop offset message)"
    by simp
  then have "drop (offset + 1) message = to_bytes s @ 34 # rest"
    unfolding assms(1) quoted_def by simp
  then have "NextQuoteMark message (offset + 1) = offset + 1 + length s"
    by (simp add: NextQuoteMark_def nextQuoteFrom_found [OF assms(2)])
  moreover have "take (length s + 2) (drop offset message) = quoted s"
    unfolding assms(1) by simp
  ultimately show ?thesis
    using len by (simp add: readUncompressedMessage_def slice_def)
qed

lemma readUncompressed_single:
  assumes "drop offset message = [b] @ rest" and "b \<noteq> 34" and "b < 128"
  shows "readUncompressedMessage message offset = Some [b]"
  using drop_eq_length [OF assms(1)] drop_eq_nth [OF assms(1), of 0] assms(2,3)
  by (simp add: readUncompressedMessage_def rune_bytes_def)

text \<open>The tokens of a request, and the encoder run over them.\<close>

definition is_token :: "bytes \<Rightarrow> bool" where
  "is_token t \<longleftrightarrow> (\<exists>b. t = [b] \<and> b \<noteq> 34 \<and> b < 128) \<or> (\<exists>s. t = quoted s \<and> 34 \<notin> set (to_bytes s))"

lemma is_token_reads:
  assumes "is_token t" and "drop offset message = t @ rest"
  shows "readUncompressedMessage message offset = Some t" and "t \<noteq> []"
  using assms readUncompressed_quoted readUncompressed_single
  by (auto simp: is_token_def quoted_def)

fun compressTokens ::
  "(string \<Rightarrow> 32 word option) \<Rightarrow> string list \<Rightarrow> bytes \<Rightarrow> nat \<Rightarrow> bytes list \<Rightarrow> byte \<Rightarrow> bool \<Rightarrow> bytes option"
  where
  "compressTokens pf paths message offset [] ts ia = Some []"
| "compressTokens pf paths message offset (t # toks) ts ia =
     (case compressToken pf paths message (offset + length t) t ts ia of
        None \<Rightarrow> None
      | Some (out, ts', ia') \<Rightarrow>
          map_option (\<lambda>r. out @ r) (compressTokens pf paths message (offset + length t) toks ts' ia'))"

lemma compressLoop_tokens:
  assumes "\<forall>t \<in> set toks. is_token t" and "drop offset message = concat toks"
  shows "compressLoop pf paths message offset ts ia m2 =
    map_option (\<lambda>r. m2 @ r) (compressTokens pf paths message offset toks ts ia)"
  using assms
proof (induction toks arbitrary: offset ts ia m2)
  case Nil
  then show ?case by (subst compressLoop.simps) simp
next
  case (Cons t toks)
  have d: "drop offset message = t @ concat toks" and t: "is_token t" using Cons.prems by simp_all
  note reads = is_token_reads [OF t d]
  show ?case
  proof (cases "compressToken pf paths message (offset + length t) t ts ia")
    case None
    have "offset < length message" using drop_eq_length [OF d] reads(2) by simp
    then show ?thesis using None reads by (subst compressLoop.simps) simp
  next
    case (Some r)
    obtain out ts' ia' where r: "r = (out, ts', ia')" by (cases r) auto
    note step = compressLoop_token [OF d reads(2) reads(1) Some [unfolded r]]
    have "compressLoop pf paths message (offset + length t) ts' ia' (m2 @ out) =
      map_option (\<lambda>r. (m2 @ out) @ r) (compressTokens pf paths message (offset + length t) toks ts' ia')"
      using Cons.prems(1) step(2) by (intro Cons.IH) simp_all
    then show ?thesis by (simp add: step(1) Some r option.map_comp comp_def)
  qed
qed

text \<open>
  A get request as a client writes it:
  \<^verbatim>\<open>{"action":"get","path":"P","requestId":"N"}\<close>.
\<close>

definition get_tokens :: "string \<Rightarrow> nat \<Rightarrow> bytes list" where
  "get_tokens p n =
     [[123], quoted ''action'', [58], quoted ''get'', [44], quoted ''path'', [58], quoted p, [44],
      quoted ''requestId'', [58], quoted (show_nat n), [125]]"

definition get_request :: "string \<Rightarrow> nat \<Rightarrow> bytes" where
  "get_request p n = concat (get_tokens p n)"

lemma codeListLoop_absent: "token \<notin> set cs \<Longrightarrow> codeListLoop i cs token = 255"
  by (induction i cs token rule: codeListLoop.induct) auto

lemma getCodeListIndex_absent: "token \<notin> set codeList \<Longrightarrow> getCodeListIndex token = 255"
  unfolding getCodeListIndex_def by (rule codeListLoop_absent)

lemma inner_quoted: "latin1 (take (length (quoted s) - 2) (drop 1 (quoted s))) = s"
  by (simp add: quoted_def)

lemma compressToken_word:
  "compressToken pf paths message offset (quoted s) ts ia =
    (let i = getCodeListIndex s in
     if i < 26
     then if i = CODELISTINDEXTS \<or> i = CODELISTINDEXVALUE \<or> i = CODELISTINDEXPATH
             \<or> i = CODELISTINDEXREQID \<or> i = CODELISTINDEXSUBID
          then Some ([i + 128], i, False) else Some ([i + 128], ts, ia)
     else if ts = CODELISTINDEXTS then map_option (\<lambda>c. (c, 255, ia)) (compressTS (quoted s))
     else if ts = CODELISTINDEXVALUE \<or> ts = CODELISTINDEXREQID \<or> ts = CODELISTINDEXSUBID
     then map_option (\<lambda>c. (c, if ia then ts else 255, ia)) (compressValue pf (quoted s))
     else if ts = CODELISTINDEXPATH then map_option (\<lambda>c. (c, 255, ia)) (compressPath paths (quoted s))
     else map_option (\<lambda>b. (if b = 58 then quoted s @ [58] else quoted s, ts, ia))
            (index_at message offset))"
  unfolding compressToken_def inner_quoted Let_def by (simp add: length_quoted)

lemma show_nat_not_code: "show_nat n \<notin> set codeList"
proof -
  have "\<forall>s \<in> set codeList. digit_value (hd s) = None"
    by (simp add: codeList_def digit_value.simps)
  moreover have "digit_value (hd (show_nat n)) \<noteq> None"
    using show_nat_hd [of n] by auto
  ultimately show ?thesis by metis
qed

lemma compressValue_nat:
  assumes "n < 2 ^ 32"
  shows "compressValue pf (quoted (show_nat n)) =
    Some (int_code (int n) # be_bytes (int_size n) n)"
proof -
  have "atoi (show_nat n) = Some (int n)"
    using atoi_show_int [of "int n"] assms by (simp add: show_int_def)
  then show ?thesis
    using compressIntValue_bytes [of "int n"] assms slice_quoted [of "show_nat n"]
    by (simp add: compressValue_def AnalyzeValueType_def show_int_def)
qed

definition get_compressed :: "nat \<Rightarrow> nat \<Rightarrow> bytes" where
  "get_compressed i n =
     [128, 138, 132, word_of_nat (i div 256), word_of_nat (i mod 256), 129, int_code (int n)]
     @ be_bytes (int_size n) n"

lemma quote_not_in_show_nat: "34 \<notin> set (to_bytes (show_nat n))"
proof
  assume "34 \<in> set (to_bytes (show_nat n))"
  then obtain c where "c \<in> set (show_nat n)" "char_byte c = 34"
    by (auto simp: to_bytes_def)
  then obtain d where "d < 10" "char_byte (digit d) = 34" using set_show_nat by blast
  then have "digit d = byte_char 34" by (metis char_byte_inverse)
  moreover have "byte_char 34 = CHR 0x22" by code_simp
  ultimately have "digit_value (digit d) = digit_value (CHR 0x22)" by simp
  moreover have "digit_value (CHR 0x22) = None" by (simp add: digit_value.simps)
  ultimately show False using \<open>d < 10\<close> by simp
qed

lemma get_tokens_are_tokens:
  assumes "34 \<notin> set (to_bytes p)"
  shows "\<forall>t \<in> set (get_tokens p n). is_token t"
proof -
  have words: "34 \<notin> set (to_bytes ''action'')" "34 \<notin> set (to_bytes ''get'')"
    "34 \<notin> set (to_bytes ''path'')" "34 \<notin> set (to_bytes ''requestId'')"
    by (simp_all add: to_bytes_def char_byte_def)
  have "is_token (quoted s)" if "34 \<notin> set (to_bytes s)" for s
    using that unfolding is_token_def by blast
  moreover have "is_token [b]" if "b \<noteq> 34" "b < 128" for b
    using that unfolding is_token_def by blast
  ultimately show ?thesis
    using words assms quote_not_in_show_nat by (simp add: get_tokens_def)
qed

lemma CompressMessage_get_request:
  assumes "sorted_wrt (<) paths" and "length paths \<le> 65536" and "i < length paths"
    and "dotted p = paths ! i" and "p \<notin> set codeList" and "34 \<notin> set (to_bytes p)"
    and "n < 2 ^ 32"
  shows "CompressMessage pf paths (get_request p n) = Some (get_compressed i n)"
proof -
  let ?msg = "get_request p n"
  have single: "compressToken pf paths m o' [b] ts ia =
    (if b = 32 \<or> b = 44 \<or> (b = 123 \<and> o' = 1) \<or> (b = 125 \<and> o' = length m) \<or> b = 58
     then Some ([], ts, ia)
     else Some ([b], ts, if b = 93 then False else if b = 91 then True else ia))" for m o' b ts ia
    by (simp add: compressToken_def)
  have len: "length ?msg = 41 + length p + length (show_nat n)"
    by (simp add: get_request_def get_tokens_def)
  have "compressTokens pf paths ?msg 0 (get_tokens p n) 255 False = Some (get_compressed i n)"
    unfolding get_tokens_def
    by (simp add: single compressToken_word getCodeListIndex_codes code_index_defs
        getCodeListIndex_absent assms(5) show_nat_not_code Let_def
        compressPath_index [OF assms(1-4)] compressValue_nat [OF assms(7)] len get_compressed_def)
  then show ?thesis
    using compressLoop_tokens [OF get_tokens_are_tokens [OF assms(6)], of 0 ?msg n pf paths 255 False "[]"]
    by (simp add: CompressMessage_def get_request_def option.map_ident)
qed

lemma last_be_bytes: "0 < k \<Longrightarrow> last (be_bytes k n) = word_of_nat (n mod 256)"
proof (induction k)
  case (Suc k)
  then show ?case by (cases k) simp_all
qed simp

lemma decompressLoop_token:
  assumes "offset < length message"
    and "readCompressedMessage fmt paths message offset = Some (token, n)"
  shows "decompressLoop fmt paths message offset m2 =
    decompressLoop fmt paths message (offset + n) (m2 @ token)"
  using assms by (subst decompressLoop.simps) simp

lemma decompressValue_int:
  assumes "n < 2 ^ 32"
  shows "decompressValue fmt (int_code (int n) # be_bytes (int_size n) n) =
    Some (quoted (show_nat n), int_size n + 1)"
proof -
  have one: "decompressOneValue fmt (int_code (int n) # be_bytes (int_size n) n) =
    Some (quoted (show_nat n), int_size n + 1)"
    using go_int_decoded [of "int n" fmt "[]"] compressIntValue_bytes [of "int n"] assms
    by (simp add: sign_of_def)
  have "int_code (int n) \<notin> {91, 93, 44, 123}"
    by (simp add: int_code_cases int_size_def)
  then show ?thesis
    unfolding decompressValue_def
    by (subst decompressValueLoop.simps) (simp add: one)
qed

lemma getCodeListIndex_name:
  "codeList ! 0 = ''action''" "codeList ! 10 = ''get''" "codeList ! 4 = ''path''"
  "codeList ! Suc 0 = ''requestId''"
  by (simp_all add: codeList_def)

definition get_decoded :: "nat \<Rightarrow> string \<Rightarrow> nat \<Rightarrow> bytes" where
  "get_decoded i p n =
     concat [[123], quoted ''action'', [58], quoted ''get'', [44], quoted ''path'', [58], quoted p]
     @ (if i mod 256 = 91 \<or> i mod 256 = 123 then [] else [44])
     @ quoted ''requestId'' @ [58] @ quoted (show_nat n)
     @ (if n mod 256 = 125 then [] else [125])"

lemma byte_of_nat_eq_iff: "a < 256 \<Longrightarrow> (word_of_nat a :: byte) = numeral k \<longleftrightarrow> a = numeral k mod 256"
  by (simp add: word_unat_eq_iff unsigned_of_nat take_bit_nat_eq_self take_bit_eq_mod)

lemma DecompressMessage_get_compressed:
  assumes "i < length paths" and "length paths \<le> 65536" and "n < 2 ^ 32"
  shows "DecompressMessage fmt paths (get_compressed i n) = Some (get_decoded i (paths ! i) n)"
proof -
  define hi lo where "hi = (word_of_nat (i div 256) :: byte)" and "lo = (word_of_nat (i mod 256) :: byte)"
  define ib where "ib = int_code (int n) # be_bytes (int_size n) n"
  let ?m = "[128, 138, 132, hi, lo, 129] @ ib"
  have m: "get_compressed i n = ?m" by (simp add: get_compressed_def hi_def lo_def ib_def)
  have ib: "ib \<noteq> []" "length ib = int_size n + 1" by (simp_all add: ib_def)
  have path: "decompressPath paths (hi # lo # rest) = Some (quoted (paths ! i))" for rest
    using assms(1,2)
    by (simp add: decompressPath_def hi_def lo_def quoted_def unsigned_of_nat take_bit_nat_eq_self)
  have read: "readCompressedMessage fmt paths ?m 0 = Some (quoted ''action'' @ [58], 1)"
    "readCompressedMessage fmt paths ?m 1 = Some (quoted ''get'' @ [44], 1)"
    "readCompressedMessage fmt paths ?m 2 = Some (quoted ''path'' @ [58] @ quoted (paths ! i)
       @ (if lo = 91 \<or> lo = 123 then [] else [44]), 3)"
    "readCompressedMessage fmt paths ?m 5 =
       Some (quoted ''requestId'' @ [58] @ quoted (show_nat n), 1 + length ib)"
    using decompressValue_int [OF assms(3), of fmt] ib
    by (simp_all add: readCompressedMessage_def codePayload_def Let_def code_index_defs
        getCodeListIndex_codes getCodeListIndex_name path quoted_def flip: ib_def)
  have step: "decompressLoop fmt paths ?m 0 m2 = decompressLoop fmt paths ?m 1 (m2 @ quoted ''action'' @ [58])"
    "decompressLoop fmt paths ?m 1 m2 = decompressLoop fmt paths ?m 2 (m2 @ quoted ''get'' @ [44])"
    "decompressLoop fmt paths ?m 2 m2 = decompressLoop fmt paths ?m 5
       (m2 @ quoted ''path'' @ [58] @ quoted (paths ! i) @ (if lo = 91 \<or> lo = 123 then [] else [44]))"
    "decompressLoop fmt paths ?m 5 m2 = decompressLoop fmt paths ?m (5 + (1 + length ib))
       (m2 @ quoted ''requestId'' @ [58] @ quoted (show_nat n))"
    "decompressLoop fmt paths ?m (5 + (1 + length ib)) m2 = Some m2" for m2
  proof -
    have o: "(0::nat) + 1 = 1" "(1::nat) + 1 = 2" "(2::nat) + 3 = 5" by simp_all
    show "decompressLoop fmt paths ?m 0 m2 = decompressLoop fmt paths ?m 1 (m2 @ quoted ''action'' @ [58])"
      using decompressLoop_token [OF _ read(1), of m2] unfolding o by simp
    show "decompressLoop fmt paths ?m 1 m2 = decompressLoop fmt paths ?m 2 (m2 @ quoted ''get'' @ [44])"
      using decompressLoop_token [OF _ read(2), of m2] unfolding o by simp
    show "decompressLoop fmt paths ?m 2 m2 = decompressLoop fmt paths ?m 5
       (m2 @ quoted ''path'' @ [58] @ quoted (paths ! i) @ (if lo = 91 \<or> lo = 123 then [] else [44]))"
      using decompressLoop_token [OF _ read(3), of m2] unfolding o by simp
    show "decompressLoop fmt paths ?m 5 m2 = decompressLoop fmt paths ?m (5 + (1 + length ib))
       (m2 @ quoted ''requestId'' @ [58] @ quoted (show_nat n))"
      by (rule decompressLoop_token [OF _ read(4)]) simp
    show "decompressLoop fmt paths ?m (5 + (1 + length ib)) m2 = Some m2"
      by (subst decompressLoop.simps) simp
  qed
  have "decompressLoop fmt paths ?m 0 [123] = Some ([123] @ (quoted ''action'' @ [58])
    @ (quoted ''get'' @ [44])
    @ (quoted ''path'' @ [58] @ quoted (paths ! i) @ (if lo = 91 \<or> lo = 123 then [] else [44]))
    @ quoted ''requestId'' @ [58] @ quoted (show_nat n))"
    by (simp only: step append_assoc)
  moreover have "last ?m = word_of_nat (n mod 256)"
  proof -
    have "0 < int_size n" by (simp add: int_size_def)
    moreover from this have "be_bytes (int_size n) n \<noteq> []"
      by (metis length_be_bytes length_0_conv less_irrefl)
    ultimately show ?thesis by (simp add: ib_def last_be_bytes)
  qed
  moreover have "lo = 91 \<longleftrightarrow> i mod 256 = 91" "lo = 123 \<longleftrightarrow> i mod 256 = 123"
    "(word_of_nat (n mod 256) :: byte) = 125 \<longleftrightarrow> n mod 256 = 125"
    by (simp_all add: lo_def byte_of_nat_eq_iff)
  ultimately show ?thesis
    unfolding m DecompressMessage_def by (simp add: get_decoded_def)
qed



end
