(* ===== verification/Js_Decompress.thy ===== *)
theory Js_Decompress
  imports Wire_Codes Path_List
begin

text \<open>
  The web client's decoder, \<open>decompressMessage\<close> of
  \<open>client/client-1.0/Javascript/w3cdecompress.js\<close>. The message is what
  \<open>readAsBinaryString\<close> gives, so every code unit is below 256. The current year, which the
  code takes from \<open>new Date()\<close>, is the argument \<open>year\<close>; the rendering of a 32-bit float as a
  JavaScript number is the argument \<open>showFloat32\<close>.
\<close>

section \<open>Timestamps\<close>

definition pad2 :: "jsnum \<Rightarrow> string" where
  "pad2 n = padStart2 (js_show n)"

definition js_timestamp :: "int \<Rightarrow> string \<Rightarrow> nat \<Rightarrow> string" where
  "js_timestamp year message index =
     (let decade = Num ((year div 10) * 10);
          byte1 = charCodeAt message index;
          byte2 = charCodeAt message (index + 1);
          byte3 = charCodeAt message (index + 2);
          byte4 = charCodeAt message (index + 3);
          yy = js_ushr (js_and byte1 (Num 0x3C)) 2;
          mm = js_or (js_shl (js_and byte1 (Num 0x03)) 2) (js_ushr (js_and byte2 (Num 0xC0)) 6);
          dd = js_ushr (js_and byte2 (Num 0x3E)) 1;
          hh = js_or (js_shl (js_and byte2 (Num 0x01)) 4) (js_ushr (js_and byte3 (Num 0xF0)) 4);
          MM = js_or (js_shl (js_and byte3 (Num 0x0F)) 2) (js_ushr (js_and byte4 (Num 0xC0)) 6);
          ss = js_and byte4 (Num 0x3F)
      in js_show (js_add decade yy) @ ''-'' @ pad2 mm @ ''-'' @ pad2 dd @ ''T''
         @ pad2 hh @ '':'' @ pad2 MM @ '':'' @ pad2 ss @ ''Z'')"

section \<open>Paths\<close>

text \<open>\<open>uuidmap[i]\<close>, where reading outside the array gives \<open>undefined\<close>.\<close>

fun uuidmap_at :: "jsnum \<Rightarrow> string" where
  "uuidmap_at NaN = ''undefined''"
| "uuidmap_at (Num i) =
     (if 0 \<le> i \<and> i < int (length LeafPaths) then LeafPaths ! nat i else ''undefined'')"

definition js_path_index :: "string \<Rightarrow> nat \<Rightarrow> jsnum" where
  "js_path_index message index =
     (let uuidindex0 = Num 0;
          uuidindex1 = js_add uuidindex0
            (js_add (js_shl uuidindex0 8) (charCodeAt message (index + 1)))
      in js_add uuidindex1 (charCodeAt message (index + 1)))"

section \<open>Values\<close>

text \<open>
  The chain of \<open>endsWith\<close> tests assigns \<open>numvals\<close> again at each match, so the last matching
  test decides.
\<close>

definition js_numvals :: "string \<Rightarrow> nat" where
  "js_numvals testmsg =
     (if suffix ''float'' testmsg then 4
      else if suffix ''bool'' testmsg then 1
      else if suffix ''int32'' testmsg then 4
      else if suffix ''int24'' testmsg then 3
      else if suffix ''int16'' testmsg then 2
      else if suffix ''int8'' testmsg then 1
      else 0)"

fun js_realval :: "string \<Rightarrow> nat \<Rightarrow> nat \<Rightarrow> jsnum \<Rightarrow> jsnum" where
  "js_realval message index 0 realval = realval"
| "js_realval message index (Suc n) realval =
     js_realval message (index + 1) n (js_add (js_shl realval 8) (charCodeAt message index))"

text \<open>\<open>setUint8\<close> stores a number modulo 256 and \<open>NaN\<close> as 0.\<close>

fun js_uint8 :: "jsnum \<Rightarrow> byte" where
  "js_uint8 NaN = 0"
| "js_uint8 (Num i) = word_of_int i"

definition js_float32 :: "string \<Rightarrow> nat \<Rightarrow> 32 word" where
  "js_float32 message index =
     or (ucast (js_uint8 (charCodeAt message index)))
       (or (push_bit 8 (ucast (js_uint8 (charCodeAt message (index + 1)))))
         (or (push_bit 16 (ucast (js_uint8 (charCodeAt message (index + 2)))))
           (push_bit 24 (ucast (js_uint8 (charCodeAt message (index + 3)))))))"

text \<open>The \<open>while\<close> loop that skips to the next zero byte or the end.\<close>

function js_skip :: "string \<Rightarrow> nat \<Rightarrow> nat \<Rightarrow> nat" where
  "js_skip message index i =
     (if charCodeAt message (index + i) \<noteq> NaN \<and> charCodeAt message (index + i) \<noteq> Num 0
      then js_skip message index (i + 1) else i)"
  by pat_completeness auto
termination
  by (relation "measure (\<lambda>(message, index, i). length message - (index + i))")
     (auto simp: charCodeAt_def split: if_splits)

declare js_skip.simps [simp del]

definition js_value :: "(32 word \<Rightarrow> string) \<Rightarrow> string \<Rightarrow> string \<Rightarrow> nat \<Rightarrow> string \<times> nat" where
  "js_value showFloat32 testmsg message index =
     (let numvals = js_numvals testmsg;
          sign = (if prefix ''n'' testmsg then ''-'' else '''');
          quote = [CHR 0x22]
      in if numvals \<noteq> 0
         then if suffix ''float'' testmsg
              then (quote @ sign @ showFloat32 (js_float32 message index) @ quote, index + numvals)
              else let realval = js_realval message index numvals (Num 0)
                in if suffix ''bool'' testmsg
                   then (quote @ sign @ (if realval = Num 0 then ''false'' else ''true'') @ quote,
                         index + numvals)
                   else (quote @ sign @ js_show realval @ quote, index + numvals)
         else (quote @ sign @ quote, index + js_skip message index 0))"

section \<open>The decoder\<close>

definition js_keyword :: "nat \<Rightarrow> string" where
  "js_keyword k = (if k < length keywordlist then keywordlist ! k else ''undefined'')"

text \<open>
  One iteration of the \<open>while\<close> loop at an index inside the message: the text appended to
  \<open>finalMsg\<close> and the next index.
\<close>

definition js_step :: "int \<Rightarrow> (32 word \<Rightarrow> string) \<Rightarrow> string \<Rightarrow> nat \<Rightarrow> string \<times> nat" where
  "js_step year showFloat32 message index =
     (let charmsg = (of_char (message ! index) :: nat); quote = [CHR 0x22] in
      if 127 < charmsg then
        let k = charmsg - 128; testmsg = js_keyword k; index1 = index + 1 in
        if k = 3 then
          (quote @ testmsg @ quote @ '':'' @ quote @ js_timestamp year message index1 @ quote,
           index1 + 4)
        else if k = 4 then
          (quote @ testmsg @ quote @ '':'' @ quote
             @ uuidmap_at (js_path_index message index1) @ quote,
           index1 + 2)
        else if 7 < k \<and> k < 13 then (quote @ testmsg @ quote, index1)
        else if 12 < k \<and> k < 23 then js_value showFloat32 testmsg message index1
        else if k \<noteq> 23 then (quote @ testmsg @ quote @ '':'', index1)
        else ('''', index1)
      else ([message ! index], index + 1))"

lemma js_value_index: "index \<le> snd (js_value f t message index)"
  by (simp add: js_value_def Let_def)

lemma js_step_progress: "index < snd (js_step year f message index)"
  using js_value_index [of "index + 1"]
  by (simp add: js_step_def Let_def less_eq_Suc_le)

function js_loop :: "int \<Rightarrow> (32 word \<Rightarrow> string) \<Rightarrow> string \<Rightarrow> nat \<Rightarrow> string \<Rightarrow> string" where
  "js_loop year showFloat32 message index finalMsg =
     (if index < length message
      then js_loop year showFloat32 message (snd (js_step year showFloat32 message index))
             (finalMsg @ fst (js_step year showFloat32 message index))
      else finalMsg)"
  by pat_completeness auto
termination
  by (relation "measure (\<lambda>(y, f, message, index, m). length message - index)")
     (auto intro: diff_less_mono2 js_step_progress)

declare js_loop.simps [simp del]

definition decompressMessage :: "int \<Rightarrow> (32 word \<Rightarrow> string) \<Rightarrow> string \<Rightarrow> string" where
  "decompressMessage year showFloat32 message =
     (let finalMsg = js_loop year showFloat32 message 0 '''';
          commas = replace2 (CHR 0x22) (CHR 0x22) [CHR 0x22, CHR '','', CHR 0x22] finalMsg;
          objects = replace2 (CHR ''}'') (CHR ''{'') ''},{'' commas
      in ''{'' @ objects @ ''}'')"

section \<open>JavaScript's operators on small numbers\<close>

lemma sint_word32_nonneg: "0 \<le> i \<Longrightarrow> i < 2 ^ 31 \<Longrightarrow> sint (word_of_int i :: 32 word) = i"
  by (simp add: sint_sbintrunc' signed_take_bit_int_eq_self)

lemma js_and_nonneg:
  assumes "0 \<le> a" and "a < 2 ^ 31" and "0 \<le> b" and "b < 2 ^ 31"
  shows "js_and (Num a) (Num b) = Num (and a b)"
proof -
  have "and a b \<le> a" using assms by (simp add: AND_upper1)
  moreover have "and (word_of_int a) (word_of_int b) = (word_of_int (and a b) :: 32 word)"
    by (simp add: of_int_and_eq)
  ultimately show ?thesis using assms by (simp add: js_and_def sint_word32_nonneg)
qed

lemma js_ushr_nonneg:
  assumes "0 \<le> a" and "a < 2 ^ 31"
  shows "js_ushr (Num a) n = Num (drop_bit n a)"
  using assms
  by (simp add: js_ushr_def unsigned_drop_bit_eq uint_word_of_int_eq take_bit_int_eq_self)

lemma js_shl_nonneg:
  assumes "0 \<le> a" and "a * 2 ^ n < 2 ^ 31"
  shows "js_shl (Num a) n = Num (a * 2 ^ n)"
proof -
  have "push_bit n (word_of_int a :: 32 word) = word_of_int (a * 2 ^ n)"
    by (simp add: push_bit_eq_mult)
  moreover have "sint (word_of_int (a * 2 ^ n) :: 32 word) = a * 2 ^ n"
    using assms by (intro sint_word32_nonneg) simp_all
  ultimately show ?thesis by (simp only: js_shl_def to_int32.simps)
qed

lemma js_or_disjoint:
  assumes "0 \<le> a" and "0 \<le> b" and "b < 2 ^ n" and "(a + 1) * 2 ^ n \<le> 2 ^ 31"
  shows "js_or (Num (a * 2 ^ n)) (Num b) = Num (a * 2 ^ n + b)"
proof -
  have "and (a * 2 ^ n) b = 0"
  proof (rule bit_eqI)
    fix k
    have "\<not> bit b k" if "n \<le> k"
    proof -
      have "b = take_bit n b" using assms by (simp add: take_bit_int_eq_self)
      then show ?thesis using that by (metis bit_take_bit_iff leD)
    qed
    then show "bit (and (a * 2 ^ n) b) k = bit 0 k"
      by (auto simp: bit_and_iff bit_push_bit_iff simp flip: push_bit_eq_mult)
  qed
  then have "or (a * 2 ^ n) b = a * 2 ^ n + b"
    by (simp add: disjunctive_add_eq_or)
  moreover have "or (word_of_int (a * 2 ^ n)) (word_of_int b) = (word_of_int (or (a * 2 ^ n) b) :: 32 word)"
    by (simp only: of_int_or_eq)
  moreover have "sint (word_of_int (a * 2 ^ n + b) :: 32 word) = a * 2 ^ n + b"
    using assms by (intro sint_word32_nonneg) (simp_all add: distrib_right)
  ultimately show ?thesis by (simp only: js_or_def to_int32.simps)
qed

lemma js_and_of_nat:
  assumes "n < 256" and "m < 256"
  shows "js_and (Num (int n)) (Num (int m)) = Num (int (and n m))"
  using assms by (simp add: js_and_nonneg of_nat_and_eq)

lemma js_ushr_of_nat:
  assumes "n < 256"
  shows "js_ushr (Num (int n)) k = Num (int (n div 2 ^ k))"
  using assms by (simp add: js_ushr_nonneg drop_bit_eq_div zdiv_int)

lemma js_field_masks:
  assumes "n < 256"
  shows "js_ushr (js_and (Num (int n)) (Num 60)) 2 = Num (int (n div 4 mod 16))"
    and "js_ushr (js_and (Num (int n)) (Num 62)) 1 = Num (int (n div 2 mod 32))"
    and "js_ushr (js_and (Num (int n)) (Num 192)) 6 = Num (int (n div 64 mod 4))"
    and "js_ushr (js_and (Num (int n)) (Num 240)) 4 = Num (int (n div 16 mod 16))"
    and "js_and (Num (int n)) (Num 3) = Num (int (n mod 4))"
    and "js_and (Num (int n)) (Num 15) = Num (int (n mod 16))"
    and "js_and (Num (int n)) (Num 63) = Num (int (n mod 64))"
    and "js_and (Num (int n)) (Num 1) = Num (int (n mod 2))"
proof -
  have a: "js_and (Num (int n)) (Num 60) = Num (int (and n 60))"
    "js_and (Num (int n)) (Num 62) = Num (int (and n 62))"
    "js_and (Num (int n)) (Num 192) = Num (int (and n 192))"
    "js_and (Num (int n)) (Num 240) = Num (int (and n 240))"
    "js_and (Num (int n)) (Num 3) = Num (int (and n 3))"
    "js_and (Num (int n)) (Num 15) = Num (int (and n 15))"
    "js_and (Num (int n)) (Num 63) = Num (int (and n 63))"
    "js_and (Num (int n)) (Num 1) = Num (int (and n 1))"
    using js_and_of_nat [OF assms, of 60] js_and_of_nat [OF assms, of 62]
      js_and_of_nat [OF assms, of 192] js_and_of_nat [OF assms, of 240]
      js_and_of_nat [OF assms, of 3] js_and_of_nat [OF assms, of 15]
      js_and_of_nat [OF assms, of 63] js_and_of_nat [OF assms, of 1] by simp_all
  have s: "js_ushr (Num (int (and n 60))) 2 = Num (int (and n 60 div 4))"
    "js_ushr (Num (int (and n 62))) 1 = Num (int (and n 62 div 2))"
    "js_ushr (Num (int (and n 192))) 6 = Num (int (and n 192 div 64))"
    "js_ushr (Num (int (and n 240))) 4 = Num (int (and n 240 div 16))"
    using js_ushr_of_nat [OF and_lt_256, of 60 n 2] js_ushr_of_nat [OF and_lt_256, of 62 n 1]
      js_ushr_of_nat [OF and_lt_256, of 192 n 6] js_ushr_of_nat [OF and_lt_256, of 240 n 4]
    by simp_all
  show "js_ushr (js_and (Num (int n)) (Num 60)) 2 = Num (int (n div 4 mod 16))"
    "js_ushr (js_and (Num (int n)) (Num 62)) 1 = Num (int (n div 2 mod 32))"
    "js_ushr (js_and (Num (int n)) (Num 192)) 6 = Num (int (n div 64 mod 4))"
    "js_ushr (js_and (Num (int n)) (Num 240)) 4 = Num (int (n div 16 mod 16))"
    unfolding a s field_masks by (rule refl)+
  show "js_and (Num (int n)) (Num 3) = Num (int (n mod 4))"
    "js_and (Num (int n)) (Num 15) = Num (int (n mod 16))"
    "js_and (Num (int n)) (Num 63) = Num (int (n mod 64))"
    "js_and (Num (int n)) (Num 1) = Num (int (n mod 2))"
    unfolding a and_masks_nat by (rule refl)+
qed

lemma js_pack:
  assumes "x < 16" and "y < 4"
  shows "js_or (js_shl (Num (int x)) 2) (Num (int y)) = Num (int (x * 4 + y))"
proof -
  have "js_shl (Num (int x)) 2 = Num (int x * 2 ^ 2)"
    using assms by (intro js_shl_nonneg) simp_all
  moreover have "js_or (Num (int x * 2 ^ 2)) (Num (int y)) = Num (int x * 2 ^ 2 + int y)"
    using assms by (intro js_or_disjoint) simp_all
  ultimately show ?thesis by simp
qed

lemma js_pack4:
  assumes "x < 16" and "y < 16"
  shows "js_or (js_shl (Num (int x)) 4) (Num (int y)) = Num (int (x * 16 + y))"
proof -
  have "js_shl (Num (int x)) 4 = Num (int x * 2 ^ 4)"
    using assms by (intro js_shl_nonneg) simp_all
  moreover have "js_or (Num (int x * 2 ^ 4)) (Num (int y)) = Num (int x * 2 ^ 4 + int y)"
    using assms by (intro js_or_disjoint) simp_all
  ultimately show ?thesis by simp
qed

lemma js_pad2_nat: "n < 100 \<Longrightarrow> pad2 (Num (int n)) = two_digits n"
  by (simp add: pad2_def show_int_def padStart2_show_nat)

lemma js_timestamp_of_bytes:
  assumes "index + 3 < length message"
    and "charCodeAt message index = Num (int b0)" and "charCodeAt message (index + 1) = Num (int b1)"
    and "charCodeAt message (index + 2) = Num (int b2)" and "charCodeAt message (index + 3) = Num (int b3)"
    and "b0 < 256" and "b1 < 256" and "b2 < 256" and "b3 < 256"
  shows "js_timestamp clock message index =
    show_int (clock div 10 * 10 + int (b0 div 4 mod 16)) @ ''-''
      @ two_digits (b0 mod 4 * 4 + b1 div 64 mod 4) @ ''-'' @ two_digits (b1 div 2 mod 32) @ ''T''
      @ two_digits (b1 mod 2 * 16 + b2 div 16 mod 16) @ '':''
      @ two_digits (b2 mod 16 * 4 + b3 div 64 mod 4) @ '':'' @ two_digits (b3 mod 64) @ ''Z''"
proof -
  have small: "b0 mod 4 < 16" "b1 div 64 mod 4 < 4" "b1 mod 2 < 16" "b2 div 16 mod 16 < 16"
    "b2 mod 16 < 16" "b3 div 64 mod 4 < 4" "b1 mod 2 < 2" "b0 mod 4 < 4"
    by (simp_all add: less_trans [OF mod_less_divisor])
  have p: "p * 4 + q < 100" if "p < 16" "q < 4" for p q :: nat using that by simp
  have q: "p * 16 + q < 100" if "p < 2" "q < 16" for p q :: nat using that by simp
  have r: "n mod 32 < 100" "n mod 64 < 100" for n :: nat
    by (rule less_trans [OF mod_less_divisor]; simp)+
  have pads: "pad2 (Num (int (b0 mod 4 * 4 + b1 div 64 mod 4))) = two_digits (b0 mod 4 * 4 + b1 div 64 mod 4)"
    "pad2 (Num (int (b1 div 2 mod 32))) = two_digits (b1 div 2 mod 32)"
    "pad2 (Num (int (b1 mod 2 * 16 + b2 div 16 mod 16))) = two_digits (b1 mod 2 * 16 + b2 div 16 mod 16)"
    "pad2 (Num (int (b2 mod 16 * 4 + b3 div 64 mod 4))) = two_digits (b2 mod 16 * 4 + b3 div 64 mod 4)"
    "pad2 (Num (int (b3 mod 64))) = two_digits (b3 mod 64)"
    by (intro js_pad2_nat p q r small)+
  show ?thesis
    unfolding js_timestamp_def Let_def assms(2-5) js_field_masks [OF assms(6)]
      js_field_masks [OF assms(7)] js_field_masks [OF assms(8)] js_field_masks [OF assms(9)]
      js_pack [OF small(1,2)] js_pack [OF small(5,6)] js_pack4 [OF small(3,4)] pads
      js_add.simps js_show.simps ..
qed

end
