(* ===== verification/Js_Roundtrip.thy ===== *)
theory Js_Roundtrip
  imports Wire_Roundtrip Js_Decompress
begin

text \<open>
  The server's encoder (\<open>utils/computils.go\<close>) against the web client's decoder
  (\<open>w3cdecompress.js\<close>). Timestamps and integers below \<open>2^31\<close> come out as they were
  written; for leaf paths, larger integers and booleans the theorems say exactly what the
  client makes of them.
\<close>

section \<open>Timestamps\<close>

lemma show_int_year:
  assumes "1000 \<le> year" and "year < 10000"
  shows "show_int (int year) = two_digits (year div 100) @ two_digits (year mod 100)"
proof -
  have "show_nat year = show_nat (year div 10) @ [digit (year mod 10)]"
    using assms by (simp add: show_nat.simps [of year])
  also have "show_nat (year div 10) = show_nat (year div 100) @ [digit (year div 10 mod 10)]"
    using assms by (simp add: show_nat.simps [of "year div 10"] div_mult2_eq [of year 10 10, simplified])
  also have "show_nat (year div 100) = two_digits (year div 100)"
    using assms by (simp add: two_digits_def show_nat_lt_100)
  moreover have "year mod 100 = 10 * (year div 10 mod 10) + year mod 10"
    using mod_mult2_eq [of year 10 10] by simp
  ultimately show ?thesis
    by (simp add: two_digits_def show_int_def)
qed

lemma nth_middle: "k < length xs \<Longrightarrow> (pre @ xs @ post) ! (length pre + k) = xs ! k"
  by (simp add: nth_append)

lemma charCodeAt_middle:
  assumes "k < length bs"
  shows "charCodeAt (latin1 (pre @ bs @ post)) (length pre + k) = Num (uint (bs ! k))"
  using assms charCodeAt_latin1 [of "length pre + k" "pre @ bs @ post"] by (simp add: nth_append)

lemma js_keyword_values:
  "js_keyword 3 = ''ts''" "js_keyword 4 = ''path''" "js_keyword 2 = ''value''"
  "js_keyword 15 = ''nuint8''" "js_keyword 16 = ''uint8''" "js_keyword 17 = ''nuint16''"
  "js_keyword 18 = ''uint16''" "js_keyword 19 = ''nuint24''" "js_keyword 20 = ''uint24''"
  "js_keyword 21 = ''nuint32''" "js_keyword 22 = ''uint32''"
  by (simp_all add: js_keyword_def keywordlist_def)

lemma latin1_nth [simp]: "i < length bs \<Longrightarrow> latin1 bs ! i = byte_char (bs ! i)"
  by (simp add: latin1_def)

text \<open>
  C3: the web client's decoder reads a timestamp that the server
  compressed as the original text, key included, and moves past its five bytes, whenever the
  client's clock is in the decade of the timestamp.
\<close>

theorem js_timestamp_roundtrip:
  assumes "ts_fields year month day hour minute second"
    and "1000 \<le> year" and "clock div 10 = int year div 10"
  shows "\<exists>c. compressTS (to_bytes (ts_token year month day hour minute second)) = Some c
    \<and> js_step clock showFloat32 (latin1 (pre @ (131 # c) @ post)) (length pre) =
        ([CHR 0x22] @ ''ts'' @ [CHR 0x22] @ '':''
           @ ts_token year month day hour minute second, length pre + 5)"
proof -
  obtain b0 b1 b2 b3 where b: "ts_packed year month day hour minute second = [b0, b1, b2, b3]"
    "b0 < 256" "b1 < 256" "b2 < 256" "b3 < 256"
    by (rule ts_packed_obtain [OF assms(1)])
  let ?c = "map word_of_nat [b0, b1, b2, b3] :: bytes"
  let ?msg = "latin1 (pre @ (131 # ?c) @ post)"
  have code: "charCodeAt ?msg (length pre + 1 + k) = Num (int ([b0, b1, b2, b3] ! k))" if "k < 4" for k
  proof -
    have "[b0, b1, b2, b3] ! k \<in> set [b0, b1, b2, b3]"
      using that by (intro nth_mem) simp
    then have "[b0, b1, b2, b3] ! k < 256" using b(2-5) by auto
    moreover have "?c ! k = word_of_nat ([b0, b1, b2, b3] ! k)"
      using that by (intro nth_map) simp
    ultimately have "uint (?c ! k) = int ([b0, b1, b2, b3] ! k)"
      by (simp add: unsigned_of_nat take_bit_nat_eq_self)
    then show ?thesis
      using charCodeAt_middle [of "k + 1" "131 # ?c" pre post] that by simp
  qed
  have "int year div 10 * 10 + int (year mod 10) = int year"
    using div_mult_mod_eq [of "int year" 10] by (simp add: zmod_int)
  then have "js_timestamp clock ?msg (length pre + 1) =
    show_int (int year) @ ''-'' @ two_digits month @ ''-'' @ two_digits day @ ''T''
      @ two_digits hour @ '':'' @ two_digits minute @ '':'' @ two_digits second @ ''Z''"
    using js_timestamp_of_bytes [of "length pre + 1" ?msg b0 b1 b2 b3 clock]
      code [of 0] code [of 1] code [of 2] code [of 3] b(2-5)
      ts_packed_fields [OF assms(1) b(1)] assms(3)
    by simp
  moreover have "year < 10000" using assms(1) by (simp add: ts_fields_def)
  ultimately show ?thesis
    using compressTS_packed [OF assms(1)] b(1)
    by (simp add: js_step_def Let_def js_keyword_values nth_append of_char_byte_char
        show_int_year [OF assms(2)] ts_token_def)
qed

lemma js_timestamp_roundtrip_witness:
  "\<exists>c. compressTS (to_bytes (ts_token 2024 5 17 13 45 59)) = Some c
    \<and> js_step 2026 (\<lambda>_. []) (latin1 ([] @ (131 # c) @ [])) (length ([] :: bytes)) =
        ([CHR 0x22] @ ''ts'' @ [CHR 0x22] @ '':'' @ ts_token 2024 5 17 13 45 59, length ([] :: bytes) + 5)"
proof -
  have "ts_fields 2024 5 17 13 45 59" by (simp add: ts_fields_def)
  then show ?thesis by (rule js_timestamp_roundtrip) simp_all
qed

section \<open>Paths\<close>

text \<open>
  The web client reads the low byte of the index twice and its high byte not at all: an index
  \<open>i\<close> comes out as \<open>2 * (i mod 256)\<close>.
\<close>

lemma js_path_index_bytes:
  shows "js_path_index (latin1 (pre @ (132 # [hi, lo]) @ post)) (length pre + 1) = Num (2 * uint lo)"
proof -
  have "charCodeAt (latin1 (pre @ (132 # [hi, lo]) @ post)) (length pre + 2) = Num (uint lo)"
    using charCodeAt_middle [of 2 "132 # [hi, lo]" pre post] by simp
  then show ?thesis by (simp add: js_path_index_def js_shl_nonneg [of 0, simplified])
qed

lemma LeafPaths_defined: "\<forall>p \<in> set LeafPaths. hd p = CHR ''V''"
proof -
  have "list_all (\<lambda>p. hd p = CHR ''V'') LeafPaths" by code_simp
  then show ?thesis by (simp only: list_all_iff)
qed

lemma uuidmap_at_eq_iff:
  assumes "i < length LeafPaths"
  shows "uuidmap_at (Num (int k)) = LeafPaths ! i \<longleftrightarrow> k = i"
proof (cases "k < length LeafPaths")
  case True
  have "distinct LeafPaths"
    using LeafPaths_sorted_wrt strict_sorted_iff by blast
  then show ?thesis using True assms by (simp add: nth_eq_iff_index_eq)
next
  case False
  have "hd (LeafPaths ! i) = CHR ''V''" using LeafPaths_defined assms by simp
  then have "LeafPaths ! i \<noteq> ''undefined''" by auto
  then show ?thesis using False assms by auto
qed

lemma LeafPaths_dotted: "i < length LeafPaths \<Longrightarrow> dotted (LeafPaths ! i) = LeafPaths ! i"
proof -
  have "list_all (\<lambda>p. list_all (\<lambda>c. c \<noteq> CHR ''/'') p) LeafPaths" by code_simp
  moreover assume "i < length LeafPaths"
  ultimately have "list_all (\<lambda>c. c \<noteq> CHR ''/'') (LeafPaths ! i)" by (simp add: list_all_length)
  then have "\<forall>c \<in> set (LeafPaths ! i). c \<noteq> CHR ''/''" by (simp only: list_all_iff)
  then show ?thesis unfolding dotted_def by (intro map_idI) (simp only: if_False)
qed

lemma twice_low_byte:
  fixes i :: nat
  assumes "i < 512"
  shows "2 * (i mod 256) = i \<longleftrightarrow> i = 0"
proof (cases "i < 256")
  case False
  then have "i mod 256 = i - 256" using assms by (simp add: mod_if)
  then show ?thesis using False assms by auto
qed simp

text \<open>
  of the leaf paths in the client's own list, the only one whose
  compressed form the web client decodes to the path itself is the first: the client reads the
  low index byte twice and never the high one.
\<close>

theorem js_path_only_first:
  assumes "i < length LeafPaths"
  shows "\<exists>c. compressPath LeafPaths (quoted (LeafPaths ! i)) = Some c \<and>
    (fst (js_step clock showFloat32 (latin1 (pre @ (132 # c) @ post)) (length pre)) =
       [CHR 0x22] @ ''path'' @ [CHR 0x22] @ '':'' @ [CHR 0x22] @ LeafPaths ! i @ [CHR 0x22]
     \<longleftrightarrow> i = 0)"
proof -
  have len: "length LeafPaths \<le> 65536" by (simp add: length_LeafPaths)
  let ?c = "[word_of_nat (i div 256), word_of_nat (i mod 256)] :: bytes"
  have c: "compressPath LeafPaths (quoted (LeafPaths ! i)) = Some ?c"
    by (rule compressPath_index [OF LeafPaths_sorted_wrt len assms LeafPaths_dotted [OF assms]])
  have "js_path_index (latin1 (pre @ (132 # ?c) @ post)) (length pre + 1) =
    Num (int (2 * (i mod 256)))"
    unfolding js_path_index_bytes by (simp add: unsigned_of_nat take_bit_nat_eq_self)
  moreover have "2 * (i mod 256) = i \<longleftrightarrow> i = 0"
    using assms length_LeafPaths by (intro twice_low_byte) simp
  moreover have "uuidmap_at (Num (int (2 * (i mod 256)))) = LeafPaths ! i \<longleftrightarrow> 2 * (i mod 256) = i"
    by (rule uuidmap_at_eq_iff [OF assms])
  ultimately have "uuidmap_at (js_path_index (latin1 (pre @ (132 # ?c) @ post)) (length pre + 1)) =
    LeafPaths ! i \<longleftrightarrow> i = 0"
    by (simp only:)
  then show ?thesis
    using c by (simp add: js_step_def Let_def js_keyword_values nth_append of_char_byte_char)
qed

lemma js_path_only_first_witness:
  "\<exists>c. compressPath LeafPaths (quoted (LeafPaths ! 1)) = Some c \<and>
    fst (js_step 2026 (\<lambda>_. []) (latin1 ([] @ (132 # c) @ [])) (length ([] :: bytes))) \<noteq>
       [CHR 0x22] @ ''path'' @ [CHR 0x22] @ '':'' @ [CHR 0x22] @ LeafPaths ! 1 @ [CHR 0x22]"
proof -
  have "1 < length LeafPaths" by (simp add: length_LeafPaths)
  from js_path_only_first [OF this, of 2026 "\<lambda>_. []" "[]" "[]"] show ?thesis by auto
qed

section \<open>Values\<close>

lemma sint_word32_high:
  assumes "2 ^ 31 \<le> i" and "i < 2 ^ 32"
  shows "sint (word_of_int i :: 32 word) = i - 2 ^ 32"
proof -
  have "word_of_int i = (word_of_int (i - 2 ^ 32) :: 32 word)"
    by (simp add: word_of_int_eq_iff take_bit_eq_mod)
  moreover have "sint (word_of_int (i - 2 ^ 32) :: 32 word) = signed_take_bit 31 (i - 2 ^ 32)"
    by (simp only: sint_sbintrunc') simp
  moreover have "signed_take_bit 31 (i - 2 ^ 32) = i - 2 ^ 32"
    using assms by (intro signed_take_bit_int_eq_self) simp_all
  ultimately show ?thesis by (simp only:)
qed

lemma js_accumulate:
  assumes "0 \<le> r" and "r < 2 ^ 24" and "0 \<le> b" and "b < 256"
  shows "js_add (js_shl (Num r) 8) (Num b) = Num (sint (word_of_int (r * 256 + b) :: 32 word))"
proof -
  have shl: "js_shl (Num r) 8 = Num (sint (word_of_int (r * 256) :: 32 word))"
    by (simp add: js_shl_def push_bit_eq_mult)
  have "sint (word_of_int (r * 256) :: 32 word) + b = sint (word_of_int (r * 256 + b) :: 32 word)"
  proof (cases "r < 2 ^ 23")
    case True
    then show ?thesis
      using assms sint_word32_nonneg [of "r * 256"] sint_word32_nonneg [of "r * 256 + b"] by simp
  next
    case False
    then show ?thesis
      using assms sint_word32_high [of "r * 256"] sint_word32_high [of "r * 256 + b"] by simp
  qed
  then show ?thesis unfolding shl js_add.simps by simp
qed

lemma js_realval_be_bytes:
  assumes "n < 2 ^ 32" and "0 < k" and "k \<le> 4"
  shows "js_realval (latin1 (pre @ be_bytes k n @ post)) (length pre) k (Num (int (n div 256 ^ k))) =
    Num (sint (word_of_int (int n) :: 32 word))"
  using assms(2,3)
proof (induction k arbitrary: pre)
  case (Suc k)
  let ?r = "n div 256 ^ Suc k" and ?b = "n div 256 ^ k mod 256"
  let ?msg = "latin1 (pre @ be_bytes (Suc k) n @ post)"
  have code: "charCodeAt ?msg (length pre) = Num (int ?b)"
    using charCodeAt_middle [of 0 "be_bytes (Suc k) n" pre post]
    by (simp add: unsigned_of_nat take_bit_nat_eq_self)
  have "n div 256 ^ k = n div 256 ^ k div 256 * 256 + ?b" by simp
  also have "n div 256 ^ k div 256 = ?r" by (simp only: power_Suc2 div_mult2_eq)
  finally have rb: "?r * 256 + ?b = n div 256 ^ k" by simp
  have "n div 256 ^ k \<le> n" by (rule div_le_dividend)
  then have "?r * 256 + ?b < 2 ^ 32" unfolding rb using assms(1) by (rule le_less_trans)
  then have r: "int ?r < 2 ^ 24" by simp
  have irb: "int ?r * 256 + int ?b = int (n div 256 ^ k)" using arg_cong [OF rb, of int] by simp
  have acc: "js_add (js_shl (Num (int ?r)) 8) (Num (int ?b)) =
    Num (sint (word_of_int (int (n div 256 ^ k)) :: 32 word))"
    unfolding irb [symmetric] by (rule js_accumulate) (use r in simp_all)
  show ?case
  proof (cases k)
    case 0
    then show ?thesis using acc code by simp
  next
    case (Suc j)
    have "n div 256 ^ k \<le> n div 256"
      by (simp only: Suc power_Suc div_mult2_eq div_le_dividend)
    then have "int (n div 256 ^ k) < 2 ^ 31" using assms(1) by simp
    then have exact: "sint (word_of_int (int (n div 256 ^ k)) :: 32 word) = int (n div 256 ^ k)"
      by (intro sint_word32_nonneg) simp_all
    have "js_realval ?msg (length pre + 1) k (Num (int (n div 256 ^ k))) =
      Num (sint (word_of_int (int n) :: 32 word))"
      using Suc.IH [of "pre @ [word_of_nat ?b]"] Suc Suc.prems by simp
    then show ?thesis unfolding js_realval.simps code acc exact .
  qed
qed simp

lemma js_keyword_code:
  assumes "k = 1 \<or> k = 2 \<or> k = 3 \<or> k = 4"
  shows "js_keyword (unat (getCodeListIndex (getIntType k pos))) = getIntType k pos"
    and "12 < unat (getCodeListIndex (getIntType k pos))"
    and "unat (getCodeListIndex (getIntType k pos)) < 23"
    and "unat (getCodeListIndex (getIntType k pos) + 128) = unat (getCodeListIndex (getIntType k pos)) + 128"
  using assms by (cases pos; auto simp: getIntType_def getCodeListIndex_codes js_keyword_def keywordlist_def)+

lemma js_numvals_int:
  assumes "k = 1 \<or> k = 2 \<or> k = 3 \<or> k = 4"
  shows "js_numvals (getIntType k pos) = k" "\<not> suffix ''float'' (getIntType k pos)"
    "\<not> suffix ''bool'' (getIntType k pos)" "prefix ''n'' (getIntType k pos) \<longleftrightarrow> \<not> pos"
  using assms by (cases pos; auto simp: getIntType_def js_numvals_def suffix_def append_eq_Cons_conv Cons_eq_append_conv)+

lemma js_int_decoded:
  assumes "\<bar>v\<bar> < 2 ^ 32"
  shows "js_step clock showFloat32 (latin1 (pre @ compressIntValue (quoted (show_int v)) @ post)) (length pre) =
    ([CHR 0x22] @ sign_of v @ show_int (sint (word_of_int \<bar>v\<bar> :: 32 word)) @ [CHR 0x22],
     length pre + length (compressIntValue (quoted (show_int v))))"
proof -
  define n where "n = nat \<bar>v\<bar>"
  define k where "k = int_size n"
  have k: "k = 1 \<or> k = 2 \<or> k = 3 \<or> k = 4" unfolding k_def by (rule int_size_range)
  have v: "\<bar>v\<bar> < 2 ^ 63" using assms by simp
  have n: "n < 2 ^ 32" "int n = \<bar>v\<bar>" using assms by (simp_all add: n_def)
  have "n < 256 ^ k" using n(1) by (simp add: k_def int_size_def)
  then have z: "n div 256 ^ k = 0" by simp
  let ?code = "getCodeListIndex (getIntType k (\<not> v < 0)) + 128"
  let ?msg = "latin1 (pre @ (?code # be_bytes k n) @ post)"
  have "js_realval ?msg (length (pre @ [?code])) k (Num 0) = Num (sint (word_of_int (int n) :: 32 word))"
    using js_realval_be_bytes [OF n(1), of k "pre @ [?code]" post] k z by auto
  then have "js_value showFloat32 (getIntType k (\<not> v < 0)) ?msg (length pre + 1) =
    ([CHR 0x22] @ sign_of v @ show_int (sint (word_of_int \<bar>v\<bar> :: 32 word)) @ [CHR 0x22],
     length pre + 1 + k)"
    using k by (auto simp: js_value_def Let_def js_numvals_int [OF k] sign_of_def n(2))
  then show ?thesis
    using js_keyword_code [OF k, of "\<not> v < 0"]
    by (simp add: compressIntValue_bytes [OF v] int_code_def js_step_def Let_def nth_append
        of_char_byte_char flip: n_def k_def)
qed

text \<open>
  C6: the web client decodes an integer that the server compressed to
  the same text exactly when its magnitude is below \<open>2^31\<close>; above that, its shift by eight bits
  wraps to a negative 32-bit number.
\<close>

theorem js_int_roundtrip_iff:
  assumes "\<bar>v\<bar> < 2 ^ 32"
  shows "fst (js_step clock showFloat32
           (latin1 (pre @ compressIntValue (quoted (show_int v)) @ post)) (length pre))
        = latin1 (quoted (show_int v))
    \<longleftrightarrow> \<bar>v\<bar> < 2 ^ 31"
proof (cases "\<bar>v\<bar> < 2 ^ 31")
  case True
  then have "sint (word_of_int \<bar>v\<bar> :: 32 word) = \<bar>v\<bar>" by (intro sint_word32_nonneg) simp_all
  then show ?thesis
    using True unfolding js_int_decoded [OF assms] fst_conv latin1_quoted unfolding show_int_sign [of v]
    by (simp add: show_int_def)
next
  case False
  then have "sint (word_of_int \<bar>v\<bar> :: 32 word) = \<bar>v\<bar> - 2 ^ 32"
    using assms by (intro sint_word32_high) simp_all
  then have "show_int (sint (word_of_int \<bar>v\<bar> :: 32 word)) \<noteq> show_nat (nat \<bar>v\<bar>)"
    using assms show_nat_not_sign(1) [of "nat \<bar>v\<bar>"]
    by (auto simp: show_int_def) (metis list.sel(1))
  then show ?thesis
    using False unfolding js_int_decoded [OF assms] fst_conv latin1_quoted unfolding show_int_sign [of v] by simp
qed

lemma js_int_roundtrip_iff_witness:
  "fst (js_step 2026 (\<lambda>_. []) (latin1 ([] @ compressIntValue (quoted (show_int 70000)) @ [])) (length ([] :: bytes)))
     = latin1 (quoted (show_int 70000))
   \<and> fst (js_step 2026 (\<lambda>_. []) (latin1 ([] @ compressIntValue (quoted (show_int 3000000000)) @ [])) (length ([] :: bytes)))
     \<noteq> latin1 (quoted (show_int 3000000000))"
  using js_int_roundtrip_iff [of 70000 2026 "\<lambda>_. []" "[]" "[]"]
    js_int_roundtrip_iff [of 3000000000 2026 "\<lambda>_. []" "[]" "[]"] by simp

text \<open>
  Booleans and floats: the client's range test for value types stops at index 22, so the codes
  23 (\<open>bool\<close>) and 24 (\<open>float\<close>) that the server writes are not read as values. The type byte
  of a boolean yields nothing and its payload byte is copied into the text as a character.
\<close>

text \<open>
  the web client drops the type byte of a boolean and copies the payload
  byte into the text as a control character, so no boolean value is ever decoded.
\<close>

theorem js_bool_lost:
  "fst (js_step clock showFloat32 (latin1 (pre @ compressBoolValue (quoted s) @ post)) (length pre)) = ''''
   \<and> snd (js_step clock showFloat32 (latin1 (pre @ compressBoolValue (quoted s) @ post)) (length pre)) = length pre + 1
   \<and> js_step clock showFloat32 (latin1 (pre @ compressBoolValue (quoted s) @ post)) (length pre + 1) =
      ([if s = ''true'' then CHR 0x01 else CHR 0x00], length pre + 2)"
proof -
  have c: "compressBoolValue (quoted s) = [151, if s = ''true'' then 1 else 0]"
    by (simp add: compressBoolValue_def getCodeListIndex_codes latin1_quoted)
  have b: "byte_char 1 = CHR 0x01" "byte_char 0 = CHR 0x00" by code_simp+
  show ?thesis
    unfolding c by (simp add: js_step_def Let_def nth_append of_char_byte_char b)
qed

end
