(* ===== verification/Server_Validate.thy ===== *)
theory Server_Validate
  imports Prelude
begin

text \<open>
  The server core's first look at a request, \<open>validRequest\<close> and its helpers in
  \<open>server/vissv2server/vissv2server.go\<close>: which substrings a request of each action must hold
  before it is parsed any further. \<open>strings.Contains\<close> is \<open>contains\<close>.
\<close>

section \<open>Substrings\<close>

fun contains :: "string \<Rightarrow> string \<Rightarrow> bool" where
  "contains [] sub = (sub = [])"
| "contains (c # s) sub = (prefix sub (c # s) \<or> contains s sub)"

lemma contains_iff: "contains s sub \<longleftrightarrow> (\<exists>a b. s = a @ sub @ b)"
proof (induction s sub rule: contains.induct)
  case (2 c s sub)
  show ?case
  proof
    assume "contains (c # s) sub"
    then consider "prefix sub (c # s)" | "contains s sub" by auto
    then show "\<exists>a b. c # s = a @ sub @ b"
    proof cases
      case 1
      then show ?thesis by (metis append_Nil prefixE)
    next
      case 2
      then obtain a b where "s = a @ sub @ b" using "2.IH" by blast
      then have "c # s = (c # a) @ sub @ b" by simp
      then show ?thesis by blast
    qed
  next
    assume "\<exists>a b. c # s = a @ sub @ b"
    then obtain a b where "c # s = a @ sub @ b" by blast
    then show "contains (c # s) sub"
    proof (cases a)
      case Nil
      then have "c # s = sub @ b" using \<open>c # s = a @ sub @ b\<close> by simp
      then have "prefix sub (c # s)" by (rule prefixI)
      then show ?thesis by simp
    next
      case (Cons x xs)
      then have "s = xs @ sub @ b" using \<open>c # s = a @ sub @ b\<close> by simp
      then show ?thesis using "2.IH" by auto
    qed
  qed
qed auto

lemma contains_middle [simp]: "contains (a @ sub @ b) sub"
  by (auto simp: contains_iff)

lemma contains_append1: "contains s sub \<Longrightarrow> contains (s @ t) sub"
  unfolding contains_iff by (metis append_assoc)

lemma contains_append2: "contains t sub \<Longrightarrow> contains (s @ t) sub"
  unfolding contains_iff by (metis append_assoc)

text \<open>
  A pattern with no occurrence of a separator character does not straddle the separator.
\<close>

lemma contains_split:
  assumes "c \<notin> set sub"
  shows "contains (s @ c # t) sub \<longleftrightarrow> contains s sub \<or> contains t sub"
proof
  assume "contains (s @ c # t) sub"
  then obtain a b where eq: "s @ c # t = a @ sub @ b" unfolding contains_iff by blast
  show "contains s sub \<or> contains t sub"
  proof (cases "length a + length sub \<le> length s")
    case True
    have "take (length s) (s @ c # t) = take (length s) (a @ sub @ b)" by (simp only: eq)
    then have "s = a @ sub @ take (length s - length a - length sub) b"
      using True by simp
    then show ?thesis unfolding contains_iff by blast
  next
    case False
    have "\<not> length a \<le> length s"
    proof
      assume "length a \<le> length s"
      then have inside: "length s - length a < length sub" using False by linarith
      have "(s @ c # t) ! length s = c" by simp
      moreover have "(a @ sub @ b) ! length s = sub ! (length s - length a)"
        using inside \<open>length a \<le> length s\<close> by (simp add: nth_append)
      ultimately have "sub ! (length s - length a) = c" using eq by simp
      then show False using assms nth_mem [OF inside] by simp
    qed
    then have "drop (length s + 1) (s @ c # t) = drop (length s + 1) a @ sub @ b"
      unfolding eq by simp
    then have "t = drop (length s + 1) a @ sub @ b" by simp
    then show ?thesis unfolding contains_iff by blast
  qed
next
  assume "contains s sub \<or> contains t sub"
  then show "contains (s @ c # t) sub"
    using contains_append1 [of s sub "c # t"] contains_append2 [of t sub "s @ [c]"] by auto
qed

section \<open>Request validation\<close>

definition isValidGetFilter :: "string \<Rightarrow> bool" where
  "isValidGetFilter request =
     (if contains request ''paths'' \<and> contains request ''parameter'' then True
      else if contains request ''history'' \<and> contains request ''parameter'' then True
      else if contains request ''static-metadata'' \<and> contains request ''parameter'' then True
      else if contains request ''dynamic-metadata'' \<and> contains request ''parameter'' then True
      else False)"

definition isValidGetParams :: "string \<Rightarrow> bool" where
  "isValidGetParams request =
     (if \<not> contains request ''path'' then False
      else if contains request ''filter'' then isValidGetFilter request
      else True)"

definition isValidSetParams :: "string \<Rightarrow> bool" where
  "isValidSetParams request = (contains request ''path'' \<and> contains request ''value'')"

definition isValidSubscribeFilter :: "string \<Rightarrow> bool" where
  "isValidSubscribeFilter request =
     (if isValidGetFilter request then True
      else if contains request ''timebased''
              \<and> contains request ''parameter'' \<and> contains request ''period'' then True
      else if contains request ''range''
              \<and> contains request ''parameter'' \<and> contains request ''logic-op''
              \<and> contains request ''boundary'' then True
      else if contains request ''change''
              \<and> contains request ''parameter'' \<and> contains request ''logic-op''
              \<and> contains request ''diff'' then True
      else if contains request ''curvelog''
              \<and> contains request ''parameter'' \<and> contains request ''maxerr''
              \<and> contains request ''bufsize'' then True
      else False)"

definition isValidSubscribeParams :: "string \<Rightarrow> bool" where
  "isValidSubscribeParams request =
     (if \<not> contains request ''path'' then False
      else if contains request ''filter'' then isValidSubscribeFilter request
      else True)"

definition isValidUnsubscribeParams :: "string \<Rightarrow> bool" where
  "isValidUnsubscribeParams request = contains request ''subscriptionId''"

definition validRequest :: "string \<Rightarrow> string \<Rightarrow> bool" where
  "validRequest request action =
     (if action = ''get'' then isValidGetParams request
      else if action = ''set'' then isValidSetParams request
      else if action = ''subscribe'' then isValidSubscribeParams request
      else if action = ''unsubscribe'' then isValidUnsubscribeParams request
      else if action = ''internal-killsubscriptions'' then True
      else if action = ''internal-cancelsubscription'' then True
      else False)"

text \<open>Whatever a get request may carry, a subscribe request may carry too.\<close>

lemma subscribe_accepts_get: "validRequest r ''get'' \<Longrightarrow> validRequest r ''subscribe''"
  by (auto simp: validRequest_def isValidGetParams_def isValidSubscribeParams_def
      isValidSubscribeFilter_def split: if_splits)

end
