(* ===== verification/W3c_Clients.thy ===== *)
theory W3c_Clients
  imports Server_Validate
begin

text \<open>
  The demo clients of \<open>client/w3cDemo/js\<close>: the base class (\<open>w3c-client.js\<close>), the WebSocket
  client (\<open>ws-w3c.js\<close>) and the HTTP client (\<open>rest-w3c.js\<close>). A method is a function from the
  page it runs on to the effects it has and the exception it ends with, if any. The ids of the
  elements on the page and the state of the socket are the page; \<open>JSON.parse\<close> is the argument
  \<open>parse\<close>.
\<close>

section \<open>Values, effects, exceptions\<close>

datatype json =
    JNull
  | JBool bool
  | JNum int
  | JStr string
  | JArr "json list"
  | JObj "(string \<times> json) list"

datatype exn = TypeError | ReferenceError string | SyntaxError | InvalidStateError

text \<open>
  \<open>$(x)\<close> is called with the value of \<open>available_signals[path]\<close>: the selector of the table, or
  what a plain object inherits under that name.
\<close>

datatype target = Selector string | Inherited string

datatype effect =
    ConsoleLog json
  | ConsoleError string
  | AppendLog string string
  | SendMessage string
  | SetVal target "json option"
  | TriggerChange target
  | Ajax string string "string option"

type_synonym run = "effect list \<times> exn option"

definition andThen :: "run \<Rightarrow> run \<Rightarrow> run" where
  "andThen r s = (case snd r of None \<Rightarrow> (fst r @ fst s, snd s) | Some e \<Rightarrow> r)"

definition emit :: "effect \<Rightarrow> run" where
  "emit e = ([e], None)"

definition raise :: "exn \<Rightarrow> run" where
  "raise e = ([], Some e)"

definition skip :: run where
  "skip = ([], None)"

lemmas run_defs = andThen_def emit_def raise_def skip_def

datatype readyState = Connecting | Open | Closing | Closed

text \<open>
  \<open>available_signals\<close> is one global of the page: each of the two client scripts assigns it.
\<close>

record page =
  elementIds :: "string set"
  debug :: bool
  available_signals :: "(string \<times> string) list"
  socket :: "readyState option"

section \<open>Object access and JSON text\<close>

text \<open>
  Reading a property of a parsed value: \<open>None\<close> is the exception on \<open>null\<close>, \<open>Some None\<close> is
  \<open>undefined\<close>. A repeated key has its last value.
\<close>

fun get_prop :: "json \<Rightarrow> string \<Rightarrow> json option option" where
  "get_prop JNull k = None"
| "get_prop (JObj kvs) k = Some (map_of (rev kvs) k)"
| "get_prop _ k = Some None"

definition objectPrototype :: "string list" where
  "objectPrototype =
     [''constructor'', ''__defineGetter__'', ''__defineSetter__'', ''hasOwnProperty'',
      ''__lookupGetter__'', ''__lookupSetter__'', ''isPrototypeOf'', ''propertyIsEnumerable'',
      ''toString'', ''valueOf'', ''__proto__'', ''toLocaleString'']"

text \<open>
  Conversion of a parsed value to a string, as a property key or the text of a node:
  \<open>None\<close> is the exception of an object whose own \<open>toString\<close> is not a function. An array is
  joined with commas, \<open>null\<close> in it being empty.
\<close>

fun joinComma :: "string list \<Rightarrow> string" where
  "joinComma [] = []"
| "joinComma [x] = x"
| "joinComma (x # xs) = x @ '','' @ joinComma xs"

fun allSome :: "'a option list \<Rightarrow> 'a list option" where
  "allSome [] = Some []"
| "allSome (None # xs) = None"
| "allSome (Some x # xs) = map_option ((#) x) (allSome xs)"

fun to_string :: "json \<Rightarrow> string option" where
  "to_string JNull = Some ''null''"
| "to_string (JBool b) = Some (if b then ''true'' else ''false'')"
| "to_string (JNum n) = Some (show_int n)"
| "to_string (JStr s) = Some s"
| "to_string (JArr vs) =
     map_option joinComma
       (allSome (map (\<lambda>v. if v = JNull then Some [] else to_string v) vs))"
| "to_string (JObj kvs) =
     (if ''toString'' \<in> fst ` set kvs then None else Some ''[object Object]'')"

definition property_key :: "json option \<Rightarrow> string option" where
  "property_key v = (case v of None \<Rightarrow> Some ''undefined'' | Some j \<Rightarrow> to_string j)"

text \<open>
  \<open>path in available_signals\<close>, with the value found: an own entry, or a name every object
  inherits.
\<close>

definition signal_target :: "page \<Rightarrow> string \<Rightarrow> target option" where
  "signal_target pg key =
     (case map_of (rev (available_signals pg)) key of
        Some selector \<Rightarrow> Some (Selector selector)
      | None \<Rightarrow> if key \<in> set objectPrototype then Some (Inherited key) else None)"

definition hex_digit :: "nat \<Rightarrow> char" where
  "hex_digit n = ''0123456789abcdef'' ! n"

text \<open>\<open>JSON.stringify\<close> of a string.\<close>

definition json_escape :: "char \<Rightarrow> string" where
  "json_escape c =
     (let n = of_char c :: nat in
      if n = 34 then [CHR 0x5C, CHR 0x22]
      else if n = 92 then [CHR 0x5C, CHR 0x5C]
      else if n = 8 then [CHR 0x5C, CHR ''b'']
      else if n = 9 then [CHR 0x5C, CHR ''t'']
      else if n = 10 then [CHR 0x5C, CHR ''n'']
      else if n = 12 then [CHR 0x5C, CHR ''f'']
      else if n = 13 then [CHR 0x5C, CHR ''r'']
      else if n < 32 then [CHR 0x5C, CHR ''u'', CHR ''0'', CHR ''0'', hex_digit (n div 16), hex_digit (n mod 16)]
      else [c])"

definition json_string :: "string \<Rightarrow> string" where
  "json_string s = CHR 0x22 # concat (map json_escape s) @ [CHR 0x22]"

text \<open>\<open>JSON.stringify\<close> of a flat object whose values are already text.\<close>

fun json_fields :: "(string \<times> string) list \<Rightarrow> string" where
  "json_fields [] = []"
| "json_fields [(k, v)] = json_string k @ '':'' @ v"
| "json_fields ((k, v) # kvs) = json_string k @ '':'' @ v @ '','' @ json_fields kvs"

definition json_object :: "(string \<times> string) list \<Rightarrow> string" where
  "json_object kvs = ''{'' @ json_fields kvs @ ''}''"

section \<open>The base class\<close>

text \<open>
  \<open>handleRequest\<close> switches on the action and does nothing in any case; it logs the request
  when the global \<open>debug\<close> is set.
\<close>

definition W3CClient_new :: "bool \<Rightarrow> page \<Rightarrow> page" where
  "W3CClient_new dbg pg = pg\<lparr>debug := dbg\<rparr>"

definition handleRequest :: "page \<Rightarrow> json \<Rightarrow> run" where
  "handleRequest pg request =
     (case get_prop request ''action'' of
        None \<Rightarrow> raise TypeError
      | Some _ \<Rightarrow> if debug pg then emit (ConsoleLog request) else skip)"

section \<open>The WebSocket client\<close>

definition ws_load :: "page \<Rightarrow> page" where
  "ws_load pg = pg\<lparr>available_signals := [(''Speed'', ''#ws-speedometer'')]\<rparr>"

definition ws_setup :: "page \<Rightarrow> page" where
  "ws_setup pg = pg\<lparr>socket := Some Connecting\<rparr>"

definition websocket_onclose :: run where
  "websocket_onclose = emit (ConsoleError ''Socket closed'')"

text \<open>\<open>this.socket.send(msg)\<close>: throws while connecting, drops the message once closing.\<close>

definition socket_send :: "page \<Rightarrow> string \<Rightarrow> run" where
  "socket_send pg msg =
     (case socket pg of
        None \<Rightarrow> raise TypeError
      | Some Connecting \<Rightarrow> raise InvalidStateError
      | Some Open \<Rightarrow> emit (SendMessage msg)
      | Some _ \<Rightarrow> skip)"

definition ws_addLog :: "page \<Rightarrow> string \<Rightarrow> string \<Rightarrow> run" where
  "ws_addLog pg v log_id =
     andThen (emit (ConsoleLog (JStr v)))
       (if log_id \<in> elementIds pg then emit (AppendLog log_id v) else raise TypeError)"

definition updateSpeedometerValue :: "target \<Rightarrow> json option \<Rightarrow> run" where
  "updateSpeedometerValue t v = andThen (emit (SetVal t v)) (emit (TriggerChange t))"

text \<open>The two equal branches of the handlers' \<open>switch\<close>.\<close>

definition dispatch_signal :: "page \<Rightarrow> json \<Rightarrow> run" where
  "dispatch_signal pg request =
     (case get_prop request ''action'' of
        None \<Rightarrow> raise TypeError
      | Some action \<Rightarrow>
          if action = Some (JStr ''get'') \<or> action = Some (JStr ''subscription'')
          then (case get_prop request ''path'' of
                  None \<Rightarrow> raise TypeError
                | Some path \<Rightarrow>
                    (case property_key path of
                       None \<Rightarrow> raise TypeError
                     | Some key \<Rightarrow>
                         (case signal_target pg key of
                            None \<Rightarrow> skip
                          | Some t \<Rightarrow>
                              (case get_prop request ''value'' of
                                 None \<Rightarrow> raise TypeError
                               | Some v \<Rightarrow> updateSpeedometerValue t v))))
          else skip)"

definition websocket_onmessage :: "(string \<Rightarrow> json option) \<Rightarrow> page \<Rightarrow> string \<Rightarrow> run" where
  "websocket_onmessage parse pg data =
     (case parse data of
        None \<Rightarrow> raise SyntaxError
      | Some request \<Rightarrow>
          andThen (handleRequest pg request)
            (andThen (ws_addLog pg data ''ws-receive-log-list'')
               (dispatch_signal pg request)))"

definition get_message :: "string \<Rightarrow> string" where
  "get_message path =
     json_object [(''action'', json_string ''get''), (''path'', json_string path), (''requestId'', ''234'')]"

definition set_message :: "string \<Rightarrow> string \<Rightarrow> string" where
  "set_message path v =
     json_object [(''action'', json_string ''set''), (''path'', json_string path), (''value'', json_string v),
                  (''requestId'', ''234'')]"

definition subscribe_message :: "string \<Rightarrow> string" where
  "subscribe_message path =
     json_object [(''action'', json_string ''subscribe''), (''path'', json_string path), (''requestId'', ''234'')]"

definition unsubscribe_message :: "string \<Rightarrow> string" where
  "unsubscribe_message subscriptionid =
     json_object [(''action'', json_string ''unsubscribe''),
                  (''subscriptionid'', json_string subscriptionid), (''requestId'', ''234'')]"

definition ws_requestGet :: "page \<Rightarrow> string \<Rightarrow> run" where
  "ws_requestGet pg path =
     (let msg = get_message path
      in andThen (socket_send pg msg) (ws_addLog pg msg ''ws-send-log-list''))"

text \<open>
  The other three methods call \<open>socket.send\<close> and not \<open>this.socket.send\<close>. No script of the demo
  declares a global \<open>socket\<close>, so evaluating that name throws. \<open>globals\<close> are the names that
  the page declares, each with the socket it holds.
\<close>

definition global_send :: "(string \<rightharpoonup> readyState) \<Rightarrow> page \<Rightarrow> string \<Rightarrow> run" where
  "global_send globals pg msg =
     (case globals ''socket'' of
        None \<Rightarrow> raise (ReferenceError ''socket'')
      | Some s \<Rightarrow> socket_send (pg\<lparr>socket := Some s\<rparr>) msg)"

definition ws_requestSet :: "(string \<rightharpoonup> readyState) \<Rightarrow> page \<Rightarrow> string \<Rightarrow> string \<Rightarrow> run" where
  "ws_requestSet globals pg path v = global_send globals pg (set_message path v)"

definition ws_subscribe :: "(string \<rightharpoonup> readyState) \<Rightarrow> page \<Rightarrow> string \<Rightarrow> run" where
  "ws_subscribe globals pg path =
     (let msg = subscribe_message path
      in andThen (global_send globals pg msg) (ws_addLog pg msg ''ws-send-log-list''))"

definition ws_unsubscribe :: "(string \<rightharpoonup> readyState) \<Rightarrow> page \<Rightarrow> string \<Rightarrow> run" where
  "ws_unsubscribe globals pg subscriptionid =
     global_send globals pg (unsubscribe_message subscriptionid)"

section \<open>The HTTP client\<close>

definition rest_load :: "page \<Rightarrow> page" where
  "rest_load pg = pg\<lparr>available_signals := [(''Speed'', ''#rest-speedometer'')]\<rparr>"

definition rest_addLog :: "page \<Rightarrow> json \<Rightarrow> string \<Rightarrow> run" where
  "rest_addLog pg v log_id =
     (case to_string v of
        None \<Rightarrow> raise TypeError
      | Some txt \<Rightarrow>
          if log_id \<in> elementIds pg then emit (AppendLog log_id txt) else raise TypeError)"

definition send_get_request :: "string \<Rightarrow> run" where
  "send_get_request request = emit (Ajax ''GET'' (''http://localhost:8888/'' @ request) None)"

text \<open>The body of the POST is the constant \<open>"123"\<close>; the value is not used.\<close>

definition send_post_request :: "string \<Rightarrow> string \<Rightarrow> run" where
  "send_post_request request v =
     emit (Ajax ''POST'' (''http://localhost:8888/'' @ request) (Some ''123''))"

definition ajax_error :: run where
  "ajax_error = emit (ConsoleLog (JStr ''error''))"

definition message_success :: "page \<Rightarrow> json \<Rightarrow> run" where
  "message_success pg request =
     andThen (handleRequest pg request)
       (andThen (rest_addLog pg request ''rest-receive-log-list'')
          (dispatch_signal pg request))"

definition rest_requestGet :: "page \<Rightarrow> string \<Rightarrow> run" where
  "rest_requestGet pg path =
     andThen (rest_addLog pg (JStr path) ''rest-send-log-list'') (send_get_request path)"

definition rest_requestSet :: "page \<Rightarrow> string \<Rightarrow> string \<Rightarrow> run" where
  "rest_requestSet pg path v =
     andThen (rest_addLog pg (JStr (path @ '', data: '' @ v)) ''rest-send-log-list'')
       (send_post_request path v)"

end
