(* ===== verification/W3c_Session.thy ===== *)
theory W3c_Session
  imports W3c_Clients
begin

text \<open>
  Properties of the demo clients: which of their messages the server's \<open>validRequest\<close> accepts,
  what a page driven by any sequence of calls and socket events sends, and when a received
  message moves the speedometer.
\<close>

section \<open>Messages against the server's first check\<close>

definition escaped :: "string \<Rightarrow> string" where
  "escaped s = concat (map json_escape s)"

lemma json_string_escaped: "json_string s = CHR 0x22 # escaped s @ [CHR 0x22]"
  by (simp add: json_string_def escaped_def)

lemma contains_json_string:
  assumes "CHR 0x22 \<notin> set sub" "sub \<noteq> []"
  shows "contains (a @ json_string s @ b) sub
    \<longleftrightarrow> contains a sub \<or> contains (escaped s) sub \<or> contains b sub"
proof -
  have "a @ json_string s @ b = a @ CHR 0x22 # (escaped s @ CHR 0x22 # b)"
    by (simp add: json_string_escaped)
  then show ?thesis using contains_split [OF assms(1)] by metis
qed

lemma contains_Cons_quote:
  assumes "CHR 0x22 \<notin> set sub" "sub \<noteq> []"
  shows "contains (json_string s @ b) sub \<longleftrightarrow> contains (escaped s) sub \<or> contains b sub"
proof -
  have "contains [] sub = False" using assms(2) by simp
  then show ?thesis using contains_json_string [OF assms, of "[]" s b] by simp
qed

lemma escaped_words:
  "escaped ''action'' = ''action''" "escaped ''path'' = ''path''" "escaped ''value'' = ''value''"
  "escaped ''requestId'' = ''requestId''" "escaped ''subscriptionid'' = ''subscriptionid''"
  "escaped ''get'' = ''get''" "escaped ''set'' = ''set''" "escaped ''subscribe'' = ''subscribe''"
  "escaped ''unsubscribe'' = ''unsubscribe''"
  by code_simp+

lemmas message_defs = get_message_def set_message_def subscribe_message_def unsubscribe_message_def
  json_object_def json_fields.simps

lemma contains_Cons_other:
  assumes "c \<notin> set sub" shows "contains (c # t) sub \<longleftrightarrow> sub = [] \<or> contains t sub"
  using contains_split [OF assms, of "[]" t] by simp

lemmas contains_message = message_defs contains_json_string contains_Cons_quote escaped_words
  contains_Cons_other

lemma contains_get_message:
  "contains (get_message p) ''path''"
  "contains (get_message p) ''filter'' \<longleftrightarrow> contains (escaped p) ''filter''"
  "contains (get_message p) ''parameter'' \<longleftrightarrow> contains (escaped p) ''parameter''"
  "contains (get_message p) ''paths'' \<longleftrightarrow> contains (escaped p) ''paths''"
  "contains (get_message p) ''history'' \<longleftrightarrow> contains (escaped p) ''history''"
  "contains (get_message p) ''static-metadata'' \<longleftrightarrow> contains (escaped p) ''static-metadata''"
  "contains (get_message p) ''dynamic-metadata'' \<longleftrightarrow> contains (escaped p) ''dynamic-metadata''"
  by (simp_all add: contains_message)

lemma contains_set_message:
  "contains (set_message p v) ''path''" "contains (set_message p v) ''value''"
  by (simp_all add: contains_message)

lemma contains_unsubscribe_message:
  "contains (unsubscribe_message i) ''subscriptionId'' \<longleftrightarrow> contains (escaped i) ''subscriptionId''"
  by (simp add: contains_message)

text \<open>
  The server's first check accepts the WebSocket client's get message exactly when the
  escaped path does not mention a filter, or mentions a complete get filter. The rest of the
  message (keys, quotes, request id) never decides the outcome.
\<close>

theorem client_get_accepted_iff:
  "validRequest (get_message path) ''get'' \<longleftrightarrow>
     (contains (escaped path) ''filter'' \<longrightarrow>
        contains (escaped path) ''parameter'' \<and>
        (contains (escaped path) ''paths'' \<or> contains (escaped path) ''history'' \<or>
         contains (escaped path) ''static-metadata'' \<or> contains (escaped path) ''dynamic-metadata''))"
  by (auto simp: validRequest_def isValidGetParams_def isValidGetFilter_def contains_get_message)

theorem client_get_accepted_iff_witness:
  "validRequest (get_message ''Vehicle.Speed'') ''get''"
proof -
  have "\<not> contains (escaped ''Vehicle.Speed'') ''filter''" by code_simp
  then show ?thesis by (simp only: client_get_accepted_iff simp_thms)
qed

text \<open>
  C12: The client's unsubscribe message passes the server's first check only when the
  subscription id itself holds the text \<open>subscriptionId\<close>: the key the client writes is
  \<open>subscriptionid\<close>. The set message always passes.
\<close>

theorem client_set_unsubscribe_accepted:
  "validRequest (set_message path v) ''set'' \<and>
   (validRequest (unsubscribe_message i) ''unsubscribe'' \<longleftrightarrow> contains (escaped i) ''subscriptionId'')"
  by (simp_all add: validRequest_def isValidSetParams_def isValidUnsubscribeParams_def
      contains_set_message contains_unsubscribe_message)

section \<open>A page and its socket\<close>

text \<open>
  What can happen to a page with a \<open>W3CWebSocket\<close>: the calls its scripts make and the events of
  its socket. Each step has the effects and exception of the code that runs; an exception ends
  only that call.
\<close>

datatype ws_event =
    CallSetup
  | CallGet string
  | CallSet string string
  | CallSubscribe string
  | CallUnsubscribe string
  | SocketOpened
  | MessageArrived string
  | SocketClosed

inductive ws_step ::
  "(string \<rightharpoonup> readyState) \<Rightarrow> (string \<Rightarrow> json option) \<Rightarrow> page \<Rightarrow> ws_event \<Rightarrow> run \<Rightarrow> page \<Rightarrow> bool"
  for globals parse where
  step_setup: "ws_step globals parse pg CallSetup skip (ws_setup pg)"
| step_get: "ws_step globals parse pg (CallGet p) (ws_requestGet pg p) pg"
| step_set: "ws_step globals parse pg (CallSet p v) (ws_requestSet globals pg p v) pg"
| step_subscribe: "ws_step globals parse pg (CallSubscribe p) (ws_subscribe globals pg p) pg"
| step_unsubscribe: "ws_step globals parse pg (CallUnsubscribe i) (ws_unsubscribe globals pg i) pg"
| step_opened: "socket pg = Some Connecting \<Longrightarrow>
    ws_step globals parse pg SocketOpened skip (pg\<lparr>socket := Some Open\<rparr>)"
| step_message: "socket pg = Some Open \<Longrightarrow>
    ws_step globals parse pg (MessageArrived d) (websocket_onmessage parse pg d) pg"
| step_closed: "socket pg \<noteq> None \<Longrightarrow> socket pg \<noteq> Some Closed \<Longrightarrow>
    ws_step globals parse pg SocketClosed websocket_onclose (pg\<lparr>socket := Some Closed\<rparr>)"

inductive_cases ws_stepE: "ws_step globals parse pg ev r pg'"

inductive ws_session ::
  "(string \<rightharpoonup> readyState) \<Rightarrow> (string \<Rightarrow> json option) \<Rightarrow> page \<Rightarrow> (ws_event \<times> run) list \<Rightarrow> page \<Rightarrow> bool"
  for globals parse pg where
  session_start: "ws_session globals parse pg [] pg"
| session_step: "ws_session globals parse pg tr pg1 \<Longrightarrow> ws_step globals parse pg1 ev r pg2 \<Longrightarrow>
    ws_session globals parse pg (tr @ [(ev, r)]) pg2"

text \<open>The messages sent and the elements written to, in order.\<close>

fun sent_of :: "effect list \<Rightarrow> string list" where
  "sent_of [] = []"
| "sent_of (SendMessage m # es) = m # sent_of es"
| "sent_of (_ # es) = sent_of es"

fun shown_of :: "effect list \<Rightarrow> (target \<times> json option) list" where
  "shown_of [] = []"
| "shown_of (SetVal t v # es) = (t, v) # shown_of es"
| "shown_of (_ # es) = shown_of es"

lemma sent_of_append [simp]: "sent_of (xs @ ys) = sent_of xs @ sent_of ys"
  by (induction xs rule: sent_of.induct) auto

lemma shown_of_append [simp]: "shown_of (xs @ ys) = shown_of xs @ shown_of ys"
  by (induction xs rule: shown_of.induct) auto

definition sent :: "(ws_event \<times> run) list \<Rightarrow> string list" where
  "sent tr = concat (map (\<lambda>(ev, r). sent_of (fst r)) tr)"

definition shown :: "(ws_event \<times> run) list \<Rightarrow> (target \<times> json option) list" where
  "shown tr = concat (map (\<lambda>(ev, r). shown_of (fst r)) tr)"

text \<open>
  The specification: a session is read off the events alone, with one bit for whether the
  latest socket is open. A setup makes a new socket, not yet open.
\<close>

fun open_after :: "bool \<Rightarrow> ws_event \<Rightarrow> bool" where
  "open_after b CallSetup = False"
| "open_after b SocketOpened = True"
| "open_after b SocketClosed = False"
| "open_after b _ = b"

fun expected_sent :: "bool \<Rightarrow> ws_event list \<Rightarrow> string list" where
  "expected_sent b [] = []"
| "expected_sent b (CallGet p # evs) = (if b then [get_message p] else []) @ expected_sent b evs"
| "expected_sent b (ev # evs) = expected_sent (open_after b ev) evs"

lemma expected_sent_snoc:
  "expected_sent b (evs @ [ev]) = expected_sent b evs @
     (case ev of CallGet p \<Rightarrow> if fold (\<lambda>e c. open_after c e) evs b then [get_message p] else [] | _ \<Rightarrow> [])"
  by (induction b evs rule: expected_sent.induct) (cases ev; simp)+

lemma run_sent:
  "sent_of (fst (andThen r s)) = sent_of (fst r) @ (if snd r = None then sent_of (fst s) else [])"
  by (simp add: andThen_def split: option.splits)

lemma sends_nothing [simp]:
  "sent_of (fst skip) = []" "sent_of (fst (raise e)) = []"
  "sent_of (fst (ws_addLog pg v l)) = []"
  "sent_of (fst (updateSpeedometerValue t w)) = []"
  "sent_of (fst (handleRequest pg j)) = []"
  "sent_of (fst (dispatch_signal pg j)) = []"
  "sent_of (fst (websocket_onmessage parse pg d)) = []"
  "sent_of (fst websocket_onclose) = []"
  by (auto simp: run_defs ws_addLog_def updateSpeedometerValue_def handleRequest_def
      dispatch_signal_def websocket_onmessage_def websocket_onclose_def
      split: option.splits)

lemma step_sent:
  assumes "ws_step globals parse pg ev r pg'" "globals ''socket'' = None"
  shows "sent_of (fst r) =
    (case ev of CallGet p \<Rightarrow> if socket pg = Some Open then [get_message p] else [] | _ \<Rightarrow> [])"
  using assms
  by cases (auto simp: ws_requestGet_def Let_def run_sent socket_send_def emit_def ws_requestSet_def
      ws_subscribe_def ws_unsubscribe_def global_send_def split: option.splits readyState.splits)

lemma step_open:
  assumes "ws_step globals parse pg ev r pg'"
  shows "(socket pg' = Some Open) = open_after (socket pg = Some Open) ev"
  using assms by cases (auto simp: ws_setup_def)

lemma session_invariant:
  assumes "ws_session globals parse pg0 tr pg" "globals ''socket'' = None"
  shows "sent tr = expected_sent (socket pg0 = Some Open) (map fst tr) \<and>
    (socket pg = Some Open) = fold (\<lambda>e c. open_after c e) (map fst tr) (socket pg0 = Some Open)"
  using assms(1)
proof induction
  case session_start
  then show ?case by (simp add: sent_def)
next
  case (session_step tr pg1 ev r pg2)
  then show ?case
    using step_sent [OF session_step.hyps(2) assms(2)] step_open [OF session_step.hyps(2)]
    by (simp add: sent_def expected_sent_snoc split: ws_event.splits)
qed

text \<open>
  C28: On a page that declares no global \<open>socket\<close>, whatever is called and whatever the socket
  does, in any order, what goes out on the wire is exactly one get message per \<open>requestGet\<close>
  made while the latest socket is open. No set, subscribe or unsubscribe request is ever sent.
\<close>

theorem session_sends_only_gets:
  assumes "globals ''socket'' = None"
    and "ws_session globals parse pg0 tr pg" and "socket pg0 = None"
  shows "sent tr = expected_sent False (map fst tr)"
  using session_invariant [OF assms(2,1)] assms(3) by simp

definition demo_page :: page where
  "demo_page = \<lparr>elementIds = {''ws-send-log-list'', ''ws-receive-log-list''}, debug = False,
     available_signals = [(''Speed'', ''#ws-speedometer'')], socket = None\<rparr>"

theorem session_sends_only_gets_witness:
  "\<exists>tr pg. ws_session (\<lambda>_. None) (\<lambda>_. None) demo_page tr pg \<and>
     map fst tr = [CallGet ''A'', CallSetup, SocketOpened, CallGet ''B'', CallSubscribe ''C''] \<and>
     sent tr = [get_message ''B'']"
proof -
  let ?S = "ws_session (\<lambda>_. None) (\<lambda>_. None) demo_page"
  let ?p1 = "ws_setup demo_page"
  let ?p2 = "?p1\<lparr>socket := Some Open\<rparr>"
  let ?t1 = "[] @ [(CallGet ''A'', ws_requestGet demo_page ''A'')]"
  let ?t2 = "?t1 @ [(CallSetup, skip)]"
  let ?t3 = "?t2 @ [(SocketOpened, skip)]"
  let ?t4 = "?t3 @ [(CallGet ''B'', ws_requestGet ?p2 ''B'')]"
  let ?t5 = "?t4 @ [(CallSubscribe ''C'', ws_subscribe (\<lambda>_. None) ?p2 ''C'')]"
  have "?S ?t1 demo_page" by (intro session_step [OF session_start] step_get)
  then have "?S ?t2 ?p1" by (rule session_step) (rule step_setup)
  then have "?S ?t3 ?p2" by (rule session_step) (rule step_opened, simp add: ws_setup_def)
  then have "?S ?t4 ?p2" by (rule session_step) (rule step_get)
  then have *: "?S ?t5 ?p2" by (rule session_step) (rule step_subscribe)
  have "sent ?t5 = expected_sent False (map fst ?t5)"
    by (rule session_sends_only_gets [OF _ *]) (simp_all add: demo_page_def)
  then have "sent ?t5 = [get_message ''B'']" by simp
  with * show ?thesis by (intro exI [of _ ?t5] exI [of _ ?p2]) simp
qed

section \<open>Received messages\<close>

lemma shown_run:
  "shown_of (fst (andThen r s)) = shown_of (fst r) @ (if snd r = None then shown_of (fst s) else [])"
  by (simp add: andThen_def split: option.splits)

lemma snd_andThen: "snd (andThen r s) = (if snd r = None then snd s else snd r)"
  by (simp add: andThen_def split: option.splits)

text \<open>
  The signal a message reports: a get or subscription object whose path, as a property key,
  is a table entry.
\<close>

fun reported :: "page \<Rightarrow> json \<Rightarrow> (target \<times> json option) list" where
  "reported pg (JObj kvs) =
     (let field = map_of (rev kvs) in
      if field ''action'' \<in> {Some (JStr ''get''), Some (JStr ''subscription'')} then
        (case Option.bind (property_key (field ''path'')) (signal_target pg) of
           None \<Rightarrow> []
         | Some t \<Rightarrow> [(t, field ''value'')])
      else [])"
| "reported pg _ = []"

lemma shows_nothing [simp]:
  "shown_of (fst skip) = []" "shown_of (fst (raise e)) = []"
  "shown_of (fst (ws_addLog pg v l)) = []"
  "shown_of (fst (rest_addLog pg j l)) = []"
  "shown_of (fst (handleRequest pg j)) = []"
  by (auto simp: run_defs ws_addLog_def rest_addLog_def handleRequest_def split: option.splits)

lemma shown_update [simp]: "shown_of (fst (updateSpeedometerValue t v)) = [(t, v)]"
  by (simp add: updateSpeedometerValue_def run_defs)

lemma shown_dispatch: "shown_of (fst (dispatch_signal pg j)) = reported pg j"
  by (cases j) (auto simp: dispatch_signal_def Let_def split: option.splits)

lemma handleRequest_ok: "snd (handleRequest pg j) = None \<longleftrightarrow> j \<noteq> JNull"
  by (cases j) (simp_all add: handleRequest_def run_defs)

lemma ws_addLog_ok: "snd (ws_addLog pg v l) = None \<longleftrightarrow> l \<in> elementIds pg"
  by (simp add: ws_addLog_def run_defs)

lemma rest_addLog_ok: "snd (rest_addLog pg j l) = None \<longleftrightarrow> to_string j \<noteq> None \<and> l \<in> elementIds pg"
  by (simp add: rest_addLog_def run_defs split: option.splits)

text \<open>
  A message received over the WebSocket changes the speedometer exactly when it parses,
  the page has the receive log, and the message reports a signal; it then sets that one
  signal to the message's value. An unparsable message or a missing log changes nothing.
\<close>

theorem onmessage_shows:
  "shown_of (fst (websocket_onmessage parse pg data)) =
     (case parse data of
        None \<Rightarrow> []
      | Some j \<Rightarrow> if ''ws-receive-log-list'' \<in> elementIds pg then reported pg j else [])"
proof (cases "parse data")
  case (Some j)
  show ?thesis
    by (cases "j = JNull")
      (simp_all add: Some websocket_onmessage_def shown_run snd_andThen ws_addLog_ok
        handleRequest_ok shown_dispatch)
qed (simp add: websocket_onmessage_def)

text \<open>
  C14: The HTTP client's success handler moves the speedometer for the same messages, but a
  message whose text conversion throws (an object with a \<open>toString\<close> entry) is lost before it
  is looked at.
\<close>

theorem message_success_shows:
  "shown_of (fst (message_success pg j)) =
     (if ''rest-receive-log-list'' \<in> elementIds pg \<and> to_string j \<noteq> None then reported pg j else [])"
  by (cases "j = JNull")
    (auto simp: message_success_def shown_run snd_andThen rest_addLog_ok handleRequest_ok
      shown_dispatch)

fun posted :: "effect list \<Rightarrow> (string \<times> string option) list" where
  "posted [] = []"
| "posted (Ajax m u d # es) = (if m = ''POST'' then [(u, d)] else []) @ posted es"
| "posted (_ # es) = posted es"

text \<open>
  Two set requests of the HTTP client for one path put the same bytes on the wire, whatever
  the two values are: the value reaches the log only.
\<close>

theorem requestSet_value_not_sent:
  "posted (fst (rest_requestSet pg path v)) = posted (fst (rest_requestSet pg path w))"
  by (simp add: rest_requestSet_def rest_addLog_def send_post_request_def run_defs)

end
