(* ===== verification/Js_Number.thy ===== *)
theory Js_Number
  imports Prelude
begin

text \<open>
  JavaScript numbers for the browser code that computes with coordinates: a real, an infinity
  or not-a-number. Rounding and the sign of zero are not modelled; everything else of the
  arithmetic is, so that a division by zero or an \<open>undefined\<close> coordinate has the value the
  code gives it. \<open>undefined\<close> is converted to \<open>JsNaN\<close> where the code computes with it.
\<close>

datatype jsreal = JsNaN | PosInf | NegInf | Fin real

fun jr_neg :: "jsreal \<Rightarrow> jsreal" where
  "jr_neg JsNaN = JsNaN"
| "jr_neg PosInf = NegInf"
| "jr_neg NegInf = PosInf"
| "jr_neg (Fin a) = Fin (- a)"

fun jr_add :: "jsreal \<Rightarrow> jsreal \<Rightarrow> jsreal" where
  "jr_add (Fin a) (Fin b) = Fin (a + b)"
| "jr_add JsNaN _ = JsNaN"
| "jr_add _ JsNaN = JsNaN"
| "jr_add PosInf NegInf = JsNaN"
| "jr_add NegInf PosInf = JsNaN"
| "jr_add PosInf _ = PosInf"
| "jr_add _ PosInf = PosInf"
| "jr_add NegInf _ = NegInf"
| "jr_add _ NegInf = NegInf"

definition jr_sub :: "jsreal \<Rightarrow> jsreal \<Rightarrow> jsreal" where
  "jr_sub a b = jr_add a (jr_neg b)"

text \<open>The infinity with the sign of a real; not a number at zero.\<close>

definition inf_of :: "real \<Rightarrow> jsreal" where
  "inf_of a = (if a > 0 then PosInf else if a < 0 then NegInf else JsNaN)"

fun jr_mul :: "jsreal \<Rightarrow> jsreal \<Rightarrow> jsreal" where
  "jr_mul (Fin a) (Fin b) = Fin (a * b)"
| "jr_mul JsNaN _ = JsNaN"
| "jr_mul _ JsNaN = JsNaN"
| "jr_mul PosInf PosInf = PosInf"
| "jr_mul PosInf NegInf = NegInf"
| "jr_mul NegInf PosInf = NegInf"
| "jr_mul NegInf NegInf = PosInf"
| "jr_mul PosInf (Fin b) = inf_of b"
| "jr_mul NegInf (Fin b) = inf_of (- b)"
| "jr_mul (Fin a) PosInf = inf_of a"
| "jr_mul (Fin a) NegInf = inf_of (- a)"

text \<open>The divisor zero is the positive zero.\<close>

fun jr_div :: "jsreal \<Rightarrow> jsreal \<Rightarrow> jsreal" where
  "jr_div (Fin a) (Fin b) = (if b = 0 then inf_of a else Fin (a / b))"
| "jr_div JsNaN _ = JsNaN"
| "jr_div _ JsNaN = JsNaN"
| "jr_div (Fin a) _ = Fin 0"
| "jr_div PosInf (Fin b) = (if b < 0 then NegInf else PosInf)"
| "jr_div NegInf (Fin b) = (if b < 0 then PosInf else NegInf)"
| "jr_div _ _ = JsNaN"

text \<open>Comparisons; each is false when an operand is not a number.\<close>

fun jr_less :: "jsreal \<Rightarrow> jsreal \<Rightarrow> bool" where
  "jr_less (Fin a) (Fin b) = (a < b)"
| "jr_less (Fin a) PosInf = True"
| "jr_less NegInf (Fin b) = True"
| "jr_less NegInf PosInf = True"
| "jr_less _ _ = False"

fun jr_le :: "jsreal \<Rightarrow> jsreal \<Rightarrow> bool" where
  "jr_le JsNaN _ = False"
| "jr_le _ JsNaN = False"
| "jr_le a b = (a = b \<or> (case (a, b) of (Fin x, Fin y) \<Rightarrow> x \<le> y | _ \<Rightarrow> jr_less a b))"

definition isFinite :: "jsreal \<Rightarrow> bool" where
  "isFinite a = (case a of Fin _ \<Rightarrow> True | _ \<Rightarrow> False)"

text \<open>\<open>Math.max\<close> and \<open>Math.min\<close> of two numbers.\<close>

definition jr_max :: "jsreal \<Rightarrow> jsreal \<Rightarrow> jsreal" where
  "jr_max a b = (if a = JsNaN \<or> b = JsNaN then JsNaN else if jr_less a b then b else a)"

definition jr_min :: "jsreal \<Rightarrow> jsreal \<Rightarrow> jsreal" where
  "jr_min a b = (if a = JsNaN \<or> b = JsNaN then JsNaN else if jr_less b a then b else a)"

lemma jr_Fin [simp]:
  "jr_sub (Fin a) (Fin b) = Fin (a - b)"
  "jr_max (Fin a) (Fin b) = Fin (max a b)"
  "jr_min (Fin a) (Fin b) = Fin (min a b)"
  "isFinite (Fin a)"
  by (simp_all add: jr_sub_def jr_max_def jr_min_def isFinite_def)

lemma jr_le_Fin [simp]: "jr_le (Fin a) (Fin b) \<longleftrightarrow> a \<le> b"
  by auto

lemma jr_le_PosInf [simp]: "jr_le (Fin a) PosInf" "\<not> jr_le (Fin a) NegInf"
  by auto

lemma jr_add_NaN [simp]: "jr_add a JsNaN = JsNaN" by (cases a) simp_all

lemma jr_mul_NaN [simp]: "jr_mul a JsNaN = JsNaN" by (cases a) simp_all

lemma jr_le_NaN [simp]: "\<not> jr_le a JsNaN" by (cases a) simp_all

lemma jr_less_NaN [simp]: "\<not> jr_less a JsNaN" by (cases a) simp_all

lemma jr_sub_NaN [simp]: "jr_sub JsNaN b = JsNaN" "jr_sub a JsNaN = JsNaN"
  by (simp_all add: jr_sub_def)

definition real_of :: "jsreal \<Rightarrow> real" where
  "real_of v = (case v of Fin a \<Rightarrow> a | _ \<Rightarrow> 0)"

lemma real_of_Fin [simp]: "real_of (Fin a) = a"
  by (simp add: real_of_def)

end
