(* ===== verification/Speedometer.thy ===== *)
theory Speedometer
  imports Js_Number
begin

text \<open>
  The speedometer widget, \<open>client/w3cDemo/js/speedometer.js\<close>: its default properties, the scale
  it draws (\<open>createIndicators\<close>) and what a new value does to it (\<open>changePosition\<close>). The
  properties are numbers; a user preference replaces any of them. Both loops run to
  \<open>noOfDev = maxVal / divFact\<close>, which is infinite when \<open>divFact\<close> is zero, so both are partial.
\<close>

record properties =
  maxVal :: real
  divFact :: real
  dangerLevel :: real
  initDeg :: real
  maxDeg :: real
  edgeRadius :: real
  speedNobeH :: real
  speedoNobeW :: real
  speedoNobeL :: real
  indicatorRadius :: real
  indicatorNumbRadius :: real
  speedPositionTxtWH :: real
  nobW :: real
  nobH :: real
  numbW :: real
  numbH :: real
  midNobW :: real
  midNobH :: real
  noOfSmallDiv :: real
  eventListenerType :: string
  multiplier :: real
  gagueLabel :: string

definition defaultProperty :: properties where
  "defaultProperty =
     \<lparr>maxVal = 180, divFact = 10, dangerLevel = 120, initDeg = -45, maxDeg = 270,
      edgeRadius = 150, speedNobeH = 4, speedoNobeW = 95, speedoNobeL = 13,
      indicatorRadius = 125, indicatorNumbRadius = 90, speedPositionTxtWH = 80,
      nobW = 20, nobH = 4, numbW = 30, numbH = 16, midNobW = 10, midNobH = 3,
      noOfSmallDiv = 2, eventListenerType = ''change'', multiplier = 1, gagueLabel = ''km/h''\<rparr>"

definition noOfDev :: "properties \<Rightarrow> jsreal" where
  "noOfDev d = jr_div (Fin (maxVal d)) (Fin (divFact d))"

definition divDeg :: "properties \<Rightarrow> jsreal" where
  "divDeg d = jr_div (Fin (maxDeg d)) (noOfDev d)"

text \<open>The style sheet of \<open>setCssProperty\<close>: the rules under the wrapper, lengths in pixels.\<close>

datatype css = Px string real | Rotate string real

definition setCssProperty :: "properties \<Rightarrow> (string \<times> css list) list" where
  "setCssProperty d =
     (let speedoWH = edgeRadius d * 2;
          speedNobeTop = edgeRadius d - speedNobeH d / 2;
          speedNobeAngle = initDeg d;
          speedPositionTxtTL = edgeRadius d - speedPositionTxtWH d / 2
      in [(''.envelope'', [Px ''width'' speedoWH, Px ''height'' speedoWH]),
          (''.speedNobe'', [Px ''height'' (speedNobeH d), Px ''top'' speedNobeTop,
             Rotate ''transform'' speedNobeAngle, Rotate ''-webkit-transform'' speedNobeAngle,
             Rotate ''-moz-transform'' speedNobeAngle, Rotate ''-o-transform'' speedNobeAngle]),
          (''.speedPosition'', [Px ''width'' (speedPositionTxtWH d), Px ''height'' (speedPositionTxtWH d),
             Px ''top'' speedPositionTxtTL, Px ''left'' speedPositionTxtTL]),
          (''.speedNobe div'', [Px ''width'' (speedoNobeW d), Px ''left'' (speedoNobeL d)]),
          (''.nob'', [Px ''width'' (nobW d), Px ''height'' (nobH d)]),
          (''.numb'', [Px ''width'' (numbW d), Px ''height'' (numbH d)]),
          (''.midNob'', [Px ''width'' (midNobW d), Px ''height'' (midNobH d)])])"

section \<open>The scale\<close>

text \<open>
  One pass of the loop of \<open>createIndicators\<close> adds a line and a number, or a short line and an
  empty number. \<open>cosine\<close> and \<open>sine\<close> are \<open>Math.cos\<close> and \<open>Math.sin\<close>.
\<close>

record nob =
  nobDanger :: bool
  isMid :: bool
  nobLeft :: jsreal
  nobTop :: jsreal
  nobAngle :: jsreal

record numb =
  numbDanger :: bool
  numbLeft :: jsreal
  numbTop :: jsreal
  numbText :: real

definition divides :: "real \<Rightarrow> nat \<Rightarrow> bool" where
  "divides n i \<longleftrightarrow> n \<noteq> 0 \<and> real_of_int \<lfloor>real i / n\<rfloor> = real i / n"

definition indicator ::
  "(jsreal \<Rightarrow> jsreal) \<Rightarrow> (jsreal \<Rightarrow> jsreal) \<Rightarrow> properties \<Rightarrow> nat \<Rightarrow> nob \<times> numb option" where
  "indicator cosine sine d i =
     (let curDig = jr_add (Fin (initDeg d)) (jr_mul (Fin (real i)) (divDeg d));
          curIndVal = real i * divFact d;
          dangCls = (curIndVal \<ge> dangerLevel d);
          angle = jr_mul (Fin (1746 / 100000)) curDig;
          linesY = jr_mul (Fin (indicatorRadius d)) (cosine angle);
          linesX = jr_mul (Fin (indicatorRadius d)) (sine angle);
          numbY = jr_mul (Fin (indicatorNumbRadius d)) (cosine angle);
          numbX = jr_mul (Fin (indicatorNumbRadius d)) (sine angle);
          r = Fin (edgeRadius d)
      in if divides (noOfSmallDiv d) i
         then (\<lparr>nobDanger = dangCls, isMid = False,
                nobLeft = jr_sub (jr_sub r linesY) (Fin 10),
                nobTop = jr_sub (jr_sub r linesX) (Fin 2), nobAngle = curDig\<rparr>,
               Some \<lparr>numbDanger = dangCls,
                numbLeft = jr_sub (jr_sub r numbY) (Fin (numbH d / 2)),
                numbTop = jr_sub (jr_sub r numbX) (Fin (numbW d / 2)), numbText = curIndVal\<rparr>)
         else (\<lparr>nobDanger = dangCls, isMid = True,
                nobLeft = jr_sub (jr_sub r linesY) (Fin (midNobW d / 2)),
                nobTop = jr_sub (jr_sub r linesX) (Fin (midNobH d / 2)), nobAngle = curDig\<rparr>,
               None))"

partial_function (option) indicators_from ::
  "(jsreal \<Rightarrow> jsreal) \<Rightarrow> (jsreal \<Rightarrow> jsreal) \<Rightarrow> properties \<Rightarrow> nat \<Rightarrow> (nob \<times> numb option) list option" where
  "indicators_from cosine sine d i =
     (if jr_le (Fin (real i)) (noOfDev d)
      then Option.bind (indicators_from cosine sine d (Suc i))
             (\<lambda>rest. Some (indicator cosine sine d i # rest))
      else Some [])"

definition createIndicators ::
  "(jsreal \<Rightarrow> jsreal) \<Rightarrow> (jsreal \<Rightarrow> jsreal) \<Rightarrow> properties \<Rightarrow> (nob \<times> numb option) list option" where
  "createIndicators cosine sine d = indicators_from cosine sine d 0"

section \<open>A new value\<close>

text \<open>The value of the input element, converted to a number.\<close>

definition clampSpeed :: "properties \<Rightarrow> jsreal \<Rightarrow> jsreal" where
  "clampSpeed d v =
     (let speed = (if jr_less (Fin (maxVal d)) v then Fin (maxVal d) else v)
      in if jr_less speed (Fin 0) \<or> speed = JsNaN then Fin 0 else speed)"

definition speedInDeg :: "properties \<Rightarrow> jsreal \<Rightarrow> jsreal" where
  "speedInDeg d speed =
     jr_add (jr_mul (jr_div (Fin (maxDeg d)) (Fin (maxVal d))) speed) (Fin (initDeg d))"

text \<open>The loop that lights the scale: the indices it adds the class \<open>bright\<close> to.\<close>

partial_function (option) bright_from :: "properties \<Rightarrow> jsreal \<Rightarrow> nat \<Rightarrow> nat list option" where
  "bright_from d speed i =
     (if jr_le (Fin (real i)) (noOfDev d) \<and> jr_le (Fin (real i * divFact d)) speed
      then Option.bind (bright_from d speed (Suc i)) (\<lambda>rest. Some (i # rest))
      else Some [])"

record gauge =
  needle :: jsreal
  centre :: "jsreal \<times> string"
  bright :: "nat list"

definition changePosition :: "properties \<Rightarrow> jsreal \<Rightarrow> gauge option" where
  "changePosition d v =
     (let speed = clampSpeed d v
      in Option.bind (bright_from d speed 0)
           (\<lambda>is. Some \<lparr>needle = speedInDeg d speed,
                       centre = (jr_mul speed (Fin (multiplier d)), gagueLabel d),
                       bright = is\<rparr>))"

section \<open>Loops that count to a bound\<close>

lemma indicators_from_steps:
  assumes "noOfDev d = Fin r" "real (i + n) \<le> r + 1" "r < real (i + n)"
  shows "indicators_from cosine sine d i = Some (map (indicator cosine sine d) [i..<i + n])"
  using assms
proof (induction n arbitrary: i)
  case 0
  then show ?case by (subst indicators_from.simps) simp
next
  case (Suc n)
  then have "real i \<le> r" by simp
  moreover have "indicators_from cosine sine d (Suc i) = Some (map (indicator cosine sine d) [Suc i..<Suc i + n])"
    by (rule Suc.IH) (use Suc.prems in simp_all)
  ultimately show ?case
    using Suc.prems(1) by (subst indicators_from.simps) (simp add: upt_conv_Cons del: upt_Suc)
qed

lemma bright_from_steps:
  assumes "noOfDev d = Fin r" "\<And>k. k < n \<Longrightarrow> real (i + k) \<le> r \<and> real (i + k) * divFact d \<le> s"
    and "r < real (i + n) \<or> s < real (i + n) * divFact d"
  shows "bright_from d (Fin s) i = Some [i..<i + n]"
  using assms(2,3)
proof (induction n arbitrary: i)
  case 0
  then show ?case by (subst bright_from.simps) (auto simp: assms(1))
next
  case (Suc n)
  have "bright_from d (Fin s) (Suc i) = Some [Suc i..<Suc i + n]"
  proof (rule Suc.IH)
    fix k assume "k < n"
    then show "real (Suc i + k) \<le> r \<and> real (Suc i + k) * divFact d \<le> s"
      using Suc.prems(1) [of "Suc k"] by simp
  next
    show "r < real (Suc i + n) \<or> s < real (Suc i + n) * divFact d" using Suc.prems(2) by simp
  qed
  then show ?case
    using Suc.prems(1) [of 0]
    by (subst bright_from.simps) (simp add: assms(1) upt_conv_Cons del: upt_Suc)
qed

lemma indicators_from_diverges:
  assumes "noOfDev d = PosInf" shows "indicators_from cosine sine d i = None"
proof -
  have "noOfDev d \<noteq> PosInf" if "indicators_from cosine sine d i = Some xs" for xs
    by (rule indicators_from.raw_induct [where P = "\<lambda>c s d i xs. noOfDev d \<noteq> PosInf", OF _ that])
      (auto split: if_splits bind_splits)
  then show ?thesis using assms by (cases "indicators_from cosine sine d i") auto
qed

section \<open>Properties of the widget\<close>

lemma noOfDev_Fin: "divFact d \<noteq> 0 \<Longrightarrow> noOfDev d = Fin (maxVal d / divFact d)"
  by (simp add: noOfDev_def)

definition marks :: "properties \<Rightarrow> nat" where
  "marks d = nat \<lfloor>maxVal d / divFact d\<rfloor>"

lemma marks_bounds:
  assumes "divFact d > 0" "maxVal d \<ge> 0"
  shows "real (marks d) \<le> maxVal d / divFact d" "maxVal d / divFact d < real (marks d) + 1"
proof -
  have "0 \<le> maxVal d / divFact d" using assms by simp
  then show "real (marks d) \<le> maxVal d / divFact d" "maxVal d / divFact d < real (marks d) + 1"
    unfolding marks_def by linarith+
qed

text \<open>
  With a positive division and a maximum that is not negative, drawing the scale
  terminates and draws the marks 0 to n, n being the number of whole divisions in the maximum,
  one pass of the loop each, in order.
\<close>

theorem createIndicators_marks:
  assumes "divFact d > 0" "maxVal d \<ge> 0"
  shows "createIndicators cosine sine d = Some (map (indicator cosine sine d) [0..<marks d + 1])"
proof -
  have "indicators_from cosine sine d 0 = Some (map (indicator cosine sine d) [0..<0 + (marks d + 1)])"
  proof (rule indicators_from_steps)
    show "noOfDev d = Fin (maxVal d / divFact d)" using assms(1) by (simp add: noOfDev_Fin)
  qed (use marks_bounds [OF assms] in simp_all)
  then show ?thesis by (simp add: createIndicators_def)
qed

lemma default_marks: "marks defaultProperty = 18"
  by (simp add: marks_def defaultProperty_def)

theorem createIndicators_marks_witness:
  "\<exists>xs. createIndicators id id defaultProperty = Some xs \<and> length xs = 19"
proof -
  have "createIndicators id id defaultProperty =
      Some (map (indicator id id defaultProperty) [0..<marks defaultProperty + 1])"
    by (rule createIndicators_marks) (simp_all add: defaultProperty_def)
  then show ?thesis by (simp add: default_marks del: upt_Suc)
qed

text \<open>
  A zero division with a positive maximum makes the number of divisions infinite: drawing
  the scale never ends.
\<close>

theorem createIndicators_diverges:
  assumes "divFact d = 0" "maxVal d > 0"
  shows "createIndicators cosine sine d = None"
  unfolding createIndicators_def
  by (rule indicators_from_diverges) (simp add: noOfDev_def inf_of_def assms)

theorem createIndicators_diverges_witness:
  "createIndicators id id (defaultProperty\<lparr>divFact := 0\<rparr>) = None"
  by (rule createIndicators_diverges) (simp_all add: defaultProperty_def)

text \<open>The value the needle shows: the input cut to the scale, zero if it is not a number.\<close>

definition shownValue :: "properties \<Rightarrow> jsreal \<Rightarrow> real" where
  "shownValue d v =
     (case v of Fin x \<Rightarrow> max 0 (min x (maxVal d)) | PosInf \<Rightarrow> max 0 (maxVal d) | _ \<Rightarrow> 0)"

lemma clampSpeed_shown: "clampSpeed d v = Fin (shownValue d v)"
  by (cases v) (auto simp: clampSpeed_def shownValue_def Let_def)

lemma shownValue_bounds: "maxVal d \<ge> 0 \<Longrightarrow> 0 \<le> shownValue d v \<and> shownValue d v \<le> maxVal d"
  by (cases v) (auto simp: shownValue_def)

definition lit :: "properties \<Rightarrow> jsreal \<Rightarrow> nat" where
  "lit d v = nat \<lfloor>shownValue d v / divFact d\<rfloor>"

lemma lit_bounds:
  assumes "divFact d > 0" "maxVal d \<ge> 0"
  shows "real (lit d v) * divFact d \<le> shownValue d v" "shownValue d v < (real (lit d v) + 1) * divFact d"
    "real (lit d v) \<le> maxVal d / divFact d"
proof -
  let ?q = "shownValue d v / divFact d"
  have q: "0 \<le> ?q" using shownValue_bounds [OF assms(2), of v] assms(1) by simp
  have 1: "real (lit d v) \<le> ?q" "?q < real (lit d v) + 1" 
    using q unfolding lit_def by linarith+
  then show "real (lit d v) * divFact d \<le> shownValue d v" "shownValue d v < (real (lit d v) + 1) * divFact d"
    using assms(1) by (simp_all add: field_simps)
  have "?q \<le> maxVal d / divFact d"
    using shownValue_bounds [OF assms(2), of v] assms(1) by (simp add: divide_right_mono)
  with 1 show "real (lit d v) \<le> maxVal d / divFact d" by linarith
qed

lemma bright_lit:
  assumes "divFact d > 0" "maxVal d \<ge> 0"
  shows "bright_from d (Fin (shownValue d v)) 0 = Some [0..<0 + (lit d v + 1)]"
proof (rule bright_from_steps)
  show "noOfDev d = Fin (maxVal d / divFact d)" using assms(1) by (simp add: noOfDev_Fin)
  fix k assume "k < lit d v + 1"
  then have k: "real k \<le> real (lit d v)" by simp
  then have "real k * divFact d \<le> real (lit d v) * divFact d" using assms(1) by simp
  with k show "real (0 + k) \<le> maxVal d / divFact d \<and> real (0 + k) * divFact d \<le> shownValue d v"
    using lit_bounds [OF assms, of v] by simp
next
  show "maxVal d / divFact d < real (0 + (lit d v + 1)) \<or>
      shownValue d v < real (0 + (lit d v + 1)) * divFact d"
    using lit_bounds(2) [OF assms, of v] by (simp add: add.commute)
qed

text \<open>
  C29: Any input, a number or not, finite or not, moves the needle to an angle of the scale and
  lights exactly the marks whose value does not exceed the shown value: the update always
  returns, and never points outside the dial.
\<close>

theorem changePosition_dial:
  assumes "divFact d > 0" "maxVal d > 0" "maxDeg d \<ge> 0"
  shows "\<exists>g angle. changePosition d v = Some g \<and> needle g = Fin angle \<and>
    angle = initDeg d + maxDeg d * (shownValue d v / maxVal d) \<and>
    initDeg d \<le> angle \<and> angle \<le> initDeg d + maxDeg d \<and>
    set (bright g) = {k. real k * divFact d \<le> shownValue d v}"
proof -
  let ?a = "initDeg d + maxDeg d * (shownValue d v / maxVal d)"
  let ?g = "\<lparr>needle = Fin ?a, centre = (Fin (shownValue d v * multiplier d), gagueLabel d),
              bright = [0..<lit d v + 1]\<rparr>"
  have pos: "maxVal d \<ge> 0" using assms(2) by simp
  have frac: "0 \<le> shownValue d v / maxVal d" "shownValue d v / maxVal d \<le> 1"
    using shownValue_bounds [OF pos, of v] assms(2) by simp_all
  show ?thesis
  proof (intro exI conjI)
    show "changePosition d v = Some ?g"
      using bright_lit [OF assms(1) pos, of v] assms(2)
      by (simp add: changePosition_def clampSpeed_shown speedInDeg_def del: upt_Suc)
    have "0 \<le> maxDeg d * (shownValue d v / maxVal d)" using frac(1) assms(3) by (rule mult_nonneg_nonneg [rotated])
    then show "initDeg d \<le> ?a" by simp
    show "?a \<le> initDeg d + maxDeg d"
      using mult_left_mono [OF frac(2) assms(3)] by simp
    show "set (bright ?g) = {k. real k * divFact d \<le> shownValue d v}"
    proof (intro set_eqI iffI)
      fix k assume "k \<in> set (bright ?g)"
      then have "real k * divFact d \<le> real (lit d v) * divFact d" using assms(1) by (simp del: upt_Suc)
      then show "k \<in> {k. real k * divFact d \<le> shownValue d v}"
        using lit_bounds(1) [OF assms(1) pos, of v] by simp
    next
      fix k assume "k \<in> {k. real k * divFact d \<le> shownValue d v}"
      then have "real k * divFact d < (real (lit d v) + 1) * divFact d"
        using lit_bounds(2) [OF assms(1) pos, of v] by simp
      then have "real k < real (lit d v) + 1" using assms(1) by simp
      then show "k \<in> set (bright ?g)" by (simp del: upt_Suc)
    qed
  qed simp_all
qed

theorem changePosition_dial_witness:
  "\<exists>g. changePosition defaultProperty (Fin 500) = Some g \<and> needle g = Fin 225"
proof -
  have "shownValue defaultProperty (Fin 500) = 180" "maxVal defaultProperty = 180"
    "initDeg defaultProperty = -45" "maxDeg defaultProperty = 270"
    by (simp_all add: shownValue_def defaultProperty_def)
  moreover obtain g angle where "changePosition defaultProperty (Fin 500) = Some g" "needle g = Fin angle"
    "angle = initDeg defaultProperty + maxDeg defaultProperty *
       (shownValue defaultProperty (Fin 500) / maxVal defaultProperty)"
    using changePosition_dial [of defaultProperty "Fin 500"] by (auto simp: defaultProperty_def)
  ultimately show ?thesis by simp
qed

text \<open>
  The needle and the scale agree: the value of a mark puts the needle at the very angle the
  mark was drawn at, whatever the properties of a dial with a positive range.
\<close>

theorem needle_on_mark:
  assumes "divFact d > 0" "maxVal d > 0" "real k * divFact d \<le> maxVal d"
  shows "map_option needle (changePosition d (Fin (real k * divFact d))) =
     Some (nobAngle (fst (indicator cosine sine d k)))"
proof -
  have pos: "maxVal d \<ge> 0" using assms(2) by simp
  have shown: "shownValue d (Fin (real k * divFact d)) = real k * divFact d"
    using assms by (simp add: shownValue_def)
  have "divDeg d = Fin (maxDeg d / (maxVal d / divFact d))"
    using assms by (simp add: divDeg_def noOfDev_def)
  then have "nobAngle (fst (indicator cosine sine d k)) =
      Fin (initDeg d + real k * (maxDeg d / (maxVal d / divFact d)))"
    by (simp add: indicator_def Let_def)
  moreover have "map_option needle (changePosition d (Fin (real k * divFact d))) =
      Some (Fin (maxDeg d / maxVal d * (real k * divFact d) + initDeg d))"
    using bright_lit [OF assms(1) pos, of "Fin (real k * divFact d)"] assms(2)
    by (simp add: changePosition_def clampSpeed_shown speedInDeg_def shown del: upt_Suc)
  ultimately show ?thesis by (simp add: field_simps)
qed

theorem needle_on_mark_witness:
  "map_option needle (changePosition defaultProperty (Fin 60)) =
     Some (nobAngle (fst (indicator id id defaultProperty 6)))"
  using needle_on_mark [of defaultProperty 6 id id] by (simp add: defaultProperty_def)

end
