(* ===== verification/Js_Text.thy ===== *)
theory Js_Text
  imports Js_Number Server_Validate
begin

text \<open>
  The string functions of the JavaScript standard library that the browser code uses:
  \<open>trim\<close>, \<open>split\<close>, \<open>indexOf\<close>, \<open>parseFloat\<close> and the conversion of a string to a number.
  Characters are the first 256 of Unicode.
\<close>

section \<open>White space, splitting\<close>

definition js_space :: "char \<Rightarrow> bool" where
  "js_space c = ((of_char c :: nat) \<in> {9, 10, 11, 12, 13, 32, 160})"

definition js_trim :: "string \<Rightarrow> string" where
  "js_trim s = rev (dropWhile js_space (rev (dropWhile js_space s)))"

fun split_char :: "char \<Rightarrow> string \<Rightarrow> string list" where
  "split_char d [] = [[]]"
| "split_char d (c # s) =
     (if c = d then [] # split_char d s
      else (case split_char d s of [] \<Rightarrow> [[c]] | w # ws \<Rightarrow> (c # w) # ws))"

lemma split_char_nonempty [simp]: "split_char d s \<noteq> []"
  by (induction s) (auto split: list.splits)

lemma split_char_none: "d \<notin> set s \<Longrightarrow> split_char d s = [s]"
  by (induction s) auto

lemma split_char_append: "d \<notin> set s \<Longrightarrow> split_char d (s @ d # t) = s # split_char d t"
  by (induction s) auto

section \<open>Numbers in text\<close>

fun hex_value :: "char \<Rightarrow> nat option" where
  "hex_value c =
     (let n = (of_char c :: nat) in
      if 48 \<le> n \<and> n \<le> 57 then Some (n - 48)
      else if 65 \<le> n \<and> n \<le> 70 then Some (n - 55)
      else if 97 \<le> n \<and> n \<le> 102 then Some (n - 87)
      else None)"

fun is_digit :: "char \<Rightarrow> bool" where
  "is_digit c = (48 \<le> (of_char c :: nat) \<and> (of_char c :: nat) \<le> 57)"

definition digits_value :: "string \<Rightarrow> nat" where
  "digits_value s = foldl (\<lambda>a c. 10 * a + ((of_char c :: nat) - 48)) 0 s"

text \<open>The longest unsigned decimal literal at the start of a text, and what follows it.\<close>

definition scan_exponent :: "string \<Rightarrow> (int \<times> string) option" where
  "scan_exponent s =
     (case s of
        [] \<Rightarrow> None
      | c # t \<Rightarrow>
          if c \<noteq> CHR ''e'' \<and> c \<noteq> CHR ''E'' then None
          else (let neg = (t \<noteq> [] \<and> hd t = CHR ''-'');
                    u = (if t \<noteq> [] \<and> hd t \<in> {CHR ''-'', CHR ''+''} then tl t else t);
                    ds = takeWhile is_digit u
                in if ds = [] then None
                   else Some ((if neg then - int (digits_value ds) else int (digits_value ds)),
                              dropWhile is_digit u)))"

definition scan_decimal :: "string \<Rightarrow> (real \<times> string) option" where
  "scan_decimal s =
     (let ip = takeWhile is_digit s;
          r1 = dropWhile is_digit s;
          dot = (r1 \<noteq> [] \<and> hd r1 = CHR ''.'');
          fp = (if dot then takeWhile is_digit (tl r1) else []);
          r2 = (if dot then dropWhile is_digit (tl r1) else r1);
          m = real (digits_value (ip @ fp)) / 10 ^ length fp
      in if ip = [] \<and> fp = [] then None
         else (case scan_exponent r2 of
                 None \<Rightarrow> Some (m, r2)
               | Some (e, r3) \<Rightarrow> Some (if e < 0 then m / 10 ^ nat (- e) else m * 10 ^ nat e, r3)))"

definition scan_number :: "string \<Rightarrow> (jsreal \<times> string) option" where
  "scan_number s =
     (let neg = (s \<noteq> [] \<and> hd s = CHR ''-'');
          u = (if s \<noteq> [] \<and> hd s \<in> {CHR ''-'', CHR ''+''} then tl s else s)
      in if prefix ''Infinity'' u then Some (if neg then NegInf else PosInf, drop 8 u)
         else map_option (\<lambda>(r, rest). (Fin (if neg then - r else r), rest)) (scan_decimal u))"

definition js_parseFloat :: "string \<Rightarrow> jsreal" where
  "js_parseFloat s =
     (case scan_number (dropWhile js_space s) of None \<Rightarrow> JsNaN | Some (v, rest) \<Rightarrow> v)"

fun radix_value :: "nat \<Rightarrow> nat \<Rightarrow> string \<Rightarrow> nat option" where
  "radix_value r a [] = Some a"
| "radix_value r a (c # s) =
     (case hex_value c of
        None \<Rightarrow> None
      | Some d \<Rightarrow> if d < r then radix_value r (r * a + d) s else None)"

definition scan_radix :: "nat \<Rightarrow> string \<Rightarrow> jsreal" where
  "scan_radix r s =
     (if s = [] then JsNaN
      else (case radix_value r 0 s of None \<Rightarrow> JsNaN | Some n \<Rightarrow> Fin (real n)))"

definition js_toNumber :: "string \<Rightarrow> jsreal" where
  "js_toNumber s =
     (let t = js_trim s in
      if t = [] then Fin 0
      else if take 2 t \<in> {''0x'', ''0X''} then scan_radix 16 (drop 2 t)
      else if take 2 t \<in> {''0o'', ''0O''} then scan_radix 8 (drop 2 t)
      else if take 2 t \<in> {''0b'', ''0B''} then scan_radix 2 (drop 2 t)
      else (case scan_number t of Some (v, []) \<Rightarrow> v | _ \<Rightarrow> JsNaN))"

text \<open>What counts as false: zero, not-a-number, the empty string.\<close>

definition jr_truthy :: "jsreal \<Rightarrow> bool" where
  "jr_truthy v = (v \<noteq> JsNaN \<and> v \<noteq> Fin 0)"

fun jr_floor :: "jsreal \<Rightarrow> jsreal" where
  "jr_floor (Fin a) = Fin (real_of_int \<lfloor>a\<rfloor>)"
| "jr_floor a = a"

text \<open>\<open>Math.round\<close>: the nearest integer, ties upwards.\<close>

fun jr_round :: "jsreal \<Rightarrow> jsreal" where
  "jr_round (Fin a) = Fin (real_of_int \<lfloor>a + 1 / 2\<rfloor>)"
| "jr_round a = a"

end
