(* ===== verification/Popper_Dom.thy ===== *)
theory Popper_Dom
  imports Js_Text "HOL-Library.Monad_Syntax"
begin

text \<open>
  The part of the bundled positioning library (\<open>Popper\<close>, in
  \<open>client/w3cDemo/js/bootstrap.bundle.js\<close>) that walks the document: debouncing, computed
  styles, parents, scroll parents, offset parents, the common offset parent of two elements, and
  scroll positions. What the browser answers is the record \<open>dom\<close>, an argument of every
  function. \<open>None\<close> as a result is a call that does not return normally: it throws because a
  node is missing, or it never ends.
\<close>

type_synonym elt = nat

record dom =
  nodeName :: "elt \<Rightarrow> string"
  nodeType :: "elt \<Rightarrow> nat"
  parentNode :: "elt \<Rightarrow> elt option"
  shadowHost :: "elt \<Rightarrow> elt option"
  offsetParent :: "elt \<Rightarrow> elt option"
  firstElementChild :: "elt \<Rightarrow> elt option"
  ownerDocument :: "elt \<Rightarrow> elt"
  documentBody :: "elt \<Rightarrow> elt"
  documentElement :: "elt \<Rightarrow> elt"
  scrollingElement :: "elt \<Rightarrow> elt option"
  document :: elt
  css :: "elt \<Rightarrow> string \<Rightarrow> string"
  measure_of :: "elt \<Rightarrow> string \<Rightarrow> jsreal"
  clientRect :: "elt \<Rightarrow> (string \<Rightarrow> jsreal) option"
  following :: "elt \<Rightarrow> elt \<Rightarrow> bool"
  contains_node :: "elt \<Rightarrow> elt \<Rightarrow> bool"
  commonAncestor :: "elt \<Rightarrow> elt \<Rightarrow> elt"
  querySelector :: "elt \<Rightarrow> string \<Rightarrow> elt option"
  innerWidth :: jsreal
  innerHeight :: jsreal
  userAgent :: string
  appVersion :: string
  bodyStyles :: "string set"

section \<open>Debouncing\<close>

text \<open>
  A debounced function keeps one bit. A call while the bit is clear queues one run; the queued
  run clears the bit before it calls the function.
\<close>

definition timeoutDuration :: "dom \<Rightarrow> nat" where
  "timeoutDuration D =
     (if list_ex (\<lambda>b. contains (userAgent D) b) [''Edge'', ''Trident'', ''Firefox''] then 1 else 0)"

record debounced =
  scheduled :: bool
  queued :: nat
  runs :: nat

definition debounce_call :: "debounced \<Rightarrow> debounced" where
  "debounce_call d = (if scheduled d then d else d\<lparr>scheduled := True, queued := Suc (queued d)\<rparr>)"

definition debounce_run :: "debounced \<Rightarrow> debounced option" where
  "debounce_run d =
     (case queued d of
        0 \<Rightarrow> None
      | Suc n \<Rightarrow> Some (d\<lparr>scheduled := False, queued := n, runs := Suc (runs d)\<rparr>))"

section \<open>Styles and parents\<close>

definition getStyleComputedProperty :: "dom \<Rightarrow> elt \<Rightarrow> string \<Rightarrow> string option" where
  "getStyleComputedProperty D e property = (if nodeType D e \<noteq> 1 then None else Some (css D e property))"

text \<open>A missing property reads \<open>undefined\<close> when it is joined to text.\<close>

definition style_text :: "string option \<Rightarrow> string" where
  "style_text v = (case v of None \<Rightarrow> ''undefined'' | Some s \<Rightarrow> s)"

definition style_float :: "string option \<Rightarrow> jsreal" where
  "style_float v = js_parseFloat (style_text v)"

definition getParentNode :: "dom \<Rightarrow> elt \<Rightarrow> elt option" where
  "getParentNode D e =
     (if nodeName D e = ''HTML'' then Some e
      else (case parentNode D e of Some p \<Rightarrow> Some p | None \<Rightarrow> shadowHost D e))"

definition scrolls :: "dom \<Rightarrow> elt \<Rightarrow> bool" where
  "scrolls D e =
     (let t = style_text (getStyleComputedProperty D e ''overflow'')
            @ style_text (getStyleComputedProperty D e ''overflowY'')
            @ style_text (getStyleComputedProperty D e ''overflowX'')
      in contains t ''auto'' \<or> contains t ''scroll'')"

partial_function (option) getScrollParent :: "dom \<Rightarrow> elt option \<Rightarrow> elt option" where
  "getScrollParent D element =
     (case element of
        None \<Rightarrow> Some (documentBody D (document D))
      | Some e \<Rightarrow>
          if nodeName D e = ''HTML'' \<or> nodeName D e = ''BODY''
          then Some (documentBody D (ownerDocument D e))
          else if nodeName D e = ''#document'' then Some (documentBody D e)
          else if scrolls D e then Some e
          else getScrollParent D (getParentNode D e))"

partial_function (option) getOffsetParent :: "dom \<Rightarrow> elt option \<Rightarrow> elt option" where
  "getOffsetParent D element =
     (case element of
        None \<Rightarrow> Some (documentElement D (document D))
      | Some e \<Rightarrow>
          (case offsetParent D e of
             None \<Rightarrow> Some (documentElement D (ownerDocument D e))
           | Some p \<Rightarrow>
               if nodeName D p \<in> {[], ''BODY'', ''HTML''}
               then Some (documentElement D (ownerDocument D e))
               else if nodeName D p \<in> {''TD'', ''TABLE''}
                       \<and> getStyleComputedProperty D p ''position'' = Some ''static''
               then getOffsetParent D (Some p)
               else Some p))"

definition isOffsetContainer :: "dom \<Rightarrow> elt \<Rightarrow> bool option" where
  "isOffsetContainer D e =
     (if nodeName D e = ''BODY'' then Some False
      else if nodeName D e = ''HTML'' then Some True
      else do {
        p \<leftarrow> getOffsetParent D (firstElementChild D e);
        Some (p = e)
      })"

partial_function (option) getRoot :: "dom \<Rightarrow> elt \<Rightarrow> elt option" where
  "getRoot D node = (case parentNode D node of Some p \<Rightarrow> getRoot D p | None \<Rightarrow> Some node)"

partial_function (option) findCommonOffsetParent :: "dom \<Rightarrow> elt option \<Rightarrow> elt option \<Rightarrow> elt option" where
  "findCommonOffsetParent D element1 element2 =
     (case (element1, element2) of
        (Some e1, Some e2) \<Rightarrow>
          if nodeType D e1 = 0 \<or> nodeType D e2 = 0 then Some (documentElement D (document D))
          else
            (let start = (if following D e1 e2 then e1 else e2);
                 finish = (if following D e1 e2 then e2 else e1);
                 common = commonAncestor D start finish
             in if e1 \<noteq> common \<and> e2 \<noteq> common \<or> contains_node D start finish
                then do {
                  b \<leftarrow> isOffsetContainer D common;
                  if b then Some common else getOffsetParent D (Some common)
                }
                else do {
                  element1root \<leftarrow> getRoot D e1;
                  case shadowHost D element1root of
                    Some h \<Rightarrow> findCommonOffsetParent D (Some h) (Some e2)
                  | None \<Rightarrow> do {
                      element2root \<leftarrow> getRoot D e2;
                      findCommonOffsetParent D (Some e1) (shadowHost D element2root)
                    }
                })
      | _ \<Rightarrow> Some (documentElement D (document D)))"

partial_function (option) isFixed :: "dom \<Rightarrow> elt option \<Rightarrow> bool option" where
  "isFixed D element =
     (case element of
        None \<Rightarrow> None
      | Some e \<Rightarrow>
          if nodeName D e = ''BODY'' \<or> nodeName D e = ''HTML'' then Some False
          else if getStyleComputedProperty D e ''position'' = Some ''fixed'' then Some True
          else isFixed D (getParentNode D e))"

section \<open>Scroll positions\<close>

definition getScroll :: "dom \<Rightarrow> elt \<Rightarrow> string \<Rightarrow> jsreal" where
  "getScroll D e side =
     (let upperSide = (if side = ''top'' then ''scrollTop'' else ''scrollLeft'')
      in if nodeName D e = ''BODY'' \<or> nodeName D e = ''HTML''
         then (let html = documentElement D (ownerDocument D e);
                   scrolling = (case scrollingElement D (ownerDocument D e) of Some s \<Rightarrow> s | None \<Rightarrow> html)
               in measure_of D scrolling upperSide)
         else measure_of D e upperSide)"

text \<open>An object of coordinates: a missing one is \<open>undefined\<close>, which computes as \<open>JsNaN\<close>.\<close>

type_synonym rect = "string \<Rightarrow> jsreal"

definition emptyRect :: rect where
  "emptyRect = (\<lambda>_. JsNaN)"

definition includeScroll :: "dom \<Rightarrow> rect \<Rightarrow> elt \<Rightarrow> bool \<Rightarrow> rect" where
  "includeScroll D rect e subtract =
     (let scrollTop = getScroll D e ''top'';
          scrollLeft = getScroll D e ''left'';
          modifier = (if subtract then Fin (-1) else Fin 1)
      in rect(''top'' := jr_add (rect ''top'') (jr_mul scrollTop modifier),
              ''bottom'' := jr_add (rect ''bottom'') (jr_mul scrollTop modifier),
              ''left'' := jr_add (rect ''left'') (jr_mul scrollLeft modifier),
              ''right'' := jr_add (rect ''right'') (jr_mul scrollLeft modifier)))"

end
