(* ===== verification/Js_Sort.thy ===== *)
theory Js_Sort
  imports Js_Number "HOL-Library.Multiset"
begin

text \<open>
  \<open>Array.prototype.sort\<close> with a comparison function, and its equivalence with the library's
  stable sort when the comparison is the difference of two keys.
\<close>

section \<open>Sorting by a comparison function\<close>

text \<open>
  \<open>Array.prototype.sort\<close> as a stable insertion sort: an element moves left past those the
  comparison puts after it. A comparison that is not a number leaves two elements as they are.
\<close>

fun insert_back :: "('a \<Rightarrow> 'a \<Rightarrow> jsreal) \<Rightarrow> 'a \<Rightarrow> 'a list \<Rightarrow> 'a list" where
  "insert_back cmp x [] = [x]"
| "insert_back cmp x (y # ys) = (if jr_less (Fin 0) (cmp y x) then y # insert_back cmp x ys else x # y # ys)"

definition js_sort :: "('a \<Rightarrow> 'a \<Rightarrow> jsreal) \<Rightarrow> 'a list \<Rightarrow> 'a list" where
  "js_sort cmp xs = rev (foldl (\<lambda>acc x. insert_back cmp x acc) [] xs)"

section \<open>Equivalence with sorting by a key\<close>

lemma mset_insert_back [simp]: "mset (insert_back cmp x ys) = add_mset x (mset ys)"
  by (induction ys) auto

lemma set_insert_back [simp]: "set (insert_back cmp x ys) = insert x (set ys)"
  by (metis mset_insert_back set_mset_add_mset_insert set_mset_mset)

text \<open>The accumulator of the sort is in descending order, later elements first among equals.\<close>

lemma insert_back_sorted:
  assumes "\<And>a b. a \<in> insert x (set ys) \<Longrightarrow> b \<in> insert x (set ys) \<Longrightarrow> cmp a b = Fin (key a - key b)"
    and "sorted_wrt (\<lambda>a b. key b \<le> (key a :: real)) ys"
  shows "sorted_wrt (\<lambda>a b. key b \<le> key a) (insert_back cmp x ys)"
  using assms
proof (induction ys)
  case (Cons y ys)
  have c: "cmp y x = Fin (key y - key x)" by (rule Cons.prems(1)) auto
  have IH: "sorted_wrt (\<lambda>a b. key b \<le> key a) (insert_back cmp x ys)"
    by (rule Cons.IH) (use Cons.prems in auto)
  show ?case
  proof (cases "key x < key y")
    case True
    then show ?thesis using Cons.prems(2) IH c by auto
  next
    case False
    then show ?thesis using Cons.prems(2) c by (auto intro: order_trans)
  qed
qed simp

lemma insert_back_stable:
  assumes "\<And>a b. a \<in> insert x (set ys) \<Longrightarrow> b \<in> insert x (set ys) \<Longrightarrow> cmp a b = Fin (key a - key b)"
  shows "filter (\<lambda>z. key z = (k :: real)) (insert_back cmp x ys) = filter (\<lambda>z. key z = k) (x # ys)"
  using assms
proof (induction ys)
  case (Cons y ys)
  have c: "cmp y x = Fin (key y - key x)" by (rule Cons.prems) auto
  have "filter (\<lambda>z. key z = k) (insert_back cmp x ys) = filter (\<lambda>z. key z = k) (x # ys)"
    by (rule Cons.IH) (use Cons.prems in auto)
  then show ?case using c by auto
qed simp

lemma js_sort_fold:
  assumes "\<And>a b. a \<in> set xs \<union> set acc \<Longrightarrow> b \<in> set xs \<union> set acc \<Longrightarrow> cmp a b = Fin (key a - key b)"
    and "sorted_wrt (\<lambda>a b. key b \<le> (key a :: real)) acc"
  shows "sorted_wrt (\<lambda>a b. key b \<le> key a) (foldl (\<lambda>acc x. insert_back cmp x acc) acc xs) \<and>
    mset (foldl (\<lambda>acc x. insert_back cmp x acc) acc xs) = mset xs + mset acc \<and>
    (\<forall>k. filter (\<lambda>z. key z = k) (foldl (\<lambda>acc x. insert_back cmp x acc) acc xs) =
         filter (\<lambda>z. key z = k) (rev xs @ acc))"
  using assms
proof (induction xs arbitrary: acc)
  case (Cons x xs)
  have cmp: "\<And>a b. a \<in> insert x (set acc) \<Longrightarrow> b \<in> insert x (set acc) \<Longrightarrow> cmp a b = Fin (key a - key b)"
    using Cons.prems(1) by auto
  have "sorted_wrt (\<lambda>a b. key b \<le> key a) (insert_back cmp x acc)"
    by (rule insert_back_sorted [OF cmp Cons.prems(2)])
  moreover have "\<And>a b. a \<in> set xs \<union> set (insert_back cmp x acc) \<Longrightarrow>
      b \<in> set xs \<union> set (insert_back cmp x acc) \<Longrightarrow> cmp a b = Fin (key a - key b)"
    using Cons.prems(1) by auto
  moreover have "filter (\<lambda>z. key z = k) (insert_back cmp x acc) = filter (\<lambda>z. key z = k) (x # acc)" for k
    by (rule insert_back_stable [OF cmp])
  ultimately show ?case
    using Cons.IH [of "insert_back cmp x acc"] by simp
qed simp

text \<open>On a comparison by a key the sort is the library's stable sort by that key.\<close>

lemma js_sort_key:
  assumes "\<And>a b. a \<in> set xs \<Longrightarrow> b \<in> set xs \<Longrightarrow> cmp a b = Fin (key a - key b)"
  shows "js_sort cmp xs = sort_key key xs"
proof -
  let ?acc = "foldl (\<lambda>acc x. insert_back cmp x acc) [] xs"
  have *: "sorted_wrt (\<lambda>a b. key b \<le> key a) ?acc \<and> mset ?acc = mset xs + mset [] \<and>
      (\<forall>k. filter (\<lambda>z. key z = k) ?acc = filter (\<lambda>z. key z = k) (rev xs @ []))"
    by (rule js_sort_fold) (use assms in simp_all)
  have "sort_key key xs = rev ?acc"
  proof (rule properties_for_sort_key)
    show "mset (rev ?acc) = mset xs" using * by simp
    show "sorted (map key (rev ?acc))"
      using * by (simp add: rev_map [symmetric] sorted_wrt_rev sorted_wrt_map)
    show "filter (\<lambda>x. key k = key x) (rev ?acc) = filter (\<lambda>x. key k = key x) xs" for k
    proof -
      have "filter (\<lambda>x. key x = key k) (rev ?acc) = filter (\<lambda>x. key x = key k) xs"
        using * by (simp add: rev_filter [symmetric])
      then show ?thesis by (simp add: eq_commute [of "key k"])
    qed
  qed
  then show ?thesis by (simp add: js_sort_def)
qed

lemma js_sort_NaN:
  assumes "\<And>a b. a \<in> set xs \<Longrightarrow> b \<in> set xs \<Longrightarrow> cmp a b = JsNaN"
  shows "js_sort cmp xs = xs"
proof -
  have "foldl (\<lambda>acc x. insert_back cmp x acc) acc ys = rev ys @ acc"
    if "set ys \<union> set acc \<subseteq> set xs" for ys acc
    using that
  proof (induction ys arbitrary: acc)
    case (Cons y ys)
    have "insert_back cmp y acc = y # acc"
      using Cons.prems assms by (cases acc) auto
    then show ?case using Cons by simp
  qed simp
  from this [of xs "[]"] show ?thesis by (simp add: js_sort_def)
qed

lemma hd_sort_key:
  assumes "y \<in> set xs"
  shows "hd (sort_key f xs) \<in> set xs \<and> f (hd (sort_key f xs)) \<le> (f y :: real)"
proof -
  have ne: "sort_key f xs \<noteq> []" using assms by (metis empty_iff set_empty set_sort)
  have "hd (sort_key f xs) \<in> set (sort_key f xs)" using ne by (rule hd_in_set)
  then have mem: "hd (sort_key f xs) \<in> set xs" by simp
  obtain z zs where z: "sort_key f xs = z # zs" using ne by (cases "sort_key f xs") auto
  have "sorted (map f (z # zs))" unfolding z [symmetric] by (rule sorted_sort_key)
  moreover have "y \<in> set (z # zs)" unfolding z [symmetric] using assms by simp
  ultimately show ?thesis using mem z by auto
qed

end
