(* ===== verification/Popper_Rect.thy ===== *)
theory Popper_Rect
  imports Popper_Dom Js_Sort
begin

text \<open>
  The measurements of the positioning library: sizes, rectangles relative to another node, the
  boundaries a popper must stay in, and the choice of an \<open>auto\<close> placement.
\<close>

section \<open>Sizes and rectangles\<close>

definition isIE10 :: "dom \<Rightarrow> bool" where
  "isIE10 D = contains (appVersion D) ''MSIE 10''"

definition getBordersSize :: "dom \<Rightarrow> elt \<Rightarrow> string \<Rightarrow> jsreal" where
  "getBordersSize D e axis =
     (let sideA = (if axis = ''x'' then ''Left'' else ''Top'');
          sideB = (if sideA = ''Left'' then ''Right'' else ''Bottom'')
      in jr_add (style_float (getStyleComputedProperty D e (''border'' @ sideA @ ''Width'')))
                (style_float (getStyleComputedProperty D e (''border'' @ sideB @ ''Width''))))"

definition jr_maximum :: "jsreal list \<Rightarrow> jsreal" where
  "jr_maximum xs = foldl jr_max NegInf xs"

text \<open>
  On that one browser version the last argument of \<open>Math.max\<close> is a number joined to two computed
  margins, as text: a margin is a length with its unit, so the text is a number only when both
  are empty.
\<close>

definition getSize :: "dom \<Rightarrow> string \<Rightarrow> jsreal" where
  "getSize D axis =
     (let body = documentBody D (document D);
          html = documentElement D (document D);
          m1 = css D html (''margin'' @ (if axis = ''Height'' then ''Top'' else ''Left''));
          m2 = css D html (''margin'' @ (if axis = ''Height'' then ''Bottom'' else ''Right''))
      in jr_maximum
           [measure_of D body (''offset'' @ axis), measure_of D body (''scroll'' @ axis),
            measure_of D html (''client'' @ axis), measure_of D html (''offset'' @ axis),
            measure_of D html (''scroll'' @ axis),
            if isIE10 D
            then (if m1 = [] \<and> m2 = [] then measure_of D html (''offset'' @ axis) else JsNaN)
            else Fin 0])"

definition getWindowSizes :: "dom \<Rightarrow> rect" where
  "getWindowSizes D =
     emptyRect(''height'' := getSize D ''Height'', ''width'' := getSize D ''Width'')"

definition getClientRect :: "rect \<Rightarrow> rect" where
  "getClientRect offsets =
     offsets(''right'' := jr_add (offsets ''left'') (offsets ''width''),
             ''bottom'' := jr_add (offsets ''top'') (offsets ''height''))"

definition jr_or :: "jsreal \<Rightarrow> jsreal \<Rightarrow> jsreal" where
  "jr_or a b = (if jr_truthy a then a else b)"

definition ie10_rect :: "dom \<Rightarrow> elt \<Rightarrow> rect" where
  "ie10_rect D e =
     (case clientRect D e of
        None \<Rightarrow> emptyRect
      | Some rect \<Rightarrow>
          (let scrollTop = getScroll D e ''top'';
               scrollLeft = getScroll D e ''left''
           in rect(''top'' := jr_add (rect ''top'') scrollTop,
                   ''left'' := jr_add (rect ''left'') scrollLeft,
                   ''bottom'' := jr_add (rect ''bottom'') scrollTop,
                   ''right'' := jr_add (rect ''right'') scrollLeft)))"

definition getBoundingClientRect :: "dom \<Rightarrow> elt \<Rightarrow> rect option" where
  "getBoundingClientRect D e = do {
     rect \<leftarrow> (if isIE10 D then Some (ie10_rect D e) else clientRect D e);
     let result = emptyRect(''left'' := rect ''left'', ''top'' := rect ''top'',
                            ''width'' := jr_sub (rect ''right'') (rect ''left''),
                            ''height'' := jr_sub (rect ''bottom'') (rect ''top''));
     let sizes = (if nodeName D e = ''HTML'' then getWindowSizes D else emptyRect);
     let width = jr_or (jr_or (sizes ''width'') (measure_of D e ''clientWidth''))
                       (jr_sub (result ''right'') (result ''left''));
     let height = jr_or (jr_or (sizes ''height'') (measure_of D e ''clientHeight''))
                       (jr_sub (result ''bottom'') (result ''top''));
     let horizScrollbar = jr_sub (measure_of D e ''offsetWidth'') width;
     let vertScrollbar = jr_sub (measure_of D e ''offsetHeight'') height;
     let result' =
       (if jr_truthy horizScrollbar \<or> jr_truthy vertScrollbar
        then result(''width'' := jr_sub (result ''width'') (jr_sub horizScrollbar (getBordersSize D e ''x'')),
                    ''height'' := jr_sub (result ''height'') (jr_sub vertScrollbar (getBordersSize D e ''y'')))
        else result);
     Some (getClientRect result')
   }"

definition getOffsetRectRelativeToArbitraryNode :: "dom \<Rightarrow> elt \<Rightarrow> elt \<Rightarrow> rect option" where
  "getOffsetRectRelativeToArbitraryNode D children parent = do {
     let isHTML = (nodeName D parent = ''HTML'');
     childrenRect \<leftarrow> getBoundingClientRect D children;
     parentRect \<leftarrow> getBoundingClientRect D parent;
     scrollParent \<leftarrow> getScrollParent D (Some children);
     let borderTopWidth = style_float (getStyleComputedProperty D parent ''borderTopWidth'');
     let borderLeftWidth = style_float (getStyleComputedProperty D parent ''borderLeftWidth'');
     let offsets0 = getClientRect (emptyRect(
         ''top'' := jr_sub (jr_sub (childrenRect ''top'') (parentRect ''top'')) borderTopWidth,
         ''left'' := jr_sub (jr_sub (childrenRect ''left'') (parentRect ''left'')) borderLeftWidth,
         ''width'' := childrenRect ''width'', ''height'' := childrenRect ''height''));
     let offsets1 = offsets0(''marginTop'' := Fin 0, ''marginLeft'' := Fin 0);
     let offsets2 =
       (if \<not> isIE10 D \<and> isHTML
        then (let marginTop = style_float (getStyleComputedProperty D parent ''marginTop'');
                  marginLeft = style_float (getStyleComputedProperty D parent ''marginLeft'')
              in offsets1(
                   ''top'' := jr_sub (offsets1 ''top'') (jr_sub borderTopWidth marginTop),
                   ''bottom'' := jr_sub (offsets1 ''bottom'') (jr_sub borderTopWidth marginTop),
                   ''left'' := jr_sub (offsets1 ''left'') (jr_sub borderLeftWidth marginLeft),
                   ''right'' := jr_sub (offsets1 ''right'') (jr_sub borderLeftWidth marginLeft),
                   ''marginTop'' := marginTop, ''marginLeft'' := marginLeft))
        else offsets1);
     Some (if (if isIE10 D then contains_node D parent scrollParent
               else parent = scrollParent \<and> nodeName D scrollParent \<noteq> ''BODY'')
           then includeScroll D offsets2 parent False
           else offsets2)
   }"

definition getViewportOffsetRectRelativeToArtbitraryNode :: "dom \<Rightarrow> elt \<Rightarrow> rect option" where
  "getViewportOffsetRectRelativeToArtbitraryNode D e = do {
     let html = documentElement D (ownerDocument D e);
     relativeOffset \<leftarrow> getOffsetRectRelativeToArbitraryNode D e html;
     let width = jr_max (measure_of D html ''clientWidth'') (jr_or (innerWidth D) (Fin 0));
     let height = jr_max (measure_of D html ''clientHeight'') (jr_or (innerHeight D) (Fin 0));
     let scrollTop = getScroll D html ''top'';
     let scrollLeft = getScroll D html ''left'';
     Some (getClientRect (emptyRect(
       ''top'' := jr_add (jr_sub scrollTop (relativeOffset ''top'')) (relativeOffset ''marginTop''),
       ''left'' := jr_add (jr_sub scrollLeft (relativeOffset ''left'')) (relativeOffset ''marginLeft''),
       ''width'' := width, ''height'' := height)))
   }"

section \<open>Boundaries\<close>

datatype boundary = Named string | Node elt

definition boundariesNode :: "dom \<Rightarrow> elt \<Rightarrow> elt \<Rightarrow> boundary \<Rightarrow> elt option" where
  "boundariesNode D popper reference be =
     (case be of
        Node e \<Rightarrow> Some e
      | Named s \<Rightarrow>
          if s = ''scrollParent'' then do {
            n \<leftarrow> getScrollParent D (getParentNode D reference);
            Some (if nodeName D n = ''BODY'' then documentElement D (ownerDocument D popper) else n)
          }
          else if s = ''window'' then Some (documentElement D (ownerDocument D popper))
          else None)"

definition addPadding :: "jsreal \<Rightarrow> rect \<Rightarrow> rect" where
  "addPadding padding b =
     b(''left'' := jr_add (b ''left'') padding, ''top'' := jr_add (b ''top'') padding,
       ''right'' := jr_sub (b ''right'') padding, ''bottom'' := jr_sub (b ''bottom'') padding)"

definition getBoundaries :: "dom \<Rightarrow> elt \<Rightarrow> elt \<Rightarrow> jsreal \<Rightarrow> boundary \<Rightarrow> rect option" where
  "getBoundaries D popper reference padding be = do {
     offsetParent \<leftarrow> findCommonOffsetParent D (Some popper) (Some reference);
     boundaries \<leftarrow>
       (if be = Named ''viewport''
        then getViewportOffsetRectRelativeToArtbitraryNode D offsetParent
        else do {
          node \<leftarrow> boundariesNode D popper reference be;
          offsets \<leftarrow> getOffsetRectRelativeToArbitraryNode D node offsetParent;
          fixed \<leftarrow> (if nodeName D node = ''HTML'' then isFixed D (Some offsetParent) else Some True);
          Some (if nodeName D node = ''HTML'' \<and> \<not> fixed
                then (let sizes = getWindowSizes D
                      in emptyRect(
                           ''top'' := jr_add (Fin 0) (jr_sub (offsets ''top'') (offsets ''marginTop'')),
                           ''bottom'' := jr_add (sizes ''height'') (offsets ''top''),
                           ''left'' := jr_add (Fin 0) (jr_sub (offsets ''left'') (offsets ''marginLeft'')),
                           ''right'' := jr_add (sizes ''width'') (offsets ''left'')))
                else offsets)
        });
     Some (addPadding padding boundaries)
   }"

section \<open>Automatic placement\<close>

definition getArea :: "rect \<Rightarrow> jsreal" where
  "getArea r = jr_mul (r ''width'') (r ''height'')"

definition auto_rects :: "rect \<Rightarrow> rect \<Rightarrow> (string \<times> rect) list" where
  "auto_rects refRect boundaries =
     [(''top'', emptyRect(''width'' := boundaries ''width'',
                          ''height'' := jr_sub (refRect ''top'') (boundaries ''top''))),
      (''right'', emptyRect(''width'' := jr_sub (boundaries ''right'') (refRect ''right''),
                            ''height'' := boundaries ''height'')),
      (''bottom'', emptyRect(''width'' := boundaries ''width'',
                             ''height'' := jr_sub (boundaries ''bottom'') (refRect ''bottom''))),
      (''left'', emptyRect(''width'' := jr_sub (refRect ''left'') (boundaries ''left''),
                           ''height'' := boundaries ''height''))]"

definition sorted_areas :: "(string \<times> rect) list \<Rightarrow> (string \<times> rect) list" where
  "sorted_areas rects = js_sort (\<lambda>a b. jr_sub (getArea (snd b)) (getArea (snd a))) rects"

definition fits :: "dom \<Rightarrow> elt \<Rightarrow> rect \<Rightarrow> bool" where
  "fits D popper r =
     (jr_le (measure_of D popper ''clientWidth'') (r ''width'') \<and>
      jr_le (measure_of D popper ''clientHeight'') (r ''height''))"

definition split_placement :: "string \<Rightarrow> string \<times> string option" where
  "split_placement placement =
     (case split_char (CHR ''-'') placement of
        [] \<Rightarrow> ([], None)
      | [p] \<Rightarrow> (p, None)
      | p # v # _ \<Rightarrow> (p, Some v))"

text \<open>A variation that is the empty text counts as none.\<close>

definition with_variation :: "string \<Rightarrow> string option \<Rightarrow> string" where
  "with_variation p v = (case v of None \<Rightarrow> p | Some w \<Rightarrow> if w = [] then p else p @ ''-'' @ w)"

definition choose_area :: "dom \<Rightarrow> elt \<Rightarrow> (string \<times> rect) list \<Rightarrow> string" where
  "choose_area D popper rects =
     (let sortedAreas = sorted_areas rects;
          filteredAreas = filter (\<lambda>a. fits D popper (snd a)) sortedAreas
      in if filteredAreas \<noteq> [] then fst (hd filteredAreas) else fst (hd sortedAreas))"

definition computeAutoPlacement ::
  "dom \<Rightarrow> string \<Rightarrow> rect \<Rightarrow> elt \<Rightarrow> elt \<Rightarrow> boundary option \<Rightarrow> jsreal \<Rightarrow> string option" where
  "computeAutoPlacement D placement refRect popper reference be padding =
     (if \<not> contains placement ''auto'' then Some placement
      else do {
        element \<leftarrow> be;
        boundaries \<leftarrow> getBoundaries D popper reference padding element;
        Some (with_variation (choose_area D popper (auto_rects refRect boundaries))
                (snd (split_placement placement)))
      })"

section \<open>Measured rectangles\<close>

text \<open>A rectangle all of whose coordinates are reals; and one whose edges agree with its sizes.\<close>

definition finite_rect :: "rect \<Rightarrow> bool" where
  "finite_rect r =
     list_all (\<lambda>k. isFinite (r k)) [''left'', ''top'', ''width'', ''height'', ''right'', ''bottom'']"

lemma isFiniteD: "isFinite v \<Longrightarrow> \<exists>a. v = Fin a"
  by (cases v) (simp_all add: isFinite_def)

definition is_rect :: "rect \<Rightarrow> real \<Rightarrow> real \<Rightarrow> real \<Rightarrow> real \<Rightarrow> bool" where
  "is_rect r l t w h \<longleftrightarrow>
     r ''left'' = Fin l \<and> r ''top'' = Fin t \<and> r ''width'' = Fin w \<and> r ''height'' = Fin h \<and>
     r ''right'' = Fin (l + w) \<and> r ''bottom'' = Fin (t + h)"

definition rect_of :: "real \<Rightarrow> real \<Rightarrow> real \<Rightarrow> real \<Rightarrow> rect" where
  "rect_of l t w h = getClientRect (emptyRect(''left'' := Fin l, ''top'' := Fin t,
     ''width'' := Fin w, ''height'' := Fin h))"

lemma is_rect_rect_of [simp]: "is_rect (rect_of l t w h) l t w h"
  by (simp add: is_rect_def rect_of_def getClientRect_def)

lemma is_rect_getClientRect:
  "r ''left'' = Fin l \<Longrightarrow> r ''top'' = Fin t \<Longrightarrow> r ''width'' = Fin w \<Longrightarrow> r ''height'' = Fin h \<Longrightarrow>
   is_rect (getClientRect r) l t w h"
  by (simp add: is_rect_def getClientRect_def)

end
