(* ===== verification/Popper_Data.thy ===== *)
theory Popper_Data
  imports Popper_Rect
begin

text \<open>
  What an update of a popper works on: the modifiers with their options, the data object that
  is passed from one modifier to the next, and the helpers they share (placements, outer sizes,
  offsets of the popper for a placement, style and attribute writes).
\<close>

section \<open>Modifiers and data\<close>

text \<open>
  The function of a modifier is one of the library's or a custom one, named by a number. A
  modifier's object has the options of its function; options of other functions are not read.
\<close>

datatype modifier_fn =
    Fn_shift | Fn_offset | Fn_preventOverflow | Fn_keepTogether | Fn_arrow | Fn_flip | Fn_inner
  | Fn_hide | Fn_computeStyle | Fn_applyStyle | Fn_custom nat

datatype offset_option = OffsetNum jsreal | OffsetText string

datatype arrow_option = ArrowSelector string | ArrowNode elt

datatype behavior_option = BehaviorName string | BehaviorList "string list"

record modifier =
  mname :: string
  morder :: jsreal
  enabled :: bool
  mfn :: "modifier_fn option"
  legacyFunction :: "modifier_fn option"
  runsOnLoad :: bool
  offsetOption :: offset_option
  priority :: "string list"
  padding :: jsreal
  boundariesElement :: "boundary option"
  escapeWithReference :: bool
  boundaries :: "rect option"
  arrowOption :: arrow_option
  behavior :: behavior_option
  flipVariations :: bool
  gpuAcceleration :: "bool option"
  originX :: string
  originY :: string

datatype style_value = StyleNum jsreal | StyleText string | Translate3d jsreal jsreal

datatype attribute = AttrText string | AttrFalse

text \<open>What the code does to the page, and what it warns of on the console.\<close>

datatype dom_write =
    SetStyle elt string style_value string
  | SetAttribute elt string string
  | RemoveAttribute elt string
  | RemoveChild elt
  | Warn string

record data =
  popperElement :: elt
  referenceElement :: elt
  modifierList :: "modifier list"
  placement :: string
  originalPlacement :: string
  flipped :: bool
  hidden :: "bool option"
  popperOffsets :: rect
  popperPosition :: string
  referenceOffsets :: rect
  arrowOffsets :: "(string \<times> style_value) list"
  arrowElement :: "elt option"
  styles :: "(string \<times> style_value) list"
  arrowStyles :: "(string \<times> style_value) list"
  attributes :: "(string \<times> attribute) list"
  writes :: "dom_write list"

definition warn :: "string \<Rightarrow> data \<Rightarrow> data" where
  "warn msg d = d\<lparr>writes := writes d @ [Warn msg]\<rparr>"

text \<open>
  \<open>Object.assign({}, a, b)\<close> on objects kept as lists in key order: the keys of \<open>a\<close> stay where
  they are with the value of \<open>b\<close> if it has one, the other keys of \<open>b\<close> follow.
\<close>

definition extend :: "('k \<times> 'v) list \<Rightarrow> ('k \<times> 'v) list \<Rightarrow> ('k \<times> 'v) list" where
  "extend a b =
     map (\<lambda>(k, v). (k, case map_of b k of None \<Rightarrow> v | Some w \<Rightarrow> w)) a
     @ filter (\<lambda>(k, v). map_of a k = None) b"

section \<open>Finding modifiers\<close>

definition isModifierEnabled :: "modifier list \<Rightarrow> string \<Rightarrow> bool" where
  "isModifierEnabled ms modifierName = list_ex (\<lambda>m. enabled m \<and> mname m = modifierName) ms"

definition findModifier :: "modifier list \<Rightarrow> string \<Rightarrow> modifier option" where
  "findModifier ms n = List.find (\<lambda>m. mname m = n) ms"

fun findIndex :: "modifier list \<Rightarrow> string \<Rightarrow> int" where
  "findIndex [] n = -1"
| "findIndex (m # ms) n =
     (if mname m = n then 0 else (let i = findIndex ms n in if i = -1 then -1 else i + 1))"

definition isModifierRequired :: "modifier list \<Rightarrow> string \<Rightarrow> string \<Rightarrow> bool" where
  "isModifierRequired ms requestingName requestedName =
     (case findModifier ms requestingName of
        None \<Rightarrow> False
      | Some requesting \<Rightarrow>
          list_ex (\<lambda>m. mname m = requestedName \<and> enabled m \<and> jr_less (morder m) (morder requesting)) ms)"

definition required_warning :: "string \<Rightarrow> string \<Rightarrow> string" where
  "required_warning requestingName requestedName =
     (let q = (\<lambda>s. ''`'' @ s @ ''`'')
      in q requestedName @ '' modifier is required by '' @ q requestingName
         @ '' modifier in order to work, be sure to include it before '' @ q requestingName @ ''!'')"

section \<open>Placements\<close>

function (sequential) getOppositePlacement :: "string \<Rightarrow> string" where
  "getOppositePlacement [] = []"
| "getOppositePlacement (c # s) =
     (if prefix ''left'' (c # s) then ''right'' @ getOppositePlacement (drop 4 (c # s))
      else if prefix ''right'' (c # s) then ''left'' @ getOppositePlacement (drop 5 (c # s))
      else if prefix ''bottom'' (c # s) then ''top'' @ getOppositePlacement (drop 6 (c # s))
      else if prefix ''top'' (c # s) then ''bottom'' @ getOppositePlacement (drop 3 (c # s))
      else c # getOppositePlacement s)"
  by pat_completeness auto
termination by (relation "measure length") auto

definition getOppositeVariation :: "string \<Rightarrow> string" where
  "getOppositeVariation v =
     (if v = ''end'' then ''start'' else if v = ''start'' then ''end'' else v)"

definition placements :: "string list" where
  "placements =
     [''auto-start'', ''auto'', ''auto-end'', ''top-start'', ''top'', ''top-end'',
      ''right-start'', ''right'', ''right-end'', ''bottom-end'', ''bottom'', ''bottom-start'',
      ''left-end'', ''left'', ''left-start'']"

definition validPlacements :: "string list" where
  "validPlacements = drop 3 placements"

fun index_of :: "'a list \<Rightarrow> 'a \<Rightarrow> int" where
  "index_of [] x = -1"
| "index_of (y # ys) x = (if y = x then 0 else (let i = index_of ys x in if i = -1 then -1 else i + 1))"

text \<open>The code slices by \<open>index + 1\<close> and \<open>index\<close>; with no match the second slice ends at -1.\<close>

definition clockwise :: "string \<Rightarrow> bool \<Rightarrow> string list" where
  "clockwise p counter =
     (let i = index_of validPlacements p;
          front = (if i = -1 then butlast validPlacements else take (nat i) validPlacements);
          arr = drop (nat (i + 1)) validPlacements @ front
      in if counter then rev arr else arr)"

section \<open>Sizes and offsets\<close>

definition getOuterSizes :: "dom \<Rightarrow> elt \<Rightarrow> rect" where
  "getOuterSizes D e =
     (let margin = (\<lambda>side. js_parseFloat (css D e (''margin'' @ side)));
          x = jr_add (margin ''Top'') (margin ''Bottom'');
          y = jr_add (margin ''Left'') (margin ''Right'')
      in emptyRect(''width'' := jr_add (measure_of D e ''offsetWidth'') y,
                   ''height'' := jr_add (measure_of D e ''offsetHeight'') x))"

definition getReferenceOffsets :: "dom \<Rightarrow> elt \<Rightarrow> elt \<Rightarrow> rect option" where
  "getReferenceOffsets D popper reference = do {
     commonOffsetParent \<leftarrow> findCommonOffsetParent D (Some popper) (Some reference);
     getOffsetRectRelativeToArbitraryNode D reference commonOffsetParent
   }"

definition half :: "jsreal \<Rightarrow> jsreal" where
  "half v = jr_div v (Fin 2)"

definition getPopperOffsets :: "dom \<Rightarrow> elt \<Rightarrow> rect \<Rightarrow> string \<Rightarrow> rect" where
  "getPopperOffsets D popper ref pl =
     (let p = fst (split_placement pl);
          popperRect = getOuterSizes D popper;
          offsets0 = emptyRect(''width'' := popperRect ''width'', ''height'' := popperRect ''height'');
          isHoriz = (p = ''right'' \<or> p = ''left'');
          mainSide = (if isHoriz then ''top'' else ''left'');
          secondarySide = (if isHoriz then ''left'' else ''top'');
          measurement = (if isHoriz then ''height'' else ''width'');
          secondaryMeasurement = (if \<not> isHoriz then ''height'' else ''width'');
          offsets1 = offsets0(mainSide :=
            jr_sub (jr_add (ref mainSide) (half (ref measurement))) (half (popperRect measurement)))
      in offsets1(secondarySide :=
           (if p = secondarySide
            then jr_sub (ref secondarySide) (popperRect secondaryMeasurement)
            else ref (getOppositePlacement secondarySide))))"

text \<open>\<open>Object.assign({}, old, getPopperOffsets(...))\<close>: the four keys the function sets.\<close>

definition mergeOffsets :: "rect \<Rightarrow> rect \<Rightarrow> rect" where
  "mergeOffsets old new =
     old(''width'' := new ''width'', ''height'' := new ''height'',
         ''top'' := new ''top'', ''left'' := new ''left'')"

section \<open>Styles and attributes\<close>

definition isNumericText :: "string \<Rightarrow> bool" where
  "isNumericText s = (s \<noteq> [] \<and> js_parseFloat s \<noteq> JsNaN \<and> isFinite (js_toNumber s))"

definition isNumeric :: "style_value \<Rightarrow> bool" where
  "isNumeric v =
     (case v of StyleNum n \<Rightarrow> isFinite n | StyleText s \<Rightarrow> isNumericText s | Translate3d _ _ \<Rightarrow> False)"

definition setStyles :: "elt \<Rightarrow> (string \<times> style_value) list \<Rightarrow> dom_write list" where
  "setStyles e sts =
     map (\<lambda>(prop, v).
       SetStyle e prop v
         (if prop \<in> {''width'', ''height'', ''top'', ''right'', ''bottom'', ''left''} \<and> isNumeric v
          then ''px'' else '''')) sts"

definition setAttributes :: "elt \<Rightarrow> (string \<times> attribute) list \<Rightarrow> dom_write list" where
  "setAttributes e as =
     map (\<lambda>(prop, v). case v of AttrText t \<Rightarrow> SetAttribute e prop t | AttrFalse \<Rightarrow> RemoveAttribute e prop) as"

definition upcase :: "char \<Rightarrow> char" where
  "upcase c =
     (let n = (of_char c :: nat) in if 97 \<le> n \<and> n \<le> 122 then char_of (n - 32) else c)"

definition getSupportedPropertyName :: "dom \<Rightarrow> string \<Rightarrow> string option" where
  "getSupportedPropertyName D property =
     (let upperProp = (case property of [] \<Rightarrow> [] | c # s \<Rightarrow> upcase c # s)
      in List.find (\<lambda>p. p \<in> bodyStyles D)
           [property, ''ms'' @ upperProp, ''Webkit'' @ upperProp, ''Moz'' @ upperProp])"

end
