(* ===== verification/Popper_Modifiers.thy ===== *)
theory Popper_Modifiers
  imports Popper_Data
begin

text \<open>
  The modifiers of the positioning library that do not run other modifiers: each takes the data
  object and its own options and returns the data object changed. \<open>None\<close> is a call that throws
  or does not return.
\<close>

section \<open>The offset option\<close>

text \<open>The two groups of the pattern that separates a value from its unit.\<close>

definition value_text :: "string \<Rightarrow> string \<times> string" where
  "value_text s =
     (let sign = (if s \<noteq> [] \<and> hd s \<in> {CHR ''-'', CHR ''+''} then [hd s] else []);
          r0 = drop (length sign) s;
          ip = takeWhile is_digit r0;
          r1 = dropWhile is_digit r0;
          dot = (if r1 \<noteq> [] \<and> hd r1 = CHR ''.'' then [hd r1] else []);
          r2 = drop (length dot) r1;
          fp = takeWhile is_digit r2;
          r3 = dropWhile is_digit r2
      in (sign @ ip @ dot @ fp, takeWhile (\<lambda>c. (of_char c :: nat) \<notin> {10, 13}) r3))"

datatype fragment = FragText string | FragNum jsreal

definition toValue :: "dom \<Rightarrow> string \<Rightarrow> string \<Rightarrow> rect \<Rightarrow> rect \<Rightarrow> fragment" where
  "toValue D str measurement popper ref =
     (let (value_str, unit) = value_text str;
          v = js_toNumber value_str
      in if \<not> jr_truthy v then FragText str
         else if prefix ''%'' unit
         then (let e = (if unit = ''%p'' then popper else ref);
                   rect = getClientRect e
               in FragNum (jr_mul (jr_div (rect measurement) (Fin 100)) v))
         else if unit = ''vh'' \<or> unit = ''vw''
         then (let html = documentElement D (document D);
                   size = (if unit = ''vh''
                           then jr_max (measure_of D html ''clientHeight'') (jr_or (innerHeight D) (Fin 0))
                           else jr_max (measure_of D html ''clientWidth'') (jr_or (innerWidth D) (Fin 0)))
               in FragNum (jr_mul (jr_div size (Fin 100)) v))
         else FragNum v)"

text \<open>\<open>split\<close> at each sign, keeping the signs.\<close>

fun split_signs :: "string \<Rightarrow> string list" where
  "split_signs [] = [[]]"
| "split_signs (c # s) =
     (if c \<in> {CHR ''+'', CHR ''-''} then [] # [c] # split_signs s
      else (case split_signs s of [] \<Rightarrow> [[c]] | w # ws \<Rightarrow> (c # w) # ws))"

text \<open>\<open>split\<close> at a comma with the white space around it, or at white space.\<close>

function (sequential) split_divider :: "string \<Rightarrow> string list" where
  "split_divider [] = [[]]"
| "split_divider (c # s) =
     (let r = dropWhile js_space (c # s)
      in if r \<noteq> [] \<and> hd r = CHR '','' then [] # split_divider (dropWhile js_space (tl r))
         else if js_space c then [] # split_divider r
         else (case split_divider s of [] \<Rightarrow> [[c]] | w # ws \<Rightarrow> (c # w) # ws))"
  by pat_completeness auto
termination
proof (relation "measure length")
  fix c s and r :: string
  assume r: "r = dropWhile js_space (c # s)" and ne: "r \<noteq> [] \<and> hd r = CHR '',''"
  have "length (dropWhile js_space (tl r)) \<le> length (tl r)" by (rule length_dropWhile_le)
  also have "length (tl r) < length r" using conjunct1 [OF ne] by (cases r) simp_all
  finally have "length (dropWhile js_space (tl r)) < length r" .
  also have "length r \<le> length (c # s)" unfolding r by (rule length_dropWhile_le)
  finally show "(dropWhile js_space (tl r), c # s) \<in> measure length" by simp
next
  fix c s and r :: string
  assume "r = dropWhile js_space (c # s)" "js_space c"
  then show "(r, c # s) \<in> measure length"
    by (simp add: less_Suc_eq_le length_dropWhile_le)
qed auto

definition has_divider :: "string \<Rightarrow> bool" where
  "has_divider s = list_ex (\<lambda>c. c = CHR '','' \<or> js_space c) s"

definition split_axes :: "string list \<Rightarrow> (string list) list option" where
  "split_axes fragments =
     (if \<not> list_ex has_divider fragments then Some [fragments]
      else (let i = length (takeWhile (\<lambda>f. \<not> has_divider f) fragments);
                parts = split_divider (fragments ! i)
            in case parts of
                 p0 # p1 # _ \<Rightarrow> Some [take i fragments @ [p0], p1 # drop (i + 1) fragments]
               | _ \<Rightarrow> None))"

text \<open>The \<open>reduce\<close> that joins a sign to an empty text before it: state and the merge flag.\<close>

definition merge_step :: "string list \<times> bool \<Rightarrow> string \<Rightarrow> string list \<times> bool" where
  "merge_step st b =
     (let (a, merge) = st in
      if a \<noteq> [] \<and> last a = [] \<and> (b = ''+'' \<or> b = ''-'') then (butlast a @ [b], True)
      else if merge then (butlast a @ [last a @ b], False)
      else (a @ [b], merge))"

definition merge_signs :: "string list \<Rightarrow> string list" where
  "merge_signs op = fst (foldl merge_step ([], False) op)"

definition fragment_number :: "fragment \<Rightarrow> jsreal option" where
  "fragment_number f =
     (case f of
        FragNum v \<Rightarrow> if isFinite v then Some v else None
      | FragText s \<Rightarrow> if isNumericText s then Some (js_toNumber s) else None)"

text \<open>The sum over one axis: a fragment after a minus sign is subtracted.\<close>

fun sum_fragments :: "bool \<Rightarrow> fragment list \<Rightarrow> jsreal \<Rightarrow> jsreal" where
  "sum_fragments neg [] acc = acc"
| "sum_fragments neg (f # fs) acc =
     sum_fragments (f = FragText ''-'') fs
       (case fragment_number f of
          None \<Rightarrow> acc
        | Some v \<Rightarrow> jr_add acc (jr_mul v (if neg then Fin (-1) else Fin 1)))"

definition axis_offset :: "dom \<Rightarrow> rect \<Rightarrow> rect \<Rightarrow> string \<Rightarrow> string list \<Rightarrow> jsreal" where
  "axis_offset D popper ref measurement op =
     sum_fragments False (map (\<lambda>s. toValue D s measurement popper ref) (merge_signs op)) (Fin 0)"

definition parseOffset :: "dom \<Rightarrow> string \<Rightarrow> rect \<Rightarrow> rect \<Rightarrow> string \<Rightarrow> (jsreal \<times> jsreal) option" where
  "parseOffset D text popper ref basePlacement =
     (let useHeight = (basePlacement = ''right'' \<or> basePlacement = ''left'');
          fragments = map js_trim (split_signs text);
          m0 = (if useHeight then ''height'' else ''width'');
          m1 = (if useHeight then ''width'' else ''height'')
      in case split_axes fragments of
           Some [op0, op1] \<Rightarrow> Some (axis_offset D popper ref m0 op0, axis_offset D popper ref m1 op1)
         | Some [op0] \<Rightarrow> Some (axis_offset D popper ref m0 op0, Fin 0)
         | _ \<Rightarrow> None)"

text \<open>The deprecation warning of a divider that is white space only.\<close>

definition offset_warning :: "string \<Rightarrow> bool" where
  "offset_warning text =
     (case List.find has_divider (map js_trim (split_signs text)) of
        None \<Rightarrow> False
      | Some f \<Rightarrow> CHR '','' \<notin> set f)"

definition offset_values :: "dom \<Rightarrow> offset_option \<Rightarrow> data \<Rightarrow> string \<Rightarrow> (jsreal \<times> jsreal) option" where
  "offset_values D opt d basePlacement =
     (case opt of
        OffsetNum v \<Rightarrow> if isFinite v then Some (v, Fin 0) else None
      | OffsetText s \<Rightarrow>
          if isFinite (js_toNumber s) then Some (js_toNumber s, Fin 0)
          else parseOffset D s (popperOffsets d) (referenceOffsets d) basePlacement)"

definition move_popper :: "string \<Rightarrow> jsreal \<times> jsreal \<Rightarrow> rect \<Rightarrow> rect" where
  "move_popper basePlacement ofs p =
     (if basePlacement = ''left''
      then p(''top'' := jr_add (p ''top'') (fst ofs), ''left'' := jr_sub (p ''left'') (snd ofs))
      else if basePlacement = ''right''
      then p(''top'' := jr_add (p ''top'') (fst ofs), ''left'' := jr_add (p ''left'') (snd ofs))
      else if basePlacement = ''top''
      then p(''left'' := jr_add (p ''left'') (fst ofs), ''top'' := jr_sub (p ''top'') (snd ofs))
      else if basePlacement = ''bottom''
      then p(''left'' := jr_add (p ''left'') (fst ofs), ''top'' := jr_add (p ''top'') (snd ofs))
      else p)"

definition offset_modifier :: "dom \<Rightarrow> modifier \<Rightarrow> data \<Rightarrow> data option" where
  "offset_modifier D m d = do {
     let basePlacement = fst (split_placement (placement d));
     offsets \<leftarrow> offset_values D (offsetOption m) d basePlacement;
     let warned =
       (case offsetOption m of
          OffsetText s \<Rightarrow>
            if \<not> isFinite (js_toNumber s) \<and> offset_warning s
            then warn ''Offsets separated by white space(s) are deprecated, use a comma (,) instead.'' d
            else d
        | _ \<Rightarrow> d);
     Some (warned\<lparr>popperOffsets := move_popper basePlacement offsets (popperOffsets d)\<rparr>)
   }"

section \<open>Staying within the boundaries\<close>

definition primary :: "bool \<Rightarrow> rect \<Rightarrow> string \<Rightarrow> rect \<Rightarrow> rect" where
  "primary escape b side p =
     p(side := (if jr_less (p side) (b side) \<and> \<not> escape then jr_max (p side) (b side) else p side))"

definition secondary :: "bool \<Rightarrow> rect \<Rightarrow> string \<Rightarrow> rect \<Rightarrow> rect" where
  "secondary escape b side p =
     (let mainSide = (if side = ''right'' then ''left'' else ''top'') in
      p(mainSide :=
        (if jr_less (b side) (p side) \<and> \<not> escape
         then jr_min (p mainSide)
                (jr_sub (b side) (if side = ''right'' then p ''width'' else p ''height''))
         else p mainSide)))"

definition check_side :: "bool \<Rightarrow> rect \<Rightarrow> string \<Rightarrow> rect \<Rightarrow> rect" where
  "check_side escape b side p =
     (if side = ''left'' \<or> side = ''top'' then primary escape b side p else secondary escape b side p)"

definition keep_within :: "bool \<Rightarrow> rect \<Rightarrow> string list \<Rightarrow> rect \<Rightarrow> rect" where
  "keep_within escape b order p = foldl (\<lambda>p side. check_side escape b side p) p order"

definition set_boundaries :: "string \<Rightarrow> rect \<Rightarrow> modifier list \<Rightarrow> modifier list" where
  "set_boundaries n b ms = map (\<lambda>m. if mname m = n then m\<lparr>boundaries := Some b\<rparr> else m) ms"

definition preventOverflow :: "dom \<Rightarrow> modifier \<Rightarrow> data \<Rightarrow> data option" where
  "preventOverflow D m d = do {
     be0 \<leftarrow> (case boundariesElement m of
              Some b \<Rightarrow> Some b
            | None \<Rightarrow> map_option Node (getOffsetParent D (Some (popperElement d))));
     be \<leftarrow> (if be0 = Node (referenceElement d)
            then map_option Node (getOffsetParent D (Some (referenceElement d)))
            else Some be0);
     b \<leftarrow> getBoundaries D (popperElement d) (referenceElement d) (padding m) be;
     Some (d\<lparr>modifierList := set_boundaries (mname m) b (modifierList d),
             popperOffsets := keep_within (escapeWithReference m) b (priority m) (popperOffsets d)\<rparr>)
   }"

section \<open>Alignment with the reference\<close>

definition shift_modifier :: "data \<Rightarrow> data" where
  "shift_modifier d =
     (let (basePlacement, shiftvariation) = split_placement (placement d) in
      case shiftvariation of
        None \<Rightarrow> d
      | Some v \<Rightarrow>
          (let ref = referenceOffsets d;
               popper = popperOffsets d;
               isVertical = (basePlacement = ''bottom'' \<or> basePlacement = ''top'');
               side = (if isVertical then ''left'' else ''top'');
               measurement = (if isVertical then ''width'' else ''height'')
           in if v = ''start'' then d\<lparr>popperOffsets := popper(side := ref side)\<rparr>
              else if v = ''end''
              then d\<lparr>popperOffsets := popper(side :=
                     jr_sub (jr_add (ref side) (ref measurement)) (popper measurement))\<rparr>
              else d))"

definition keepTogether :: "data \<Rightarrow> data" where
  "keepTogether d =
     (let popper = popperOffsets d;
          ref = referenceOffsets d;
          p = fst (split_placement (placement d));
          isVertical = (p = ''top'' \<or> p = ''bottom'');
          side = (if isVertical then ''right'' else ''bottom'');
          opSide = (if isVertical then ''left'' else ''top'');
          measurement = (if isVertical then ''width'' else ''height'');
          popper1 =
            (if jr_less (popper side) (jr_floor (ref opSide))
             then popper(opSide := jr_sub (jr_floor (ref opSide)) (popper measurement))
             else popper);
          popper2 =
            (if jr_less (jr_floor (ref side)) (popper1 opSide)
             then popper1(opSide := jr_floor (ref side))
             else popper1)
      in d\<lparr>popperOffsets := popper2\<rparr>)"

definition inner_modifier :: "data \<Rightarrow> data" where
  "inner_modifier d =
     (let basePlacement = fst (split_placement (placement d));
          popper = popperOffsets d;
          ref = referenceOffsets d;
          isHoriz = (basePlacement = ''left'' \<or> basePlacement = ''right'');
          subtractLength = (basePlacement \<noteq> ''top'' \<and> basePlacement \<noteq> ''left'');
          popper1 = popper((if isHoriz then ''left'' else ''top'') :=
            jr_sub (ref basePlacement)
              (if subtractLength then popper (if isHoriz then ''width'' else ''height'') else Fin 0))
      in d\<lparr>placement := getOppositePlacement (placement d),
           popperOffsets := getClientRect popper1\<rparr>)"

section \<open>Arrow\<close>

definition find_arrow :: "dom \<Rightarrow> arrow_option \<Rightarrow> elt \<Rightarrow> elt option" where
  "find_arrow D opt popper =
     (case opt of
        ArrowSelector s \<Rightarrow> querySelector D popper s
      | ArrowNode e \<Rightarrow> if contains_node D popper e then Some e else None)"

definition arrow_side :: "rect \<Rightarrow> rect \<Rightarrow> string \<Rightarrow> string \<Rightarrow> jsreal \<Rightarrow> rect" where
  "arrow_side popper ref side opSide asize =
     (let popper1 =
            (if jr_less (jr_sub (ref opSide) asize) (popper side)
             then popper(side := jr_sub (popper side) (jr_sub (popper side) (jr_sub (ref opSide) asize)))
             else popper)
      in getClientRect
           (if jr_less (popper1 opSide) (jr_add (ref side) asize)
            then popper1(side := jr_add (popper1 side) (jr_sub (jr_add (ref side) asize) (popper1 opSide)))
            else popper1))"

definition arrow_value :: "dom \<Rightarrow> data \<Rightarrow> rect \<Rightarrow> string \<Rightarrow> string \<Rightarrow> string \<Rightarrow> jsreal \<Rightarrow> jsreal" where
  "arrow_value D d popper side sideCapitalized len asize =
     (let ref = referenceOffsets d;
          center = jr_sub (jr_add (ref side) (half (ref len))) (half asize);
          style = (\<lambda>p. style_float (getStyleComputedProperty D (popperElement d) p));
          v = jr_sub (jr_sub (jr_sub center (popper side)) (style (''margin'' @ sideCapitalized)))
                (style (''border'' @ sideCapitalized @ ''Width''))
      in jr_max (jr_min (jr_sub (popper len) asize) v) (Fin 0))"

definition arrow_modifier :: "dom \<Rightarrow> modifier \<Rightarrow> data \<Rightarrow> data" where
  "arrow_modifier D m d =
     (if \<not> isModifierRequired (modifierList d) ''arrow'' ''keepTogether''
      then warn (required_warning ''arrow'' ''keepTogether'') d
      else (case find_arrow D (arrowOption m) (popperElement d) of
        None \<Rightarrow>
          (case arrowOption m of
             ArrowSelector _ \<Rightarrow> d
           | ArrowNode _ \<Rightarrow> warn ''WARNING: `arrow.element` must be child of its popper element!'' d)
      | Some e \<Rightarrow>
          (let p = fst (split_placement (placement d));
               isVertical = (p = ''left'' \<or> p = ''right'');
               len = (if isVertical then ''height'' else ''width'');
               sideCapitalized = (if isVertical then ''Top'' else ''Left'');
               side = (if isVertical then ''top'' else ''left'');
               altSide = (if isVertical then ''left'' else ''top'');
               opSide = (if isVertical then ''bottom'' else ''right'');
               asize = getOuterSizes D e len;
               popper = arrow_side (popperOffsets d) (referenceOffsets d) side opSide asize;
               v = arrow_value D d popper side sideCapitalized len asize
           in d\<lparr>popperOffsets := popper, arrowElement := Some e,
                arrowOffsets := [(side, StyleNum (jr_round v)), (altSide, StyleText [])]\<rparr>)))"

section \<open>Hiding\<close>

definition out_of_bounds :: "rect \<Rightarrow> rect \<Rightarrow> bool" where
  "out_of_bounds ref bound =
     (jr_less (ref ''bottom'') (bound ''top'') \<or> jr_less (bound ''right'') (ref ''left'')
      \<or> jr_less (bound ''bottom'') (ref ''top'') \<or> jr_less (ref ''right'') (bound ''left''))"

definition hide_modifier :: "data \<Rightarrow> data option" where
  "hide_modifier d =
     (if \<not> isModifierRequired (modifierList d) ''hide'' ''preventOverflow''
      then Some (warn (required_warning ''hide'' ''preventOverflow'') d)
      else do {
        po \<leftarrow> findModifier (modifierList d) ''preventOverflow'';
        bound \<leftarrow> boundaries po;
        let key = ''x-out-of-boundaries'';
        Some (if out_of_bounds (referenceOffsets d) bound
              then (if hidden d = Some True then d
                    else d\<lparr>hidden := Some True,
                           attributes := extend (attributes d) [(key, AttrText [])]\<rparr>)
              else (if hidden d = Some False then d
                    else d\<lparr>hidden := Some False,
                           attributes := extend (attributes d) [(key, AttrFalse)]\<rparr>))
      })"

section \<open>Styles\<close>

definition style_offsets :: "bool \<Rightarrow> string option \<Rightarrow> string \<Rightarrow> string \<Rightarrow> rect \<Rightarrow> rect \<Rightarrow> (string \<times> style_value) list" where
  "style_offsets gpu prefixed sideA sideB popper parentRect =
     (let floor = (\<lambda>k. jr_floor (popper k));
          top = (if sideA = ''bottom'' then jr_add (jr_neg (parentRect ''height'')) (floor ''bottom'') else floor ''top'');
          left = (if sideB = ''right'' then jr_add (jr_neg (parentRect ''width'')) (floor ''right'') else floor ''left'');
          invertTop = (if sideA = ''bottom'' then Fin (-1) else Fin 1);
          invertLeft = (if sideB = ''right'' then Fin (-1) else Fin 1)
      in case prefixed of
           Some p \<Rightarrow>
             if gpu
             then [(p, Translate3d left top), (sideA, StyleNum (Fin 0)), (sideB, StyleNum (Fin 0)),
                   (''willChange'', StyleText ''transform'')]
             else [(sideA, StyleNum (jr_mul top invertTop)), (sideB, StyleNum (jr_mul left invertLeft)),
                   (''willChange'', StyleText (sideA @ '', '' @ sideB))]
         | None \<Rightarrow>
             [(sideA, StyleNum (jr_mul top invertTop)), (sideB, StyleNum (jr_mul left invertLeft)),
              (''willChange'', StyleText (sideA @ '', '' @ sideB))])"

definition computeStyle :: "dom \<Rightarrow> modifier \<Rightarrow> data \<Rightarrow> data option" where
  "computeStyle D m d = do {
     legacy \<leftarrow> findModifier (modifierList d) ''applyStyle'';
     let warned =
       (if gpuAcceleration legacy \<noteq> None
        then warn (''WARNING: `gpuAcceleration` option moved to `computeStyle` modifier ''
               @ ''and will not be supported in future versions of Popper.js!'') d
        else d);
     let gpu = (case gpuAcceleration legacy of Some b \<Rightarrow> b | None \<Rightarrow> gpuAcceleration m = Some True);
     parent \<leftarrow> getOffsetParent D (Some (popperElement d));
     parentRect \<leftarrow> getBoundingClientRect D parent;
     let sideA = (if originX m = ''bottom'' then ''top'' else ''bottom'');
     let sideB = (if originY m = ''right'' then ''left'' else ''right'');
     let sts = (''position'', StyleText (popperPosition d))
            # style_offsets gpu (getSupportedPropertyName D ''transform'') sideA sideB (popperOffsets d) parentRect;
     Some (warned\<lparr>attributes := extend [(''x-placement'', AttrText (placement d))] (attributes d),
             styles := extend sts (styles d),
             arrowStyles := extend (arrowOffsets d) (arrowStyles d)\<rparr>)
   }"

definition applyStyle :: "data \<Rightarrow> data" where
  "applyStyle d =
     d\<lparr>writes := writes d @ setStyles (popperElement d) (styles d)
          @ setAttributes (popperElement d) (attributes d)
          @ (case arrowElement d of
               Some a \<Rightarrow> if arrowStyles d \<noteq> [] then setStyles a (arrowStyles d) else []
             | None \<Rightarrow> [])\<rparr>"

end
