(* ===== verification/Popper_Update.thy ===== *)
theory Popper_Update
  imports Popper_Modifiers
begin

text \<open>
  One update of a popper: the loop over the modifiers, the \<open>flip\<close> modifier, which runs that
  loop again over the modifiers before it, the library's default modifiers, and \<open>update\<close> itself.
\<close>

section \<open>The loop over the modifiers\<close>

text \<open>Before each enabled modifier the two rectangles get their right and bottom edges again.\<close>

definition complete_rects :: "data \<Rightarrow> data" where
  "complete_rects d =
     d\<lparr>popperOffsets := getClientRect (popperOffsets d),
       referenceOffsets := getClientRect (referenceOffsets d)\<rparr>"

definition run_one ::
  "(modifier_fn \<Rightarrow> modifier \<Rightarrow> data \<Rightarrow> data option) \<Rightarrow> modifier \<Rightarrow> data \<Rightarrow> data option" where
  "run_one f m d =
     (let warned = (if legacyFunction m \<noteq> None
                    then warn ''`modifier.function` is deprecated, use `modifier.fn`!'' d else d)
      in case (case legacyFunction m of Some g \<Rightarrow> Some g | None \<Rightarrow> mfn m) of
           None \<Rightarrow> Some warned
         | Some fn \<Rightarrow> if enabled m then f fn m (complete_rects warned) else Some warned)"

primrec run_with ::
  "(modifier_fn \<Rightarrow> modifier \<Rightarrow> data \<Rightarrow> data option) \<Rightarrow> modifier list \<Rightarrow> data \<Rightarrow> data option" where
  "run_with f [] d = Some d"
| "run_with f (m # ms) d = Option.bind (run_one f m d) (run_with f ms)"

definition modifiers_until :: "modifier list \<Rightarrow> string \<Rightarrow> modifier list" where
  "modifiers_until ms ends =
     (let i = findIndex ms ends in if i = -1 then butlast ms else take (nat i) ms)"

section \<open>Flip\<close>

definition overlaps_ref :: "string \<Rightarrow> rect \<Rightarrow> rect \<Rightarrow> bool" where
  "overlaps_ref p popper ref =
     (p = ''left'' \<and> jr_less (jr_floor (ref ''left'')) (jr_floor (popper ''right''))
      \<or> p = ''right'' \<and> jr_less (jr_floor (popper ''left'')) (jr_floor (ref ''right''))
      \<or> p = ''top'' \<and> jr_less (jr_floor (ref ''top'')) (jr_floor (popper ''bottom''))
      \<or> p = ''bottom'' \<and> jr_less (jr_floor (popper ''top'')) (jr_floor (ref ''bottom'')))"

definition overflows :: "rect \<Rightarrow> rect \<Rightarrow> string \<Rightarrow> bool" where
  "overflows popper b side =
     (if side = ''left'' \<or> side = ''top''
      then jr_less (jr_floor (popper side)) (jr_floor (b side))
      else jr_less (jr_floor (b side)) (jr_floor (popper side)))"

definition flipped_variation :: "bool \<Rightarrow> string \<Rightarrow> string \<Rightarrow> rect \<Rightarrow> rect \<Rightarrow> bool" where
  "flipped_variation allowed p variation popper b =
     (let isVertical = (p = ''top'' \<or> p = ''bottom'') in
      allowed \<and>
      (isVertical \<and> variation = ''start'' \<and> overflows popper b ''left''
       \<or> isVertical \<and> variation = ''end'' \<and> overflows popper b ''right''
       \<or> \<not> isVertical \<and> variation = ''start'' \<and> overflows popper b ''top''
       \<or> \<not> isVertical \<and> variation = ''end'' \<and> overflows popper b ''bottom''))"

definition flip_order :: "behavior_option \<Rightarrow> string \<Rightarrow> string list option" where
  "flip_order bh p =
     (case bh of
        BehaviorList ps \<Rightarrow> Some ps
      | BehaviorName n \<Rightarrow>
          if n = ''flip'' then Some [p, getOppositePlacement p]
          else if n = ''clockwise'' then Some (clockwise p False)
          else if n = ''counterclockwise'' then Some (clockwise p True)
          else None)"

text \<open>
  One pass of the \<open>forEach\<close>: the current placement and variation, the data, the rest of the order.
\<close>

definition flip_step ::
  "dom \<Rightarrow> (data \<Rightarrow> data option) \<Rightarrow> modifier \<Rightarrow> rect \<Rightarrow> string \<Rightarrow> string \<Rightarrow> data
   \<Rightarrow> (string \<times> string \<times> data) option" where
  "flip_step D rerun m b nxt variation d =
     (let p = fst (split_placement (placement d));
          popper = popperOffsets d;
          overlapsRef = overlaps_ref p popper (referenceOffsets d);
          overflowsBoundaries = (p \<in> {''left'', ''right'', ''top'', ''bottom''} \<and> overflows popper b p);
          flippedVariation = flipped_variation (flipVariations m) p variation popper b
      in if overlapsRef \<or> overflowsBoundaries \<or> flippedVariation
         then (let p' = (if overlapsRef \<or> overflowsBoundaries then nxt else p);
                   v' = (if flippedVariation then getOppositeVariation variation else variation);
                   d1 = d\<lparr>flipped := True, placement := with_variation p' (Some v')\<rparr>;
                   d2 = d1\<lparr>popperOffsets :=
                     mergeOffsets (popperOffsets d1)
                       (getPopperOffsets D (popperElement d1) (referenceOffsets d1) (placement d1))\<rparr>
               in Option.bind (rerun d2) (\<lambda>d3. Some (p', v', d3)))
         else Some (p, variation, d))"

fun flip_loop ::
  "dom \<Rightarrow> (data \<Rightarrow> data option) \<Rightarrow> modifier \<Rightarrow> rect \<Rightarrow> string list \<Rightarrow> string \<Rightarrow> string \<Rightarrow> data \<Rightarrow> data option" where
  "flip_loop D rerun m b [] p variation d = Some d"
| "flip_loop D rerun m b [step] p variation d = Some d"
| "flip_loop D rerun m b (step # nxt # rest) p variation d =
     (if p \<noteq> step then flip_loop D rerun m b (nxt # rest) p variation d
      else Option.bind (flip_step D rerun m b nxt variation d)
             (\<lambda>(p', v', d'). flip_loop D rerun m b (nxt # rest) p' v' d'))"

definition flip_modifier :: "dom \<Rightarrow> (data \<Rightarrow> data option) \<Rightarrow> modifier \<Rightarrow> data \<Rightarrow> data option" where
  "flip_modifier D rerun m d =
     (if isModifierEnabled (modifierList d) ''inner'' then Some d
      else if flipped d \<and> placement d = originalPlacement d then Some d
      else
        (case boundariesElement m of
           None \<Rightarrow> None
         | Some be \<Rightarrow>
             Option.bind (getBoundaries D (popperElement d) (referenceElement d) (padding m) be)
               (\<lambda>b. let p = fst (split_placement (placement d));
                        variation = (case snd (split_placement (placement d)) of None \<Rightarrow> [] | Some v \<Rightarrow> v)
                    in (case flip_order (behavior m) p of
                          None \<Rightarrow> None
                        | Some order \<Rightarrow> flip_loop D rerun m b order p variation d))))"

section \<open>Running a modifier's function\<close>

definition simple_fn ::
  "dom \<Rightarrow> (nat \<Rightarrow> modifier \<Rightarrow> data \<Rightarrow> data option) \<Rightarrow> modifier_fn \<Rightarrow> modifier \<Rightarrow> data \<Rightarrow> data option" where
  "simple_fn D custom fn m d =
     (case fn of
        Fn_shift \<Rightarrow> Some (shift_modifier d)
      | Fn_offset \<Rightarrow> offset_modifier D m d
      | Fn_preventOverflow \<Rightarrow> preventOverflow D m d
      | Fn_keepTogether \<Rightarrow> Some (keepTogether d)
      | Fn_arrow \<Rightarrow> Some (arrow_modifier D m d)
      | Fn_inner \<Rightarrow> Some (inner_modifier d)
      | Fn_hide \<Rightarrow> hide_modifier d
      | Fn_computeStyle \<Rightarrow> computeStyle D m d
      | Fn_applyStyle \<Rightarrow> Some (applyStyle d)
      | Fn_custom n \<Rightarrow> custom n m d
      | Fn_flip \<Rightarrow> None)"

lemma run_one_mono:
  assumes "\<And>fn m d. mono_option (\<lambda>f. B f fn m d)"
  shows "mono_option (\<lambda>f. run_one (B f) m d)"
  unfolding run_one_def Let_def
  by (cases "legacyFunction m"; cases "mfn m"; cases "enabled m")
    (simp_all add: assms option.const_mono)

lemma run_with_mono [partial_function_mono]:
  assumes "\<And>fn m d. mono_option (\<lambda>f. B f fn m d)"
  shows "mono_option (\<lambda>f. run_with (B f) ms d)"
proof (induction ms arbitrary: d)
  case Nil
  then show ?case by (simp add: option.const_mono)
next
  case (Cons m ms)
  then show ?case
    unfolding run_with.simps by (intro bind_mono run_one_mono assms)
qed

lemma flip_step_mono:
  assumes "\<And>d. mono_option (\<lambda>f. R f d)"
  shows "mono_option (\<lambda>f. flip_step D (R f) m b nxt variation d)"
  unfolding flip_step_def Let_def
  by (cases "overlaps_ref (fst (split_placement (placement d))) (popperOffsets d) (referenceOffsets d)
      \<or> (fst (split_placement (placement d)) \<in> {''left'', ''right'', ''top'', ''bottom''} \<and>
         overflows (popperOffsets d) b (fst (split_placement (placement d))))
      \<or> flipped_variation (flipVariations m) (fst (split_placement (placement d))) variation (popperOffsets d) b")
    (simp_all only: if_True if_False option.const_mono bind_mono assms)

lemma flip_loop_mono:
  assumes "\<And>d. mono_option (\<lambda>f. R f d)"
  shows "mono_option (\<lambda>f. flip_loop D (R f) m b order p variation d)"
proof (induction order arbitrary: p variation d)
  case Nil
  then show ?case by (simp add: option.const_mono)
next
  case (Cons step rest)
  show ?case
  proof (cases rest)
    case Nil
    then show ?thesis by (simp add: option.const_mono)
  next
    case (Cons nxt rest')
    then show ?thesis
      using Cons.IH
      by (cases "p = step")
        (auto intro!: bind_mono flip_step_mono assms simp: split_beta)
  qed
qed

lemma flip_modifier_mono [partial_function_mono]:
  assumes "\<And>d. mono_option (\<lambda>f. R f d)"
  shows "mono_option (\<lambda>f. flip_modifier D (R f) m d)"
proof -
  have *: "mono_option (\<lambda>f. case flip_order (behavior m) p of None \<Rightarrow> None
      | Some order \<Rightarrow> flip_loop D (R f) m b order q v d)" for b p q v
    by (cases "flip_order (behavior m) p") (simp_all add: option.const_mono flip_loop_mono assms)
  show ?thesis
    unfolding flip_modifier_def Let_def
    by (cases "boundariesElement m")
      (auto intro!: bind_mono option.const_mono * partial_function_mono)
qed

partial_function (option) run_fn ::
  "dom \<Rightarrow> (nat \<Rightarrow> modifier \<Rightarrow> data \<Rightarrow> data option) \<Rightarrow> modifier_fn \<Rightarrow> modifier \<Rightarrow> data \<Rightarrow> data option" where
  "run_fn D custom fn m d =
     (if fn = Fn_flip
      then flip_modifier D
             (\<lambda>d'. run_with (\<lambda>fn' m' d''. run_fn D custom fn' m' d'')
                     (modifiers_until (modifierList d') ''flip'') d') m d
      else simple_fn D custom fn m d)"

definition runModifiers ::
  "dom \<Rightarrow> (nat \<Rightarrow> modifier \<Rightarrow> data \<Rightarrow> data option) \<Rightarrow> modifier list \<Rightarrow> data \<Rightarrow> string option \<Rightarrow> data option" where
  "runModifiers D custom ms d ends =
     run_with (run_fn D custom) (case ends of None \<Rightarrow> ms | Some e \<Rightarrow> modifiers_until ms e) d"

section \<open>The default modifiers\<close>

definition plain_modifier :: modifier where
  "plain_modifier =
     \<lparr>mname = [], morder = JsNaN, enabled = False, mfn = None, legacyFunction = None,
      runsOnLoad = False, offsetOption = OffsetNum JsNaN, priority = [], padding = Fin 0,
      boundariesElement = None, escapeWithReference = False, boundaries = None,
      arrowOption = ArrowSelector [], behavior = BehaviorList [], flipVariations = False,
      gpuAcceleration = None, originX = [], originY = []\<rparr>"

definition default_shift :: modifier where
  "default_shift = plain_modifier
     \<lparr>mname := ''shift'', morder := Fin 100, enabled := True, mfn := Some Fn_shift\<rparr>"

definition default_offset :: modifier where
  "default_offset = plain_modifier
     \<lparr>mname := ''offset'', morder := Fin 200, enabled := True, mfn := Some Fn_offset,
      offsetOption := OffsetNum (Fin 0)\<rparr>"

definition default_preventOverflow :: modifier where
  "default_preventOverflow = plain_modifier
     \<lparr>mname := ''preventOverflow'', morder := Fin 300, enabled := True,
      mfn := Some Fn_preventOverflow, priority := [''left'', ''right'', ''top'', ''bottom''],
      padding := Fin 5, boundariesElement := Some (Named ''scrollParent'')\<rparr>"

definition default_keepTogether :: modifier where
  "default_keepTogether = plain_modifier
     \<lparr>mname := ''keepTogether'', morder := Fin 400, enabled := True, mfn := Some Fn_keepTogether\<rparr>"

definition default_arrow :: modifier where
  "default_arrow = plain_modifier
     \<lparr>mname := ''arrow'', morder := Fin 500, enabled := True, mfn := Some Fn_arrow,
      arrowOption := ArrowSelector ''[x-arrow]''\<rparr>"

definition default_flip :: modifier where
  "default_flip = plain_modifier
     \<lparr>mname := ''flip'', morder := Fin 600, enabled := True, mfn := Some Fn_flip,
      behavior := BehaviorName ''flip'', padding := Fin 5,
      boundariesElement := Some (Named ''viewport'')\<rparr>"

definition default_inner :: modifier where
  "default_inner = plain_modifier
     \<lparr>mname := ''inner'', morder := Fin 700, enabled := False, mfn := Some Fn_inner\<rparr>"

definition default_hide :: modifier where
  "default_hide = plain_modifier
     \<lparr>mname := ''hide'', morder := Fin 800, enabled := True, mfn := Some Fn_hide\<rparr>"

definition default_computeStyle :: modifier where
  "default_computeStyle = plain_modifier
     \<lparr>mname := ''computeStyle'', morder := Fin 850, enabled := True, mfn := Some Fn_computeStyle,
      gpuAcceleration := Some True, originX := ''bottom'', originY := ''right''\<rparr>"

definition default_applyStyle :: modifier where
  "default_applyStyle = plain_modifier
     \<lparr>mname := ''applyStyle'', morder := Fin 900, enabled := True, mfn := Some Fn_applyStyle,
      runsOnLoad := True\<rparr>"

definition defaultModifiers :: "modifier list" where
  "defaultModifiers =
     [default_shift, default_offset, default_preventOverflow, default_keepTogether, default_arrow,
      default_flip, default_inner, default_hide, default_computeStyle, default_applyStyle]"

definition sort_modifiers :: "modifier list \<Rightarrow> modifier list" where
  "sort_modifiers ms = js_sort (\<lambda>a b. jr_sub (morder a) (morder b)) ms"

section \<open>The instance and its update\<close>

text \<open>
  A listener is on the window of a document or on an element. The browser ignores a listener it
  already has for the same target and event, as all of an instance's are the same function.
\<close>

datatype target = WindowOf elt | Element elt

record popper =
  theReference :: elt
  thePopper :: elt
  optPlacement :: string
  optEvents :: bool
  optRemove :: bool
  flipOptions :: modifier
  modifiers :: "modifier list"
  isDestroyed :: bool
  isCreated :: bool
  eventsEnabled :: bool
  updateBound :: bool
  scrollParents :: "target list"
  scrollElement :: "elt option"

text \<open>The page as one instance sees it: the listeners it has there and what was done to the page.\<close>

record browser =
  listeners :: "(target \<times> string) list"
  page_writes :: "dom_write list"
  onCreates :: nat
  onUpdates :: nat

definition initial_data :: "popper \<Rightarrow> data" where
  "initial_data p =
     \<lparr>popperElement = thePopper p, referenceElement = theReference p, modifierList = modifiers p,
      placement = [], originalPlacement = [], flipped = False, hidden = None,
      popperOffsets = emptyRect, popperPosition = [], referenceOffsets = emptyRect,
      arrowOffsets = [], arrowElement = None, styles = [], arrowStyles = [], attributes = [],
      writes = []\<rparr>"

definition update_data :: "dom \<Rightarrow> popper \<Rightarrow> data option" where
  "update_data D p = do {
     ref \<leftarrow> getReferenceOffsets D (thePopper p) (theReference p);
     pl \<leftarrow> computeAutoPlacement D (optPlacement p) ref (thePopper p) (theReference p)
             (boundariesElement (flipOptions p)) (padding (flipOptions p));
     Some ((initial_data p)\<lparr>referenceOffsets := ref, placement := pl, originalPlacement := pl,
             popperOffsets := getPopperOffsets D (thePopper p) ref pl, popperPosition := ''absolute''\<rparr>)
   }"

definition update_popper ::
  "dom \<Rightarrow> (nat \<Rightarrow> modifier \<Rightarrow> data \<Rightarrow> data option) \<Rightarrow> popper \<Rightarrow> browser \<Rightarrow> (popper \<times> browser) option" where
  "update_popper D custom p br =
     (if isDestroyed p then Some (p, br)
      else do {
        d0 \<leftarrow> update_data D p;
        d \<leftarrow> runModifiers D custom (modifiers p) d0 None;
        let br' = br\<lparr>page_writes := page_writes br @ writes d\<rparr>;
        Some (if \<not> isCreated p
              then (p\<lparr>modifiers := modifierList d, isCreated := True\<rparr>,
                    br'\<lparr>onCreates := Suc (onCreates br')\<rparr>)
              else (p\<lparr>modifiers := modifierList d\<rparr>, br'\<lparr>onUpdates := Suc (onUpdates br')\<rparr>))
      })"

end
