(* ===== verification/Popper_Life.thy ===== *)
theory Popper_Life
  imports Popper_Update
begin

text \<open>
  The life of a popper: its constructor, the event listeners it adds and removes, the debounced
  and scheduled updates, and its destruction, with the steps a page can take with it.
\<close>

section \<open>Event listeners\<close>

definition addEventListener :: "target \<Rightarrow> string \<Rightarrow> browser \<Rightarrow> browser" where
  "addEventListener t ev br =
     (if (t, ev) \<in> set (listeners br) then br else br\<lparr>listeners := listeners br @ [(t, ev)]\<rparr>)"

definition removeEventListener :: "target \<Rightarrow> string \<Rightarrow> browser \<Rightarrow> browser" where
  "removeEventListener t ev br = br\<lparr>listeners := filter (\<lambda>l. l \<noteq> (t, ev)) (listeners br)\<rparr>"

definition getWindow :: "dom \<Rightarrow> elt \<Rightarrow> target" where
  "getWindow D e = WindowOf (ownerDocument D e)"

text \<open>
  The targets are attached from the inside out and pushed on the way back, so that the list of
  scroll parents grows from the outermost.
\<close>

partial_function (option) attachToScrollParents ::
  "dom \<Rightarrow> elt \<Rightarrow> browser \<times> target list \<Rightarrow> (browser \<times> target list) option" where
  "attachToScrollParents D scrollParent st =
     (let isBody = (nodeName D scrollParent = ''BODY'');
          t = (if isBody then WindowOf (ownerDocument D scrollParent) else Element scrollParent);
          st1 = (addEventListener t ''scroll'' (fst st), snd st)
      in if isBody then Some (fst st1, snd st1 @ [t])
         else do {
           next \<leftarrow> getScrollParent D (parentNode D scrollParent);
           st2 \<leftarrow> attachToScrollParents D next st1;
           Some (fst st2, snd st2 @ [t])
         })"

definition setupEventListeners :: "dom \<Rightarrow> popper \<Rightarrow> browser \<Rightarrow> (popper \<times> browser) option" where
  "setupEventListeners D p br = do {
     let br1 = addEventListener (getWindow D (theReference p)) ''resize'' br;
     scrollEl \<leftarrow> getScrollParent D (Some (theReference p));
     st \<leftarrow> attachToScrollParents D scrollEl (br1, scrollParents p);
     Some (p\<lparr>updateBound := True, scrollParents := snd st, scrollElement := Some scrollEl,
             eventsEnabled := True\<rparr>, fst st)
   }"

definition enableEventListeners :: "dom \<Rightarrow> popper \<Rightarrow> browser \<Rightarrow> (popper \<times> browser) option" where
  "enableEventListeners D p br =
     (if \<not> eventsEnabled p then setupEventListeners D p br else Some (p, br))"

definition removeEventListeners :: "dom \<Rightarrow> popper \<Rightarrow> browser \<Rightarrow> popper \<times> browser" where
  "removeEventListeners D p br =
     (let br1 = removeEventListener (getWindow D (theReference p)) ''resize'' br;
          br2 = foldl (\<lambda>b t. removeEventListener t ''scroll'' b) br1 (scrollParents p)
      in (p\<lparr>updateBound := False, scrollParents := [], scrollElement := None, eventsEnabled := False\<rparr>,
          br2))"

text \<open>
  \<open>cancelAnimationFrame\<close> is given a function where it takes a handle, so it cancels nothing.
\<close>

definition disableEventListeners :: "dom \<Rightarrow> popper \<Rightarrow> browser \<Rightarrow> popper \<times> browser" where
  "disableEventListeners D p br = (if eventsEnabled p then removeEventListeners D p br else (p, br))"

section \<open>Destruction\<close>

definition destroy_writes :: "dom \<Rightarrow> popper \<Rightarrow> dom_write list" where
  "destroy_writes D p =
     (if isModifierEnabled (modifiers p) ''applyStyle''
      then (let e = thePopper p; clear = (\<lambda>prop. SetStyle e prop (StyleText []) [])
            in [RemoveAttribute e ''x-placement'', clear ''left'', clear ''position'', clear ''top'',
                clear (case getSupportedPropertyName D ''transform'' of Some t \<Rightarrow> t | None \<Rightarrow> ''null'')])
      else [])"

definition destroy :: "dom \<Rightarrow> popper \<Rightarrow> browser \<Rightarrow> (popper \<times> browser) option" where
  "destroy D p br =
     (let br1 = br\<lparr>page_writes := page_writes br @ destroy_writes D p\<rparr>;
          (p2, br2) = disableEventListeners D (p\<lparr>isDestroyed := True\<rparr>) br1
      in if optRemove p
         then (case parentNode D (thePopper p) of
                 None \<Rightarrow> None
               | Some _ \<Rightarrow> Some (p2, br2\<lparr>page_writes := page_writes br2 @ [RemoveChild (thePopper p)]\<rparr>))
         else Some (p2, br2))"

section \<open>Construction\<close>

text \<open>
  The options of the caller: each modifier's options as the change they make to its defaults.
\<close>

record options =
  oPlacement :: string
  oEvents :: bool
  oRemove :: bool
  oModifiers :: "(string \<times> (modifier \<Rightarrow> modifier)) list"

definition Defaults :: options where
  "Defaults = \<lparr>oPlacement = ''bottom'', oEvents = True, oRemove = False, oModifiers = []\<rparr>"

definition merge_modifiers :: "(string \<times> (modifier \<Rightarrow> modifier)) list \<Rightarrow> modifier list" where
  "merge_modifiers opts =
     (let names = map mname defaultModifiers;
          names' = names @ filter (\<lambda>n. n \<notin> set names) (map fst opts)
      in map (\<lambda>n. (case map_of opts n of None \<Rightarrow> id | Some change \<Rightarrow> change)
                    (case findModifier defaultModifiers n of
                       Some m \<Rightarrow> m | None \<Rightarrow> plain_modifier\<lparr>mname := n\<rparr>)) names')"

definition applyStyleOnLoad :: "dom \<Rightarrow> popper \<Rightarrow> dom_write list option" where
  "applyStyleOnLoad D p = do {
     ref \<leftarrow> getReferenceOffsets D (thePopper p) (theReference p);
     pl \<leftarrow> computeAutoPlacement D (optPlacement p) ref (thePopper p) (theReference p)
             (boundariesElement (flipOptions p)) (padding (flipOptions p));
     Some (SetAttribute (thePopper p) ''x-placement'' pl
           # setStyles (thePopper p) [(''position'', StyleText ''absolute'')])
   }"

primrec run_onLoad :: "dom \<Rightarrow> popper \<Rightarrow> modifier list \<Rightarrow> browser \<Rightarrow> browser option" where
  "run_onLoad D p [] br = Some br"
| "run_onLoad D p (m # ms) br =
     (if enabled m \<and> runsOnLoad m
      then do {
        ws \<leftarrow> applyStyleOnLoad D p;
        run_onLoad D p ms (br\<lparr>page_writes := page_writes br @ ws\<rparr>)
      }
      else run_onLoad D p ms br)"

text \<open>An instance with its debounced update and the frames it has asked for.\<close>

record instance_state =
  self :: popper
  page :: browser
  debounce :: debounced
  frames :: nat

definition new_popper :: "elt \<Rightarrow> elt \<Rightarrow> options \<Rightarrow> modifier \<Rightarrow> popper" where
  "new_popper ref pop opts flip =
     \<lparr>theReference = ref, thePopper = pop, optPlacement = oPlacement opts,
      optEvents = oEvents opts, optRemove = oRemove opts, flipOptions = flip,
      modifiers = sort_modifiers (merge_modifiers (oModifiers opts)), isDestroyed = False,
      isCreated = False, eventsEnabled = False, updateBound = False, scrollParents = [],
      scrollElement = None\<rparr>"

definition construct :: "dom \<Rightarrow> elt \<Rightarrow> elt \<Rightarrow> options \<Rightarrow> browser \<Rightarrow> instance_state option" where
  "construct D ref pop opts br = do {
     flip \<leftarrow> findModifier (merge_modifiers (oModifiers opts)) ''flip'';
     let p = new_popper ref pop opts flip;
     br1 \<leftarrow> run_onLoad D p (modifiers p) br;
     let db = debounce_call \<lparr>scheduled = False, queued = 0, runs = 0\<rparr>;
     r \<leftarrow> (if oEvents opts then enableEventListeners D p br1 else Some (p, br1));
     Some \<lparr>self = (fst r)\<lparr>eventsEnabled := oEvents opts\<rparr>, page = snd r, debounce = db, frames = 0\<rparr>
   }"

section \<open>The steps of a page\<close>

datatype popper_event =
    CallUpdate
  | RunUpdate
  | ScheduleUpdate
  | Frame
  | BrowserEvent target string
  | Enable
  | Disable
  | Destroy

inductive popper_step ::
  "dom \<Rightarrow> (nat \<Rightarrow> modifier \<Rightarrow> data \<Rightarrow> data option) \<Rightarrow> instance_state \<Rightarrow> popper_event \<Rightarrow> instance_state \<Rightarrow> bool"
  for D custom where
  step_call: "popper_step D custom s CallUpdate (s\<lparr>debounce := debounce_call (debounce s)\<rparr>)"
| step_run: "debounce_run (debounce s) = Some db \<Longrightarrow> update_popper D custom (self s) (page s) = Some (p, br) \<Longrightarrow>
    popper_step D custom s RunUpdate (s\<lparr>self := p, page := br, debounce := db\<rparr>)"
| step_schedule: "popper_step D custom s ScheduleUpdate (s\<lparr>frames := Suc (frames s)\<rparr>)"
| step_frame: "frames s = Suc n \<Longrightarrow>
    popper_step D custom s Frame (s\<lparr>frames := n, debounce := debounce_call (debounce s)\<rparr>)"
| step_event: "(t, ev) \<in> set (listeners (page s)) \<Longrightarrow>
    popper_step D custom s (BrowserEvent t ev) (s\<lparr>frames := Suc (frames s)\<rparr>)"
| step_enable: "enableEventListeners D (self s) (page s) = Some (p, br) \<Longrightarrow>
    popper_step D custom s Enable (s\<lparr>self := p, page := br\<rparr>)"
| step_disable: "disableEventListeners D (self s) (page s) = (p, br) \<Longrightarrow>
    popper_step D custom s Disable (s\<lparr>self := p, page := br\<rparr>)"
| step_destroy: "destroy D (self s) (page s) = Some (p, br) \<Longrightarrow>
    popper_step D custom s Destroy (s\<lparr>self := p, page := br\<rparr>)"

inductive_cases popper_stepE: "popper_step D custom s ev s'"

inductive popper_reach ::
  "dom \<Rightarrow> (nat \<Rightarrow> modifier \<Rightarrow> data \<Rightarrow> data option) \<Rightarrow> instance_state \<Rightarrow> popper_event list \<Rightarrow> instance_state \<Rightarrow> bool"
  for D custom s0 where
  reach_start: "popper_reach D custom s0 [] s0"
| reach_step: "popper_reach D custom s0 evs s \<Longrightarrow> popper_step D custom s ev s' \<Longrightarrow>
    popper_reach D custom s0 (evs @ [ev]) s'"

end
