(* ===== verification/Popper_Demo.thy ===== *)
theory Popper_Demo
  imports Popper_Life
begin

text \<open>
  A concrete page for the witnesses of the positioning library's properties, with what the
  library's measurements give on it.
\<close>

text \<open>A page: document, root, body, a reference 40 pixels wide and a popper in the body.\<close>

definition box :: "real \<Rightarrow> real \<Rightarrow> real \<Rightarrow> real \<Rightarrow> rect" where
  "box l t r b = emptyRect(''left'' := Fin l, ''top'' := Fin t, ''right'' := Fin r, ''bottom'' := Fin b)"

definition demo_dom :: dom where
  "demo_dom =
     \<lparr>nodeName = (\<lambda>e. [''#document'', ''HTML'', ''BODY'', ''DIV'', ''DIV''] ! e),
      nodeType = (\<lambda>e. if e = 0 then 9 else 1),
      parentNode = (\<lambda>e. [None, Some 0, Some 1, Some 2, Some 2] ! e),
      shadowHost = (\<lambda>_. None), offsetParent = (\<lambda>e. if e < 3 then None else Some 2),
      firstElementChild = (\<lambda>e. [Some 1, Some 2, Some 3, None, None] ! e),
      ownerDocument = (\<lambda>_. 0), documentBody = (\<lambda>_. 2), documentElement = (\<lambda>_. 1),
      scrollingElement = (\<lambda>_. Some 1), document = 0,
      css = (\<lambda>e p. if p \<in> {''overflow'', ''overflowX'', ''overflowY''} then ''visible''
                   else if p = ''position'' then ''static'' else ''0px''),
      measure_of = (\<lambda>e p. if p = ''scrollTop'' \<or> p = ''scrollLeft'' then Fin 0
                          else if e < 3 then Fin 600 else Fin 40),
      clientRect = (\<lambda>e. Some (if e < 3 then box 0 0 600 600 else box 100 200 140 240)),
      following = (\<lambda>e1 e2. e1 < e2), contains_node = (\<lambda>e1 e2. e1 < 3 \<and> e1 \<le> e2),
      commonAncestor = (\<lambda>e1 e2. 2), querySelector = (\<lambda>_ _. None),
      innerWidth = Fin 600, innerHeight = Fin 600, userAgent = [], appVersion = [],
      bodyStyles = {''transform''}\<rparr>"

lemma demo_zero: "js_parseFloat ''0px'' = Fin 0"
  by (simp add: js_parseFloat_def scan_number_def scan_decimal_def scan_exponent_def js_space_def
      digits_value_def prefix_def)

lemma demo_style:
  "p \<notin> {''overflow'', ''overflowX'', ''overflowY'', ''position''} \<Longrightarrow> e \<noteq> 0 \<Longrightarrow>
   style_float (getStyleComputedProperty demo_dom e p) = Fin 0"
  using demo_zero by (simp add: style_float_def getStyleComputedProperty_def style_text_def demo_dom_def)

lemma demo_common: "findCommonOffsetParent demo_dom (Some 4) (Some 3) = Some 1"
  by (subst findCommonOffsetParent.simps) (simp add: demo_dom_def isOffsetContainer_def getOffsetParent.simps)

lemma demo_not_ie: "isIE10 demo_dom = False"
  by (simp add: isIE10_def demo_dom_def)

lemma demo_sizes: "getWindowSizes demo_dom = emptyRect(''height'' := Fin 600, ''width'' := Fin 600)"
  by (simp add: getWindowSizes_def getSize_def demo_not_ie) (simp add: demo_dom_def jr_maximum_def jr_max_def)

lemma demo_root_rect: "getBoundingClientRect demo_dom (Suc 0) = Some (rect_of 0 0 600 600)"
  by (simp add: getBoundingClientRect_def demo_not_ie demo_sizes)
   (simp add: demo_dom_def Let_def box_def emptyRect_def jr_or_def jr_truthy_def rect_of_def fun_upd_twist)

lemma demo_scroll: "getScrollParent demo_dom (Some (Suc 0)) = Some 2" "getScrollParent demo_dom (Some 3) = Some 2"
  by (simp_all add: getScrollParent.simps demo_dom_def getParentNode_def scrolls_def style_text_def getStyleComputedProperty_def)


lemma demo_ref_rect: "getBoundingClientRect demo_dom 3 = Some (rect_of 100 200 40 40)"
  by (simp add: getBoundingClientRect_def demo_not_ie demo_sizes)
   (simp add: demo_dom_def Let_def box_def emptyRect_def jr_or_def jr_truthy_def rect_of_def fun_upd_twist)

lemma demo_relative:
  "\<exists>r. getOffsetRectRelativeToArbitraryNode demo_dom (Suc 0) (Suc 0) = Some r \<and>
     is_rect r 0 0 600 600 \<and> r ''marginTop'' = Fin 0 \<and> r ''marginLeft'' = Fin 0"
  "\<exists>r. getOffsetRectRelativeToArbitraryNode demo_dom 3 (Suc 0) = Some r \<and> is_rect r 100 200 40 40"
  by (simp_all add: getOffsetRectRelativeToArbitraryNode_def demo_root_rect demo_ref_rect demo_scroll demo_style
      demo_not_ie Let_def includeScroll_def is_rect_def rect_of_def getClientRect_def emptyRect_def)

lemma demo_viewport:
  "\<exists>b. getBoundaries demo_dom 4 3 (Fin 5) (Named ''viewport'') = Some b \<and> finite_rect b \<and>
     b ''left'' = Fin 5 \<and> b ''right'' = Fin 595"
proof -
  obtain r where r: "getOffsetRectRelativeToArbitraryNode demo_dom (Suc 0) (Suc 0) = Some r"
    "is_rect r 0 0 600 600" "r ''marginTop'' = Fin 0" "r ''marginLeft'' = Fin 0"
    using demo_relative(1) by blast
  have s: "documentElement demo_dom x = Suc 0" "measure_of demo_dom (Suc 0) ''clientWidth'' = Fin 600"
    "measure_of demo_dom (Suc 0) ''clientHeight'' = Fin 600" "innerWidth demo_dom = Fin 600" 
    "innerHeight demo_dom = Fin 600" 
    "getScroll demo_dom (Suc 0) ''top'' = Fin 0" "getScroll demo_dom (Suc 0) ''left'' = Fin 0" for x
    by (simp_all add: demo_dom_def getScroll_def)
  show ?thesis using r 
    by (simp add: getBoundaries_def demo_common getViewportOffsetRectRelativeToArtbitraryNode_def s
       jr_or_def jr_truthy_def is_rect_def addPadding_def finite_rect_def getClientRect_def Let_def)
qed

lemma demo_window:
  "findCommonOffsetParent demo_dom (Some 4) (Some 3) = Some (Suc 0)"
  "nodeName demo_dom (documentElement demo_dom (ownerDocument demo_dom 4)) = ''HTML''"
  "isFixed demo_dom (Some (Suc 0)) = Some False"
  using demo_common by (simp_all add: demo_dom_def isFixed.simps)

definition demo_data :: data where
  "demo_data =
     \<lparr>popperElement = 4, referenceElement = 3, modifierList = defaultModifiers,
      placement = ''bottom'', originalPlacement = ''bottom'', flipped = False, hidden = None,
      popperOffsets = rect_of 0 0 10 10, popperPosition = ''absolute'',
      referenceOffsets = rect_of 100 200 40 40, arrowOffsets = [], arrowElement = None,
      styles = [], arrowStyles = [], attributes = [], writes = []\<rparr>"

lemma default_names:
  "map mname defaultModifiers = [''shift'', ''offset'', ''preventOverflow'', ''keepTogether'', ''arrow'', ''flip'', ''inner'', ''hide'', ''computeStyle'', ''applyStyle'']"
  by (simp add: defaultModifiers_def default_shift_def default_offset_def default_preventOverflow_def
    default_keepTogether_def default_arrow_def default_flip_def default_inner_def default_hide_def
    default_computeStyle_def default_applyStyle_def)
lemma default_mnames:
  "mname default_shift = ''shift''" "mname default_offset = ''offset''" "mname default_preventOverflow = ''preventOverflow''"
  "mname default_keepTogether = ''keepTogether''" "mname default_arrow = ''arrow''" "mname default_flip = ''flip''"
  "mname default_inner = ''inner''" "mname default_hide = ''hide''" "mname default_computeStyle = ''computeStyle''"
  "mname default_applyStyle = ''applyStyle''"
  by (simp_all add: default_shift_def default_offset_def default_preventOverflow_def
    default_keepTogether_def default_arrow_def default_flip_def default_inner_def default_hide_def
    default_computeStyle_def default_applyStyle_def)
lemma default_orders:
  "morder default_shift = Fin 100" "morder default_offset = Fin 200" "morder default_preventOverflow = Fin 300"
  "morder default_keepTogether = Fin 400" "morder default_arrow = Fin 500" "morder default_flip = Fin 600"
  "morder default_inner = Fin 700" "morder default_hide = Fin 800" "morder default_computeStyle = Fin 850"
  "morder default_applyStyle = Fin 900"
  by (simp_all add: default_shift_def default_offset_def default_preventOverflow_def
    default_keepTogether_def default_arrow_def default_flip_def default_inner_def default_hide_def
    default_computeStyle_def default_applyStyle_def)
lemma default_merge: "merge_modifiers [] = defaultModifiers"
  by (simp add: merge_modifiers_def findModifier_def defaultModifiers_def default_mnames)
lemma default_sorted: "sort_modifiers defaultModifiers = defaultModifiers"
proof -
  have "sort_modifiers defaultModifiers = sort_key (\<lambda>m. real_of (morder m)) defaultModifiers"
    unfolding sort_modifiers_def
    by (rule js_sort_key) (auto simp: defaultModifiers_def default_orders)
  also have "\<dots> = defaultModifiers"
    by (rule sort_key_id_if_sorted) (simp add: defaultModifiers_def default_orders)
  finally show ?thesis .
qed

definition demo_browser :: browser where
  "demo_browser = \<lparr>listeners = [], page_writes = [], onCreates = 0, onUpdates = 0\<rparr>"

lemma demo_construct: "construct demo_dom 3 4 Defaults demo_browser \<noteq> None"
proof -
  let ?p = "new_popper 3 4 Defaults default_flip"
  obtain r where r: "getReferenceOffsets demo_dom 4 3 = Some r"
    using demo_relative(2) demo_common by (auto simp: getReferenceOffsets_def)
  have "\<not> contains ''bottom'' ''auto''" by code_simp
  then have "applyStyleOnLoad demo_dom ?p \<noteq> None"
    by (simp add: applyStyleOnLoad_def new_popper_def r computeAutoPlacement_def Defaults_def)
  then have "run_onLoad demo_dom ?p ms br \<noteq> None" for ms br
    by (induction ms arbitrary: br) auto
  moreover have "enableEventListeners demo_dom ?p br \<noteq> None" for br
    using demo_scroll(2)
    by (simp add: enableEventListeners_def setupEventListeners_def new_popper_def Let_def attachToScrollParents.simps)
      (simp add: demo_dom_def)
  ultimately show ?thesis
    by (auto simp: construct_def default_merge findModifier_def defaultModifiers_def default_mnames Defaults_def Let_def
      bind_eq_None_conv)
qed

definition demo_instance :: instance_state where
  "demo_instance = the (construct demo_dom 3 4 Defaults demo_browser)"

lemma demo_instance: "construct demo_dom 3 4 Defaults demo_browser = Some demo_instance"
  using demo_construct by (auto simp: demo_instance_def)

lemma enable_keeps_options:
  "enableEventListeners D p br = Some (p', br') \<Longrightarrow> optRemove p' = optRemove p \<and> modifiers p' = modifiers p"
  by (auto simp: enableEventListeners_def setupEventListeners_def Let_def split: if_splits bind_splits)

lemma construct_options:
  assumes "construct D ref pop opts br = Some s0"
  shows "optRemove (self s0) = oRemove opts \<and>
    modifiers (self s0) = sort_modifiers (merge_modifiers (oModifiers opts))"
  using assms
  by (auto simp: construct_def Let_def bind_eq_Some_conv new_popper_def split: if_splits
      dest!: enable_keeps_options)

lemma demo_instance_keeps: "\<not> optRemove (self demo_instance)"
  using construct_options [OF demo_instance] by (simp add: Defaults_def)

end
