(* ===== verification/Popper_Props.thy ===== *)
theory Popper_Props
  imports Popper_Demo
begin

text \<open>
  Properties of the positioning library: sorting and the automatic placement, the geometry the
  modifiers establish, and the life of an instance.
\<close>

section \<open>Automatic placement\<close>

lemma choose_area_best:
  assumes fin: "\<And>s r. (s, r) \<in> set rects \<Longrightarrow> getArea r = Fin (area r)" and "rects \<noteq> []"
  shows "\<exists>r. (choose_area D popper rects, r) \<in> set rects \<and>
    (\<forall>(s', r') \<in> set rects. fits D popper r' \<longrightarrow> fits D popper r \<and> area r' \<le> area r) \<and>
    ((\<forall>(s', r') \<in> set rects. \<not> fits D popper r') \<longrightarrow> (\<forall>(s', r') \<in> set rects. area r' \<le> area r))"
proof -
  let ?f = "\<lambda>a. - area (snd a)"
  let ?P = "\<lambda>a. fits D popper (snd a)"
  have sorted: "sorted_areas rects = sort_key ?f rects"
    unfolding sorted_areas_def by (rule js_sort_key) (auto simp: fin)
  have filtered: "filter ?P (sort_key ?f rects) = sort_key ?f (filter ?P rects)"
    by (rule filter_sort)
  show ?thesis
  proof (cases "filter ?P rects = []")
    case True
    let ?c = "hd (sort_key ?f rects)"
    have "choose_area D popper rects = fst ?c"
      by (simp add: choose_area_def sorted filtered True)
    moreover have c: "?c \<in> set rects" using hd_sort_key [of "hd rects" rects ?f] assms(2) by simp
    moreover have "\<forall>(s', r') \<in> set rects. area r' \<le> area (snd ?c)"
      using hd_sort_key [of _ rects ?f] by fastforce
    moreover have "\<forall>(s', r') \<in> set rects. \<not> fits D popper r'" using True by (auto simp: filter_empty_conv)
    ultimately show ?thesis by (intro exI [of _ "snd ?c"]) auto
  next
    case False
    let ?c = "hd (sort_key ?f (filter ?P rects))"
    have "sort_key ?f (filter ?P rects) \<noteq> []" using False by (metis set_empty set_sort)
    then have "choose_area D popper rects = fst ?c"
      by (simp add: choose_area_def sorted filtered)
    moreover have c: "?c \<in> set (filter ?P rects)"
      by (rule hd_sort_key [THEN conjunct1, OF hd_in_set [OF False]])
    moreover have "\<forall>(s', r') \<in> set rects. fits D popper r' \<longrightarrow> area r' \<le> area (snd ?c)"
      using hd_sort_key [of _ "filter ?P rects" ?f] by fastforce
    ultimately show ?thesis by (intro exI [of _ "snd ?c"]) auto
  qed
qed

definition area_of :: "rect \<Rightarrow> real" where
  "area_of r = real_of (getArea r)"

lemma auto_rects_area:
  assumes "finite_rect ref" "finite_rect b" "(s, r) \<in> set (auto_rects ref b)"
  shows "getArea r = Fin (area_of r)"
  using assms by (auto simp: auto_rects_def finite_rect_def getArea_def area_of_def dest!: isFiniteD)


lemma split_auto: "split_placement ''auto'' = (''auto'', None)"
  by code_simp


lemma choose_area_NaN:
  assumes "b ''width'' = JsNaN" "b ''height'' = JsNaN"
  shows "choose_area D popper (auto_rects ref b) = ''top''"
proof -
  have "sorted_areas (auto_rects ref b) = auto_rects ref b"
    unfolding sorted_areas_def
    by (rule js_sort_NaN) (auto simp: auto_rects_def getArea_def assms)
  moreover have "\<not> fits D popper r" if "(s, r) \<in> set (auto_rects ref b)" for s r
    using that by (auto simp: auto_rects_def fits_def assms elim: jr_le.elims)
  then have "filter (\<lambda>a. fits D popper (snd a)) (auto_rects ref b) = []"
    by (auto simp: filter_empty_conv)
  ultimately show ?thesis by (simp add: choose_area_def auto_rects_def)
qed

lemma getBoundaries_window:
  assumes "findCommonOffsetParent D (Some popper) (Some reference) = Some op"
    and "nodeName D (documentElement D (ownerDocument D popper)) = ''HTML''"
    and "isFixed D (Some op) = Some False"
    and "getOffsetRectRelativeToArbitraryNode D (documentElement D (ownerDocument D popper)) op = Some offsets"
  shows "\<exists>b. getBoundaries D popper reference pad (Named ''window'') = Some b \<and>
    b ''width'' = JsNaN \<and> b ''height'' = JsNaN"
  using assms
  by (simp add: getBoundaries_def boundariesNode_def addPadding_def emptyRect_def Let_def)

text \<open>
  C18: When the boundary is the window and the page does not hold a fixed parent, the boundaries
  have no width and no height, no area is a number, and the automatic placement is \<open>top\<close>
  however much room there is elsewhere.
\<close>

theorem auto_window_top:
  assumes "contains pl ''auto''"
    and "findCommonOffsetParent D (Some popper) (Some reference) = Some op"
    and "nodeName D (documentElement D (ownerDocument D popper)) = ''HTML''"
    and "isFixed D (Some op) = Some False"
    and "getOffsetRectRelativeToArbitraryNode D (documentElement D (ownerDocument D popper)) op = Some offsets"
  shows "computeAutoPlacement D pl ref popper reference (Some (Named ''window'')) pad =
    Some (with_variation ''top'' (snd (split_placement pl)))"
proof -
  obtain b where "getBoundaries D popper reference pad (Named ''window'') = Some b"
    "b ''width'' = JsNaN" "b ''height'' = JsNaN"
    using getBoundaries_window [OF assms(2-5)] by blast
  then show ?thesis using assms(1) by (simp add: computeAutoPlacement_def choose_area_NaN)
qed

theorem auto_window_top_witness:
  "computeAutoPlacement demo_dom ''auto'' (rect_of 100 200 40 40) 4 3 (Some (Named ''window'')) (Fin 5)
     = Some ''top''"
proof -
  obtain offsets where "getOffsetRectRelativeToArbitraryNode demo_dom
      (documentElement demo_dom (ownerDocument demo_dom 4)) (Suc 0) = Some offsets"
    using demo_relative(1) by (auto simp: demo_dom_def)
  from auto_window_top [OF _ demo_window this, of "''auto''"]
  show ?thesis by (simp add: split_auto with_variation_def)
qed

section \<open>Placements\<close>

text \<open>
  Flipping is an involution on the fifteen placements, keeps the variation, and never maps
  a side to itself.
\<close>

theorem getOppositePlacement_involution:
  "list_all (\<lambda>p. getOppositePlacement (getOppositePlacement p) = p \<and>
     snd (split_placement (getOppositePlacement p)) = snd (split_placement p) \<and>
     (getOppositePlacement p = p) = contains p ''auto'') placements"
  by code_simp

text \<open>The other eleven placements, in the order of the list from the given one, wrapping around.\<close>

lemma clockwise_rotate:
  "list_all (\<lambda>p. p # clockwise p False = rotate (nat (index_of validPlacements p)) validPlacements \<and>
     clockwise p True = rev (clockwise p False)) validPlacements"
  by code_simp

section \<open>Geometry\<close>

definition base :: "data \<Rightarrow> string" where
  "base d = fst (split_placement (placement d))"

definition vertical :: "string \<Rightarrow> bool" where
  "vertical p = (p = ''top'' \<or> p = ''bottom'')"

text \<open>
  C27: After \<open>keepTogether\<close> and the completion that precedes the next modifier, the popper and its
  reference overlap or touch on the axis along the reference's edge, and the other axis has not
  moved.
\<close>

theorem keepTogether_touches:
  assumes "is_rect (popperOffsets d) l t w h" "is_rect (referenceOffsets d) rl rt rw rh"
    and "w \<ge> 0" "h \<ge> 0" "rw \<ge> 0" "rh \<ge> 0"
  shows "\<exists>l' t'. is_rect (popperOffsets (complete_rects (keepTogether d))) l' t' w h \<and>
    (if vertical (base d)
     then t' = t \<and> real_of_int \<lfloor>rl\<rfloor> \<le> l' + w \<and> l' \<le> real_of_int \<lfloor>rl + rw\<rfloor>
     else l' = l \<and> real_of_int \<lfloor>rt\<rfloor> \<le> t' + h \<and> t' \<le> real_of_int \<lfloor>rt + rh\<rfloor>)"
proof -
  have m: "real_of_int \<lfloor>rl\<rfloor> \<le> real_of_int \<lfloor>rl + rw\<rfloor>" "real_of_int \<lfloor>rt\<rfloor> \<le> real_of_int \<lfloor>rt + rh\<rfloor>" using assms(5,6) by (simp_all add: floor_mono)
  show ?thesis
  proof (cases "vertical (base d)")
    case True
    let ?l1 = "if l + w < real_of_int \<lfloor>rl\<rfloor> then real_of_int \<lfloor>rl\<rfloor> - w else l"
    let ?l2 = "if real_of_int \<lfloor>rl + rw\<rfloor> < ?l1 then real_of_int \<lfloor>rl + rw\<rfloor> else ?l1"
    have "is_rect (popperOffsets (complete_rects (keepTogether d))) ?l2 t w h"
      using True assms(1,2)
      by (auto simp: keepTogether_def complete_rects_def Let_def is_rect_def vertical_def base_def
          getClientRect_def)
    moreover have "real_of_int \<lfloor>rl\<rfloor> \<le> ?l2 + w" "?l2 \<le> real_of_int \<lfloor>rl + rw\<rfloor>" using m assms(3) by auto
    ultimately show ?thesis using True by auto
  next
    case False
    let ?t1 = "if t + h < real_of_int \<lfloor>rt\<rfloor> then real_of_int \<lfloor>rt\<rfloor> - h else t"
    let ?t2 = "if real_of_int \<lfloor>rt + rh\<rfloor> < ?t1 then real_of_int \<lfloor>rt + rh\<rfloor> else ?t1"
    have "is_rect (popperOffsets (complete_rects (keepTogether d))) l ?t2 w h"
      using False assms(1,2)
      by (auto simp: keepTogether_def complete_rects_def Let_def is_rect_def vertical_def base_def
          getClientRect_def)
    moreover have "real_of_int \<lfloor>rt\<rfloor> \<le> ?t2 + h" "?t2 \<le> real_of_int \<lfloor>rt + rh\<rfloor>" using m assms(4) by auto
    ultimately show ?thesis using False by auto
  qed
qed

theorem keepTogether_touches_witness:
  "\<exists>l' t'. is_rect (popperOffsets (complete_rects (keepTogether demo_data))) l' t' 10 10 \<and> 100 \<le> l' + 10"
proof -
  have r: "is_rect (popperOffsets demo_data) 0 0 10 10" "is_rect (referenceOffsets demo_data) 100 200 40 40"
    by (simp_all add: demo_data_def)
  have "split_placement ''bottom'' = (''bottom'', None)" by code_simp
  then have "vertical (base demo_data)" by (simp add: base_def demo_data_def vertical_def)
  then show ?thesis using keepTogether_touches [OF r] by auto
qed

definition default_order :: "string list" where
  "default_order = [''left'', ''right'', ''top'', ''bottom'']"

text \<open>
  With the default priorities, a popper that fits into the boundaries ends inside them on
  both axes, with its size unchanged.
\<close>

theorem keep_within_fits:
  assumes "is_rect p l t w h"
    and "b ''left'' = Fin bl" "b ''right'' = Fin br" "b ''top'' = Fin bt" "b ''bottom'' = Fin bb"
    and "w \<le> br - bl" "h \<le> bb - bt"
  shows "\<exists>l' t'. is_rect (getClientRect (keep_within False b default_order p)) l' t' w h \<and>
    bl \<le> l' \<and> l' + w \<le> br \<and> bt \<le> t' \<and> t' + h \<le> bb"
proof -
  let ?l = "if l < bl then bl else if br < l + w then br - w else l"
  let ?t = "if t < bt then bt else if bb < t + h then bb - h else t"
  have "is_rect (getClientRect (keep_within False b default_order p)) ?l ?t w h"
    using assms
    by (auto simp: keep_within_def default_order_def check_side_def primary_def secondary_def Let_def
        is_rect_def getClientRect_def)
  moreover have "bl \<le> ?l" "?l + w \<le> br" "bt \<le> ?t" "?t + h \<le> bb" using assms by auto
  ultimately show ?thesis by blast
qed

definition demo_bounds :: rect where
  "demo_bounds = emptyRect(''left'' := Fin 0, ''right'' := Fin 100, ''top'' := Fin 0, ''bottom'' := Fin 100)"

lemma demo_bounds_sides:
  "demo_bounds ''left'' = Fin 0" "demo_bounds ''right'' = Fin 100"
  "demo_bounds ''top'' = Fin 0" "demo_bounds ''bottom'' = Fin 100"
  by (simp_all add: demo_bounds_def)

theorem keep_within_fits_witness:
  "\<exists>l' t'. is_rect (getClientRect (keep_within False demo_bounds default_order (rect_of 90 (-5) 20 20))) l' t' 20 20
     \<and> l' \<le> 80 \<and> 0 \<le> t'"
  using keep_within_fits [OF is_rect_rect_of demo_bounds_sides, of 20 20 90 "-5"] by auto

text \<open>
  A popper wider than the boundaries that starts left of them and ends inside is moved to
  the left edge and overflows on the right: the right edge it is tested with is the one before
  the move.
\<close>

theorem keep_within_overflows_right:
  assumes "is_rect p l t w h"
    and "b ''left'' = Fin bl" "b ''right'' = Fin br" "b ''top'' = Fin bt" "b ''bottom'' = Fin bb"
    and "l < bl" "l + w \<le> br" "br - bl < w"
  shows "\<exists>t'. is_rect (getClientRect (keep_within False b default_order p)) bl t' w h \<and> br < bl + w"
  using assms
  by (auto simp: keep_within_def default_order_def check_side_def primary_def secondary_def Let_def
      is_rect_def getClientRect_def)

theorem keep_within_overflows_right_witness:
  "\<exists>t'. is_rect (getClientRect (keep_within False demo_bounds default_order (rect_of (-80) 0 150 20))) 0 t' 150 20"
  using keep_within_overflows_right [OF is_rect_rect_of demo_bounds_sides, of "-80" 150 0 20] by auto

section \<open>Debounced updates\<close>

definition debounce_inv :: "debounced \<Rightarrow> bool" where
  "debounce_inv d = (if scheduled d then queued d = 1 else queued d = 0)"

lemma debounce_call_inv: "debounce_inv d \<Longrightarrow> debounce_inv (debounce_call d)"
  by (auto simp: debounce_inv_def debounce_call_def)

lemma debounce_run_inv: "debounce_inv d \<Longrightarrow> debounce_run d = Some d' \<Longrightarrow> debounce_inv d'"
  by (auto simp: debounce_inv_def debounce_run_def split: nat.splits if_splits)

definition is_call :: "popper_event \<Rightarrow> bool" where
  "is_call ev = (ev = CallUpdate \<or> ev = Frame)"

lemma step_debounce:
  assumes "popper_step D custom s ev s'" "debounce_inv (debounce s)"
  shows "debounce_inv (debounce s') \<and>
    runs (debounce s') + queued (debounce s') \<le> runs (debounce s) + queued (debounce s) + (if is_call ev then 1 else 0) \<and>
    (is_call ev \<longrightarrow> queued (debounce s') = 1)"
  using assms
proof cases
  case (step_run db p br)
  then show ?thesis
    using assms(2) debounce_run_inv [of "debounce s" db]
    by (auto simp: debounce_run_def is_call_def split: nat.splits)
qed (use assms(2) in \<open>auto simp: is_call_def debounce_inv_def debounce_call_def\<close>)

lemma construct_debounce:
  assumes "construct D ref pop opts br = Some s0"
  shows "debounce s0 = \<lparr>scheduled = True, queued = 1, runs = 0\<rparr>"
  using assms by (auto simp: construct_def debounce_call_def Let_def split: bind_splits)

text \<open>
  C25: In every history of an instance at most one update is queued, every call of \<open>update\<close>
  and every frame leaves one queued, and the updates that ran are no more than the calls and
  frames, plus the one of the constructor.
\<close>

theorem updates_debounced:
  assumes "construct D ref pop opts br = Some s0" and "popper_reach D custom s0 evs s"
  shows "queued (debounce s) \<le> 1 \<and>
    runs (debounce s) + queued (debounce s) \<le> 1 + length (filter is_call evs) \<and>
    (evs \<noteq> [] \<and> is_call (last evs) \<longrightarrow> queued (debounce s) = 1)"
proof -
  have "debounce_inv (debounce s) \<and>
    runs (debounce s) + queued (debounce s) \<le> 1 + length (filter is_call evs) \<and>
    (evs \<noteq> [] \<and> is_call (last evs) \<longrightarrow> queued (debounce s) = 1)"
    using assms(2)
  proof induction
    case reach_start
    then show ?case by (simp add: construct_debounce [OF assms(1)] debounce_inv_def)
  next
    case (reach_step evs s ev s')
    then show ?case using step_debounce [OF reach_step.hyps(2)] by auto
  qed
  then show ?thesis by (auto simp: debounce_inv_def split: if_splits)
qed

theorem updates_debounced_witness:
  "\<exists>s. popper_reach demo_dom (\<lambda>_ _ _. None) demo_instance [CallUpdate] s \<and> queued (debounce s) = 1"
proof -
  have "popper_reach demo_dom (\<lambda>_ _ _. None) demo_instance ([] @ [CallUpdate])
      (demo_instance\<lparr>debounce := debounce_call (debounce demo_instance)\<rparr>)"
    by (rule reach_step [OF reach_start step_call])
  from updates_debounced [OF demo_instance this] this show ?thesis by (auto simp: is_call_def)
qed

section \<open>Listeners\<close>

definition scroll_of :: "target list \<Rightarrow> (target \<times> string) set" where
  "scroll_of ts = (\<lambda>t. (t, ''scroll'')) ` set ts"

lemma listeners_add [simp]: "set (listeners (addEventListener t ev br)) = insert (t, ev) (set (listeners br))"
  by (auto simp: addEventListener_def)

lemma listeners_remove [simp]: "set (listeners (removeEventListener t ev br)) = set (listeners br) - {(t, ev)}"
  by (auto simp: removeEventListener_def)

lemma listeners_remove_all:
  "set (listeners (foldl (\<lambda>b t. removeEventListener t ev b) br ts)) =
     set (listeners br) - (\<lambda>t. (t, ev)) ` set ts"
  by (induction ts arbitrary: br) auto

lemma attach_listeners:
  assumes "attachToScrollParents D e st = Some st'"
  shows "\<exists>ts. snd st' = snd st @ ts \<and>
    set (listeners (fst st')) = set (listeners (fst st)) \<union> scroll_of ts"
  by (rule attachToScrollParents.raw_induct [where P = "\<lambda>D e st st'. \<exists>ts. snd st' = snd st @ ts \<and>
    set (listeners (fst st')) = set (listeners (fst st)) \<union> scroll_of ts", OF _ assms])
    (fastforce simp: Let_def scroll_of_def split: if_splits bind_splits)

definition listeners_inv :: "dom \<Rightarrow> popper \<Rightarrow> browser \<Rightarrow> bool" where
  "listeners_inv D p br =
     (if eventsEnabled p
      then set (listeners br) = insert (getWindow D (theReference p), ''resize'') (scroll_of (scrollParents p))
      else listeners br = [] \<and> scrollParents p = [])"

lemma enable_listeners:
  assumes "enableEventListeners D p br = Some (p', br')" "listeners_inv D p br"
  shows "listeners_inv D p' br' \<and> eventsEnabled p'"
proof (cases "eventsEnabled p")
  case False
  then obtain e st where st: "attachToScrollParents D e
      (addEventListener (getWindow D (theReference p)) ''resize'' br, scrollParents p) = Some st"
    "p' = p\<lparr>updateBound := True, scrollParents := snd st, scrollElement := Some e, eventsEnabled := True\<rparr>"
    "br' = fst st"
    using assms(1) by (auto simp: enableEventListeners_def setupEventListeners_def Let_def split: bind_splits)
  show ?thesis
    using attach_listeners [OF st(1)] False assms(2) by (auto simp: st(2,3) listeners_inv_def)
qed (use assms in \<open>simp add: enableEventListeners_def\<close>)

lemma disable_listeners:
  assumes "disableEventListeners D p br = (p', br')" "listeners_inv D p br"
  shows "listeners_inv D p' br' \<and> \<not> eventsEnabled p'"
proof (cases "eventsEnabled p")
  case True
  then have *: "set (listeners br') = set (listeners br) - {(getWindow D (theReference p), ''resize'')}
      - scroll_of (scrollParents p)" and p': "\<not> eventsEnabled p'" "scrollParents p' = []"
    using assms(1)
    by (auto simp: disableEventListeners_def removeEventListeners_def listeners_remove_all scroll_of_def)
  have "set (listeners br') = {}" using * assms(2) True by (auto simp: listeners_inv_def)
  then show ?thesis using p' by (simp add: listeners_inv_def)
qed (use assms in \<open>auto simp: disableEventListeners_def\<close>)

lemma update_keeps:
  assumes "update_popper D custom p br = Some (p', br')"
  shows "listeners br' = listeners br \<and> eventsEnabled p' = eventsEnabled p \<and>
    scrollParents p' = scrollParents p \<and> theReference p' = theReference p \<and>
    isDestroyed p' = isDestroyed p"
  using assms by (auto simp: update_popper_def Let_def split: if_splits bind_splits)

lemma destroy_listeners:
  assumes "destroy D p br = Some (p', br')" "listeners_inv D p br"
  shows "listeners_inv D p' br' \<and> \<not> eventsEnabled p' \<and> isDestroyed p'"
proof -
  let ?p1 = "p\<lparr>isDestroyed := True\<rparr>"
  let ?br1 = "br\<lparr>page_writes := page_writes br @ destroy_writes D p\<rparr>"
  obtain p2 br2 where d: "disableEventListeners D ?p1 ?br1 = (p2, br2)" by fastforce
  have "listeners_inv D ?p1 ?br1" using assms(2) by (simp add: listeners_inv_def)
  from disable_listeners [OF d this] have i: "listeners_inv D p2 br2" "\<not> eventsEnabled p2" by auto
  have x: "isDestroyed p2" using d
    by (auto simp: disableEventListeners_def removeEventListeners_def Let_def split: if_splits)
  have "p' = p2 \<and> listeners br' = listeners br2"
    using assms(1) d by (auto simp: destroy_def Let_def split: if_splits option.splits)
  then show ?thesis using i x by (auto simp: listeners_inv_def)
qed

lemma step_listeners:
  assumes "popper_step D custom s ev s'" "listeners_inv D (self s) (page s)"
  shows "listeners_inv D (self s') (page s')"
  using assms
proof cases
  case (step_run db p br)
  then show ?thesis
    using assms(2) update_keeps [of D custom "self s" "page s" p br] by (simp add: listeners_inv_def)
qed (use assms(2) enable_listeners disable_listeners destroy_listeners in auto)

lemma run_onLoad_listeners:
  "run_onLoad D p ms br = Some br' \<Longrightarrow> listeners br' = listeners br"
  by (induction ms arbitrary: br) (auto split: if_splits bind_splits)

lemma construct_listeners:
  assumes "construct D ref pop opts br = Some s0" "listeners br = []"
  shows "listeners_inv D (self s0) (page s0) \<and> \<not> isDestroyed (self s0)"
proof -
  obtain flip br1 r where x:
    "run_onLoad D (new_popper ref pop opts flip) (modifiers (new_popper ref pop opts flip)) br = Some br1"
    "(if oEvents opts then enableEventListeners D (new_popper ref pop opts flip) br1
      else Some (new_popper ref pop opts flip, br1)) = Some r"
    "s0 = \<lparr>self = (fst r)\<lparr>eventsEnabled := oEvents opts\<rparr>, page = snd r,
       debounce = debounce_call \<lparr>scheduled = False, queued = 0, runs = 0\<rparr>, frames = 0\<rparr>"
    using assms(1) unfolding construct_def Let_def bind_eq_Some_conv by auto
  define p where "p = new_popper ref pop opts flip"
  obtain p2 br2 where r: "r = (p2, br2)" by (cases r)
  have c0: "eventsEnabled p = False" "scrollParents p = []" "isDestroyed p = False"
    by (simp_all add: p_def new_popper_def)
  have c1: "run_onLoad D p (modifiers p) br = Some br1"
    "(if oEvents opts then enableEventListeners D p br1 else Some (p, br1)) = Some (p2, br2)"
    "self s0 = p2\<lparr>eventsEnabled := oEvents opts\<rparr>" "page s0 = br2"
    using x by (auto simp: p_def r split: if_splits)
  note c = c0 c1
  have inv: "listeners_inv D p br1"
    using run_onLoad_listeners [OF c(4)] c(1,2) assms(2) by (simp add: listeners_inv_def)
  show ?thesis
  proof (cases "oEvents opts")
    case True
    then have en: "enableEventListeners D p br1 = Some (p2, br2)" using c(5) by simp
    have "\<not> isDestroyed p2" using en c(3)
      by (auto simp: enableEventListeners_def setupEventListeners_def Let_def split: if_splits bind_splits)
    then show ?thesis using enable_listeners [OF en inv] True c(6,7) by (simp add: listeners_inv_def)
  next
    case False
    then show ?thesis using c inv by (simp add: listeners_inv_def)
  qed
qed

lemma reach_listeners:
  assumes "popper_reach D custom s0 evs s" "listeners_inv D (self s0) (page s0)"
  shows "listeners_inv D (self s) (page s)"
  using assms by induction (auto intro: step_listeners)

text \<open>
  C30: Whatever happens to an instance, its listeners are exactly the resize listener of the
  window and one scroll listener per recorded scroll parent while events are enabled, and none
  otherwise; a disable or a destruction leaves none, however often the others were called.
\<close>

theorem listeners_exact:
  assumes "construct D ref pop opts br = Some s0" and "listeners br = []"
    and "popper_reach D custom s0 evs s"
  shows "set (listeners (page s)) =
      (if eventsEnabled (self s)
       then insert (getWindow D (theReference (self s)), ''resize'') (scroll_of (scrollParents (self s)))
       else {}) \<and>
    (evs \<noteq> [] \<and> last evs \<in> {Disable, Destroy} \<longrightarrow> listeners (page s) = [])"
proof -
  have inv: "listeners_inv D (self s) (page s)"
    using reach_listeners [OF assms(3)] construct_listeners [OF assms(1,2)] by blast
  have "listeners (page s) = []" if "evs \<noteq> []" "last evs \<in> {Disable, Destroy}"
    using assms(3)
  proof cases
    case reach_start
    then show ?thesis using that by simp
  next
    case (reach_step evs' s1 ev)
    have i1: "listeners_inv D (self s1) (page s1)"
      using reach_listeners [OF reach_step(2)] construct_listeners [OF assms(1,2)] by blast
    have "ev \<in> {Disable, Destroy}" using that reach_step(1) by simp
    with reach_step(3) show ?thesis
      using disable_listeners i1 destroy_listeners
      by cases (auto simp: listeners_inv_def)
  qed
  then show ?thesis using inv by (auto simp: listeners_inv_def split: if_splits)
qed

theorem listeners_exact_witness:
  "\<exists>s. popper_reach demo_dom (\<lambda>_ _ _. None) demo_instance [Disable] s \<and> listeners (page s) = []"
proof -
  obtain p br where "disableEventListeners demo_dom (self demo_instance) (page demo_instance) = (p, br)"
    by fastforce
  then have *: "popper_reach demo_dom (\<lambda>_ _ _. None) demo_instance ([] @ [Disable])
      (demo_instance\<lparr>self := p, page := br\<rparr>)"
    by (intro reach_step [OF reach_start step_disable])
  have "listeners demo_browser = []" by (simp add: demo_browser_def)
  from listeners_exact [OF demo_instance this *] * show ?thesis by auto
qed

lemma add_quiet [simp]:
  "page_writes (addEventListener t ev br) = page_writes br"
  "onCreates (addEventListener t ev br) = onCreates br"
  "onUpdates (addEventListener t ev br) = onUpdates br"
  by (simp_all add: addEventListener_def)

lemma remove_quiet [simp]:
  "page_writes (removeEventListener t ev br) = page_writes br"
  "onCreates (removeEventListener t ev br) = onCreates br"
  "onUpdates (removeEventListener t ev br) = onUpdates br"
  by (simp_all add: removeEventListener_def)

lemma remove_all_quiet [simp]:
  "page_writes (foldl (\<lambda>b t. removeEventListener t ev b) br ts) = page_writes br"
  "onCreates (foldl (\<lambda>b t. removeEventListener t ev b) br ts) = onCreates br"
  "onUpdates (foldl (\<lambda>b t. removeEventListener t ev b) br ts) = onUpdates br"
  by (induction ts arbitrary: br) simp_all

lemma attach_quiet:
  assumes "attachToScrollParents D e st = Some st'"
  shows "page_writes (fst st') = page_writes (fst st) \<and> onCreates (fst st') = onCreates (fst st) \<and>
    onUpdates (fst st') = onUpdates (fst st)"
  by (rule attachToScrollParents.raw_induct [where P = "\<lambda>D e st st'. page_writes (fst st') = page_writes (fst st) \<and>
    onCreates (fst st') = onCreates (fst st) \<and> onUpdates (fst st') = onUpdates (fst st)", OF _ assms])
    (fastforce simp: Let_def split: if_splits bind_splits)

lemma enable_quiet:
  assumes "enableEventListeners D p br = Some (p', br')"
  shows "isDestroyed p' = isDestroyed p \<and> page_writes br' = page_writes br \<and>
    onCreates br' = onCreates br \<and> onUpdates br' = onUpdates br"
  using assms
  by (auto simp: enableEventListeners_def setupEventListeners_def Let_def split: if_splits bind_splits
      dest!: attach_quiet)

lemma disable_quiet:
  assumes "disableEventListeners D p br = (p', br')"
  shows "isDestroyed p' = isDestroyed p \<and> page_writes br' = page_writes br \<and>
    onCreates br' = onCreates br \<and> onUpdates br' = onUpdates br"
  using assms by (auto simp: disableEventListeners_def removeEventListeners_def Let_def split: if_splits)

lemma destroy_quiet:
  assumes "destroy D p br = Some (p', br')"
  shows "isDestroyed p' \<and> onCreates br' = onCreates br \<and> onUpdates br' = onUpdates br"
proof -
  let ?p1 = "p\<lparr>isDestroyed := True\<rparr>"
  let ?br1 = "br\<lparr>page_writes := page_writes br @ destroy_writes D p\<rparr>"
  obtain p2 br2 where d: "disableEventListeners D ?p1 ?br1 = (p2, br2)" by fastforce
  have "p' = p2 \<and> onCreates br' = onCreates br2 \<and> onUpdates br' = onUpdates br2"
    using assms d by (auto simp: destroy_def Let_def split: if_splits option.splits)
  then show ?thesis using disable_quiet [OF d] by simp
qed

text \<open>After its destruction an instance calls no callback and, unless destroyed again, writes nothing.\<close>

lemma destroyed_step:
  assumes "popper_step D custom s ev s'" "isDestroyed (self s)"
  shows "isDestroyed (self s') \<and> onCreates (page s') = onCreates (page s) \<and>
    onUpdates (page s') = onUpdates (page s) \<and>
    (ev \<noteq> Destroy \<longrightarrow> page_writes (page s') = page_writes (page s))"
  using assms
proof cases
  case (step_enable p br)
  then show ?thesis using assms(2) enable_quiet by auto
next
  case (step_disable p br)
  then show ?thesis using assms(2) disable_quiet by auto
next
  case (step_destroy p br)
  then show ?thesis using destroy_quiet by auto
qed (use assms(2) in \<open>auto simp: update_popper_def\<close>)

lemma destroyed_reach:
  assumes "popper_reach D custom s0 evs s" "isDestroyed (self s0)"
  shows "isDestroyed (self s) \<and> onCreates (page s) = onCreates (page s0) \<and>
    onUpdates (page s) = onUpdates (page s0) \<and>
    (Destroy \<notin> set evs \<longrightarrow> page_writes (page s) = page_writes (page s0))"
  using assms by induction (use destroyed_step in fastforce)+

text \<open>
  C31: Once destroyed, an instance never calls \<open>onCreate\<close> or \<open>onUpdate\<close> again and no later update
  touches the page, whichever frames and updates were still pending when it was destroyed.
\<close>

theorem destroyed_is_quiet:
  assumes "popper_step D custom s Destroy s1" and "popper_reach D custom s1 evs s2"
  shows "onCreates (page s2) = onCreates (page s) \<and> onUpdates (page s2) = onUpdates (page s) \<and>
    (Destroy \<notin> set evs \<longrightarrow> page_writes (page s2) = page_writes (page s1))"
proof -
  obtain p br where d: "destroy D (self s) (page s) = Some (p, br)" "s1 = s\<lparr>self := p, page := br\<rparr>"
    using assms(1) by cases auto
  then show ?thesis using destroyed_reach [OF assms(2)] destroy_quiet [OF d(1)] by simp
qed

theorem destroyed_is_quiet_witness:
  "\<exists>s1 s2. popper_step demo_dom (\<lambda>_ _ _. None) demo_instance Destroy s1 \<and>
     popper_reach demo_dom (\<lambda>_ _ _. None) s1 [ScheduleUpdate, Frame] s2 \<and>
     onUpdates (page s2) = onUpdates (page demo_instance)"
proof -
  have "\<not> optRemove (self demo_instance)" by (rule demo_instance_keeps)
  then obtain p br where "destroy demo_dom (self demo_instance) (page demo_instance) = Some (p, br)"
    by (cases "disableEventListeners demo_dom ((self demo_instance)\<lparr>isDestroyed := True\<rparr>)
        ((page demo_instance)\<lparr>page_writes := page_writes (page demo_instance)
           @ destroy_writes demo_dom (self demo_instance)\<rparr>)") (auto simp: destroy_def Let_def)
  then obtain s1 where 1: "popper_step demo_dom (\<lambda>_ _ _. None) demo_instance Destroy s1"
    using step_destroy by blast
  let ?s2 = "s1\<lparr>frames := Suc (frames s1)\<rparr>"
  have "popper_reach demo_dom (\<lambda>_ _ _. None) s1 ([] @ [ScheduleUpdate]) ?s2"
    by (rule reach_step [OF reach_start step_schedule])
  then have "popper_reach demo_dom (\<lambda>_ _ _. None) s1 (([] @ [ScheduleUpdate]) @ [Frame])
      (?s2\<lparr>frames := frames s1, debounce := debounce_call (debounce ?s2)\<rparr>)"
    by (rule reach_step) (rule step_frame, simp)
  then obtain s2 where 2: "popper_reach demo_dom (\<lambda>_ _ _. None) s1 [ScheduleUpdate, Frame] s2" by auto
  show ?thesis using 1 2 destroyed_is_quiet [OF 1 2] by blast
qed

end
