(* ===== verification/Machines.thy ===== *)
theory Machines
  imports Main
begin

text \<open>
  The contracts that the state machines of the development share. A component gives its step
  function and proves the laws of one step; what follows for a run of any length is proved here,
  once, and reached through the interpretations in the theories of the components.
\<close>

section \<open>Invariants\<close>

locale invariant_machine =
  fixes step :: "'s \<Rightarrow> 'i \<Rightarrow> 's"
    and inv :: "'s \<Rightarrow> bool"
  assumes step_inv: "inv s \<Longrightarrow> inv (step s i)"
begin

lemma run_inv: "inv s \<Longrightarrow> inv (foldl step s is)"
  by (induction "is" arbitrary: s) (simp_all add: step_inv)

end

section \<open>Nothing is lost and nothing is done twice\<close>

text \<open>
  What a state holds in order, done or still waiting: a step only adds what its input brings.
\<close>

locale conserving_machine = invariant_machine step inv
  for step :: "'s \<Rightarrow> 'i \<Rightarrow> 's" and inv :: "'s \<Rightarrow> bool" +
  fixes total :: "'s \<Rightarrow> 'v list"
    and gain :: "'i \<Rightarrow> 'v list"
  assumes step_total: "inv s \<Longrightarrow> total (step s i) = total s @ gain i"
begin

lemma run_total: "inv s \<Longrightarrow> total (foldl step s is) = total s @ concat (map gain is)"
proof (induction "is" arbitrary: s)
  case (Cons i "is")
  from Cons.IH [OF step_inv [OF Cons.prems]] step_total [OF Cons.prems] show ?case by simp
qed simp

end

section \<open>Refinement of an abstract machine\<close>

locale refining_machine = invariant_machine step inv
  for step :: "'s \<Rightarrow> 'i \<Rightarrow> 's" and inv :: "'s \<Rightarrow> bool" +
  fixes abs_state :: "'s \<Rightarrow> 'a"
    and abs_step :: "'a \<Rightarrow> 'i \<Rightarrow> 'a"
  assumes step_refines: "inv s \<Longrightarrow> abs_state (step s i) = abs_step (abs_state s) i"
begin

lemma run_refines: "inv s \<Longrightarrow> abs_state (foldl step s is) = foldl abs_step (abs_state s) is"
proof (induction "is" arbitrary: s)
  case (Cons i "is")
  from Cons.IH [OF step_inv [OF Cons.prems]] step_refines [OF Cons.prems] show ?case by simp
qed simp

end

end
