(* ===== verification/Bs_Carousel.thy ===== *)
theory Bs_Carousel
  imports Prelude Machines
begin

text \<open>
  The carousel plugin of the user interface library the demo pages load
  (\<open>client/w3cDemo/js/bootstrap.js\<close>): its items and their classes, its timer, the transition in
  progress and the calls that wait for the end of it. An item is named by a number; the items
  are in document order. A handler of the page that prevents the slide event is an argument.
\<close>

section \<open>State\<close>

record carousel_config =
  cfgInterval :: nat
  cfgKeyboard :: bool
  cfgPauseHover :: bool
  cfgWrap :: bool

definition carousel_default :: carousel_config where
  "carousel_default = \<lparr>cfgInterval = 5000, cfgKeyboard = True, cfgPauseHover = True, cfgWrap = True\<rparr>"

datatype direction = NEXT | PREV

text \<open>An index given as a number, or as the text of one, as the attribute \<open>data-slide-to\<close> is.\<close>

datatype slide_index = IndexNum int | IndexText int

fun index_value :: "slide_index \<Rightarrow> int" where
  "index_value (IndexNum i) = i"
| "index_value (IndexText i) = i"

datatype carousel_event =
    SlideEvent int int direction
  | SlidEvent int int direction
  | TransitionEndEvent

record transition =
  trFrom :: nat
  trTo :: nat
  trDirection :: direction
  trFromIndex :: int
  trToIndex :: int

record carousel =
  items :: "nat list"
  classes :: "nat \<Rightarrow> string set"
  indicators :: "bool list option"
  config :: carousel_config
  interval :: bool
  isPaused :: bool
  isSliding :: bool
  touchTimeout :: bool
  hasSlideClass :: bool
  supportsTransitionEnd :: bool
  running :: "transition option"
  slidPending :: "carousel_event list"
  waiting :: "slide_index list"
  triggered :: "carousel_event list"

section \<open>Items\<close>

definition has_class :: "carousel \<Rightarrow> nat \<Rightarrow> string \<Rightarrow> bool" where
  "has_class c e cls = (cls \<in> classes c e)"

definition addClass :: "nat \<Rightarrow> string \<Rightarrow> carousel \<Rightarrow> carousel" where
  "addClass e cls c = c\<lparr>classes := (classes c)(e := insert cls (classes c e))\<rparr>"

definition removeClass :: "nat \<Rightarrow> string \<Rightarrow> carousel \<Rightarrow> carousel" where
  "removeClass e cls c = c\<lparr>classes := (classes c)(e := classes c e - {cls})\<rparr>"

definition activeItem :: "carousel \<Rightarrow> nat option" where
  "activeItem c = List.find (\<lambda>e. has_class c e ''active'') (items c)"

fun index_in :: "nat list \<Rightarrow> nat \<Rightarrow> int" where
  "index_in [] e = -1"
| "index_in (x # xs) e = (if x = e then 0 else (let i = index_in xs e in if i = -1 then -1 else i + 1))"

text \<open>With no element the item list is empty and the index -1.\<close>

definition getItemIndex :: "carousel \<Rightarrow> nat option \<Rightarrow> int" where
  "getItemIndex c element = (case element of None \<Rightarrow> -1 | Some e \<Rightarrow> index_in (items c) e)"

definition js_rem :: "int \<Rightarrow> int \<Rightarrow> int" where
  "js_rem a b = (if a < 0 then - ((- a) mod b) else a mod b)"

definition item_at :: "carousel \<Rightarrow> int \<Rightarrow> nat option" where
  "item_at c i = (if 0 \<le> i \<and> i < int (length (items c)) then Some (items c ! nat i) else None)"

definition getItemByDirection :: "carousel \<Rightarrow> direction \<Rightarrow> nat \<Rightarrow> nat option" where
  "getItemByDirection c dir activeElement =
     (let activeIndex = getItemIndex c (Some activeElement);
          lastItemIndex = int (length (items c)) - 1;
          isGoingToWrap = (dir = PREV \<and> activeIndex = 0 \<or> dir = NEXT \<and> activeIndex = lastItemIndex)
      in if isGoingToWrap \<and> \<not> cfgWrap (config c) then Some activeElement
         else (let delta = (if dir = PREV then -1 else 1);
                   itemIndex = js_rem (activeIndex + delta) (int (length (items c)))
               in if itemIndex = -1 then item_at c (int (length (items c)) - 1) else item_at c itemIndex))"

section \<open>The timer\<close>

definition cycle :: "bool \<Rightarrow> carousel \<Rightarrow> carousel" where
  "cycle event c =
     (let c1 = (if event then c else c\<lparr>isPaused := False\<rparr>);
          c2 = c1\<lparr>interval := False\<rparr>
      in if cfgInterval (config c2) \<noteq> 0 \<and> \<not> isPaused c2 then c2\<lparr>interval := True\<rparr> else c2)"

definition in_transition :: "carousel \<Rightarrow> bool" where
  "in_transition c =
     list_ex (\<lambda>e. has_class c e ''carousel-item-next'' \<or> has_class c e ''carousel-item-prev'') (items c)"

definition pause :: "bool \<Rightarrow> carousel \<Rightarrow> carousel" where
  "pause event c =
     (let c1 = (if event then c else c\<lparr>isPaused := True\<rparr>);
          c2 = (if in_transition c1 \<and> supportsTransitionEnd c1
                then cycle True (c1\<lparr>triggered := triggered c1 @ [TransitionEndEvent]\<rparr>)
                else c1)
      in c2\<lparr>interval := False\<rparr>)"

section \<open>Sliding\<close>

definition setActiveIndicatorElement :: "nat \<Rightarrow> carousel \<Rightarrow> carousel" where
  "setActiveIndicatorElement e c =
     (case indicators c of
        None \<Rightarrow> c
      | Some bs \<Rightarrow>
          (let i = getItemIndex c (Some e); cleared = map (\<lambda>_. False) bs
           in c\<lparr>indicators :=
                  Some (if 0 \<le> i \<and> i < int (length bs) then cleared[nat i := True] else cleared)\<rparr>))"

definition directionalClass :: "direction \<Rightarrow> string" where
  "directionalClass dir = (if dir = NEXT then ''carousel-item-left'' else ''carousel-item-right'')"

definition orderClass :: "direction \<Rightarrow> string" where
  "orderClass dir = (if dir = NEXT then ''carousel-item-next'' else ''carousel-item-prev'')"

definition slide :: "bool \<Rightarrow> direction \<Rightarrow> nat option \<Rightarrow> carousel \<Rightarrow> carousel" where
  "slide prevented dir element c =
     (let activeElement = activeItem c;
          nextElement =
            (case element of
               Some e \<Rightarrow> Some e
             | None \<Rightarrow> Option.bind activeElement (getItemByDirection c dir));
          isCycling = interval c;
          fromIndex = getItemIndex c activeElement;
          toIndex = getItemIndex c nextElement
      in if (case nextElement of Some n \<Rightarrow> has_class c n ''active'' | None \<Rightarrow> False)
         then c\<lparr>isSliding := False\<rparr>
         else
           (let c0 = c\<lparr>triggered := triggered c @ [SlideEvent fromIndex toIndex dir]\<rparr>
            in if prevented then c0
               else (case (activeElement, nextElement) of
                 (Some a, Some n) \<Rightarrow>
                   (let c1 = c0\<lparr>isSliding := True\<rparr>;
                        c2 = (if isCycling then pause False c1 else c1);
                        c3 = setActiveIndicatorElement n c2;
                        c4 =
                          (if supportsTransitionEnd c3 \<and> hasSlideClass c3
                           then (addClass n (directionalClass dir)
                                  (addClass a (directionalClass dir)
                                    (addClass n (orderClass dir) c3)))
                                  \<lparr>running := Some \<lparr>trFrom = a, trTo = n, trDirection = dir,
                                     trFromIndex = fromIndex, trToIndex = toIndex\<rparr>\<rparr>
                           else (let c' = addClass n ''active'' (removeClass a ''active'' c3)
                                 in c'\<lparr>isSliding := False,
                                      triggered := triggered c' @ [SlidEvent fromIndex toIndex dir]\<rparr>))
                    in if isCycling then cycle False c4 else c4)
               | _ \<Rightarrow> c0)))"

text \<open>
  The end of the transition, by the browser's event or the 600 milliseconds of the emulation; the
  slid event follows in a task of its own.
\<close>

definition transition_end :: "carousel \<Rightarrow> carousel" where
  "transition_end c =
     (case running c of
        None \<Rightarrow> c
      | Some t \<Rightarrow>
          (let d = directionalClass (trDirection t); ord = orderClass (trDirection t);
               c1 = addClass (trTo t) ''active'' (removeClass (trTo t) ord (removeClass (trTo t) d c));
               c2 = removeClass (trFrom t) d (removeClass (trFrom t) ord (removeClass (trFrom t) ''active'' c1))
           in c2\<lparr>isSliding := False, running := None,
                 slidPending := slidPending c2 @ [SlidEvent (trFromIndex t) (trToIndex t) (trDirection t)]\<rparr>))"

definition next_item :: "bool \<Rightarrow> carousel \<Rightarrow> carousel" where
  "next_item prevented c = (if \<not> isSliding c then slide prevented NEXT None c else c)"

definition prev_item :: "bool \<Rightarrow> carousel \<Rightarrow> carousel" where
  "prev_item prevented c = (if \<not> isSliding c then slide prevented PREV None c else c)"

definition nextWhenVisible :: "bool \<Rightarrow> bool \<Rightarrow> carousel \<Rightarrow> carousel" where
  "nextWhenVisible visible prevented c = (if visible then next_item prevented c else c)"

definition to_item :: "bool \<Rightarrow> slide_index \<Rightarrow> carousel \<Rightarrow> carousel" where
  "to_item prevented index c =
     (let activeElement = activeItem c;
          activeIndex = getItemIndex c activeElement;
          count = (if activeElement = None then 0 else int (length (items c)));
          i = index_value index
      in if count - 1 < i \<or> i < 0 then c
         else if isSliding c then c\<lparr>waiting := waiting c @ [index]\<rparr>
         else if index = IndexNum activeIndex then cycle False (pause False c)
         else slide prevented (if activeIndex < i then NEXT else PREV) (item_at c i) c)"

text \<open>The slid event of a finished transition runs the calls of \<open>to\<close> that waited for it.\<close>

definition slid_task :: "bool \<Rightarrow> carousel \<Rightarrow> carousel" where
  "slid_task prevented c =
     (case slidPending c of
        [] \<Rightarrow> c
      | ev # evs \<Rightarrow>
          foldl (\<lambda>c i. to_item prevented i c)
            (c\<lparr>slidPending := evs, triggered := triggered c @ [ev], waiting := []\<rparr>) (waiting c))"

section \<open>Input\<close>

definition keydown :: "bool \<Rightarrow> bool \<Rightarrow> nat \<Rightarrow> carousel \<Rightarrow> carousel" where
  "keydown prevented inText which c =
     (if inText then c
      else if which = 37 then prev_item prevented c
      else if which = 39 then next_item prevented c
      else c)"

definition touchend :: "carousel \<Rightarrow> carousel" where
  "touchend c = (pause False c)\<lparr>touchTimeout := True\<rparr>"

datatype carousel_action =
    Next | Prev | Pause | Cycle | To slide_index
  | TimerFires bool
  | Key bool nat
  | MouseEnter | MouseLeave | TouchEnd | TouchTimeout
  | TransitionEnds
  | SlidTask

text \<open>
  What each input does, with the handlers bound by \<open>_addEventListeners\<close> and the timers that may
  fire; the boolean is whether a handler of the page prevents the slide event.
\<close>

definition carousel_input :: "bool \<Rightarrow> carousel_action \<Rightarrow> carousel \<Rightarrow> carousel" where
  "carousel_input prevented inp c =
     (case inp of
        Next \<Rightarrow> next_item prevented c
      | Prev \<Rightarrow> prev_item prevented c
      | Pause \<Rightarrow> pause False c
      | Cycle \<Rightarrow> cycle False c
      | To i \<Rightarrow> to_item prevented i c
      | TimerFires visible \<Rightarrow> if interval c then nextWhenVisible visible prevented c else c
      | Key inText which \<Rightarrow> if cfgKeyboard (config c) then keydown prevented inText which c else c
      | MouseEnter \<Rightarrow> if cfgPauseHover (config c) then pause True c else c
      | MouseLeave \<Rightarrow> if cfgPauseHover (config c) then cycle True c else c
      | TouchEnd \<Rightarrow> if cfgPauseHover (config c) then touchend c else c
      | TouchTimeout \<Rightarrow> if touchTimeout c then cycle False (c\<lparr>touchTimeout := False\<rparr>) else c
      | TransitionEnds \<Rightarrow> transition_end c
      | SlidTask \<Rightarrow> slid_task prevented c)"

section \<open>One active item\<close>

definition sole_active :: "carousel \<Rightarrow> nat \<Rightarrow> bool" where
  "sole_active c a \<longleftrightarrow> a \<in> set (items c) \<and> (\<forall>e \<in> set (items c). has_class c e ''active'' = (e = a))"

definition carousel_wf :: "carousel \<Rightarrow> bool" where
  "carousel_wf c \<longleftrightarrow>
     (case running c of
        None \<Rightarrow> \<not> isSliding c \<and> (\<exists>a. sole_active c a)
      | Some t \<Rightarrow> isSliding c \<and> sole_active c (trFrom t) \<and> trTo t \<in> set (items c) \<and> trTo t \<noteq> trFrom t)"

lemma find_mem: "List.find P xs = Some x \<Longrightarrow> P x \<and> x \<in> set xs"
  by (induction xs) (auto split: if_splits)

lemma item_at_mem: "item_at c i = Some n \<Longrightarrow> n \<in> set (items c)"
  by (auto simp: item_at_def intro: nth_mem split: if_splits)

lemma item_at_cases: "item_at c i = None \<or> (\<exists>e. item_at c i = Some e \<and> e \<in> set (items c))"
  by (cases "item_at c i") (auto dest: item_at_mem)

lemma activeItem_sole:
  assumes "sole_active c a" shows "activeItem c = Some a"
proof (cases "activeItem c")
  case None
  then show ?thesis using assms by (auto simp: activeItem_def find_None_iff sole_active_def)
next
  case (Some x)
  then show ?thesis
    using assms by (auto simp: activeItem_def sole_active_def dest!: find_mem)
qed

text \<open>The timer and the indicators have no part in the items, their classes and the transition.\<close>

lemma cycle_same [simp]:
  "items (cycle b c) = items c" "classes (cycle b c) = classes c" "isSliding (cycle b c) = isSliding c"
  "running (cycle b c) = running c" "supportsTransitionEnd (cycle b c) = supportsTransitionEnd c"
  "hasSlideClass (cycle b c) = hasSlideClass c" "config (cycle b c) = config c"
  "indicators (cycle b c) = indicators c"
  by (simp_all add: cycle_def Let_def)

lemma pause_same [simp]:
  "items (pause b c) = items c" "classes (pause b c) = classes c" "isSliding (pause b c) = isSliding c"
  "running (pause b c) = running c" "supportsTransitionEnd (pause b c) = supportsTransitionEnd c"
  "hasSlideClass (pause b c) = hasSlideClass c" "config (pause b c) = config c"
  "indicators (pause b c) = indicators c"
  by (simp_all add: pause_def Let_def)

lemma indicator_same [simp]:
  "items (setActiveIndicatorElement e c) = items c" "classes (setActiveIndicatorElement e c) = classes c"
  "isSliding (setActiveIndicatorElement e c) = isSliding c" "running (setActiveIndicatorElement e c) = running c"
  "supportsTransitionEnd (setActiveIndicatorElement e c) = supportsTransitionEnd c"
  "hasSlideClass (setActiveIndicatorElement e c) = hasSlideClass c"
  "config (setActiveIndicatorElement e c) = config c"
  by (simp_all add: setActiveIndicatorElement_def Let_def split: option.splits)

lemma class_same [simp]:
  "items (addClass e k c) = items c" "isSliding (addClass e k c) = isSliding c"
  "running (addClass e k c) = running c" "items (removeClass e k c) = items c"
  "isSliding (removeClass e k c) = isSliding c" "running (removeClass e k c) = running c"
  "config (addClass e k c) = config c" "config (removeClass e k c) = config c"
  by (simp_all add: addClass_def removeClass_def)

lemma has_class_change [simp]:
  "has_class (addClass e k c) e' k' = (e = e' \<and> k = k' \<or> has_class c e' k')"
  "has_class (removeClass e k c) e' k' = (\<not> (e = e' \<and> k = k') \<and> has_class c e' k')"
  by (auto simp: has_class_def addClass_def removeClass_def)

lemma has_class_same [simp]:
  "has_class (c\<lparr>isSliding := b\<rparr>) = has_class c" "has_class (c\<lparr>running := r\<rparr>) = has_class c"
  "has_class (c\<lparr>triggered := evs\<rparr>) = has_class c" "has_class (c\<lparr>slidPending := evs\<rparr>) = has_class c"
  "has_class (c\<lparr>waiting := ws\<rparr>) = has_class c" "has_class (c\<lparr>touchTimeout := b\<rparr>) = has_class c"
  "has_class (cycle b c) = has_class c" "has_class (pause b c) = has_class c"
  "has_class (setActiveIndicatorElement e c) = has_class c"
  by (simp_all add: has_class_def fun_eq_iff)

lemma transition_classes [simp]:
  "directionalClass dir \<noteq> ''active''" "orderClass dir \<noteq> ''active''"
  "''active'' \<noteq> directionalClass dir" "''active'' \<noteq> orderClass dir"
  by (simp_all add: directionalClass_def orderClass_def)

lemma sole_active_cong:
  "items c' = items c \<Longrightarrow> (\<And>e. has_class c' e ''active'' = has_class c e ''active'') \<Longrightarrow>
   sole_active c' a = sole_active c a"
  by (simp add: sole_active_def)

lemma slide_wf:
  assumes "carousel_wf c" "\<not> isSliding c"
    and "element = None \<or> (\<exists>e. element = Some e \<and> e \<in> set (items c))"
  shows "carousel_wf (slide prevented dir element c)"
proof -
  have r: "running c = None" using assms(1,2) by (auto simp: carousel_wf_def split: option.splits)
  obtain a where a: "sole_active c a" using assms(1) r by (auto simp: carousel_wf_def)
  note act = activeItem_sole [OF a]
  have byDir: "n \<in> set (items c)" if "getItemByDirection c dir a = Some n" for n
    using that a by (auto simp: getItemByDirection_def Let_def sole_active_def dest: item_at_mem split: if_splits)
  let ?n = "case element of Some e \<Rightarrow> Some e | None \<Rightarrow> getItemByDirection c dir a"
  have idle: "carousel_wf c'" if "items c' = items c" "has_class c' = has_class c"
      "running c' = None" "\<not> isSliding c'" for c'
    using that a by (auto simp: carousel_wf_def sole_active_def)
  show ?thesis
  proof (cases ?n)
    case None
    then show ?thesis using r assms(2) act
      by (cases element) (auto simp: slide_def Let_def intro!: idle)
  next
    case (Some n)
    have n: "n \<in> set (items c)" using Some assms(3) byDir by (cases element) auto
    show ?thesis
    proof (cases "has_class c n ''active'' \<or> prevented")
      case True
      then show ?thesis using r assms(2) act Some
        by (cases element) (auto simp: slide_def Let_def intro!: idle)
    next
      case False
      then have na: "n \<noteq> a" using a by (auto simp: sole_active_def)
      show ?thesis
        using Some False act a n na r assms(2)
        by (cases element)
          (auto simp: slide_def Let_def carousel_wf_def sole_active_def)
    qed
  qed
qed

lemma wf_cong:
  assumes "carousel_wf c" "items c' = items c" "has_class c' = has_class c"
    "running c' = running c" "isSliding c' = isSliding c"
  shows "carousel_wf c'"
  using assms by (auto simp: carousel_wf_def sole_active_def split: option.splits)

lemma timer_wf [simp]:
  "carousel_wf c \<Longrightarrow> carousel_wf (cycle b c)" "carousel_wf c \<Longrightarrow> carousel_wf (pause b c)"
  by (erule wf_cong; simp)+

lemma to_item_wf:
  assumes "carousel_wf c" shows "carousel_wf (to_item prevented i c)"
proof -
  have "carousel_wf (c\<lparr>waiting := w\<rparr>)" for w by (rule wf_cong [OF assms]) simp_all
  moreover have "carousel_wf (slide prevented dir (item_at c k) c)" if "\<not> isSliding c" for dir k
    using that item_at_cases [of c k] by (intro slide_wf assms)
  ultimately show ?thesis using assms by (simp add: to_item_def Let_def)
qed

lemma transition_end_wf:
  assumes "carousel_wf c" shows "carousel_wf (transition_end c)"
proof (cases "running c")
  case (Some t)
  then have t: "sole_active c (trFrom t)" "trTo t \<in> set (items c)" "trTo t \<noteq> trFrom t"
    using assms by (auto simp: carousel_wf_def)
  have hc: "has_class (transition_end c) e ''active'' =
      (e = trTo t \<or> (e \<noteq> trFrom t \<and> has_class c e ''active''))" for e
    using Some t(3) by (simp add: transition_end_def Let_def) metis
  have "items (transition_end c) = items c" using Some by (simp add: transition_end_def Let_def)
  then have "sole_active (transition_end c) (trTo t)"
    using t hc by (simp add: sole_active_def)
  moreover have "running (transition_end c) = None" "\<not> isSliding (transition_end c)"
    using Some by (simp_all add: transition_end_def Let_def)
  ultimately show ?thesis by (auto simp: carousel_wf_def)
qed (use assms in \<open>simp add: transition_end_def\<close>)

lemma foldl_to_wf: "carousel_wf c \<Longrightarrow> carousel_wf (foldl (\<lambda>c i. to_item prevented i c) c is)"
  by (induction "is" arbitrary: c) (auto intro: to_item_wf)

lemma slid_task_wf:
  assumes "carousel_wf c" shows "carousel_wf (slid_task prevented c)"
proof (cases "slidPending c")
  case (Cons ev evs)
  have "carousel_wf (c\<lparr>slidPending := evs, triggered := triggered c @ [ev], waiting := []\<rparr>)"
    by (rule wf_cong [OF assms]) simp_all
  then show ?thesis using Cons by (simp add: slid_task_def foldl_to_wf)
qed (use assms in \<open>simp add: slid_task_def\<close>)

lemma input_wf:
  assumes "carousel_wf c" shows "carousel_wf (carousel_input prevented inp c)"
proof -
  have nx: "carousel_wf (next_item prevented c)" and pv: "carousel_wf (prev_item prevented c)"
    using assms by (simp_all add: next_item_def prev_item_def slide_wf)
  have te: "carousel_wf (touchend c)"
    by (rule wf_cong [OF assms]) (simp_all add: touchend_def)
  have tt: "carousel_wf (cycle False (c\<lparr>touchTimeout := False\<rparr>))"
    by (rule wf_cong [OF assms]) simp_all
  show ?thesis
    using assms nx pv te tt to_item_wf [OF assms] transition_end_wf [OF assms] slid_task_wf [OF assms]
    by (cases inp) (simp_all add: carousel_input_def nextWhenVisible_def keydown_def)
qed

definition carousel_step :: "carousel \<Rightarrow> bool \<times> carousel_action \<Rightarrow> carousel" where
  "carousel_step c = (\<lambda>(prevented, inp). carousel_input prevented inp c)"

definition carousel_run :: "(bool \<times> carousel_action) list \<Rightarrow> carousel \<Rightarrow> carousel" where
  "carousel_run inputs c = foldl carousel_step c inputs"

interpretation carousels: invariant_machine carousel_step carousel_wf
  by standard (simp add: carousel_step_def input_wf split: prod.split)

lemma filter_single: "distinct xs \<Longrightarrow> a \<in> set xs \<Longrightarrow> filter (\<lambda>e. e = a) xs = [a]"
  by (induction xs) (auto simp: filter_empty_conv)

lemma sole_active_filter:
  assumes "distinct (items c)" "sole_active c a"
  shows "filter (\<lambda>e. has_class c e ''active'') (items c) = [a]"
proof -
  have "filter (\<lambda>e. has_class c e ''active'') (items c) = filter (\<lambda>e. e = a) (items c)"
    using assms(2) by (auto simp: sole_active_def intro: filter_cong)
  also have "\<dots> = [a]"
    using assms by (auto simp: sole_active_def intro: filter_single)
  finally show ?thesis .
qed

text \<open>
  C33: A carousel that starts idle with one active item keeps exactly one through any sequence
  of calls, keys, pointer events, timers and ends of transitions, prevented or not; and it is
  sliding exactly while a transition is in progress.
\<close>

theorem carousel_one_active:
  assumes "carousel_wf c" and "distinct (items (carousel_run inputs c))"
  shows "length (filter (\<lambda>e. has_class (carousel_run inputs c) e ''active'')
       (items (carousel_run inputs c))) = 1 \<and>
     (isSliding (carousel_run inputs c) = (running (carousel_run inputs c) \<noteq> None))"
proof -
  have wf: "carousel_wf (carousel_run inputs c)" using assms(1) unfolding carousel_run_def by (rule carousels.run_inv)
  then obtain a where "sole_active (carousel_run inputs c) a"
    by (auto simp: carousel_wf_def split: option.splits)
  from sole_active_filter [OF assms(2) this] wf show ?thesis
    by (auto simp: carousel_wf_def split: option.splits)
qed

definition demo_carousel :: carousel where
  "demo_carousel =
     \<lparr>items = [10, 11, 12], classes = (\<lambda>e. if e = 11 then {''carousel-item'', ''active''} else {''carousel-item''}),
      indicators = Some [False, True, False], config = carousel_default, interval = True,
      isPaused = False, isSliding = False, touchTimeout = False, hasSlideClass = True,
      supportsTransitionEnd = True, running = None, slidPending = [], waiting = [], triggered = []\<rparr>"

lemma demo_carousel_active: "sole_active demo_carousel 11"
  by (auto simp: sole_active_def demo_carousel_def has_class_def)

lemma demo_carousel_wf: "carousel_wf demo_carousel"
  using demo_carousel_active by (auto simp: carousel_wf_def demo_carousel_def)

lemma items_slide [simp]: "items (slide prevented dir el c) = items c"
  by (auto simp: slide_def Let_def split: option.splits)

lemma items_transition_end [simp]: "items (transition_end c) = items c"
  by (simp add: transition_end_def Let_def split: option.splits)

theorem carousel_one_active_witness:
  "length (filter (\<lambda>e. has_class (carousel_run [(False, Next), (True, TransitionEnds)] demo_carousel) e ''active'')
     (items (carousel_run [(False, Next), (True, TransitionEnds)] demo_carousel))) = 1"
proof -
  have "items (carousel_run [(False, Next), (True, TransitionEnds)] demo_carousel) = [10, 11, 12]"
    by (simp add: carousel_run_def carousel_step_def carousel_input_def next_item_def demo_carousel_def)
  then show ?thesis
    using carousel_one_active [OF demo_carousel_wf, of "[(False, Next), (True, TransitionEnds)]"] by simp
qed

section \<open>The index machine the carousel implements\<close>

text \<open>
  The contract of a carousel is a position in a ring: next and previous add and subtract one.
  The position is read off the state by the abstraction function.
\<close>

definition position :: "carousel \<Rightarrow> int" where
  "position c = getItemIndex c (activeItem c)"

definition ring_step :: "direction \<Rightarrow> int \<Rightarrow> int \<Rightarrow> int" where
  "ring_step dir n i = (i + (if dir = NEXT then 1 else -1)) mod n"

lemma index_in_nth: "distinct xs \<Longrightarrow> k < length xs \<Longrightarrow> index_in xs (xs ! k) = int k"
proof (induction xs arbitrary: k)
  case (Cons x xs)
  then show ?case by (cases k) auto
qed simp

lemma position_sole:
  assumes "distinct (items c)" "sole_active c (items c ! k)" "k < length (items c)"
  shows "position c = int k"
  using assms by (simp add: position_def activeItem_sole getItemIndex_def index_in_nth)

lemma byDirection_ring:
  assumes "distinct (items c)" "k < length (items c)" "cfgWrap (config c)"
  shows "getItemByDirection c dir (items c ! k)
    = Some (items c ! nat (ring_step dir (int (length (items c))) (int k)))"
proof -
  let ?n = "int (length (items c))"
  have i: "getItemIndex c (Some (items c ! k)) = int k"
    using assms by (simp add: getItemIndex_def index_in_nth)
  have n: "0 < ?n" using assms(2) by linarith
  have r: "0 \<le> ring_step dir ?n (int k)" "ring_step dir ?n (int k) < ?n"
    unfolding ring_step_def using pos_mod_sign [OF n] pos_mod_bound [OF n] by blast+
  show ?thesis
  proof (cases "dir = PREV \<and> k = 0")
    case True
    then have w: "ring_step dir ?n (int k) = ?n - 1" using n by (simp add: ring_step_def zmod_minus1)
    have i0: "getItemIndex c (Some (items c ! 0)) = 0" using i True by simp
    show ?thesis
    proof (cases "?n = 1")
      case True
      then show ?thesis
        using \<open>dir = PREV \<and> k = 0\<close> assms(3) w
        by (simp add: getItemByDirection_def Let_def i0 js_rem_def item_at_def)
    next
      case False
      then have "1 < ?n" using n by linarith
      then have "1 mod ?n = 1" by (intro mod_pos_pos_trivial) linarith+
      then have "js_rem (-1) ?n = -1" unfolding js_rem_def by simp
      then show ?thesis
        using True assms(3) w n
        by (simp add: getItemByDirection_def Let_def i0 item_at_def)
    qed
  next
    case False
    then have "js_rem (int k + (if dir = PREV then -1 else 1)) ?n = ring_step dir ?n (int k)"
      by (cases dir) (auto simp: js_rem_def ring_step_def)
    then show ?thesis
      using assms(3) r by (simp add: getItemByDirection_def Let_def i item_at_def)
  qed
qed

lemma slide_then_end:
  assumes "sole_active c a" "running c = None" "n \<in> set (items c)"
    and "(case el of Some e \<Rightarrow> Some e | None \<Rightarrow> getItemByDirection c dir a) = Some n"
  shows "sole_active (transition_end (slide False dir el c)) n"
proof (cases "n = a")
  case True
  then have "slide False dir el c = c\<lparr>isSliding := False\<rparr>"
    using assms activeItem_sole [OF assms(1)]
    by (cases el) (auto simp: slide_def Let_def sole_active_def)
  then show ?thesis using assms(1,2) True by (simp add: transition_end_def sole_active_def)
next
  case False
  have na: "\<not> has_class c n ''active''" using assms(1,3) False by (auto simp: sole_active_def)
  show ?thesis
    using assms activeItem_sole [OF assms(1)] na False
    by (cases el) (auto simp: slide_def Let_def transition_end_def sole_active_def)
qed

text \<open>A call of \<open>next\<close> or \<open>prev\<close> followed by the end of its transition, if it has one.\<close>

definition completed_call :: "carousel \<Rightarrow> direction \<Rightarrow> carousel" where
  "completed_call c dir =
     transition_end (case dir of NEXT \<Rightarrow> next_item False c | PREV \<Rightarrow> prev_item False c)"

definition idle_ring :: "nat \<Rightarrow> carousel \<Rightarrow> bool" where
  "idle_ring n c \<longleftrightarrow>
     carousel_wf c \<and> \<not> isSliding c \<and> distinct (items c) \<and> length (items c) = n \<and> cfgWrap (config c)"

lemma idle_ring_running: "idle_ring n c \<Longrightarrow> running c = None"
  by (auto simp: idle_ring_def carousel_wf_def split: option.splits)

lemma completed_call_slide:
  "idle_ring n c \<Longrightarrow> completed_call c dir = transition_end (slide False dir None c)"
  by (cases dir) (simp_all add: completed_call_def next_item_def prev_item_def idle_ring_def)

lemma transition_end_idle: "carousel_wf c \<Longrightarrow> \<not> isSliding (transition_end c)"
  by (auto simp: transition_end_def carousel_wf_def Let_def split: option.splits)

lemma config_slide [simp]: "config (transition_end (slide prevented dir el c)) = config c"
  by (auto simp: slide_def transition_end_def Let_def split: option.splits)

lemma completed_call_idle:
  assumes "idle_ring n c" shows "idle_ring n (completed_call c dir)"
proof -
  have wf: "carousel_wf (slide False dir None c)"
    using assms by (intro slide_wf) (simp_all add: idle_ring_def)
  then show ?thesis
    using assms transition_end_idle [OF wf] transition_end_wf [OF wf]
    by (simp add: completed_call_slide [OF assms] idle_ring_def)
qed

lemma completed_call_position:
  assumes "idle_ring n c"
  shows "position (completed_call c dir) = ring_step dir (int n) (position c)"
proof -
  note ring = assms [unfolded idle_ring_def]
  have run: "running c = None" using assms by (rule idle_ring_running)
  then obtain a where "sole_active c a" using ring by (auto simp: carousel_wf_def)
  then obtain k where k: "k < length (items c)" "sole_active c (items c ! k)"
    by (auto simp: sole_active_def in_set_conv_nth)
  have pos: "position c = int k" using position_sole [OF _ k(2,1)] ring by simp
  let ?r = "nat (ring_step dir (int (length (items c))) (int k))"
  have n: "0 < int (length (items c))" using k(1) by linarith
  have r: "?r < length (items c)" "int ?r = ring_step dir (int (length (items c))) (int k)"
    using pos_mod_sign [OF n] pos_mod_bound [OF n] unfolding ring_step_def by (simp_all add: nat_less_iff)
  have "sole_active (transition_end (slide False dir None c)) (items c ! ?r)"
    using byDirection_ring [OF _ k(1)] ring r(1) by (intro slide_then_end [OF k(2) run]) simp_all
  then show ?thesis
    using position_sole [of "transition_end (slide False dir None c)" ?r] ring r pos
      completed_call_slide [OF assms]
    by simp
qed

interpretation ring: refining_machine completed_call "idle_ring n" position
  "\<lambda>i dir. ring_step dir (int n) i" for n
  by standard (rule completed_call_idle, assumption, rule completed_call_position)

text \<open>
  C34: Refinement: on a wrapping carousel that is idle, a sequence of calls of \<open>next\<close> and \<open>prev\<close>,
  each followed by the end of its transition if it has one, moves the position as the same
  sequence of single steps round the ring does.
\<close>

theorem carousel_refines_ring:
  assumes "carousel_wf c" and "\<not> isSliding c" and "distinct (items c)" and "cfgWrap (config c)"
  shows "position (foldl completed_call c dirs)
    = foldl (\<lambda>i dir. ring_step dir (int (length (items c))) i) (position c) dirs"
  using assms by (intro ring.run_refines) (simp add: idle_ring_def)

theorem carousel_refines_ring_witness:
  "position (foldl completed_call demo_carousel [NEXT, NEXT, PREV, NEXT, NEXT]) = 1"
proof -
  have "position demo_carousel = 1"
    by (simp add: position_def activeItem_sole [OF demo_carousel_active] getItemIndex_def)
      (simp add: demo_carousel_def)
  moreover have "distinct (items demo_carousel)" "\<not> isSliding demo_carousel" "cfgWrap (config demo_carousel)"
    "length (items demo_carousel) = 3"
    by (simp_all add: demo_carousel_def carousel_default_def)
  ultimately show ?thesis
    using carousel_refines_ring [OF demo_carousel_wf, of "[NEXT, NEXT, PREV, NEXT, NEXT]"]
    by (simp add: ring_step_def)
qed

text \<open>
  C31: A carousel that does not wrap stays where it is at its ends: the call of \<open>next\<close> on the last
  item, or of \<open>prev\<close> on the first, changes nothing and triggers no event.
\<close>

theorem carousel_stops_at_ends:
  assumes "carousel_wf c" and "\<not> isSliding c" and "distinct (items c)" and "\<not> cfgWrap (config c)"
  shows "(position c = int (length (items c)) - 1 \<longrightarrow> next_item prevented c = c) \<and>
    (position c = 0 \<longrightarrow> prev_item prevented c = c)"
proof -
  have run: "running c = None" using assms(1,2) by (auto simp: carousel_wf_def split: option.splits)
  then obtain a where a: "sole_active c a" using assms(1) by (auto simp: carousel_wf_def)
  note act = activeItem_sole [OF a]
  have "slide prevented dir None c = c" if "getItemByDirection c dir a = Some a" for dir
    using that act a assms(2) by (simp add: slide_def Let_def sole_active_def)
  then show ?thesis
    using assms(2,4) act
    by (auto simp: next_item_def prev_item_def position_def getItemByDirection_def)
qed

theorem carousel_stops_at_ends_witness:
  "next_item True (demo_carousel\<lparr>items := [10, 11], config := carousel_default\<lparr>cfgWrap := False\<rparr>\<rparr>)
     = demo_carousel\<lparr>items := [10, 11], config := carousel_default\<lparr>cfgWrap := False\<rparr>\<rparr>"
    (is "next_item True ?c = ?c")
proof -
  have a: "sole_active ?c 11" by (auto simp: sole_active_def demo_carousel_def has_class_def)
  then have "carousel_wf ?c" by (auto simp: carousel_wf_def demo_carousel_def)
  moreover have "position ?c = 1"
    by (simp add: position_def activeItem_sole [OF a] getItemIndex_def)
  ultimately show ?thesis
    using carousel_stops_at_ends [of ?c True] by (simp add: demo_carousel_def)
qed

end
