(* ===== verification/Bs_Util.thy ===== *)
theory Bs_Util
  imports Js_Text Machines
begin

text \<open>
  The helpers that the plugins of \<open>client/w3cDemo/js/bootstrap.js\<close> share: the type check of an
  options object against a table of expected types, the default options and type tables of the
  plugins that have them, unique identifiers, the selector of a toggle's target, the emulated end
  of a transition, and the test of the jQuery version.
\<close>

section \<open>Values of an options object\<close>

text \<open>
  An element is named by a number. A function is named by a text; it is never called here. An
  object is the list of its own properties.
\<close>

datatype jsval =
    JUndefined
  | JNull
  | JBool bool
  | JNumber jsreal
  | JText string
  | JFunction string
  | JArray "jsval list"
  | JElement nat
  | JQuery "nat list"
  | JObject "(string \<times> jsval) list"

type_synonym js_options = "string \<rightharpoonup> jsval"

definition truthy :: "jsval \<Rightarrow> bool" where
  "truthy v =
     (case v of
        JUndefined \<Rightarrow> False
      | JNull \<Rightarrow> False
      | JBool b \<Rightarrow> b
      | JNumber n \<Rightarrow> n \<noteq> JsNaN \<and> n \<noteq> Fin 0
      | JText s \<Rightarrow> s \<noteq> []
      | _ \<Rightarrow> True)"

text \<open>\<open>toType\<close> is asked for values that are not elements only.\<close>

definition toType :: "jsval \<Rightarrow> string" where
  "toType v =
     (case v of
        JUndefined \<Rightarrow> ''undefined''
      | JNull \<Rightarrow> ''null''
      | JBool _ \<Rightarrow> ''boolean''
      | JNumber _ \<Rightarrow> ''number''
      | JText _ \<Rightarrow> ''string''
      | JFunction _ \<Rightarrow> ''function''
      | JArray _ \<Rightarrow> ''array''
      | JElement _ \<Rightarrow> ''htmlelement''
      | JQuery _ \<Rightarrow> ''object''
      | JObject _ \<Rightarrow> ''object'')"

text \<open>The property \<open>0\<close> or \<open>nodeType\<close> of a value.\<close>

definition first_of :: "jsval \<Rightarrow> jsval" where
  "first_of v =
     (case v of
        JText (c # _) \<Rightarrow> JText [c]
      | JArray (x # _) \<Rightarrow> x
      | JQuery (e # _) \<Rightarrow> JElement e
      | JObject ps \<Rightarrow> (case map_of ps ''0'' of Some x \<Rightarrow> x | None \<Rightarrow> JUndefined)
      | _ \<Rightarrow> JUndefined)"

definition nodeType :: "jsval \<Rightarrow> jsval" where
  "nodeType v =
     (case v of
        JElement _ \<Rightarrow> JNumber (Fin 1)
      | JObject ps \<Rightarrow> (case map_of ps ''nodeType'' of Some x \<Rightarrow> x | None \<Rightarrow> JUndefined)
      | _ \<Rightarrow> JUndefined)"

definition isElement :: "jsval \<Rightarrow> bool" where
  "isElement obj = truthy (nodeType (if truthy (first_of obj) then first_of obj else obj))"

section \<open>Merging and checking options\<close>

definition property :: "js_options \<Rightarrow> string \<Rightarrow> jsval" where
  "property cfg p = (case cfg p of Some v \<Rightarrow> v | None \<Rightarrow> JUndefined)"

definition extends :: "js_options \<Rightarrow> js_options \<Rightarrow> js_options" where
  "extends target source = target ++ source"

text \<open>The expected types are a name, or names with bars between them in parentheses.\<close>

definition type_alternatives :: "string \<Rightarrow> string list" where
  "type_alternatives expected =
     split_char CHR ''|'' (filter (\<lambda>c. c \<noteq> CHR ''('' \<and> c \<noteq> CHR '')'') expected)"

text \<open>A regular expression of such names matches where one of them occurs in the type's name.\<close>

definition type_matches :: "string \<Rightarrow> string \<Rightarrow> bool" where
  "type_matches expected valueType = list_ex (\<lambda>a. sublist a valueType) (type_alternatives expected)"

definition value_type :: "jsval \<Rightarrow> string" where
  "value_type v = (if truthy v \<and> isElement v then ''element'' else toType v)"

definition upper_char :: "char \<Rightarrow> char" where
  "upper_char c = (let n = (of_char c :: nat) in if 97 \<le> n \<and> n \<le> 122 then char_of (n - 32) else c)"

definition type_error :: "string \<Rightarrow> string \<Rightarrow> string \<Rightarrow> string \<Rightarrow> string" where
  "type_error componentName p valueType expected =
     map upper_char componentName @ '': Option '' @ [CHR 0x22] @ p @ [CHR 0x22] @ '' provided type '' @
       [CHR 0x22] @ valueType @ [CHR 0x22] @ '' but expected type '' @ [CHR 0x22] @ expected @ [CHR 0x22] @ ''.''"

fun typeCheckConfig :: "string \<Rightarrow> js_options \<Rightarrow> (string \<times> string) list \<Rightarrow> string + unit" where
  "typeCheckConfig componentName cfg [] = Inr ()"
| "typeCheckConfig componentName cfg ((p, expected) # types) =
     (let valueType = value_type (property cfg p)
      in if type_matches expected valueType then typeCheckConfig componentName cfg types
         else Inl (type_error componentName p valueType expected))"

section \<open>The option tables of the plugins\<close>

definition carousel_options :: "(string \<times> jsval) list" where
  "carousel_options =
     [(''interval'', JNumber (Fin 5000)), (''keyboard'', JBool True), (''slide'', JBool False),
      (''pause'', JText ''hover''), (''wrap'', JBool True)]"

definition carousel_types :: "(string \<times> string) list" where
  "carousel_types =
     [(''interval'', ''(number|boolean)''), (''keyboard'', ''boolean''), (''slide'', ''(boolean|string)''),
      (''pause'', ''(string|boolean)''), (''wrap'', ''boolean'')]"

definition collapse_options :: "(string \<times> jsval) list" where
  "collapse_options = [(''toggle'', JBool True), (''parent'', JText '''')]"

definition collapse_types :: "(string \<times> string) list" where
  "collapse_types = [(''toggle'', ''boolean''), (''parent'', ''(string|element)'')]"

definition dropdown_options :: "(string \<times> jsval) list" where
  "dropdown_options =
     [(''offset'', JNumber (Fin 0)), (''flip'', JBool True), (''boundary'', JText ''scrollParent'')]"

definition dropdown_types :: "(string \<times> string) list" where
  "dropdown_types =
     [(''offset'', ''(number|string|function)''), (''flip'', ''boolean''), (''boundary'', ''(string|element)'')]"

definition modal_options :: "(string \<times> jsval) list" where
  "modal_options =
     [(''backdrop'', JBool True), (''keyboard'', JBool True), (''focus'', JBool True), (''show'', JBool True)]"

definition modal_types :: "(string \<times> string) list" where
  "modal_types =
     [(''backdrop'', ''(boolean|string)''), (''keyboard'', ''boolean''), (''focus'', ''boolean''),
      (''show'', ''boolean'')]"

definition scrollspy_options :: "(string \<times> jsval) list" where
  "scrollspy_options =
     [(''offset'', JNumber (Fin 10)), (''method'', JText ''auto''), (''target'', JText '''')]"

definition scrollspy_types :: "(string \<times> string) list" where
  "scrollspy_types = [(''offset'', ''number''), (''method'', ''string''), (''target'', ''(string|element)'')]"

text \<open>In the templates a quotation mark is written with an apostrophe's partner, the double quote.\<close>

definition quoted :: "string \<Rightarrow> string" where
  "quoted s = CHR 0x22 # s @ [CHR 0x22]"

definition tooltip_template :: string where
  "tooltip_template =
     ''<div class='' @ quoted ''tooltip'' @ '' role='' @ quoted ''tooltip'' @ ''>'' @
     ''<div class='' @ quoted ''arrow'' @ ''></div>'' @
     ''<div class='' @ quoted ''tooltip-inner'' @ ''></div></div>''"

definition tooltip_options :: "(string \<times> jsval) list" where
  "tooltip_options =
     [(''animation'', JBool True), (''template'', JText tooltip_template),
      (''trigger'', JText ''hover focus''), (''title'', JText ''''), (''delay'', JNumber (Fin 0)),
      (''html'', JBool False), (''selector'', JBool False), (''placement'', JText ''top''),
      (''offset'', JNumber (Fin 0)), (''container'', JBool False), (''fallbackPlacement'', JText ''flip''),
      (''boundary'', JText ''scrollParent'')]"

definition tooltip_types :: "(string \<times> string) list" where
  "tooltip_types =
     [(''animation'', ''boolean''), (''template'', ''string''), (''title'', ''(string|element|function)''),
      (''trigger'', ''string''), (''delay'', ''(number|object)''), (''html'', ''boolean''),
      (''selector'', ''(string|boolean)''), (''placement'', ''(string|function)''),
      (''offset'', ''(number|string)''), (''container'', ''(string|element|boolean)''),
      (''fallbackPlacement'', ''(string|array)''), (''boundary'', ''(string|element)'')]"

definition popover_template :: string where
  "popover_template =
     ''<div class='' @ quoted ''popover'' @ '' role='' @ quoted ''tooltip'' @ ''>'' @
     ''<div class='' @ quoted ''arrow'' @ ''></div>'' @
     ''<h3 class='' @ quoted ''popover-header'' @ ''></h3>'' @
     ''<div class='' @ quoted ''popover-body'' @ ''></div></div>''"

definition popover_options :: "(string \<times> jsval) list" where
  "popover_options =
     [(''placement'', JText ''right''), (''trigger'', JText ''click''), (''content'', JText ''''),
      (''template'', JText popover_template)] @ tooltip_options"

definition popover_types :: "(string \<times> string) list" where
  "popover_types = tooltip_types @ [(''content'', ''(string|element|function)'')]"

text \<open>
  Each plugin with options: the name in its messages, its defaults and the types it expects. The
  popover inherits its check from the tooltip and so reports under the tooltip's name.
\<close>

definition plugin_tables :: "(string \<times> (string \<times> jsval) list \<times> (string \<times> string) list) list" where
  "plugin_tables =
     [(''carousel'', carousel_options, carousel_types), (''collapse'', collapse_options, collapse_types),
      (''dropdown'', dropdown_options, dropdown_types), (''modal'', modal_options, modal_types),
      (''tooltip'', tooltip_options, tooltip_types), (''tooltip'', popover_options, popover_types),
      (''scrollspy'', scrollspy_options, scrollspy_types)]"

text \<open>\<open>_getConfig\<close> of a plugin without further conversions: the defaults with the given options over them.\<close>

definition getConfig ::
  "string \<Rightarrow> (string \<times> jsval) list \<Rightarrow> (string \<times> string) list \<Rightarrow> js_options \<Rightarrow> string + js_options" where
  "getConfig nm defaults types given =
     (let cfg = extends (map_of defaults) given
      in case typeCheckConfig nm cfg types of Inl msg \<Rightarrow> Inl msg | Inr _ \<Rightarrow> Inr cfg)"

section \<open>Facts about the check\<close>

lemma typeCheck_ok_iff:
  "typeCheckConfig nm cfg types = Inr () \<longleftrightarrow>
     (\<forall>(p, expected) \<in> set types. type_matches expected (value_type (property cfg p)))"
proof (induction types)
  case (Cons t types)
  then show ?case by (cases t) (auto simp: Let_def)
qed simp

text \<open>The message names the first property of the table that has a wrong type.\<close>

lemma typeCheck_error:
  assumes "typeCheckConfig nm cfg types = Inl msg"
  shows "\<exists>before p expected after. types = before @ (p, expected) # after \<and>
    typeCheckConfig nm cfg before = Inr () \<and>
    \<not> type_matches expected (value_type (property cfg p)) \<and>
    msg = type_error nm p (value_type (property cfg p)) expected"
  using assms
proof (induction types)
  case (Cons t types)
  obtain p expected where t: "t = (p, expected)" by (cases t)
  show ?case
  proof (cases "type_matches expected (value_type (property cfg p))")
    case True
    with Cons t obtain before p' e' after where
      "types = before @ (p', e') # after" "typeCheckConfig nm cfg before = Inr ()"
      "\<not> type_matches e' (value_type (property cfg p'))"
      "msg = type_error nm p' (value_type (property cfg p')) e'"
      by auto
    moreover have "typeCheckConfig nm cfg (t # before) = Inr ()" using True calculation(2) t by simp
    ultimately show ?thesis
      by (intro exI [of _ "t # before"] exI [of _ p'] exI [of _ e'] exI [of _ after]) simp
  next
    case False
    then have "msg = type_error nm p (value_type (property cfg p)) expected"
      using Cons.prems t by (simp add: Let_def)
    then show ?thesis using False t
      by (intro exI [of _ "[]"] exI [of _ p] exI [of _ expected] exI [of _ types]) simp
  qed
qed simp

lemma value_type_simps [simp]:
  "value_type (JText s) = ''string''" "value_type (JBool b) = ''boolean''"
  "value_type (JNumber n) = ''number''" "value_type (JFunction f) = ''function''"
  "value_type (JElement e) = ''element''" "value_type JUndefined = ''undefined''"
  by (simp_all add: value_type_def isElement_def first_of_def nodeType_def truthy_def toType_def split: list.splits)

text \<open>The types of the tables and the names they accept.\<close>

lemma type_matches_string:
  "type_matches ''string'' ''string''" "type_matches ''(string|element)'' ''string''"
  "type_matches ''(string|boolean)'' ''string''" "type_matches ''(string|function)'' ''string''"
  "type_matches ''(string|array)'' ''string''" "type_matches ''(string|element|function)'' ''string''"
  "type_matches ''(boolean|string)'' ''string''"
  by code_simp+

lemma type_matches_boolean:
  "type_matches ''boolean'' ''boolean''" "type_matches ''(boolean|string)'' ''boolean''"
  "type_matches ''(string|boolean)'' ''boolean''" "type_matches ''(string|element|boolean)'' ''boolean''"
  by code_simp+

lemma type_matches_number:
  "type_matches ''number'' ''number''" "type_matches ''(number|boolean)'' ''number''"
  "type_matches ''(number|string|function)'' ''number''" "type_matches ''(number|object)'' ''number''"
  "type_matches ''(number|string)'' ''number''" "\<not> type_matches ''number'' ''string''"
  by code_simp+

lemmas type_matches_table = type_matches_string type_matches_boolean type_matches_number

text \<open>The defaults of every plugin pass its own check.\<close>

definition well_typed :: "(string \<times> jsval) list \<Rightarrow> (string \<times> string) list \<Rightarrow> bool" where
  "well_typed defaults types =
     list_all (\<lambda>(p, t). type_matches t (value_type (property (map_of defaults) p))) types"

lemma carousel_well_typed: "well_typed carousel_options carousel_types"
  by (simp add: well_typed_def carousel_options_def carousel_types_def property_def type_matches_table)

lemma collapse_well_typed: "well_typed collapse_options collapse_types"
  by (simp add: well_typed_def collapse_options_def collapse_types_def property_def type_matches_table)

lemma dropdown_well_typed: "well_typed dropdown_options dropdown_types"
  by (simp add: well_typed_def dropdown_options_def dropdown_types_def property_def type_matches_table)

lemma modal_well_typed: "well_typed modal_options modal_types"
  by (simp add: well_typed_def modal_options_def modal_types_def property_def type_matches_table)

lemma scrollspy_well_typed: "well_typed scrollspy_options scrollspy_types"
  by (simp add: well_typed_def scrollspy_options_def scrollspy_types_def property_def type_matches_table)

lemma tooltip_well_typed: "well_typed tooltip_options tooltip_types"
  by (simp add: well_typed_def tooltip_options_def tooltip_types_def property_def type_matches_table)

lemma popover_well_typed: "well_typed popover_options popover_types"
  by (simp add: well_typed_def popover_options_def popover_types_def tooltip_options_def
      tooltip_types_def property_def type_matches_table)

lemmas plugins_well_typed = carousel_well_typed collapse_well_typed dropdown_well_typed modal_well_typed
  scrollspy_well_typed tooltip_well_typed popover_well_typed

lemma defaults_typed:
  assumes "(nm, defaults, types) \<in> set plugin_tables" and "(p, t) \<in> set types"
  shows "type_matches t (value_type (property (map_of defaults) p))"
proof -
  have "well_typed defaults types"
    using assms(1) plugins_well_typed by (auto simp: plugin_tables_def)
  with assms(2) show ?thesis by (auto simp: well_typed_def list_all_iff)
qed



text \<open>
  A configuration that is refused throws a message about the first option of the table with a
  wrong type, and that option was given by the caller: no default is ever to blame.
\<close>

theorem getConfig_blames_given:
  assumes "(nm, defaults, types) \<in> set plugin_tables"
    and "getConfig nm defaults types given = Inl msg"
  shows "\<exists>before p t after v. types = before @ (p, t) # after \<and>
    (\<forall>(p', t') \<in> set before. \<forall>v'. given p' = Some v' \<longrightarrow> type_matches t' (value_type v')) \<and>
    given p = Some v \<and> \<not> type_matches t (value_type v) \<and> msg = type_error nm p (value_type v) t"
proof -
  let ?cfg = "map_of defaults ++ given"
  have "typeCheckConfig nm ?cfg types = Inl msg"
    using assms(2) by (auto simp: getConfig_def extends_def Let_def split: sum.splits)
  from typeCheck_error [OF this] obtain before p t after where split: "types = before @ (p, t) # after"
    and ok: "typeCheckConfig nm ?cfg before = Inr ()"
    and bad: "\<not> type_matches t (value_type (property ?cfg p))"
    and msg: "msg = type_error nm p (value_type (property ?cfg p)) t"
    by blast
  have given: "property ?cfg q = w" if "given q = Some w" for q w
    using that by (simp add: property_def)
  from bad defaults_typed [OF assms(1), of p t] split obtain v where v: "given p = Some v"
    by (cases "given p") (auto simp: property_def map_add_def)
  have "\<forall>(p', t') \<in> set before. \<forall>v'. given p' = Some v' \<longrightarrow> type_matches t' (value_type v')"
    using ok given unfolding typeCheck_ok_iff by fastforce
  with split bad msg v given [OF v] show ?thesis by auto
qed

theorem getConfig_blames_given_witness:
  "\<exists>before p t after v. scrollspy_types = before @ (p, t) # after \<and>
    (\<forall>(p', t') \<in> set before. \<forall>v'. [''offset'' \<mapsto> JText ''10''] p' = Some v' \<longrightarrow> type_matches t' (value_type v')) \<and>
    [''offset'' \<mapsto> JText ''10''] p = Some v \<and> \<not> type_matches t (value_type v) \<and>
    type_error ''scrollspy'' ''offset'' ''string'' ''number'' = type_error ''scrollspy'' p (value_type v) t"
proof (rule getConfig_blames_given)
  show "(''scrollspy'', scrollspy_options, scrollspy_types) \<in> set plugin_tables"
    by (simp add: plugin_tables_def)
  show "getConfig ''scrollspy'' scrollspy_options scrollspy_types [''offset'' \<mapsto> JText ''10''] =
      Inl (type_error ''scrollspy'' ''offset'' ''string'' ''number'')"
    by (simp add: getConfig_def extends_def property_def scrollspy_types_def type_matches_table)
qed

section \<open>Unique identifiers\<close>

text \<open>
  \<open>getUID\<close>: the k-th random number of the run is an argument, and whether an element has an
  identifier. The loop may run on, so the function is partial.
\<close>

definition random_part :: "(nat \<Rightarrow> real) \<Rightarrow> nat \<Rightarrow> string" where
  "random_part rnd k = show_int \<lfloor>rnd k * 1000000\<rfloor>"

partial_function (option) getUID :: "(nat \<Rightarrow> real) \<Rightarrow> (string \<Rightarrow> bool) \<Rightarrow> nat \<Rightarrow> string \<Rightarrow> string option" where
  "getUID rnd taken k prefix_text =
     (let p = prefix_text @ random_part rnd k
      in if taken p then getUID rnd taken (k + 1) p else Some p)"

lemma random_part_nonempty [simp]: "random_part rnd k \<noteq> []"
  by (simp add: random_part_def show_int_def)

text \<open>
  C25: \<open>getUID\<close> returns on every page: with finitely many identifiers in use the loop ends,
  whatever the random numbers are, with an identifier that is not in use and starts with the
  text it was given.
\<close>

theorem getUID_fresh:
  assumes "finite {s. taken s}"
  shows "\<exists>p. getUID rnd taken k prefix_text = Some p \<and> \<not> taken p \<and> strict_prefix prefix_text p"
proof -
  let ?longer = "\<lambda>q. {s. taken s \<and> length q < length s}"
  show ?thesis
  proof (induction "card (?longer prefix_text)" arbitrary: prefix_text k rule: less_induct)
    case less
    let ?p = "prefix_text @ random_part rnd k"
    have strict: "strict_prefix prefix_text ?p" by (simp add: strict_prefix_def)
    show ?case
    proof (cases "taken ?p")
      case False
      then show ?thesis using strict by (subst getUID.simps) (auto simp: Let_def)
    next
      case True
      have "finite (?longer q)" for q using assms by (rule rev_finite_subset) auto
      moreover have "?longer ?p \<subset> ?longer prefix_text"
      proof
        show "?longer ?p \<subseteq> ?longer prefix_text" by auto
        have "?p \<in> ?longer prefix_text" "?p \<notin> ?longer ?p" using True by auto
        then show "?longer ?p \<noteq> ?longer prefix_text" by blast
      qed
      ultimately have "card (?longer ?p) < card (?longer prefix_text)" by (intro psubset_card_mono)
      from less.hyps [OF this, of "k + 1"] obtain p where
        "getUID rnd taken (k + 1) ?p = Some p" "\<not> taken p" "strict_prefix ?p p" by blast
      moreover have "getUID rnd taken k prefix_text = getUID rnd taken (k + 1) ?p"
        using True by (subst getUID.simps) (simp add: Let_def)
      ultimately show ?thesis using prefix_order.less_trans [OF strict] by auto
    qed
  qed
qed

theorem getUID_fresh_witness:
  "\<exists>p. getUID (\<lambda>_. 0) (\<lambda>s. s = ''tooltip0'') 0 ''tooltip'' = Some p \<and> p \<noteq> ''tooltip0'' \<and>
     strict_prefix ''tooltip'' p"
  using getUID_fresh [of "\<lambda>s. s = ''tooltip0''" "\<lambda>_. 0" 0 "''tooltip''"] by simp

section \<open>The selector of a toggle's target\<close>

text \<open>
  \<open>escape\<close> is \<open>$.escapeSelector\<close> where jQuery has it; \<open>query\<close> is the answer of the document to a
  selector, \<open>None\<close> where it throws.
\<close>

definition escapeId :: "(string \<Rightarrow> string) option \<Rightarrow> string \<Rightarrow> string" where
  "escapeId escape selector =
     (case escape of
        Some f \<Rightarrow> tl (f selector)
      | None \<Rightarrow> concat (map (\<lambda>c. if c \<in> set '':.[],=@'' then [CHR 0x5C, c] else [c]) selector))"

definition getSelectorFromElement ::
  "(string \<Rightarrow> string) option \<Rightarrow> (string \<Rightarrow> nat list option) \<Rightarrow> (string \<Rightarrow> string option) \<Rightarrow> string option" where
  "getSelectorFromElement escape query attrs =
     (let given = (case attrs ''data-target'' of Some s \<Rightarrow> s | None \<Rightarrow> []);
          s1 = (if given = [] \<or> given = ''#''
                then (case attrs ''href'' of Some h \<Rightarrow> h | None \<Rightarrow> []) else given);
          s2 = (if s1 \<noteq> [] \<and> hd s1 = CHR ''#'' then escapeId escape s1 else s1)
      in case query s2 of
           None \<Rightarrow> None
         | Some found \<Rightarrow> if found \<noteq> [] then Some s2 else None)"

lemma getSelector_cong:
  assumes "f ''data-target'' = g ''data-target''" "f ''href'' = g ''href''"
  shows "getSelectorFromElement escape query f = getSelectorFromElement escape query g"
  unfolding getSelectorFromElement_def assms ..

section \<open>The emulated end of a transition\<close>

text \<open>
  An element's handlers of the end of a transition, in order: the callback of each emulation and
  its mark that the event came; the timers that have not fired; and the callbacks that ran.
  Callbacks are named by numbers.
\<close>

datatype end_handler = Callback nat | MarkCalled nat

record transition_element =
  endHandlers :: "end_handler list"
  endTimers :: "nat list"
  calledMarks :: "nat set"
  nextTimer :: nat
  callbacksRun :: "nat list"

definition no_transitions :: transition_element where
  "no_transitions = \<lparr>endHandlers = [], endTimers = [], calledMarks = {}, nextTimer = 0, callbacksRun = []\<rparr>"

text \<open>\<open>one(TRANSITION_END, callback).emulateTransitionEnd(duration)\<close>.\<close>

definition emulateTransitionEnd :: "nat \<Rightarrow> transition_element \<Rightarrow> transition_element" where
  "emulateTransitionEnd cb el =
     el\<lparr>endHandlers := endHandlers el @ [Callback cb, MarkCalled (nextTimer el)],
        endTimers := endTimers el @ [nextTimer el], nextTimer := nextTimer el + 1\<rparr>"

fun run_end_handler :: "end_handler \<Rightarrow> transition_element \<Rightarrow> transition_element" where
  "run_end_handler (Callback cb) el = el\<lparr>callbacksRun := callbacksRun el @ [cb]\<rparr>"
| "run_end_handler (MarkCalled n) el = el\<lparr>calledMarks := insert n (calledMarks el)\<rparr>"

text \<open>The special event calls the handlers only for an event of the element itself.\<close>

definition transition_event :: "bool \<Rightarrow> transition_element \<Rightarrow> transition_element" where
  "transition_event own el =
     (if own then fold run_end_handler (endHandlers el) (el\<lparr>endHandlers := []\<rparr>) else el)"

definition timer_fires :: "nat \<Rightarrow> transition_element \<Rightarrow> transition_element" where
  "timer_fires n el =
     (if n \<in> set (endTimers el)
      then (let el' = el\<lparr>endTimers := remove1 n (endTimers el)\<rparr>
            in if n \<in> calledMarks el' then el' else transition_event True el')
      else el)"

datatype transition_input = Emulate nat | EndEvent bool | EndTimer nat

fun transition_step :: "transition_element \<Rightarrow> transition_input \<Rightarrow> transition_element" where
  "transition_step el (Emulate cb) = emulateTransitionEnd cb el"
| "transition_step el (EndEvent own) = transition_event own el"
| "transition_step el (EndTimer n) = timer_fires n el"

fun emulated :: "transition_input list \<Rightarrow> nat list" where
  "emulated [] = []"
| "emulated (Emulate cb # is) = cb # emulated is"
| "emulated (_ # is) = emulated is"

fun waiting_callbacks :: "end_handler list \<Rightarrow> nat list" where
  "waiting_callbacks [] = []"
| "waiting_callbacks (Callback cb # hs) = cb # waiting_callbacks hs"
| "waiting_callbacks (MarkCalled n # hs) = waiting_callbacks hs"

lemma waiting_append [simp]: "waiting_callbacks (hs @ ks) = waiting_callbacks hs @ waiting_callbacks ks"
  by (induction hs rule: waiting_callbacks.induct) simp_all

lemma run_handlers [simp]:
  "callbacksRun (fold run_end_handler hs el) = callbacksRun el @ waiting_callbacks hs"
  "calledMarks (fold run_end_handler hs el) = calledMarks el \<union> {n. MarkCalled n \<in> set hs}"
  "endHandlers (fold run_end_handler hs el) = endHandlers el"
  "endTimers (fold run_end_handler hs el) = endTimers el"
  "nextTimer (fold run_end_handler hs el) = nextTimer el"
  by (induction hs arbitrary: el rule: waiting_callbacks.induct) auto

text \<open>
  A handler that waits is followed by the mark of a timer that has not fired and is not marked;
  so when no timer is left no handler is.
\<close>

definition emulation_inv :: "transition_element \<Rightarrow> bool" where
  "emulation_inv el \<longleftrightarrow>
     (\<forall>n. MarkCalled n \<in> set (endHandlers el) \<longrightarrow> n \<in> set (endTimers el) \<and> n \<notin> calledMarks el) \<and>
     (endHandlers el \<noteq> [] \<longrightarrow> (\<exists>n. MarkCalled n \<in> set (endHandlers el))) \<and>
     (\<forall>n \<in> set (endTimers el) \<union> calledMarks el. n < nextTimer el) \<and> distinct (endTimers el)"

lemma emulation_step:
  assumes "emulation_inv el"
  shows "emulation_inv (transition_step el inp)"
proof (cases inp)
  case (Emulate cb)
  then show ?thesis
    using assms by (auto simp: emulation_inv_def emulateTransitionEnd_def less_Suc_eq)
next
  case (EndEvent own)
  then show ?thesis using assms by (auto simp: emulation_inv_def transition_event_def)
next
  case (EndTimer n)
  then show ?thesis
    using assms by (auto simp: emulation_inv_def timer_fires_def transition_event_def Let_def)
qed

definition gained :: "transition_input \<Rightarrow> nat list" where
  "gained inp = (case inp of Emulate cb \<Rightarrow> [cb] | _ \<Rightarrow> [])"

lemma emulated_gained: "concat (map gained is) = emulated is"
  by (induction "is" rule: emulated.induct) (simp_all add: gained_def)

text \<open>The callbacks that ran, followed by those that wait, are those that were registered.\<close>

interpretation emulation: conserving_machine transition_step emulation_inv
  "\<lambda>el. callbacksRun el @ waiting_callbacks (endHandlers el)" gained
proof
  fix el inp assume "emulation_inv el"
  then show "emulation_inv (transition_step el inp)" by (rule emulation_step)
  show "callbacksRun (transition_step el inp) @ waiting_callbacks (endHandlers (transition_step el inp))
      = (callbacksRun el @ waiting_callbacks (endHandlers el)) @ gained inp"
    by (cases inp)
      (auto simp: gained_def emulateTransitionEnd_def transition_event_def timer_fires_def Let_def)
qed

lemma emulation_none: "emulation_inv el \<Longrightarrow> endTimers el = [] \<Longrightarrow> endHandlers el = []"
  by (auto simp: emulation_inv_def)

text \<open>
  C36: Whatever the browser reports and in whatever order the timers fire, once every timer of an
  element has fired, every callback that waited for the end of a transition has run exactly once,
  in the order of registration.
\<close>

theorem transition_callbacks_once:
  assumes "endTimers (foldl transition_step no_transitions is) = []"
  shows "callbacksRun (foldl transition_step no_transitions is) = emulated is"
proof -
  have "emulation_inv no_transitions" by (simp add: emulation_inv_def no_transitions_def)
  from emulation.run_total [OF this, of "is"] emulation_none [OF emulation.run_inv [OF this] assms]
  show ?thesis by (simp add: no_transitions_def emulated_gained)
qed

theorem transition_callbacks_once_witness:
  "callbacksRun (foldl transition_step no_transitions
     [Emulate 7, EndEvent False, Emulate 9, EndTimer 1, EndTimer 0, EndEvent True]) = [7, 9]"
  using transition_callbacks_once [of "[Emulate 7, EndEvent False, Emulate 9, EndTimer 1, EndTimer 0, EndEvent True]"]
  by (simp add: no_transitions_def emulateTransitionEnd_def transition_event_def timer_fires_def)

end
