(* ===== verification/Bs_Modal.thy ===== *)
theory Bs_Modal
  imports Bs_Util
begin

text \<open>
  The modal plugin of \<open>client/w3cDemo/js/bootstrap.js\<close>: one dialog with its backdrop, its event
  listeners, the transitions it waits for and the space it keeps for the scroll bar. What the
  browser answers at a call (measurements, computed styles) and whether a handler of the page
  prevents an event is the environment of the call.
\<close>

section \<open>State\<close>

record modal_config =
  cfgBackdrop :: jsval
  cfgEscape :: bool
  cfgFocus :: bool
  cfgShow :: bool

definition modal_default :: modal_config where
  "modal_default = \<lparr>cfgBackdrop = JBool True, cfgEscape = True, cfgFocus = True, cfgShow = True\<rparr>"

datatype modal_event = ShowEv | ShownEv | HideEv | HiddenEv

datatype modal_effect = Triggered modal_event | FocusElement | AppendToBody

text \<open>The event listeners, by the event and the target they are bound to.\<close>

datatype modal_listener =
    EscapeKey | Resize | DismissClick | BackdropClick | DialogMousedown | MouseupOnce | FocusIn

text \<open>The two functions that are passed to \<open>_showBackdrop\<close>.\<close>

datatype backdrop_callback = ShowElement | FinishHide

datatype modal_target = OnBackdrop nat | OnDialog | OnElement

datatype modal_end =
    RunCallback backdrop_callback
  | RemoveThenCallback backdrop_callback
  | ShownComplete
  | HideComplete

record modal =
  mConfig :: modal_config
  hasFade :: bool
  hasDialog :: bool
  inDocument :: bool
  supportsEnd :: bool
  isShown :: bool
  isTransitioning :: bool
  isBodyOverflowing :: bool
  ignoreBackdropClick :: bool
  scrollbarWidth :: real
  showClass :: bool
  display :: string
  ariaHidden :: bool
  paddingLeft :: string
  paddingRight :: string
  mBackdrop :: "nat option"
  backdrops :: "(nat \<times> string set) list"
  nextBackdrop :: nat
  bodyOpen :: bool
  listeners :: "modal_listener list"
  pending :: "(modal_target \<times> modal_end) list"
  styles :: "nat \<Rightarrow> string \<Rightarrow> string"
  savedStyles :: "nat \<Rightarrow> string \<Rightarrow> string option"
  effects :: "modal_effect list"

record modal_env =
  prevents :: "modal_event \<Rightarrow> bool"
  modalOverflowing :: bool
  rectLeft :: real
  rectRight :: real
  innerWidth :: real
  measuredWidth :: real
  measuredClientWidth :: real
  fixedContent :: "nat list"
  stickyContent :: "nat list"
  navbarTogglers :: "nat list"
  bodyElement :: nat
  computed :: "(nat \<Rightarrow> string \<Rightarrow> string) \<Rightarrow> nat \<Rightarrow> string \<Rightarrow> string"
  accepted :: "string \<Rightarrow> bool"
  showNumber :: "jsreal \<Rightarrow> string"

definition new_modal :: "modal_config \<Rightarrow> bool \<Rightarrow> bool \<Rightarrow> bool \<Rightarrow> bool \<Rightarrow> modal" where
  "new_modal cfg fade dialog indoc supports =
     \<lparr>mConfig = cfg, hasFade = fade, hasDialog = dialog, inDocument = indoc, supportsEnd = supports,
      isShown = False, isTransitioning = False, isBodyOverflowing = False, ignoreBackdropClick = False,
      scrollbarWidth = 0, showClass = False, display = [], ariaHidden = False, paddingLeft = [],
      paddingRight = [], mBackdrop = None, backdrops = [], nextBackdrop = 0, bodyOpen = False,
      listeners = [], pending = [], styles = (\<lambda>_ _. []), savedStyles = (\<lambda>_ _. None), effects = []\<rparr>"

definition trigger :: "modal_event \<Rightarrow> modal \<Rightarrow> modal" where
  "trigger ev m = m\<lparr>effects := effects m @ [Triggered ev]\<rparr>"

definition bind_listener :: "modal_listener \<Rightarrow> modal \<Rightarrow> modal" where
  "bind_listener l m = m\<lparr>listeners := listeners m @ [l]\<rparr>"

definition unbind_listener :: "modal_listener \<Rightarrow> modal \<Rightarrow> modal" where
  "unbind_listener l m = m\<lparr>listeners := filter (\<lambda>k. k \<noteq> l) (listeners m)\<rparr>"

definition animates :: "modal \<Rightarrow> bool" where
  "animates m = (supportsEnd m \<and> hasFade m)"

section \<open>The space of the scroll bar\<close>

definition getScrollbarWidth :: "modal_env \<Rightarrow> real" where
  "getScrollbarWidth env = measuredWidth env - measuredClientWidth env"

definition checkScrollbar :: "modal_env \<Rightarrow> modal \<Rightarrow> modal" where
  "checkScrollbar env m =
     m\<lparr>isBodyOverflowing := rectLeft env + rectRight env < innerWidth env,
       scrollbarWidth := getScrollbarWidth env\<rparr>"

definition set_css :: "modal_env \<Rightarrow> nat \<Rightarrow> string \<Rightarrow> string \<Rightarrow> modal \<Rightarrow> modal" where
  "set_css env e p v m =
     (if accepted env v then m\<lparr>styles := (styles m)(e := (styles m e)(p := v))\<rparr> else m)"

text \<open>One step of the loops: the actual style is saved and the computed one is moved by the width.\<close>

definition save_and_shift :: "modal_env \<Rightarrow> string \<Rightarrow> real \<Rightarrow> nat \<Rightarrow> modal \<Rightarrow> modal" where
  "save_and_shift env p width e m =
     (let actual = styles m e p; calculated = computed env (styles m) e p
      in set_css env e p (showNumber env (jr_add (js_parseFloat calculated) (Fin width)) @ ''px'')
           (m\<lparr>savedStyles := (savedStyles m)(e := (savedStyles m e)(p \<mapsto> actual))\<rparr>))"

definition setScrollbar :: "modal_env \<Rightarrow> modal \<Rightarrow> modal" where
  "setScrollbar env m =
     (if isBodyOverflowing m
      then (let w = scrollbarWidth m;
                m1 = fold (save_and_shift env ''padding-right'' w) (fixedContent env) m;
                m2 = fold (save_and_shift env ''margin-right'' (- w)) (stickyContent env) m1;
                m3 = fold (save_and_shift env ''margin-right'' w) (navbarTogglers env) m2
            in save_and_shift env ''padding-right'' w (bodyElement env) m3)
      else m)"

definition restore_style :: "modal_env \<Rightarrow> string \<Rightarrow> nat \<Rightarrow> modal \<Rightarrow> modal" where
  "restore_style env p e m =
     (case savedStyles m e p of
        None \<Rightarrow> m
      | Some v \<Rightarrow> (set_css env e p v m)\<lparr>savedStyles := (savedStyles m)(e := (savedStyles m e)(p := None))\<rparr>)"

definition resetScrollbar :: "modal_env \<Rightarrow> modal \<Rightarrow> modal" where
  "resetScrollbar env m =
     (let m1 = fold (restore_style env ''padding-right'') (fixedContent env) m;
          m2 = fold (restore_style env ''margin-right'') (stickyContent env @ navbarTogglers env) m1
      in restore_style env ''padding-right'' (bodyElement env) m2)"

definition adjustDialog :: "modal_env \<Rightarrow> modal \<Rightarrow> modal" where
  "adjustDialog env m =
     (let w = showNumber env (Fin (scrollbarWidth m)) @ ''px'';
          m1 = (if \<not> isBodyOverflowing m \<and> modalOverflowing env then m\<lparr>paddingLeft := w\<rparr> else m)
      in if isBodyOverflowing m1 \<and> \<not> modalOverflowing env then m1\<lparr>paddingRight := w\<rparr> else m1)"

definition resetAdjustments :: "modal \<Rightarrow> modal" where
  "resetAdjustments m = m\<lparr>paddingLeft := [], paddingRight := []\<rparr>"

section \<open>Listeners\<close>

definition enforceFocus :: "modal \<Rightarrow> modal" where
  "enforceFocus m = bind_listener FocusIn (unbind_listener FocusIn m)"

definition setEscapeEvent :: "modal \<Rightarrow> modal" where
  "setEscapeEvent m =
     (if isShown m \<and> cfgEscape (mConfig m) then bind_listener EscapeKey m
      else if \<not> isShown m then unbind_listener EscapeKey m
      else m)"

definition setResizeEvent :: "modal \<Rightarrow> modal" where
  "setResizeEvent m = (if isShown m then bind_listener Resize m else unbind_listener Resize m)"

section \<open>Showing and hiding\<close>

definition transitionComplete :: "modal \<Rightarrow> modal" where
  "transitionComplete m =
     (let m1 = (if cfgFocus (mConfig m) then m\<lparr>effects := effects m @ [FocusElement]\<rparr> else m)
      in trigger ShownEv (m1\<lparr>isTransitioning := False\<rparr>))"

definition showElement :: "modal \<Rightarrow> modal" where
  "showElement m =
     (let m1 = (if inDocument m then m
                else m\<lparr>inDocument := True, effects := effects m @ [AppendToBody]\<rparr>);
          m2 = m1\<lparr>display := ''block'', ariaHidden := False, showClass := True\<rparr>;
          m3 = (if cfgFocus (mConfig m2) then enforceFocus m2 else m2)
      in if animates m3
         then (if hasDialog m3 then m3\<lparr>pending := pending m3 @ [(OnDialog, ShownComplete)]\<rparr> else m3)
         else transitionComplete m3)"

definition finishHide :: "modal_env \<Rightarrow> modal \<Rightarrow> modal" where
  "finishHide env m = trigger HiddenEv (resetScrollbar env (resetAdjustments (m\<lparr>bodyOpen := False\<rparr>)))"

fun run_callback :: "modal_env \<Rightarrow> backdrop_callback \<Rightarrow> modal \<Rightarrow> modal" where
  "run_callback env ShowElement m = showElement m"
| "run_callback env FinishHide m = finishHide env m"

definition removeBackdrop :: "modal \<Rightarrow> modal" where
  "removeBackdrop m =
     (case mBackdrop m of
        None \<Rightarrow> m
      | Some b \<Rightarrow> m\<lparr>backdrops := filter (\<lambda>(k, _). k \<noteq> b) (backdrops m), mBackdrop := None\<rparr>)"

definition showBackdrop :: "modal_env \<Rightarrow> backdrop_callback \<Rightarrow> modal \<Rightarrow> modal" where
  "showBackdrop env cb m =
     (if isShown m \<and> truthy (cfgBackdrop (mConfig m))
      then (let b = nextBackdrop m;
                cls = {''modal-backdrop'', ''show''} \<union> (if hasFade m then {''fade''} else {});
                m1 = bind_listener BackdropClick
                       (m\<lparr>mBackdrop := Some b, nextBackdrop := b + 1, backdrops := backdrops m @ [(b, cls)]\<rparr>)
            in if animates m1 then m1\<lparr>pending := pending m1 @ [(OnBackdrop b, RunCallback cb)]\<rparr>
               else run_callback env cb m1)
      else
        (case mBackdrop m of
           Some b \<Rightarrow>
             if \<not> isShown m
             then (let m1 = m\<lparr>backdrops := map (\<lambda>(k, cls). (k, if k = b then cls - {''show''} else cls)) (backdrops m)\<rparr>
                   in if animates m1
                      then m1\<lparr>pending := pending m1 @ [(OnBackdrop b, RemoveThenCallback cb)]\<rparr>
                      else run_callback env cb (removeBackdrop m1))
             else run_callback env cb m
         | None \<Rightarrow> run_callback env cb m))"

definition hideModal :: "modal_env \<Rightarrow> modal \<Rightarrow> modal" where
  "hideModal env m =
     showBackdrop env FinishHide (m\<lparr>display := ''none'', ariaHidden := True, isTransitioning := False\<rparr>)"

definition show_modal :: "modal_env \<Rightarrow> modal \<Rightarrow> modal" where
  "show_modal env m =
     (if isTransitioning m \<or> isShown m then m
      else (let m1 = (if animates m then m\<lparr>isTransitioning := True\<rparr> else m);
                m2 = trigger ShowEv m1
            in if prevents env ShowEv then m2
               else (let m3 = m2\<lparr>isShown := True\<rparr>;
                         m4 = adjustDialog env (setScrollbar env (checkScrollbar env m3));
                         m5 = setResizeEvent (setEscapeEvent (m4\<lparr>bodyOpen := True\<rparr>));
                         m6 = bind_listener DismissClick m5;
                         m7 = (if hasDialog m6 then bind_listener DialogMousedown m6 else m6)
                     in showBackdrop env ShowElement m7)))"

definition hide_modal :: "modal_env \<Rightarrow> modal \<Rightarrow> modal" where
  "hide_modal env m =
     (if isTransitioning m \<or> \<not> isShown m then m
      else (let m1 = trigger HideEv m
            in if prevents env HideEv then m1
               else (let m2 = m1\<lparr>isShown := False\<rparr>;
                         m3 = (if animates m2 then m2\<lparr>isTransitioning := True\<rparr> else m2);
                         m4 = unbind_listener FocusIn (setResizeEvent (setEscapeEvent m3));
                         m5 = unbind_listener BackdropClick (unbind_listener DismissClick (m4\<lparr>showClass := False\<rparr>));
                         m6 = unbind_listener DialogMousedown m5
                     in if animates m6 then m6\<lparr>pending := pending m6 @ [(OnElement, HideComplete)]\<rparr>
                        else hideModal env m6)))"

definition toggle_modal :: "modal_env \<Rightarrow> modal \<Rightarrow> modal" where
  "toggle_modal env m = (if isShown m then hide_modal env m else show_modal env m)"

section \<open>Transitions and input\<close>

fun run_end :: "modal_env \<Rightarrow> modal_end \<Rightarrow> modal \<Rightarrow> modal" where
  "run_end env (RunCallback cb) m = run_callback env cb m"
| "run_end env (RemoveThenCallback cb) m = run_callback env cb (removeBackdrop m)"
| "run_end env ShownComplete m = transitionComplete m"
| "run_end env HideComplete m = hideModal env m"

text \<open>The end of the transition of an element, by the browser or its emulation, runs its handlers.\<close>

definition transition_ends :: "modal_env \<Rightarrow> modal_target \<Rightarrow> modal \<Rightarrow> modal" where
  "transition_ends env target m =
     fold (\<lambda>(_, e). run_end env e) (filter (\<lambda>(t, _). t = target) (pending m))
       (m\<lparr>pending := filter (\<lambda>(t, _). t \<noteq> target) (pending m)\<rparr>)"

definition has_listener :: "modal \<Rightarrow> modal_listener \<Rightarrow> bool" where
  "has_listener m l = (l \<in> set (listeners m))"

text \<open>A click in the dialog's element; \<open>onSelf\<close>: its target is the element itself.\<close>

definition click_backdrop :: "modal_env \<Rightarrow> bool \<Rightarrow> modal \<Rightarrow> modal" where
  "click_backdrop env onSelf m =
     (if \<not> has_listener m BackdropClick then m
      else if ignoreBackdropClick m then m\<lparr>ignoreBackdropClick := False\<rparr>
      else if \<not> onSelf then m
      else if cfgBackdrop (mConfig m) = JText ''static'' then m\<lparr>effects := effects m @ [FocusElement]\<rparr>
      else hide_modal env m)"

datatype modal_action =
    Show | Hide | Toggle | HandleUpdate
  | Escape nat
  | WindowResized
  | DismissClicked
  | ElementClicked bool
  | DialogPressed
  | MouseReleased bool
  | FocusMoved bool
  | TransitionEnd modal_target

definition modal_input :: "modal_env \<Rightarrow> modal_action \<Rightarrow> modal \<Rightarrow> modal" where
  "modal_input env inp m =
     (case inp of
        Show \<Rightarrow> show_modal env m
      | Hide \<Rightarrow> hide_modal env m
      | Toggle \<Rightarrow> toggle_modal env m
      | HandleUpdate \<Rightarrow> adjustDialog env m
      | Escape which \<Rightarrow> if has_listener m EscapeKey \<and> which = 27 then hide_modal env m else m
      | WindowResized \<Rightarrow> if has_listener m Resize then adjustDialog env m else m
      | DismissClicked \<Rightarrow>
          (let m1 = (if has_listener m DismissClick then hide_modal env m else m)
           in if has_listener m BackdropClick \<and> ignoreBackdropClick m then m1\<lparr>ignoreBackdropClick := False\<rparr> else m1)
      | ElementClicked onSelf \<Rightarrow> click_backdrop env onSelf m
      | DialogPressed \<Rightarrow> if has_listener m DialogMousedown then bind_listener MouseupOnce m else m
      | MouseReleased onSelf \<Rightarrow>
          if has_listener m MouseupOnce
          then (let m1 = unbind_listener MouseupOnce m
                in if onSelf then m1\<lparr>ignoreBackdropClick := True\<rparr> else m1)
          else m
      | FocusMoved outside \<Rightarrow>
          if has_listener m FocusIn \<and> outside then m\<lparr>effects := effects m @ [FocusElement]\<rparr> else m
      | TransitionEnd target \<Rightarrow> transition_ends env target m)"

section \<open>What each operation leaves alone\<close>

text \<open>The scroll bar's space is kept in styles that nothing else of the dialog depends on.\<close>

definition styles_only :: "modal \<Rightarrow> modal \<Rightarrow> bool" where
  "styles_only m m' \<longleftrightarrow> m' = m\<lparr>styles := styles m', savedStyles := savedStyles m'\<rparr>"

lemma styles_only_refl: "styles_only m m"
  by (simp add: styles_only_def)

lemma styles_only_trans:
  assumes "styles_only m m'" and "styles_only m' m''"
  shows "styles_only m m''"
proof -
  from assms(2) have "m'' = m'\<lparr>styles := styles m'', savedStyles := savedStyles m''\<rparr>"
    unfolding styles_only_def .
  also have "\<dots> = m\<lparr>styles := styles m'', savedStyles := savedStyles m''\<rparr>"
    by (subst assms(1) [unfolded styles_only_def]) simp
  finally show ?thesis unfolding styles_only_def .
qed

lemma styles_only_css: "styles_only m m' \<Longrightarrow> styles_only m (set_css env e p v m')"
  by (erule styles_only_trans) (simp add: set_css_def styles_only_def)

lemma styles_only_saved: "styles_only m m' \<Longrightarrow> styles_only m (m'\<lparr>savedStyles := d\<rparr>)"
  by (erule styles_only_trans) (simp add: styles_only_def)

lemma styles_only_save: "styles_only m m' \<Longrightarrow> styles_only m (save_and_shift env p w e m')"
  unfolding save_and_shift_def Let_def by (intro styles_only_css styles_only_saved)

lemma styles_only_restore: "styles_only m m' \<Longrightarrow> styles_only m (restore_style env p e m')"
  unfolding restore_style_def by (cases "savedStyles m' e p") (simp_all add: styles_only_css styles_only_saved)

lemma styles_only_fold:
  "(\<And>e m'. styles_only m m' \<Longrightarrow> styles_only m (f e m')) \<Longrightarrow> styles_only m m' \<Longrightarrow> styles_only m (fold f es m')"
  by (induction es arbitrary: m') auto

lemma styles_only_set: "styles_only m (setScrollbar env m)"
  unfolding setScrollbar_def Let_def
  by (simp add: styles_only_refl styles_only_fold styles_only_save)

lemma styles_only_reset: "styles_only m (resetScrollbar env m)"
  unfolding resetScrollbar_def Let_def
  by (simp add: styles_only_refl styles_only_fold styles_only_restore del: fold_append)

lemma setScrollbar_same [simp]:
  "mConfig (setScrollbar env m) = mConfig m" "hasFade (setScrollbar env m) = hasFade m"
  "hasDialog (setScrollbar env m) = hasDialog m" "supportsEnd (setScrollbar env m) = supportsEnd m"
  "isShown (setScrollbar env m) = isShown m"
  "isTransitioning (setScrollbar env m) = isTransitioning m"
  "mBackdrop (setScrollbar env m) = mBackdrop m" "backdrops (setScrollbar env m) = backdrops m"
  "nextBackdrop (setScrollbar env m) = nextBackdrop m" "bodyOpen (setScrollbar env m) = bodyOpen m"
  "listeners (setScrollbar env m) = listeners m" "pending (setScrollbar env m) = pending m"
  by (subst styles_only_set [of m env, unfolded styles_only_def], simp)+

lemma resetScrollbar_same [simp]:
  "mConfig (resetScrollbar env m) = mConfig m" "hasFade (resetScrollbar env m) = hasFade m"
  "hasDialog (resetScrollbar env m) = hasDialog m"
  "supportsEnd (resetScrollbar env m) = supportsEnd m" "isShown (resetScrollbar env m) = isShown m"
  "isTransitioning (resetScrollbar env m) = isTransitioning m"
  "mBackdrop (resetScrollbar env m) = mBackdrop m" "backdrops (resetScrollbar env m) = backdrops m"
  "nextBackdrop (resetScrollbar env m) = nextBackdrop m"
  "bodyOpen (resetScrollbar env m) = bodyOpen m" "listeners (resetScrollbar env m) = listeners m"
  "pending (resetScrollbar env m) = pending m"
  by (subst styles_only_reset [of m env, unfolded styles_only_def], simp)+

lemma adjust_same [simp]:
  "mConfig (adjustDialog env m) = mConfig m" "hasFade (adjustDialog env m) = hasFade m"
  "hasDialog (adjustDialog env m) = hasDialog m" "supportsEnd (adjustDialog env m) = supportsEnd m"
  "isShown (adjustDialog env m) = isShown m"
  "isTransitioning (adjustDialog env m) = isTransitioning m"
  "mBackdrop (adjustDialog env m) = mBackdrop m" "backdrops (adjustDialog env m) = backdrops m"
  "nextBackdrop (adjustDialog env m) = nextBackdrop m" "bodyOpen (adjustDialog env m) = bodyOpen m"
  "listeners (adjustDialog env m) = listeners m" "pending (adjustDialog env m) = pending m"
  "mConfig (checkScrollbar env m) = mConfig m" "hasFade (checkScrollbar env m) = hasFade m"
  "hasDialog (checkScrollbar env m) = hasDialog m"
  "supportsEnd (checkScrollbar env m) = supportsEnd m" "isShown (checkScrollbar env m) = isShown m"
  "isTransitioning (checkScrollbar env m) = isTransitioning m"
  "mBackdrop (checkScrollbar env m) = mBackdrop m" "backdrops (checkScrollbar env m) = backdrops m"
  "nextBackdrop (checkScrollbar env m) = nextBackdrop m"
  "bodyOpen (checkScrollbar env m) = bodyOpen m" "listeners (checkScrollbar env m) = listeners m"
  "pending (checkScrollbar env m) = pending m"
  "mConfig (resetAdjustments m) = mConfig m" "hasFade (resetAdjustments m) = hasFade m"
  "hasDialog (resetAdjustments m) = hasDialog m" "supportsEnd (resetAdjustments m) = supportsEnd m"
  "isShown (resetAdjustments m) = isShown m"
  "isTransitioning (resetAdjustments m) = isTransitioning m"
  "mBackdrop (resetAdjustments m) = mBackdrop m" "backdrops (resetAdjustments m) = backdrops m"
  "nextBackdrop (resetAdjustments m) = nextBackdrop m" "bodyOpen (resetAdjustments m) = bodyOpen m"
  "listeners (resetAdjustments m) = listeners m" "pending (resetAdjustments m) = pending m"
  "mConfig (trigger ev m) = mConfig m" "hasFade (trigger ev m) = hasFade m"
  "hasDialog (trigger ev m) = hasDialog m" "supportsEnd (trigger ev m) = supportsEnd m"
  "isShown (trigger ev m) = isShown m" "isTransitioning (trigger ev m) = isTransitioning m"
  "mBackdrop (trigger ev m) = mBackdrop m" "backdrops (trigger ev m) = backdrops m"
  "nextBackdrop (trigger ev m) = nextBackdrop m" "bodyOpen (trigger ev m) = bodyOpen m"
  "listeners (trigger ev m) = listeners m" "pending (trigger ev m) = pending m"
  by (simp_all add: adjustDialog_def checkScrollbar_def resetAdjustments_def trigger_def Let_def)

section \<open>The space of the scroll bar is given back\<close>

text \<open>The style an element has apart from the adjustments: the saved one where one is saved.\<close>

definition original :: "modal \<Rightarrow> nat \<Rightarrow> string \<Rightarrow> string" where
  "original m e p = (case savedStyles m e p of Some v \<Rightarrow> v | None \<Rightarrow> styles m e p)"

lemma saved_css [simp]: "savedStyles (set_css env e p v m) = savedStyles m"
  by (simp add: set_css_def)

lemma saved_save:
  "savedStyles (save_and_shift env p w e m) e' p' =
     (if e' = e \<and> p' = p then Some (styles m e p) else savedStyles m e' p')"
  by (simp add: save_and_shift_def Let_def)

lemma original_save:
  assumes "savedStyles m e p = None"
  shows "original (save_and_shift env p w e m) = original m"
proof (intro ext)
  fix e' p'
  show "original (save_and_shift env p w e m) e' p' = original m e' p'"
    using assms by (auto simp: original_def save_and_shift_def set_css_def Let_def split: option.splits)
qed

lemma original_fold_save:
  assumes "distinct es" and "\<forall>e \<in> set es. savedStyles m e p = None"
  shows "original (fold (save_and_shift env p w) es m) = original m"
  using assms
proof (induction es arbitrary: m)
  case (Cons e es)
  have "\<forall>e' \<in> set es. savedStyles (save_and_shift env p w e m) e' p = None"
    using Cons.prems by (auto simp: saved_save)
  then show ?case using Cons by (simp add: original_save)
qed simp

lemma saved_fold_save:
  "savedStyles (fold (save_and_shift env p w) es m) e' p' = None \<longleftrightarrow>
     savedStyles m e' p' = None \<and> \<not> (p' = p \<and> e' \<in> set es)"
  by (induction es arbitrary: m) (auto simp: saved_save)

lemma saved_restore:
  "savedStyles (restore_style env p e m) e' p' = (if e' = e \<and> p' = p then None else savedStyles m e' p')"
  by (auto simp: restore_style_def split: option.splits)

lemma original_restore:
  assumes "\<forall>e p. accepted env (original m e p)"
  shows "original (restore_style env p e m) = original m"
proof (intro ext)
  fix e' p'
  have "accepted env v" if "savedStyles m e p = Some v" for v
    using that assms by (metis option.simps(5) original_def)
  then show "original (restore_style env p e m) e' p' = original m e' p'"
    by (auto simp: original_def restore_style_def set_css_def split: option.splits)
qed

lemma original_fold_restore:
  "\<forall>e p. accepted env (original m e p) \<Longrightarrow> original (fold (restore_style env p) es m) = original m"
  by (induction es arbitrary: m) (simp_all add: original_restore)

lemma saved_fold_restore:
  "savedStyles (fold (restore_style env p) es m) e' p' = None \<longleftrightarrow>
     savedStyles m e' p' = None \<or> (p' = p \<and> e' \<in> set es)"
  by (induction es arbitrary: m) (auto simp: saved_restore)

lemma original_setScrollbar:
  assumes "\<forall>e p. savedStyles m e p = None"
    and "distinct (bodyElement env # fixedContent env)" "distinct (stickyContent env @ navbarTogglers env)"
  shows "original (setScrollbar env m) = styles m"
proof -
  have "original m = styles m" using assms(1) by (auto simp: original_def intro!: ext)
  moreover have "original (setScrollbar env m) = original m"
  proof (cases "isBodyOverflowing m")
    case True
    have fold: "original (fold (save_and_shift env q w) es m') = original m'"
      if "distinct es" "\<forall>e \<in> set es. savedStyles m' e q = None" for q w es m'
      using that by (rule original_fold_save)
    have d: "distinct (fixedContent env)" "bodyElement env \<notin> set (fixedContent env)"
      "distinct (stickyContent env)" "distinct (navbarTogglers env)"
      "\<forall>e \<in> set (navbarTogglers env). e \<notin> set (stickyContent env)"
      using assms(2,3) by auto
    show ?thesis
      using True d assms(1) by (simp add: setScrollbar_def Let_def original_save fold saved_fold_save)
  qed (simp add: setScrollbar_def)
  ultimately show ?thesis by simp
qed

lemma saved_setScrollbar:
  assumes "\<forall>e p. savedStyles m e p = None"
    and "\<not> (p = ''padding-right'' \<and> (e = bodyElement env \<or> e \<in> set (fixedContent env)))"
    and "\<not> (p = ''margin-right'' \<and> e \<in> set (stickyContent env @ navbarTogglers env))"
  shows "savedStyles (setScrollbar env m) e p = None"
proof (cases "isBodyOverflowing m")
  case True
  have "\<not> (e = bodyElement env \<and> p = ''padding-right'')" using assms(2) by blast
  then show ?thesis
    using True assms by (simp add: setScrollbar_def Let_def saved_save saved_fold_save)
qed (simp add: setScrollbar_def assms(1))

text \<open>
  What a dialog adds to the paddings and margins of the page for the scroll bar is given back
  when it is hidden: every style is as it was and nothing is left saved, provided that no element
  is both a sticky element and a navigation toggle.
\<close>

theorem modal_styles_restored:
  assumes "\<forall>e p. savedStyles m e p = None" and "\<forall>e p. accepted env (styles m e p)"
    and "distinct (bodyElement env # fixedContent env)" "distinct (stickyContent env @ navbarTogglers env)"
  shows "styles (resetScrollbar env (setScrollbar env m)) = styles m \<and>
    (\<forall>e p. savedStyles (resetScrollbar env (setScrollbar env m)) e p = None)"
proof -
  let ?s = "setScrollbar env m" and ?r = "resetScrollbar env (setScrollbar env m)"
  have orig: "original ?s = styles m" using assms by (intro original_setScrollbar)
  then have acc: "\<forall>e p. accepted env (original ?s e p)" using assms(2) by simp
  then have "original ?r = styles m"
    by (simp add: resetScrollbar_def Let_def original_restore original_fold_restore orig del: fold_append)
  moreover have none: "savedStyles ?r e p = None" for e p
  proof (cases "savedStyles ?s e p")
    case None
    then show ?thesis
      by (simp add: resetScrollbar_def Let_def saved_restore saved_fold_restore del: fold_append)
  next
    case (Some v)
    then show ?thesis
      using saved_setScrollbar [OF assms(1), of p e env]
      by (auto simp: resetScrollbar_def Let_def saved_restore saved_fold_restore simp del: fold_append)
  qed
  moreover from none have "original ?r = styles ?r" by (intro ext) (simp add: original_def)
  ultimately show ?thesis by simp
qed

text \<open>A page with a fixed element, a sticky one and a toggle, whose scroll bar is 15 wide.\<close>

definition demo_env :: modal_env where
  "demo_env =
     \<lparr>prevents = (\<lambda>_. False), modalOverflowing = False, rectLeft = 0, rectRight = 985, innerWidth = 1000,
      measuredWidth = 100, measuredClientWidth = 85, fixedContent = [5], stickyContent = [6],
      navbarTogglers = [7], bodyElement = 1, computed = (\<lambda>_ _ _. ''0px''), accepted = (\<lambda>_. True),
      showNumber = (\<lambda>_. ''15'')\<rparr>"

definition demo_modal :: modal where
  "demo_modal = new_modal modal_default True True True True"

theorem modal_styles_restored_witness:
  "styles (setScrollbar demo_env (demo_modal\<lparr>isBodyOverflowing := True\<rparr>)) 5 ''padding-right'' = ''15px'' \<and>
   styles (resetScrollbar demo_env (setScrollbar demo_env (demo_modal\<lparr>isBodyOverflowing := True\<rparr>))) 5 ''padding-right'' = []"
proof
  show "styles (setScrollbar demo_env (demo_modal\<lparr>isBodyOverflowing := True\<rparr>)) 5 ''padding-right'' = ''15px''"
    by (simp add: setScrollbar_def Let_def save_and_shift_def set_css_def demo_env_def demo_modal_def new_modal_def)
  have "styles (resetScrollbar demo_env (setScrollbar demo_env (demo_modal\<lparr>isBodyOverflowing := True\<rparr>)))
      = styles (demo_modal\<lparr>isBodyOverflowing := True\<rparr>)"
    using modal_styles_restored [of "demo_modal\<lparr>isBodyOverflowing := True\<rparr>" demo_env]
    by (simp add: demo_env_def demo_modal_def new_modal_def)
  then show "styles (resetScrollbar demo_env (setScrollbar demo_env (demo_modal\<lparr>isBodyOverflowing := True\<rparr>)))
      5 ''padding-right'' = []"
    by (simp add: demo_modal_def new_modal_def)
qed

section \<open>Reachable states\<close>

text \<open>The dialog is hidden and its backdrop still fades out.\<close>

definition fading_out :: "modal \<Rightarrow> bool" where
  "fading_out m =
     (\<not> isShown m \<and> list_ex (\<lambda>(_, e). e = RemoveThenCallback FinishHide) (pending m))"

text \<open>
  The states of a dialog that is not asked to show while its backdrop fades out; what happens
  otherwise is the subject of a theorem of its own.
\<close>

inductive modal_reach :: "modal \<Rightarrow> bool" where
  start: "modal_reach (new_modal cfg fade dialog indoc supports)"
| step: "modal_reach m \<Longrightarrow> \<not> (fading_out m \<and> (inp = Show \<or> inp = Toggle)) \<Longrightarrow>
     modal_reach (modal_input env inp m)"

definition back_of :: "modal \<Rightarrow> nat list" where
  "back_of m = (case mBackdrop m of None \<Rightarrow> [] | Some b \<Rightarrow> [b])"

definition bound_once :: "modal \<Rightarrow> modal_listener \<Rightarrow> bool \<Rightarrow> bool" where
  "bound_once m l wanted \<longleftrightarrow> count_list (listeners m) l = (if wanted then 1 else 0)"

definition shown_wf :: "modal \<Rightarrow> bool" where
  "shown_wf m \<longleftrightarrow>
     bodyOpen m \<and> bound_once m Resize True \<and> bound_once m DismissClick True \<and>
     bound_once m EscapeKey (cfgEscape (mConfig m)) \<and>
     (pending m = [] \<and> (mBackdrop m \<noteq> None) = truthy (cfgBackdrop (mConfig m)) \<or>
      isTransitioning m \<and> pending m = [(OnDialog, ShownComplete)] \<and>
        (mBackdrop m \<noteq> None) = truthy (cfgBackdrop (mConfig m)) \<or>
      isTransitioning m \<and> truthy (cfgBackdrop (mConfig m)) \<and>
        (\<exists>b. mBackdrop m = Some b \<and> pending m = [(OnBackdrop b, RunCallback ShowElement)]))"

definition hidden_wf :: "modal \<Rightarrow> bool" where
  "hidden_wf m \<longleftrightarrow>
     set (listeners m) \<subseteq> {MouseupOnce} \<and>
     (pending m = [] \<and> \<not> bodyOpen m \<and> mBackdrop m = None \<or>
      pending m = [(OnElement, HideComplete)] \<and> isTransitioning m \<or>
      (\<exists>b. mBackdrop m = Some b \<and> pending m = [(OnBackdrop b, RemoveThenCallback FinishHide)]))"

definition modal_wf :: "modal \<Rightarrow> bool" where
  "modal_wf m \<longleftrightarrow>
     map fst (backdrops m) = back_of m \<and> (pending m \<noteq> [] \<longrightarrow> animates m) \<and>
     (if isShown m then shown_wf m else hidden_wf m)"

lemmas modal_wf_defs = modal_wf_def shown_wf_def hidden_wf_def back_of_def bound_once_def

lemma count_list_filter [simp]:
  "count_list (filter (\<lambda>k. k \<noteq> l) ks) x = (if x = l then 0 else count_list ks x)"
  by (induction ks) auto

lemma listener_simps [simp]:
  "listeners (bind_listener l m) = listeners m @ [l]"
  "listeners (unbind_listener l m) = filter (\<lambda>k. k \<noteq> l) (listeners m)"
  by (simp_all add: bind_listener_def unbind_listener_def)

lemma bind_same [simp]:
  "mConfig (bind_listener l m) = mConfig m" "hasFade (bind_listener l m) = hasFade m"
  "hasDialog (bind_listener l m) = hasDialog m" "supportsEnd (bind_listener l m) = supportsEnd m"
  "isShown (bind_listener l m) = isShown m"
  "isTransitioning (bind_listener l m) = isTransitioning m"
  "mBackdrop (bind_listener l m) = mBackdrop m" "backdrops (bind_listener l m) = backdrops m"
  "nextBackdrop (bind_listener l m) = nextBackdrop m" "bodyOpen (bind_listener l m) = bodyOpen m"
  "pending (bind_listener l m) = pending m"
  "mConfig (unbind_listener l m) = mConfig m" "hasFade (unbind_listener l m) = hasFade m"
  "hasDialog (unbind_listener l m) = hasDialog m"
  "supportsEnd (unbind_listener l m) = supportsEnd m" "isShown (unbind_listener l m) = isShown m"
  "isTransitioning (unbind_listener l m) = isTransitioning m"
  "mBackdrop (unbind_listener l m) = mBackdrop m" "backdrops (unbind_listener l m) = backdrops m"
  "nextBackdrop (unbind_listener l m) = nextBackdrop m"
  "bodyOpen (unbind_listener l m) = bodyOpen m" "pending (unbind_listener l m) = pending m"
  "mConfig (setEscapeEvent m) = mConfig m" "hasFade (setEscapeEvent m) = hasFade m"
  "hasDialog (setEscapeEvent m) = hasDialog m" "supportsEnd (setEscapeEvent m) = supportsEnd m"
  "isShown (setEscapeEvent m) = isShown m" "isTransitioning (setEscapeEvent m) = isTransitioning m"
  "mBackdrop (setEscapeEvent m) = mBackdrop m" "backdrops (setEscapeEvent m) = backdrops m"
  "nextBackdrop (setEscapeEvent m) = nextBackdrop m" "bodyOpen (setEscapeEvent m) = bodyOpen m"
  "pending (setEscapeEvent m) = pending m"
  "mConfig (setResizeEvent m) = mConfig m" "hasFade (setResizeEvent m) = hasFade m"
  "hasDialog (setResizeEvent m) = hasDialog m" "supportsEnd (setResizeEvent m) = supportsEnd m"
  "isShown (setResizeEvent m) = isShown m" "isTransitioning (setResizeEvent m) = isTransitioning m"
  "mBackdrop (setResizeEvent m) = mBackdrop m" "backdrops (setResizeEvent m) = backdrops m"
  "nextBackdrop (setResizeEvent m) = nextBackdrop m" "bodyOpen (setResizeEvent m) = bodyOpen m"
  "pending (setResizeEvent m) = pending m"
  "mConfig (enforceFocus m) = mConfig m" "hasFade (enforceFocus m) = hasFade m"
  "hasDialog (enforceFocus m) = hasDialog m" "supportsEnd (enforceFocus m) = supportsEnd m"
  "isShown (enforceFocus m) = isShown m" "isTransitioning (enforceFocus m) = isTransitioning m"
  "mBackdrop (enforceFocus m) = mBackdrop m" "backdrops (enforceFocus m) = backdrops m"
  "nextBackdrop (enforceFocus m) = nextBackdrop m" "bodyOpen (enforceFocus m) = bodyOpen m"
  "pending (enforceFocus m) = pending m"
  by (simp_all add: bind_listener_def unbind_listener_def setEscapeEvent_def setResizeEvent_def enforceFocus_def)

lemma animates_same [simp]:
  "animates (bind_listener l m) = animates m" "animates (setScrollbar env m) = animates m"
  "animates (adjustDialog env m) = animates m" "animates (trigger ev m) = animates m"
  by (simp_all add: animates_def)

lemma modal_wf_same [simp]:
  "modal_wf (trigger ev m) = modal_wf m" "modal_wf (adjustDialog env m) = modal_wf m"
  by (simp_all add: modal_wf_defs)

lemma modal_wf_update [simp]:
  "modal_wf (m\<lparr>effects := es\<rparr>) = modal_wf m" "modal_wf (m\<lparr>ignoreBackdropClick := i\<rparr>) = modal_wf m"
  by (simp_all add: modal_wf_defs animates_def)

lemma map_fst_relabel [simp]: "map (fst \<circ> (\<lambda>(k, cls). (k, f k cls))) bs = map fst bs"
  by (simp add: comp_def case_prod_unfold)

lemma finishHide_wf:
  assumes "\<not> isShown m" "set (listeners m) \<subseteq> {MouseupOnce}" "pending m = []" "mBackdrop m = None"
    "backdrops m = []"
  shows "modal_wf (finishHide env m)"
  using assms by (simp add: finishHide_def modal_wf_defs)

lemma removeBackdrop_some:
  assumes "mBackdrop m = Some b" "map fst (backdrops m) = [b]"
  shows "removeBackdrop m = m\<lparr>backdrops := [], mBackdrop := None\<rparr>"
  using assms by (auto simp: removeBackdrop_def)

lemma hideModal_wf:
  assumes "\<not> isShown m" "set (listeners m) \<subseteq> {MouseupOnce}" "pending m = []"
    "map fst (backdrops m) = back_of m"
  shows "modal_wf (hideModal env m)"
proof (cases "mBackdrop m")
  case None
  then have "backdrops m = []" using assms(4) by (simp add: back_of_def)
  then show ?thesis
    using None assms by (simp add: hideModal_def showBackdrop_def finishHide_wf)
next
  case (Some b)
  let ?m = "m\<lparr>display := ''none'', ariaHidden := True, isTransitioning := False,
    backdrops := map (\<lambda>(k, cls). (k, if k = b then cls - {''show''} else cls)) (backdrops m)\<rparr>"
  have fsts: "map fst (backdrops ?m) = [b]" using Some assms(4) by (simp add: back_of_def)
  show ?thesis
  proof (cases "animates m")
    case True
    then show ?thesis
      using Some assms fsts
      by (simp add: hideModal_def showBackdrop_def Let_def animates_def modal_wf_defs)
  next
    case False
    have "removeBackdrop ?m = ?m\<lparr>backdrops := [], mBackdrop := None\<rparr>"
      using Some fsts by (intro removeBackdrop_some) simp_all
    then show ?thesis
      using Some False assms
      by (auto simp: hideModal_def showBackdrop_def Let_def animates_def finishHide_wf)
  qed
qed

lemma hide_wf:
  assumes "modal_wf m" shows "modal_wf (hide_modal env m)"
proof (cases "isTransitioning m \<or> \<not> isShown m \<or> prevents env HideEv")
  case True
  then show ?thesis using assms by (auto simp: hide_modal_def Let_def)
next
  case False
  then have p: "pending m = []" using assms by (auto simp: modal_wf_defs)
  define m6 where "m6 = unbind_listener DialogMousedown (unbind_listener BackdropClick (unbind_listener DismissClick
    ((unbind_listener FocusIn (setResizeEvent (setEscapeEvent
       (let m2 = (trigger HideEv m)\<lparr>isShown := False\<rparr> in if animates m2 then m2\<lparr>isTransitioning := True\<rparr> else m2))))
       \<lparr>showClass := False\<rparr>)))"
  have h: "hide_modal env m =
      (if animates m6 then m6\<lparr>pending := pending m6 @ [(OnElement, HideComplete)]\<rparr> else hideModal env m6)"
    using False by (simp add: hide_modal_def Let_def m6_def)
  have off: "EscapeKey \<notin> set (listeners m6)" "Resize \<notin> set (listeners m6)" "DismissClick \<notin> set (listeners m6)"
    "BackdropClick \<notin> set (listeners m6)" "DialogMousedown \<notin> set (listeners m6)" "FocusIn \<notin> set (listeners m6)"
    by (simp_all add: m6_def Let_def setEscapeEvent_def setResizeEvent_def)
  have ls: "set (listeners m6) \<subseteq> {MouseupOnce}"
  proof
    fix l assume "l \<in> set (listeners m6)"
    then show "l \<in> {MouseupOnce}" using off by - (cases l, simp_all)
  qed
  have same: "\<not> isShown m6" "pending m6 = []" "backdrops m6 = backdrops m" "mBackdrop m6 = mBackdrop m"
    "animates m6 = animates m" "animates m6 \<Longrightarrow> isTransitioning m6"
    using p by (auto simp: m6_def Let_def animates_def)
  show ?thesis
  proof (cases "animates m6")
    case True
    then show ?thesis using h ls same assms by (simp add: modal_wf_defs animates_def)
  next
    case False
    have "map fst (backdrops m6) = back_of m6" using same assms by (simp add: modal_wf_def back_of_def)
    with False show ?thesis using h ls same by (simp add: hideModal_wf)
  qed
qed

lemma showElement_same [simp]:
  "mConfig (showElement m) = mConfig m" "hasFade (showElement m) = hasFade m" "hasDialog (showElement m) = hasDialog m" "supportsEnd (showElement m) = supportsEnd m"
  "isShown (showElement m) = isShown m" "mBackdrop (showElement m) = mBackdrop m" "backdrops (showElement m) = backdrops m" "bodyOpen (showElement m) = bodyOpen m" "nextBackdrop (showElement m) = nextBackdrop m"
  by (simp_all add: showElement_def transitionComplete_def Let_def)

lemma showElement_listeners:
  "l \<noteq> FocusIn \<Longrightarrow> count_list (listeners (showElement m)) l = count_list (listeners m) l"
  by (simp add: showElement_def transitionComplete_def Let_def enforceFocus_def)

lemma showElement_pending:
  "pending (showElement m) =
     pending m @ (if animates m \<and> hasDialog m then [(OnDialog, ShownComplete)] else [])"
  by (auto simp: showElement_def transitionComplete_def Let_def animates_def)

lemma showElement_transitioning:
  "animates m \<Longrightarrow> isTransitioning (showElement m) = isTransitioning m"
  by (simp add: showElement_def Let_def animates_def)

lemma showElement_wf:
  assumes "isShown m" "bodyOpen m" "pending m = []" "map fst (backdrops m) = back_of m"
    "(mBackdrop m \<noteq> None) = truthy (cfgBackdrop (mConfig m))" "animates m \<Longrightarrow> isTransitioning m"
    "bound_once m Resize True" "bound_once m DismissClick True" "bound_once m EscapeKey (cfgEscape (mConfig m))"
  shows "modal_wf (showElement m)"
proof -
  have "animates (showElement m) = animates m" by (simp add: animates_def)
  then show ?thesis
    using assms
    by (cases "animates m")
      (simp_all add: modal_wf_def shown_wf_def back_of_def bound_once_def showElement_listeners
        showElement_pending showElement_transitioning)
qed

lemma show_wf:
  assumes "modal_wf m" "\<not> fading_out m" shows "modal_wf (show_modal env m)"
proof (cases "isTransitioning m \<or> isShown m")
  case True
  then show ?thesis using assms by (simp add: show_modal_def)
next
  case False
  then have closed: "pending m = []" "\<not> bodyOpen m" "mBackdrop m = None" "backdrops m = []"
    "set (listeners m) \<subseteq> {MouseupOnce}" "\<not> isShown m"
    using assms by (auto simp: modal_wf_defs fading_out_def)
  define m1 where "m1 = (if animates m then m\<lparr>isTransitioning := True\<rparr> else m)"
  have m1: "pending m1 = []" "mBackdrop m1 = None" "backdrops m1 = []" "listeners m1 = listeners m"
    "animates m1 = animates m" "animates m \<Longrightarrow> isTransitioning m1"
    using closed by (simp_all add: m1_def animates_def)
  show ?thesis
  proof (cases "prevents env ShowEv")
    case True
    have "modal_wf m1" using closed by (simp add: m1_def modal_wf_defs animates_def)
    then show ?thesis using False True by (simp add: show_modal_def Let_def m1_def)
  next
    case ok: False
    define m6 where "m6 = bind_listener DismissClick (setResizeEvent (setEscapeEvent
      ((adjustDialog env (setScrollbar env (checkScrollbar env ((trigger ShowEv m1)\<lparr>isShown := True\<rparr>))))
        \<lparr>bodyOpen := True\<rparr>)))"
    define m7 where "m7 = (if hasDialog m6 then bind_listener DialogMousedown m6 else m6)"
    have m7: "show_modal env m = showBackdrop env ShowElement m7"
      using False ok by (simp add: show_modal_def Let_def m7_def m6_def m1_def)
    have same: "isShown m7" "bodyOpen m7" "pending m7 = []" "mBackdrop m7 = None" "backdrops m7 = []"
      "animates m7 = animates m" "animates m7 \<Longrightarrow> isTransitioning m7"
      using m1 by (cases "hasDialog m1"; simp add: m7_def m6_def animates_def)+
    have zero: "count_list (listeners m1) l = 0" if "l \<noteq> MouseupOnce" for l
      using closed(5) m1 that by (auto simp: count_list_0_iff)
    have once: "bound_once m7 Resize True" "bound_once m7 DismissClick True"
      "bound_once m7 EscapeKey (cfgEscape (mConfig m7))"
      by (simp_all add: bound_once_def m7_def m6_def setResizeEvent_def setEscapeEvent_def zero)
    show ?thesis
    proof (cases "truthy (cfgBackdrop (mConfig m7))")
      case bd: True
      define m8 where "m8 = bind_listener BackdropClick
        (m7\<lparr>mBackdrop := Some (nextBackdrop m7), nextBackdrop := nextBackdrop m7 + 1,
          backdrops := backdrops m7 @ [(nextBackdrop m7,
            {''modal-backdrop'', ''show''} \<union> (if hasFade m7 then {''fade''} else {}))]\<rparr>)"
      have sb: "showBackdrop env ShowElement m7 =
        (if animates m8 then m8\<lparr>pending := pending m8 @ [(OnBackdrop (nextBackdrop m7), RunCallback ShowElement)]\<rparr>
         else showElement m8)"
        using same(1) bd by (simp add: showBackdrop_def Let_def m8_def)
      have m8: "isShown m8" "bodyOpen m8" "pending m8 = []" "map fst (backdrops m8) = back_of m8"
        "mBackdrop m8 = Some (nextBackdrop m7)" "mConfig m8 = mConfig m7" "animates m8 = animates m7"
        "isTransitioning m8 = isTransitioning m7"
        "bound_once m8 Resize True" "bound_once m8 DismissClick True" "bound_once m8 EscapeKey (cfgEscape (mConfig m7))"
        using same once by (simp_all add: m8_def back_of_def animates_def bound_once_def)
      show ?thesis
      proof (cases "animates m8")
        case True
        then show ?thesis
          using m7 sb m8 same(7) bd by (simp add: modal_wf_defs animates_def)
      next
        case False
        then show ?thesis unfolding m7 sb using m8 bd by (simp, intro showElement_wf) simp_all
      qed
    next
      case nb: False
      then have "show_modal env m = showElement m7" using m7 same by (simp add: showBackdrop_def)
      then show ?thesis using same once nb by (simp, intro showElement_wf) (simp_all add: back_of_def)
    qed
  qed
qed

lemma pending_update: "pending m = p \<Longrightarrow> m\<lparr>pending := p\<rparr> = m"
  by (cases m) simp

lemma transition_wf:
  assumes "modal_wf m" shows "modal_wf (transition_ends env target m)"
proof -
  consider (none) "pending m = []" | (one) t e where "pending m = [(t, e)]"
    using assms by (auto simp: modal_wf_defs split: if_splits)
  then show ?thesis
  proof cases
    case none
    then show ?thesis using assms by (simp add: transition_ends_def pending_update)
  next
    case (one t e)
    show ?thesis
    proof (cases "t = target")
      case False
      then show ?thesis using assms one by (simp add: transition_ends_def pending_update)
    next
      case True
      let ?m = "m\<lparr>pending := []\<rparr>"
      have run: "transition_ends env target m = run_end env e ?m"
        using one True by (simp add: transition_ends_def)
      show ?thesis
      proof (cases "isShown m")
        case s: True
        then have sw: "shown_wf m" "map fst (backdrops m) = back_of m" "animates m"
          using assms one by (simp_all add: modal_wf_def)
        from sw(1) one consider "e = ShownComplete" "(mBackdrop m \<noteq> None) = truthy (cfgBackdrop (mConfig m))"
          | b where "e = RunCallback ShowElement" "mBackdrop m = Some b" "truthy (cfgBackdrop (mConfig m))"
          by (auto simp: shown_wf_def)
        then show ?thesis
        proof cases
          case 1
          then show ?thesis
            using run s sw one by (simp add: transitionComplete_def Let_def modal_wf_defs)
        next
          case 2
          then have "modal_wf (showElement ?m)"
            using s sw one by (intro showElement_wf) (auto simp: shown_wf_def back_of_def bound_once_def)
          with run 2 show ?thesis by simp
        qed
      next
        case h: False
        then have hw: "hidden_wf m" "map fst (backdrops m) = back_of m"
          using assms by (simp_all add: modal_wf_def)
        then have ls: "set (listeners m) \<subseteq> {MouseupOnce}" by (simp add: hidden_wf_def)
        from hw(1) one consider "e = HideComplete" | b where "e = RemoveThenCallback FinishHide" "mBackdrop m = Some b"
          by (auto simp: hidden_wf_def)
        then show ?thesis
        proof cases
          case 1
          then show ?thesis using run h hw ls by (simp add: hideModal_wf back_of_def)
        next
          case 2
          then have "removeBackdrop ?m = ?m\<lparr>backdrops := [], mBackdrop := None\<rparr>"
            using hw(2) by (intro removeBackdrop_some) (simp_all add: back_of_def)
          then show ?thesis using run 2 h ls by (simp add: finishHide_wf)
        qed
      qed
    qed
  qed
qed

lemma dialog_input_wf:
  assumes "modal_wf m" "\<not> (fading_out m \<and> (inp = Show \<or> inp = Toggle))"
  shows "modal_wf (modal_input env inp m)"
proof (cases inp)
  case Toggle
  then show ?thesis
    using assms hide_wf show_wf by (auto simp: modal_input_def toggle_modal_def)
next
  case (MouseReleased onSelf)
  have "modal_wf (unbind_listener MouseupOnce m)"
    using assms(1) by (auto simp: modal_wf_defs animates_def)
  then show ?thesis using MouseReleased assms by (simp add: modal_input_def Let_def)
next
  case DialogPressed
  have "modal_wf (bind_listener MouseupOnce m)"
    using assms(1) by (auto simp: modal_wf_defs animates_def)
  then show ?thesis using DialogPressed assms by (simp add: modal_input_def)
qed (use assms in \<open>simp_all add: modal_input_def show_wf hide_wf transition_wf click_backdrop_def Let_def\<close>)

lemma reach_wf: "modal_reach m \<Longrightarrow> modal_wf m"
proof (induction rule: modal_reach.induct)
  case (start cfg fade dialog indoc supports)
  show ?case by (simp add: modal_wf_defs new_modal_def)
qed (rule dialog_input_wf)


text \<open>A dialog that was shown, with the transitions of its backdrop and of itself finished.\<close>

definition opened_modal :: modal where
  "opened_modal =
     modal_input demo_env (TransitionEnd OnDialog)
       (modal_input demo_env (TransitionEnd (OnBackdrop 0)) (modal_input demo_env Show demo_modal))"

lemma demo_reach: "modal_reach demo_modal"
  unfolding demo_modal_def by (rule modal_reach.start)

text \<open>The fields of the demonstration dialog after it was shown.\<close>

lemma demo_fields [simp]:
  "isShown demo_modal = False" "isTransitioning demo_modal = False" "hasFade demo_modal" "supportsEnd demo_modal"
  "hasDialog demo_modal" "mConfig demo_modal = modal_default" "pending demo_modal = []" "nextBackdrop demo_modal = 0"
  "mBackdrop demo_modal = None" "backdrops demo_modal = []" "prevents demo_env ev = False"
  by (simp_all add: demo_modal_def new_modal_def demo_env_def)

lemma opened_reach: "modal_reach opened_modal"
  unfolding opened_modal_def
  by (intro modal_reach.step demo_reach) (simp_all add: fading_out_def)

lemma demo_dialog_shown:
  fixes m defines "m \<equiv> modal_input demo_env Show demo_modal"
  shows "isShown m" "isTransitioning m" "pending m = [(OnBackdrop 0, RunCallback ShowElement)]" "hasFade m"
    "supportsEnd m" "hasDialog m" "mBackdrop m = Some 0" "nextBackdrop m = 1" "mConfig m = modal_default"
  by (simp_all add: m_def modal_input_def show_modal_def showBackdrop_def Let_def animates_def modal_default_def truthy_def)

lemma demo_faded:
  fixes m defines "m \<equiv> modal_input demo_env (TransitionEnd (OnBackdrop 0)) (modal_input demo_env Show demo_modal)"
  shows "isShown m" "pending m = [(OnDialog, ShownComplete)]" "hasFade m"
    "supportsEnd m" "mBackdrop m = Some 0" "nextBackdrop m = 1" "mConfig m = modal_default"
  unfolding m_def modal_input_def [of demo_env "TransitionEnd (OnBackdrop 0)"]
  using demo_dialog_shown
  by (simp_all add: transition_ends_def showElement_pending animates_def)

lemma opened_fields:
  "isShown opened_modal" "isTransitioning opened_modal = False" "pending opened_modal = []"
  "animates opened_modal" "mBackdrop opened_modal = Some 0" "mConfig opened_modal = modal_default"
  "nextBackdrop opened_modal = 1"
  unfolding opened_modal_def modal_input_def [of demo_env "TransitionEnd OnDialog"]
  using demo_faded
  by (simp_all add: transition_ends_def transitionComplete_def animates_def)


section \<open>Where the dialog goes wrong\<close>

definition modal_step :: "modal \<Rightarrow> modal_env \<times> modal_action \<Rightarrow> modal" where
  "modal_step m = (\<lambda>(env, inp). modal_input env inp m)"

text \<open>Hidden, marked as being in a transition, with no transition that could end.\<close>

definition stuck :: "modal \<Rightarrow> bool" where
  "stuck m \<longleftrightarrow> \<not> isShown m \<and> isTransitioning m \<and> pending m = []"

lemma stuck_step: "stuck m \<Longrightarrow> stuck (modal_input env inp m)"
  by (cases inp)
    (simp_all add: stuck_def modal_input_def show_modal_def hide_modal_def toggle_modal_def
      click_backdrop_def transition_ends_def Let_def)

interpretation stuck_dialog: invariant_machine modal_step stuck
  by standard (simp add: modal_step_def stuck_step split: prod.split)

text \<open>
  A dialog with a fade transition whose show event is prevented once can never be shown
  again: the call returns with the mark of a transition that never starts, and whatever happens
  after it the dialog stays hidden.
\<close>

theorem modal_prevented_stuck:
  assumes "animates m" "\<not> isShown m" "\<not> isTransitioning m" "pending m = []" "prevents env ShowEv"
  shows "\<not> isShown (foldl modal_step (show_modal env m) inputs)"
proof -
  have "stuck (show_modal env m)" using assms by (simp add: stuck_def show_modal_def Let_def)
  from stuck_dialog.run_inv [OF this, of inputs] show ?thesis by (simp add: stuck_def)
qed

theorem modal_prevented_stuck_witness:
  "\<not> isShown (foldl modal_step (show_modal (demo_env\<lparr>prevents := \<lambda>_. True\<rparr>) demo_modal)
     [(demo_env, Show), (demo_env, Toggle)])"
  by (rule modal_prevented_stuck) (simp_all add: animates_def)

text \<open>Hide, the end of the dialog's transition, show, and the end of the transition of backdrop \<open>b\<close>.\<close>

definition reshow :: "modal_env \<Rightarrow> nat \<Rightarrow> modal \<Rightarrow> modal" where
  "reshow env b m =
     modal_input env (TransitionEnd (OnBackdrop b)) (modal_input env Show
       (modal_input env (TransitionEnd OnElement) (modal_input env Hide m)))"

text \<open>
  An open dialog with a fading backdrop that is hidden and shown again before its backdrop has
  faded out loses the new backdrop: the end of the old one's transition takes the new backdrop
  away, leaves the old one in the page for good and unmarks the page, while the dialog is shown.
\<close>

theorem modal_reshow_breaks:
  assumes "modal_reach m" "isShown m" "\<not> isTransitioning m" "pending m = []" "animates m"
    and "mBackdrop m = Some b" "nextBackdrop m \<noteq> b" "\<And>ev. \<not> prevents env ev"
  shows "isShown (reshow env b m) \<and> \<not> bodyOpen (reshow env b m) \<and> mBackdrop (reshow env b m) = None \<and>
    map fst (backdrops (reshow env b m)) = [b]"
proof -
  have wf: "modal_wf m" using assms(1) by (rule reach_wf)
  then have bs: "map fst (backdrops m) = [b]" and bd: "truthy (cfgBackdrop (mConfig m))"
    using assms by (auto simp: modal_wf_defs)
  note an = \<open>animates m\<close> [unfolded animates_def]
  let ?m1 = "modal_input env Hide m"
  have m1: "\<not> isShown ?m1" "pending ?m1 = [(OnElement, HideComplete)]" "mBackdrop ?m1 = Some b"
    "map fst (backdrops ?m1) = [b]" "supportsEnd ?m1" "hasFade ?m1" "nextBackdrop ?m1 = nextBackdrop m"
    "mConfig ?m1 = mConfig m"
    using assms an bs by (simp_all add: modal_input_def hide_modal_def Let_def animates_def)
  let ?m2 = "modal_input env (TransitionEnd OnElement) ?m1"
  have m2: "\<not> isShown ?m2" "\<not> isTransitioning ?m2" "pending ?m2 = [(OnBackdrop b, RemoveThenCallback FinishHide)]"
    "mBackdrop ?m2 = Some b" "map fst (backdrops ?m2) = [b]" "supportsEnd ?m2" "hasFade ?m2"
    "nextBackdrop ?m2 = nextBackdrop m" "mConfig ?m2 = mConfig m"
    using m1
    by (simp_all add: modal_input_def [of env "TransitionEnd OnElement"] transition_ends_def hideModal_def
        showBackdrop_def Let_def animates_def)
  let ?m3 = "modal_input env Show ?m2"
  have m3: "isShown ?m3" "mBackdrop ?m3 = Some (nextBackdrop m)" "map fst (backdrops ?m3) = [b, nextBackdrop m]"
    "pending ?m3 = [(OnBackdrop b, RemoveThenCallback FinishHide), (OnBackdrop (nextBackdrop m), RunCallback ShowElement)]"
    using m2 assms(8) bd
    by (simp_all add: modal_input_def [of env Show] show_modal_def showBackdrop_def Let_def animates_def)
  have "filter (\<lambda>(k, _). k \<noteq> nextBackdrop m) bs' = bs'" if "map fst bs' = [b]" for bs' :: "(nat \<times> string set) list"
    using that assms(7) by auto
  then show ?thesis
    unfolding reshow_def using m3 assms(7)
    by (auto simp: modal_input_def [of env "TransitionEnd (OnBackdrop b)"] transition_ends_def removeBackdrop_def
        finishHide_def map_eq_Cons_conv)
qed

theorem modal_reshow_breaks_witness:
  "isShown (reshow demo_env 0 opened_modal) \<and> \<not> bodyOpen (reshow demo_env 0 opened_modal)"
proof -
  show ?thesis
    using modal_reshow_breaks [OF opened_reach, of 0 demo_env] opened_fields by simp
qed

end
