(* ===== verification/Bs_Scrollspy.thy ===== *)
theory Bs_Scrollspy
  imports Bs_Util Js_Sort
begin

text \<open>
  The scroll spy of \<open>client/w3cDemo/js/bootstrap.js\<close>: the offsets of the targets of a navigation,
  in ascending order, and the link that is active at a scroll position. What the document and the
  layout answer is the record \<open>spy_page\<close>; an element is named by a number.
\<close>

section \<open>State\<close>

text \<open>The active target: none yet, one, or the \<open>undefined\<close> that an empty list gives.\<close>

datatype spy_target = NoTarget | Target string | UndefinedTarget

record spy_page =
  pageYOffset :: real
  elementScrollTop :: real
  elementScrollHeight :: real
  bodyScrollHeight :: real
  documentScrollHeight :: real
  windowInnerHeight :: real
  elementRectHeight :: real
  spyLinks :: "nat list"
  spyAttribute :: "nat \<Rightarrow> string \<Rightarrow> string option"
  escapeSelector :: "(string \<Rightarrow> string) option"
  spyQuery :: "string \<Rightarrow> nat list option"
  rectWidth :: "nat \<Rightarrow> real"
  rectHeight :: "nat \<Rightarrow> real"
  topOf :: "string \<Rightarrow> nat \<Rightarrow> real"
  isDropdownItem :: "nat \<Rightarrow> bool"
  dropdownToggles :: "nat \<Rightarrow> nat list"
  previousOfNavs :: "nat \<Rightarrow> nat list"
  linksOfPreviousItems :: "nat \<Rightarrow> nat list"

record scrollspy =
  spyOffset :: real
  spyMethod :: string
  onWindow :: bool
  offsets :: "real list"
  targets :: "string list"
  activeTarget :: spy_target
  spyScrollHeight :: real
  activeLinks :: "nat set"
  activations :: "spy_target list"

section \<open>Measurements\<close>

definition getScrollTop :: "spy_page \<Rightarrow> scrollspy \<Rightarrow> real" where
  "getScrollTop pg spy = (if onWindow spy then pageYOffset pg else elementScrollTop pg)"

text \<open>A window has no scroll height of its own; an element's may be zero.\<close>

definition getScrollHeight :: "spy_page \<Rightarrow> scrollspy \<Rightarrow> real" where
  "getScrollHeight pg spy =
     (if \<not> onWindow spy \<and> elementScrollHeight pg \<noteq> 0 then elementScrollHeight pg
      else max (bodyScrollHeight pg) (documentScrollHeight pg))"

definition getOffsetHeight :: "spy_page \<Rightarrow> scrollspy \<Rightarrow> real" where
  "getOffsetHeight pg spy = (if onWindow spy then windowInnerHeight pg else elementRectHeight pg)"

section \<open>The offsets of the targets\<close>

text \<open>The entry of one link: its target's offset and selector, if it has a target that shows.\<close>

definition spy_entry :: "spy_page \<Rightarrow> string \<Rightarrow> real \<Rightarrow> nat \<Rightarrow> (real \<times> string) option" where
  "spy_entry pg method base e =
     (case getSelectorFromElement (escapeSelector pg) (spyQuery pg) (spyAttribute pg e) of
        None \<Rightarrow> None
      | Some sel \<Rightarrow>
          (if sel = [] then None
           else (case spyQuery pg sel of
              Some (t # _) \<Rightarrow>
                if rectWidth pg t \<noteq> 0 \<or> rectHeight pg t \<noteq> 0 then Some (topOf pg method t + base, sel) else None
            | _ \<Rightarrow> None)))"

definition spy_entries :: "spy_page \<Rightarrow> scrollspy \<Rightarrow> (real \<times> string) list" where
  "spy_entries pg spy =
     (let autoMethod = (if onWindow spy then ''offset'' else ''position'');
          method = (if spyMethod spy = ''auto'' then autoMethod else spyMethod spy);
          base = (if method = ''position'' then getScrollTop pg spy else 0)
      in List.map_filter (spy_entry pg method base) (spyLinks pg))"

definition by_offset :: "real \<times> string \<Rightarrow> real \<times> string \<Rightarrow> jsreal" where
  "by_offset a b = Fin (fst a - fst b)"

definition refresh :: "spy_page \<Rightarrow> scrollspy \<Rightarrow> scrollspy" where
  "refresh pg spy =
     (let items = js_sort by_offset (spy_entries pg spy)
      in spy\<lparr>offsets := map fst items, targets := map snd items, spyScrollHeight := getScrollHeight pg spy\<rparr>)"

section \<open>The active link\<close>

definition clear_links :: "spy_page \<Rightarrow> scrollspy \<Rightarrow> scrollspy" where
  "clear_links pg spy = spy\<lparr>activeLinks := activeLinks spy - set (spyLinks pg)\<rparr>"

definition target_text :: "spy_target \<Rightarrow> string" where
  "target_text t = (case t of Target s \<Rightarrow> s | NoTarget \<Rightarrow> ''null'' | UndefinedTarget \<Rightarrow> ''undefined'')"

definition links_to :: "spy_page \<Rightarrow> spy_target \<Rightarrow> nat list" where
  "links_to pg t =
     filter (\<lambda>e. spyAttribute pg e ''data-target'' = Some (target_text t) \<or>
                 spyAttribute pg e ''href'' = Some (target_text t)) (spyLinks pg)"

definition marked_with :: "spy_page \<Rightarrow> nat list \<Rightarrow> nat list" where
  "marked_with pg link =
     (if list_ex (isDropdownItem pg) link
      then concat (map (dropdownToggles pg) link) @ link
      else link @ concat (map (previousOfNavs pg) link) @ concat (map (linksOfPreviousItems pg) link))"

definition activate :: "spy_page \<Rightarrow> spy_target \<Rightarrow> scrollspy \<Rightarrow> scrollspy" where
  "activate pg t spy =
     (let spy1 = clear_links pg (spy\<lparr>activeTarget := t\<rparr>)
      in spy1\<lparr>activeLinks := activeLinks spy1 \<union> set (marked_with pg (links_to pg t)),
              activations := activations spy1 @ [t]\<rparr>)"

text \<open>The loop \<open>for (i = offsets.length; i--;)\<close>.\<close>

fun process_loop :: "spy_page \<Rightarrow> real \<Rightarrow> nat \<Rightarrow> scrollspy \<Rightarrow> scrollspy" where
  "process_loop pg pos 0 spy = spy"
| "process_loop pg pos (Suc i) spy =
     (let isActiveTarget =
            activeTarget spy \<noteq> Target (targets spy ! i) \<and> offsets spy ! i \<le> pos \<and>
            (length (offsets spy) \<le> i + 1 \<or> pos < offsets spy ! (i + 1))
      in process_loop pg pos i
           (if isActiveTarget then activate pg (Target (targets spy ! i)) spy else spy))"

definition last_target :: "scrollspy \<Rightarrow> spy_target" where
  "last_target spy = (if targets spy = [] then UndefinedTarget else Target (last (targets spy)))"

definition is_set :: "spy_target \<Rightarrow> bool" where
  "is_set t = (case t of Target s \<Rightarrow> s \<noteq> [] | _ \<Rightarrow> False)"

definition process :: "spy_page \<Rightarrow> scrollspy \<Rightarrow> scrollspy" where
  "process pg spy =
     (let scrollTop = getScrollTop pg spy + spyOffset spy;
          height = getScrollHeight pg spy;
          maxScroll = spyOffset spy + height - getOffsetHeight pg spy;
          spy1 = (if spyScrollHeight spy \<noteq> height then refresh pg spy else spy)
      in if maxScroll \<le> scrollTop
         then (if activeTarget spy1 \<noteq> last_target spy1 then activate pg (last_target spy1) spy1 else spy1)
         else if is_set (activeTarget spy1) \<and>
                 offsets spy1 \<noteq> [] \<and> scrollTop < offsets spy1 ! 0 \<and> 0 < offsets spy1 ! 0
         then clear_links pg (spy1\<lparr>activeTarget := NoTarget\<rparr>)
         else process_loop pg scrollTop (length (offsets spy1)) spy1)"

text \<open>The constructor: the spy of an element, with its offsets and its first target.\<close>

definition new_spy :: "spy_page \<Rightarrow> real \<Rightarrow> string \<Rightarrow> bool \<Rightarrow> nat set \<Rightarrow> scrollspy" where
  "new_spy pg offset method window links =
     process pg (refresh pg
       \<lparr>spyOffset = offset, spyMethod = method, onWindow = window, offsets = [], targets = [],
        activeTarget = NoTarget, spyScrollHeight = 0, activeLinks = links, activations = []\<rparr>)"

section \<open>The offsets are in order\<close>

definition spy_wf :: "scrollspy \<Rightarrow> bool" where
  "spy_wf spy \<longleftrightarrow> sorted (offsets spy) \<and> length (targets spy) = length (offsets spy)"

lemma refresh_sort: "js_sort by_offset es = sort_key fst es"
  by (rule js_sort_key) (simp add: by_offset_def)

lemma refresh_wf: "spy_wf (refresh pg spy)"
  by (simp add: spy_wf_def refresh_def Let_def refresh_sort)

lemma activate_same [simp]:
  "offsets (activate pg t spy) = offsets spy" "targets (activate pg t spy) = targets spy"
  "activeTarget (activate pg t spy) = t" "spyOffset (activate pg t spy) = spyOffset spy"
  "onWindow (activate pg t spy) = onWindow spy" "spyScrollHeight (activate pg t spy) = spyScrollHeight spy"
  by (simp_all add: activate_def clear_links_def Let_def)

lemma links_clear_same [simp]:
  "offsets (clear_links pg spy) = offsets spy" "targets (clear_links pg spy) = targets spy"
  "activeTarget (clear_links pg spy) = activeTarget spy"
  by (simp_all add: clear_links_def)

lemma loop_same [simp]:
  "offsets (process_loop pg pos n spy) = offsets spy" "targets (process_loop pg pos n spy) = targets spy"
  by (induction pg pos n spy rule: process_loop.induct) (auto simp: Let_def)

text \<open>Below an offset that is already passed the loop changes nothing.\<close>

lemma loop_below:
  assumes "sorted (offsets spy)" "n < length (offsets spy)" "offsets spy ! n \<le> pos"
  shows "process_loop pg pos n spy = spy"
  using assms
proof (induction n)
  case (Suc n)
  have "offsets spy ! n \<le> offsets spy ! Suc n" using Suc.prems by (simp add: sorted_nth_mono)
  then have "process_loop pg pos n spy = spy" using Suc by simp
  then show ?case using Suc.prems by simp
qed simp

text \<open>Above the position the loop changes nothing.\<close>

lemma loop_above:
  assumes "\<And>i. k < i \<Longrightarrow> i < length (offsets spy) \<Longrightarrow> pos < offsets spy ! i"
    and "k < n" "n \<le> length (offsets spy)"
  shows "process_loop pg pos n spy = process_loop pg pos (Suc k) spy"
  using assms(2,3)
proof (induction n)
  case (Suc n)
  show ?case
  proof (cases "n = k")
    case False
    then have "pos < offsets spy ! n" using Suc.prems by (intro assms(1)) simp_all
    then show ?thesis using Suc False by (simp add: Let_def)
  qed simp
qed simp

definition position_at :: "real list \<Rightarrow> real \<Rightarrow> nat \<Rightarrow> bool" where
  "position_at os pos k \<longleftrightarrow>
     k < length os \<and> os ! k \<le> pos \<and> (\<forall>i. k < i \<and> i < length os \<longrightarrow> pos < os ! i)"

lemma loop_activates:
  assumes "sorted (offsets spy)" "position_at (offsets spy) pos k"
  shows "process_loop pg pos (length (offsets spy)) spy =
    (if activeTarget spy = Target (targets spy ! k) then spy else activate pg (Target (targets spy ! k)) spy)"
proof -
  let ?spy = "if activeTarget spy = Target (targets spy ! k) then spy
    else activate pg (Target (targets spy ! k)) spy"
  have k: "k < length (offsets spy)" "offsets spy ! k \<le> pos" using assms(2) by (simp_all add: position_at_def)
  have "process_loop pg pos (length (offsets spy)) spy = process_loop pg pos (Suc k) spy"
    by (rule loop_above) (use assms(2) in \<open>auto simp: position_at_def\<close>)
  also have "\<dots> = process_loop pg pos k ?spy"
    using assms(2) by (auto simp: position_at_def Let_def not_le)
  also have "\<dots> = ?spy"
    by (rule loop_below) (use assms(1) k in simp_all)
  finally show ?thesis .
qed

text \<open>
  The target that a scroll makes active: with the offsets in order and the end of the page not
  reached, it is that of the last offset that is not below the position; exactly the links to it
  and the entries that lead to it are active among the links, and the change is reported once,
  and not at all when the target was active before.
\<close>

theorem spy_follows_scroll:
  assumes "spy_wf spy" and "spyScrollHeight spy = getScrollHeight pg spy"
    and "getScrollTop pg spy < getScrollHeight pg spy - getOffsetHeight pg spy"
    and "position_at (offsets spy) (getScrollTop pg spy + spyOffset spy) k"
  shows "activeTarget (process pg spy) = Target (targets spy ! k) \<and>
    (if activeTarget spy = Target (targets spy ! k) then process pg spy = spy
     else activeLinks (process pg spy) =
         activeLinks spy - set (spyLinks pg) \<union> set (marked_with pg (links_to pg (Target (targets spy ! k)))) \<and>
       activations (process pg spy) = activations spy @ [Target (targets spy ! k)])"
proof -
  let ?pos = "getScrollTop pg spy + spyOffset spy"
  have s: "sorted (offsets spy)" using assms(1) by (simp add: spy_wf_def)
  have "offsets spy ! 0 \<le> ?pos"
    using s assms(4) sorted_nth_mono [OF s, of 0 k] by (auto simp: position_at_def intro: order_trans)
  then have "process pg spy = process_loop pg ?pos (length (offsets spy)) spy"
    using assms(2,3) by (simp add: process_def Let_def not_less not_le)
  also note loop_activates [OF s assms(4)]
  finally show ?thesis by (simp add: activate_def clear_links_def Let_def)
qed

text \<open>A page with two sections, at 100 and 400, the links 1 and 2 to them, and 1000 pixels to scroll.\<close>

definition demo_page :: spy_page where
  "demo_page =
     \<lparr>pageYOffset = 250, elementScrollTop = 0, elementScrollHeight = 0, bodyScrollHeight = 1000,
      documentScrollHeight = 900, windowInnerHeight = 300, elementRectHeight = 0, spyLinks = [1, 2],
      spyAttribute = (\<lambda>e a. if a = ''href'' then Some (if e = 1 then ''#a'' else ''#b'') else None),
      escapeSelector = None, spyQuery = (\<lambda>s. Some (if s = ''#a'' then [11] else if s = ''#b'' then [12] else [])),
      rectWidth = (\<lambda>_. 10), rectHeight = (\<lambda>_. 10), topOf = (\<lambda>_ e. if e = 11 then 100 else 400),
      isDropdownItem = (\<lambda>_. False), dropdownToggles = (\<lambda>_. []), previousOfNavs = (\<lambda>_. []),
      linksOfPreviousItems = (\<lambda>_. [])\<rparr>"

definition demo_spy :: scrollspy where
  "demo_spy =
     \<lparr>spyOffset = 10, spyMethod = ''auto'', onWindow = True, offsets = [100, 400], targets = [''#a'', ''#b''],
      activeTarget = NoTarget, spyScrollHeight = 1000, activeLinks = {2}, activations = []\<rparr>"

theorem spy_follows_scroll_witness:
  "activeTarget (process demo_page demo_spy) = Target ''#a'' \<and> activeLinks (process demo_page demo_spy) = {1}"
proof -
  have p: "position_at (offsets demo_spy) (getScrollTop demo_page demo_spy + spyOffset demo_spy) 0"
    by (auto simp: position_at_def demo_spy_def demo_page_def getScrollTop_def less_Suc_eq)
  have l: "links_to demo_page (Target ''#a'') = [1]"
    by (simp add: links_to_def demo_page_def target_text_def)
  have m: "marked_with demo_page [1] = [1]" by (simp add: marked_with_def demo_page_def)
  show ?thesis
    using spy_follows_scroll [OF _ _ _ p] l m
    by (auto simp: spy_wf_def demo_spy_def demo_page_def getScrollHeight_def getScrollTop_def getOffsetHeight_def)
qed

text \<open>
  The offsets of a spy are in ascending order and each has its target after any refresh, and
  links whose targets have the same offset keep the order of the document: the list is the
  library's stable sort of the entries of the links that have a visible target.
\<close>

theorem spy_refresh_sorts:
  "sorted (offsets (refresh pg spy)) \<and>
   zip (offsets (refresh pg spy)) (targets (refresh pg spy)) = sort_key fst (spy_entries pg spy)"
proof -
  have "zip (map fst xs) (map snd xs) = xs" for xs :: "(real \<times> string) list" by (induction xs) auto
  then show ?thesis by (simp add: refresh_def Let_def refresh_sort)
qed

text \<open>A spy without targets reports \<open>undefined\<close> as its active target at the end of the page.\<close>

lemma spy_without_targets:
  assumes "targets spy = []" "activeTarget spy = NoTarget" "spyScrollHeight spy = getScrollHeight pg spy"
    and "getScrollHeight pg spy - getOffsetHeight pg spy \<le> getScrollTop pg spy"
  shows "activations (process pg spy) = activations spy @ [UndefinedTarget]"
  using assms by (simp add: process_def Let_def last_target_def activate_def clear_links_def)

end
