(* ===== verification/Bs_Page.thy ===== *)
theory Bs_Page
  imports Bs_Util
begin

text \<open>
  The part of a page that the plugins of \<open>client/w3cDemo/js/bootstrap.js\<close> read and write through
  jQuery: elements named by numbers, in document order, each with its ancestors (the parent
  first), its tag name, its classes and its attributes. The operations are the documented ones of
  jQuery on single elements and on lists of them. A plugin extends the record with its own state.
\<close>

record page =
  elements :: "nat list"
  ancestors :: "nat \<Rightarrow> nat list"
  nodeName :: "nat \<Rightarrow> string"
  classList :: "nat \<Rightarrow> string set"
  attribute :: "nat \<Rightarrow> string \<Rightarrow> string option"

definition hasClass :: "'a page_scheme \<Rightarrow> nat \<Rightarrow> string \<Rightarrow> bool" where
  "hasClass pg e k = (k \<in> classList pg e)"

definition jq_addClass :: "string \<Rightarrow> nat \<Rightarrow> 'a page_scheme \<Rightarrow> 'a page_scheme" where
  "jq_addClass k e pg = pg\<lparr>classList := (classList pg)(e := insert k (classList pg e))\<rparr>"

definition jq_removeClass :: "string \<Rightarrow> nat \<Rightarrow> 'a page_scheme \<Rightarrow> 'a page_scheme" where
  "jq_removeClass k e pg = pg\<lparr>classList := (classList pg)(e := classList pg e - {k})\<rparr>"

definition jq_toggleClass :: "string \<Rightarrow> bool \<Rightarrow> nat \<Rightarrow> 'a page_scheme \<Rightarrow> 'a page_scheme" where
  "jq_toggleClass k on e pg = (if on then jq_addClass k e pg else jq_removeClass k e pg)"

definition setAttribute :: "string \<Rightarrow> string \<Rightarrow> nat \<Rightarrow> 'a page_scheme \<Rightarrow> 'a page_scheme" where
  "setAttribute a v e pg = pg\<lparr>attribute := (attribute pg)(e := (attribute pg e)(a \<mapsto> v))\<rparr>"

definition parentNode :: "'a page_scheme \<Rightarrow> nat \<Rightarrow> nat option" where
  "parentNode pg e = (case ancestors pg e of [] \<Rightarrow> None | p # _ \<Rightarrow> Some p)"

definition closest :: "'a page_scheme \<Rightarrow> (nat \<Rightarrow> bool) \<Rightarrow> nat \<Rightarrow> nat option" where
  "closest pg P e = List.find P (e # ancestors pg e)"

definition descendants :: "'a page_scheme \<Rightarrow> nat \<Rightarrow> nat list" where
  "descendants pg r = filter (\<lambda>e. r \<in> set (ancestors pg e)) (elements pg)"

definition children :: "'a page_scheme \<Rightarrow> nat \<Rightarrow> nat list" where
  "children pg r = filter (\<lambda>e. parentNode pg e = Some r) (elements pg)"

definition first_elt :: "nat list \<Rightarrow> nat option" where
  "first_elt es = (case es of [] \<Rightarrow> None | e # _ \<Rightarrow> Some e)"

text \<open>A class or an attribute of one element is changed; the rest of the page stays.\<close>

lemma hasClass_change [simp]:
  "hasClass (jq_addClass k e pg) e' k' = (e = e' \<and> k = k' \<or> hasClass pg e' k')"
  "hasClass (jq_removeClass k e pg) e' k' = (\<not> (e = e' \<and> k = k') \<and> hasClass pg e' k')"
  "hasClass (jq_toggleClass k on e pg) e' k' = (if e = e' \<and> k = k' then on else hasClass pg e' k')"
  "hasClass (setAttribute a v e pg) e' k' = hasClass pg e' k'"
  by (auto simp: hasClass_def jq_addClass_def jq_removeClass_def jq_toggleClass_def setAttribute_def)

lemma attribute_change [simp]:
  "attribute (setAttribute a v e pg) e' a' = (if e = e' \<and> a = a' then Some v else attribute pg e' a')"
  by (simp add: setAttribute_def)

lemma page_same [simp]:
  "elements (jq_addClass k e pg) = elements pg" "ancestors (jq_addClass k e pg) = ancestors pg"
  "nodeName (jq_addClass k e pg) = nodeName pg" "attribute (jq_addClass k e pg) = attribute pg"
  "elements (jq_removeClass k e pg) = elements pg" "ancestors (jq_removeClass k e pg) = ancestors pg"
  "nodeName (jq_removeClass k e pg) = nodeName pg" "attribute (jq_removeClass k e pg) = attribute pg"
  "elements (setAttribute a v e pg) = elements pg" "ancestors (setAttribute a v e pg) = ancestors pg"
  "nodeName (setAttribute a v e pg) = nodeName pg" "classList (setAttribute a v e pg) = classList pg"
  "elements (jq_toggleClass k on e pg) = elements pg" "ancestors (jq_toggleClass k on e pg) = ancestors pg"
  "nodeName (jq_toggleClass k on e pg) = nodeName pg" "attribute (jq_toggleClass k on e pg) = attribute pg"
  by (simp_all add: jq_addClass_def jq_removeClass_def jq_toggleClass_def setAttribute_def)

text \<open>The queries depend on the tree only.\<close>

lemma tree_cong:
  assumes "elements pg' = elements pg" "ancestors pg' = ancestors pg"
  shows "descendants pg' = descendants pg" "children pg' = children pg" "parentNode pg' = parentNode pg"
    "closest pg' = closest pg"
  using assms by (auto simp: descendants_def children_def parentNode_def closest_def intro!: ext)

lemma tree_same [simp]:
  "descendants (jq_addClass k e pg) = descendants pg" "children (jq_addClass k e pg) = children pg"
  "parentNode (jq_addClass k e pg) = parentNode pg" "closest (jq_addClass k e pg) = closest pg"
  "descendants (jq_removeClass k e pg) = descendants pg" "children (jq_removeClass k e pg) = children pg"
  "parentNode (jq_removeClass k e pg) = parentNode pg" "closest (jq_removeClass k e pg) = closest pg"
  "descendants (setAttribute a v e pg) = descendants pg" "children (setAttribute a v e pg) = children pg"
  "parentNode (setAttribute a v e pg) = parentNode pg" "closest (setAttribute a v e pg) = closest pg"
  "descendants (jq_toggleClass k on e pg) = descendants pg" "children (jq_toggleClass k on e pg) = children pg"
  "parentNode (jq_toggleClass k on e pg) = parentNode pg" "closest (jq_toggleClass k on e pg) = closest pg"
  by (rule tree_cong; simp)+

lemma fold_class_same [simp]:
  "elements (fold (jq_addClass k) es pg) = elements pg" "ancestors (fold (jq_addClass k) es pg) = ancestors pg"
  "attribute (fold (jq_addClass k) es pg) = attribute pg" "nodeName (fold (jq_addClass k) es pg) = nodeName pg"
  "hasClass (fold (jq_addClass k) es pg) e' k' = (e' \<in> set es \<and> k = k' \<or> hasClass pg e' k')"
  by (induction es arbitrary: pg) auto

end
