(* ===== verification/Bs_Tab.thy ===== *)
theory Bs_Tab
  imports Bs_Page
begin

text \<open>
  The tab plugin of \<open>client/w3cDemo/js/bootstrap.js\<close>: the link that is shown, the pane of its
  target, and the panes whose fading out is waited for. The events are prevented by the
  handlers of the page that the environment names; a selector is answered by the document.
\<close>

section \<open>State\<close>

datatype tab_event =
    HideTab nat nat | ShowTab nat "nat option" | HiddenTab nat nat | ShownTab nat "nat option"

text \<open>The completion of a pane: the pane, the active one before it, and the link and its predecessor.\<close>

record tab_completion =
  tcElement :: nat
  tcActive :: "nat option"
  tcLink :: nat
  tcPrevious :: "nat option"

record tab_page = page +
  tabPending :: "(nat \<times> tab_completion) list"
  tabEvents :: "tab_event list"

record tab_env =
  tabSupportsEnd :: bool
  tabPrevents :: "tab_event \<Rightarrow> bool"
  tabQuery :: "string \<Rightarrow> nat list option"
  tabEscape :: "(string \<Rightarrow> string) option"

section \<open>Activation\<close>

text \<open>\<open>find('> li > .active')\<close> and \<open>children('.active')\<close>, in document order.\<close>

definition active_in_list :: "'a page_scheme \<Rightarrow> nat \<Rightarrow> nat list" where
  "active_in_list pg ul =
     filter (\<lambda>e. hasClass pg e ''active'' \<and>
       (case ancestors pg e of p # g # _ \<Rightarrow> nodeName pg p = ''LI'' \<and> g = ul | _ \<Rightarrow> False)) (elements pg)"

definition active_children :: "'a page_scheme \<Rightarrow> nat \<Rightarrow> nat list" where
  "active_children pg c = filter (\<lambda>e. hasClass pg e ''active'') (children pg c)"

definition active_elements :: "'a page_scheme \<Rightarrow> nat \<Rightarrow> nat list" where
  "active_elements pg c = (if nodeName pg c = ''UL'' then active_in_list pg c else active_children pg c)"

text \<open>\<open>$(active.parentNode).find('> .dropdown-menu .active')[0]\<close>.\<close>

definition dropdown_child :: "'a page_scheme \<Rightarrow> nat \<Rightarrow> nat option" where
  "dropdown_child pg active =
     Option.bind (parentNode pg active)
       (\<lambda>p. first_elt (filter (\<lambda>e. hasClass pg e ''active'' \<and>
          list_ex (\<lambda>a. hasClass pg a ''dropdown-menu'' \<and> parentNode pg a = Some p) (ancestors pg e)) (elements pg)))"

definition deactivate :: "nat \<Rightarrow> 'a page_scheme \<Rightarrow> 'a page_scheme" where
  "deactivate active pg =
     (let pg1 = jq_removeClass ''active'' active (jq_removeClass ''show'' active pg);
          pg2 = (case dropdown_child pg1 active of Some d \<Rightarrow> jq_removeClass ''active'' d pg1 | None \<Rightarrow> pg1)
      in if attribute pg2 active ''role'' = Some ''tab'' then setAttribute ''aria-selected'' ''false'' active pg2
         else pg2)"

definition mark_dropdown :: "nat \<Rightarrow> 'a page_scheme \<Rightarrow> 'a page_scheme" where
  "mark_dropdown element pg =
     (case parentNode pg element of
        Some p \<Rightarrow>
          if hasClass pg p ''dropdown-menu''
          then setAttribute ''aria-expanded'' ''true'' element
            (case closest pg (\<lambda>e. hasClass pg e ''dropdown'') element of
               Some d \<Rightarrow> fold (jq_addClass ''active'')
                   (filter (\<lambda>e. hasClass pg e ''dropdown-toggle'') (descendants pg d)) pg
             | None \<Rightarrow> pg)
          else pg
      | None \<Rightarrow> pg)"

text \<open>\<open>_transitionComplete\<close> up to its callback.\<close>

definition transition_complete :: "nat \<Rightarrow> nat option \<Rightarrow> 'a page_scheme \<Rightarrow> 'a page_scheme" where
  "transition_complete element active pg =
     (let pg1 = (case active of Some a \<Rightarrow> deactivate a pg | None \<Rightarrow> pg);
          pg2 = jq_addClass ''active'' element pg1;
          pg3 = (if attribute pg2 element ''role'' = Some ''tab''
                 then setAttribute ''aria-selected'' ''true'' element pg2 else pg2)
      in mark_dropdown element (jq_addClass ''show'' element pg3))"

definition tab_trigger :: "tab_event list \<Rightarrow> tab_page \<Rightarrow> tab_page" where
  "tab_trigger evs pg = pg\<lparr>tabEvents := tabEvents pg @ evs\<rparr>"

text \<open>The callback of \<open>show\<close>: the events of the end.\<close>

definition shown_callback :: "nat \<Rightarrow> nat option \<Rightarrow> tab_page \<Rightarrow> tab_page" where
  "shown_callback link previous pg =
     tab_trigger ((case previous of Some p \<Rightarrow> [HiddenTab p link] | None \<Rightarrow> []) @ [ShownTab link previous]) pg"

definition complete_tab :: "tab_completion \<Rightarrow> tab_page \<Rightarrow> tab_page" where
  "complete_tab t pg =
     shown_callback (tcLink t) (tcPrevious t) (transition_complete (tcElement t) (tcActive t) pg)"

text \<open>\<open>_activate\<close> of the link, which has no callback, and of a pane, which has one.\<close>

definition activate_link :: "nat \<Rightarrow> nat \<Rightarrow> tab_page \<Rightarrow> tab_page" where
  "activate_link element container pg =
     transition_complete element (first_elt (active_elements pg container)) pg"

definition activate_pane :: "tab_env \<Rightarrow> nat \<Rightarrow> nat \<Rightarrow> nat \<Rightarrow> nat option \<Rightarrow> tab_page \<Rightarrow> tab_page" where
  "activate_pane env pane container link previous pg =
     (let active = first_elt (active_elements pg container);
          t = \<lparr>tcElement = pane, tcActive = active, tcLink = link, tcPrevious = previous\<rparr>
      in case active of
           Some a \<Rightarrow>
             if tabSupportsEnd env \<and> hasClass pg a ''fade'' then pg\<lparr>tabPending := tabPending pg @ [(a, t)]\<rparr>
             else complete_tab t pg
         | None \<Rightarrow> complete_tab t pg)"

section \<open>Showing a tab\<close>

text \<open>
  \<open>Inl\<close>: the call throws, because a link outside every list has no container to activate it in,
  or because the pane has no parent; what it did before stays.
\<close>

definition previous_active :: "'a page_scheme \<Rightarrow> nat \<Rightarrow> nat option" where
  "previous_active pg l =
     (let es = (if nodeName pg l = ''UL'' then active_in_list pg l
                else filter (\<lambda>e. hasClass pg e ''active'') (descendants pg l))
      in if es = [] then None else Some (last es))"

definition list_element :: "'a page_scheme \<Rightarrow> nat \<Rightarrow> nat option" where
  "list_element pg e = closest pg (\<lambda>x. hasClass pg x ''nav'' \<or> hasClass pg x ''list-group'') e"

definition tab_target :: "tab_env \<Rightarrow> 'a page_scheme \<Rightarrow> nat \<Rightarrow> nat option" where
  "tab_target env pg element =
     (case getSelectorFromElement (tabEscape env) (tabQuery env) (attribute pg element) of
        Some s \<Rightarrow> if s = [] then None else Option.bind (tabQuery env s) first_elt
      | None \<Rightarrow> None)"

definition show_tab :: "tab_env \<Rightarrow> nat \<Rightarrow> tab_page \<Rightarrow> tab_page + tab_page" where
  "show_tab env element pg =
     (if parentNode pg element \<noteq> None \<and> hasClass pg element ''active'' \<or> hasClass pg element ''disabled''
      then Inr pg
      else
        (let listElement = list_element pg element;
             previous = Option.bind listElement (previous_active pg);
             hideEvent = (case previous of Some p \<Rightarrow> [HideTab p element] | None \<Rightarrow> []);
             pg1 = tab_trigger (hideEvent @ [ShowTab element previous]) pg
         in if tabPrevents env (ShowTab element previous) \<or> list_ex (tabPrevents env) hideEvent then Inr pg1
            else
              (let target = tab_target env pg1 element
               in case listElement of
                    None \<Rightarrow> Inl pg1
                  | Some l \<Rightarrow>
                      (let pg2 = activate_link element l pg1
                       in case target of
                            None \<Rightarrow> Inr (shown_callback element previous pg2)
                          | Some t \<Rightarrow>
                              (case parentNode pg2 t of
                                 None \<Rightarrow> Inl pg2
                               | Some c \<Rightarrow> Inr (activate_pane env t c element previous pg2))))))"

text \<open>The end of the transition of an element completes the panes that wait for it.\<close>

definition tab_transition_end :: "nat \<Rightarrow> tab_page \<Rightarrow> tab_page" where
  "tab_transition_end e pg =
     fold (\<lambda>(_, t). complete_tab t) (filter (\<lambda>(a, _). a = e) (tabPending pg))
       (pg\<lparr>tabPending := filter (\<lambda>(a, _). a \<noteq> e) (tabPending pg)\<rparr>)"

section \<open>What a completion changes\<close>

text \<open>The elements among which a container looks for its active one.\<close>

definition candidates :: "'a page_scheme \<Rightarrow> nat \<Rightarrow> nat list" where
  "candidates pg c =
     (if nodeName pg c = ''UL''
      then filter (\<lambda>e. case ancestors pg e of p # g # _ \<Rightarrow> nodeName pg p = ''LI'' \<and> g = c | _ \<Rightarrow> False) (elements pg)
      else children pg c)"

lemma active_candidates: "active_elements pg c = filter (\<lambda>e. hasClass pg e ''active'') (candidates pg c)"
  by (simp add: active_elements_def active_in_list_def active_children_def candidates_def conj_commute)

definition no_dropdowns :: "'a page_scheme \<Rightarrow> bool" where
  "no_dropdowns pg \<longleftrightarrow> (\<forall>e. \<not> hasClass pg e ''dropdown-menu'')"

lemma no_dropdown_child: "no_dropdowns pg \<Longrightarrow> dropdown_child pg a = None"
  by (cases "parentNode pg a") (simp_all add: dropdown_child_def no_dropdowns_def first_elt_def list_ex_iff)

lemma no_dropdowns_change [simp]:
  "k \<noteq> ''dropdown-menu'' \<Longrightarrow> no_dropdowns (jq_addClass k e pg) = no_dropdowns pg"
  "k \<noteq> ''dropdown-menu'' \<Longrightarrow> no_dropdowns (jq_removeClass k e pg) = no_dropdowns pg"
  "no_dropdowns (setAttribute a v e pg) = no_dropdowns pg"
  by (simp_all add: no_dropdowns_def)

lemma deactivate_plain:
  assumes "no_dropdowns pg"
  shows "deactivate a pg =
    (let pg1 = jq_removeClass ''active'' a (jq_removeClass ''show'' a pg)
     in if attribute pg a ''role'' = Some ''tab'' then setAttribute ''aria-selected'' ''false'' a pg1 else pg1)"
  using assms by (simp add: deactivate_def no_dropdown_child Let_def)

lemma mark_dropdown_plain: "no_dropdowns pg \<Longrightarrow> mark_dropdown e pg = pg"
  by (simp add: mark_dropdown_def no_dropdowns_def split: option.splits)

lemma no_dropdowns_deactivate: "no_dropdowns pg \<Longrightarrow> no_dropdowns (deactivate a pg)"
  by (simp add: deactivate_plain Let_def)

lemma transition_complete_plain:
  assumes "no_dropdowns pg"
  shows "transition_complete element active pg =
    (let pg2 = jq_addClass ''active'' element (case active of Some a \<Rightarrow> deactivate a pg | None \<Rightarrow> pg);
         pg3 = (if attribute pg2 element ''role'' = Some ''tab''
                then setAttribute ''aria-selected'' ''true'' element pg2 else pg2)
     in jq_addClass ''show'' element pg3)"
  using assms no_dropdowns_deactivate [OF assms]
  by (cases active) (simp_all add: transition_complete_def Let_def mark_dropdown_plain)

text \<open>The parts of a page that a completion keeps, and the active classes after it.\<close>

lemma deactivate_keeps:
  assumes "no_dropdowns pg"
  shows "elements (deactivate a pg) = elements pg" "ancestors (deactivate a pg) = ancestors pg"
    "nodeName (deactivate a pg) = nodeName pg"
    "k \<notin> {''active'', ''show''} \<Longrightarrow> hasClass (deactivate a pg) e k = hasClass pg e k"
    "hasClass (deactivate a pg) e ''active'' = (e \<noteq> a \<and> hasClass pg e ''active'')"
    "att \<noteq> ''aria-selected'' \<Longrightarrow> attribute (deactivate a pg) e att = attribute pg e att"
  using assms by (auto simp: deactivate_plain Let_def)

lemma tab_complete_keeps:
  assumes "no_dropdowns pg"
  shows "elements (transition_complete el act pg) = elements pg"
    "ancestors (transition_complete el act pg) = ancestors pg"
    "nodeName (transition_complete el act pg) = nodeName pg"
    "k \<notin> {''active'', ''show''} \<Longrightarrow> hasClass (transition_complete el act pg) e k = hasClass pg e k"
    "hasClass (transition_complete el act pg) e ''active'' = (e = el \<or> act \<noteq> Some e \<and> hasClass pg e ''active'')"
    "att \<noteq> ''aria-selected'' \<Longrightarrow> attribute (transition_complete el act pg) e att = attribute pg e att"
  using assms deactivate_keeps [OF assms]
  by (auto simp: transition_complete_plain Let_def split: option.splits)

definition same_page :: "'a page_scheme \<Rightarrow> 'a page_scheme \<Rightarrow> bool" where
  "same_page pg pg' \<longleftrightarrow>
     elements pg' = elements pg \<and> ancestors pg' = ancestors pg \<and> nodeName pg' = nodeName pg \<and>
     (\<forall>e k. k \<notin> {''active'', ''show''} \<longrightarrow> hasClass pg' e k = hasClass pg e k) \<and>
     (\<forall>e a. a \<noteq> ''aria-selected'' \<longrightarrow> attribute pg' e a = attribute pg e a)"

lemma same_page_trans: "same_page pg pg' \<Longrightarrow> same_page pg' pg'' \<Longrightarrow> same_page pg pg''"
  by (simp add: same_page_def)

lemma same_page_complete: "no_dropdowns pg \<Longrightarrow> same_page pg (transition_complete el act pg)"
  by (simp add: same_page_def tab_complete_keeps)

lemma same_page_none: "same_page pg pg' \<Longrightarrow> no_dropdowns pg' = no_dropdowns pg"
  by (simp add: same_page_def no_dropdowns_def)

lemma same_page_candidates:
  assumes "same_page pg pg'" shows "candidates pg' = candidates pg"
proof -
  have "elements pg' = elements pg" "ancestors pg' = ancestors pg" "nodeName pg' = nodeName pg"
    using assms by (simp_all add: same_page_def)
  note eqs = this
  show ?thesis unfolding candidates_def [abs_def] children_def parentNode_def eqs ..
qed

lemma same_page_parent: "same_page pg pg' \<Longrightarrow> parentNode pg' = parentNode pg"
  by (intro ext) (simp add: same_page_def parentNode_def)

lemma same_page_target:
  assumes "same_page pg pg'" shows "tab_target env pg' = tab_target env pg"
proof
  fix e
  have "getSelectorFromElement (tabEscape env) (tabQuery env) (attribute pg' e) =
      getSelectorFromElement (tabEscape env) (tabQuery env) (attribute pg e)"
    using assms by (intro getSelector_cong) (simp_all add: same_page_def)
  then show "tab_target env pg' e = tab_target env pg e" by (simp add: tab_target_def)
qed

lemma same_page_list: "same_page pg pg' \<Longrightarrow> list_element pg' = list_element pg"
  by (intro ext) (simp add: same_page_def list_element_def closest_def)

text \<open>Events and pending completions are apart from the page.\<close>

lemma tab_log_same [simp]:
  "hasClass (tab_trigger evs pg) = hasClass pg" "tabPending (tab_trigger evs pg) = tabPending pg"
  "hasClass (pg\<lparr>tabPending := p\<rparr>) = hasClass pg" "hasClass (shown_callback l pr pg) = hasClass pg"
  "tabPending (shown_callback l pr pg) = tabPending pg"
  by (simp_all add: tab_trigger_def shown_callback_def hasClass_def fun_eq_iff)

lemma same_page_log [simp]:
  "same_page pg (tab_trigger evs pg') = same_page pg pg'" "same_page pg (shown_callback l pr pg') = same_page pg pg'"
  "same_page pg (pg'\<lparr>tabPending := p\<rparr>) = same_page pg pg'"
  by (simp_all add: same_page_def tab_trigger_def shown_callback_def hasClass_def)

lemma same_page_refl [simp]: "same_page pg pg"
  by (simp add: same_page_def)

lemma pending_complete [simp]:
  "no_dropdowns pg \<Longrightarrow> tabPending (transition_complete el act pg) = tabPending pg"
  by (cases act)
    (simp_all add: transition_complete_plain deactivate_plain Let_def jq_addClass_def jq_removeClass_def setAttribute_def)

section \<open>Switching tabs\<close>

text \<open>
  A link \<open>el\<close> of the list \<open>l\<close> with the pane \<open>t\<close> in the container \<open>c\<close>: it is enabled, and the
  links and the panes are different elements.
\<close>

definition tab_setup :: "tab_env \<Rightarrow> 'a page_scheme \<Rightarrow> nat \<Rightarrow> nat \<Rightarrow> nat \<Rightarrow> nat \<Rightarrow> bool" where
  "tab_setup env pg el l t c \<longleftrightarrow>
     list_element pg el = Some l \<and> el \<in> set (candidates pg l) \<and> \<not> hasClass pg el ''disabled'' \<and>
     tab_target env pg el = Some t \<and> parentNode pg t = Some c \<and> t \<in> set (candidates pg c) \<and>
     set (candidates pg l) \<inter> set (candidates pg c) = {}"

lemma tab_setup_same: "same_page pg pg' \<Longrightarrow> tab_setup env pg' el l t c = tab_setup env pg el l t c"
  by (simp add: tab_setup_def same_page_list same_page_candidates same_page_target same_page_parent)
    (simp add: same_page_def)

lemma same_page_ready:
  assumes "same_page pg pg'" "no_dropdowns pg" "distinct (elements pg)" "tab_setup env pg el l t c"
  shows "no_dropdowns pg'" "distinct (elements pg')" "tab_setup env pg' el l t c"
proof -
  show "no_dropdowns pg'" using assms same_page_none by blast
  show "distinct (elements pg')" using assms by (simp add: same_page_def)
  show "tab_setup env pg' el l t c" using assms tab_setup_same by blast
qed

lemma complete_active:
  "no_dropdowns pg \<Longrightarrow> active_elements (transition_complete el act pg) c =
     filter (\<lambda>e. e = el \<or> act \<noteq> Some e \<and> hasClass pg e ''active'') (candidates pg c)"
  using same_page_candidates [OF same_page_complete, of pg el act]
  by (simp add: active_candidates tab_complete_keeps)

lemma distinct_candidates: "distinct (elements pg) \<Longrightarrow> distinct (candidates pg c)"
  by (simp add: candidates_def children_def)

lemma filter_one: "distinct xs \<Longrightarrow> a \<in> set xs \<Longrightarrow> filter (\<lambda>e. e = a) xs = [a]"
  by (induction xs) (auto simp: filter_empty_conv)

text \<open>The completion in a container with at most one active element leaves the given one alone.\<close>

lemma complete_sole:
  assumes "no_dropdowns pg" "distinct (elements pg)" "el \<in> set (candidates pg c)"
    and "length (active_elements pg c) \<le> 1"
  shows "active_elements (transition_complete el (first_elt (active_elements pg c)) pg) c = [el]"
proof -
  have "first_elt (active_elements pg c) = Some e"
    if "e \<in> set (candidates pg c)" "hasClass pg e ''active''" for e
  proof -
    have "e \<in> set (active_elements pg c)" using that by (simp add: active_candidates)
    then show ?thesis using assms(4) by (cases "active_elements pg c") (auto simp: first_elt_def)
  qed
  then have "filter (\<lambda>e. e = el \<or> first_elt (active_elements pg c) \<noteq> Some e \<and> hasClass pg e ''active'') (candidates pg c)
      = filter (\<lambda>e. e = el) (candidates pg c)"
    by (intro filter_cong) auto
  then show ?thesis
    using assms by (simp add: complete_active filter_one distinct_candidates)
qed

text \<open>In another container nothing changes.\<close>

lemma complete_other:
  assumes "no_dropdowns pg" "el \<notin> set (candidates pg c)" "\<And>a. act = Some a \<Longrightarrow> a \<notin> set (candidates pg c)"
  shows "active_elements (transition_complete el act pg) c = active_elements pg c"
proof -
  have "active_elements (transition_complete el act pg) c = filter (\<lambda>e. hasClass pg e ''active'') (candidates pg c)"
    unfolding complete_active [OF assms(1)] by (rule filter_cong) (use assms(2,3) in auto)
  then show ?thesis by (simp add: active_candidates)
qed

lemma active_first:
  "first_elt (active_elements pg c) = Some a \<Longrightarrow> a \<in> set (candidates pg c) \<and> hasClass pg a ''active''"
proof -
  assume "first_elt (active_elements pg c) = Some a"
  then have "a \<in> set (active_elements pg c)" by (cases "active_elements pg c") (simp_all add: first_elt_def)
  then show ?thesis by (simp add: active_candidates)
qed

lemma show_runs:
  assumes "tab_setup env pg el l t c" "\<And>ev. \<not> tabPrevents env ev" "\<not> hasClass pg el ''active''"
  shows "\<exists>pg1 prev. show_tab env el pg = Inr (activate_pane env t c el prev (activate_link el l pg1)) \<and>
    same_page pg pg1 \<and> hasClass pg1 = hasClass pg \<and> tabPending pg1 = tabPending pg"
proof -
  let ?prev = "previous_active pg l"
  let ?hide = "case ?prev of Some p \<Rightarrow> [HideTab p el] | None \<Rightarrow> []"
  let ?pg1 = "tab_trigger (?hide @ [ShowTab el ?prev]) pg"
  have s: "same_page pg ?pg1" by simp
  have none: "\<not> list_ex (tabPrevents env) evs" for evs by (simp add: list_ex_iff assms(2))
  have p: "parentNode (activate_link el l ?pg1) = parentNode ?pg1"
  proof -
    have "ancestors (deactivate a q) = ancestors q" for a and q :: tab_page
      by (simp add: deactivate_def Let_def split: option.splits)
    moreover have "ancestors (mark_dropdown e q) = ancestors q" for e and q :: tab_page
      by (simp add: mark_dropdown_def split: option.splits)
    ultimately have "ancestors (transition_complete e act q) = ancestors q" for e act and q :: tab_page
      by (cases act) (simp_all add: transition_complete_def Let_def)
    then show ?thesis by (simp add: activate_link_def parentNode_def fun_eq_iff)
  qed
  have "show_tab env el pg = Inr (activate_pane env t c el ?prev (activate_link el l ?pg1))"
    using assms p none same_page_target [OF s, of env] same_page_parent [OF s]
    by (simp add: show_tab_def tab_setup_def Let_def)
  then show ?thesis using s by (intro exI conjI) (assumption, simp_all)
qed

text \<open>The page after the link's part of the call: its list shows the link, other containers are as before.\<close>

lemma link_part:
  assumes "no_dropdowns pg" "distinct (elements pg)" "tab_setup env pg el l t c"
    and "length (active_elements pg l) \<le> 1"
  shows "same_page pg (activate_link el l pg)" "tabPending (activate_link el l pg) = tabPending pg"
    "active_elements (activate_link el l pg) l = [el]"
    "active_elements (activate_link el l pg) c = active_elements pg c"
proof -
  show "same_page pg (activate_link el l pg)" "tabPending (activate_link el l pg) = tabPending pg"
    using assms(1) by (simp_all add: activate_link_def same_page_complete)
  show "active_elements (activate_link el l pg) l = [el]"
    unfolding activate_link_def
    by (rule complete_sole) (use assms in \<open>simp_all add: tab_setup_def\<close>)
  show "active_elements (activate_link el l pg) c = active_elements pg c"
    unfolding activate_link_def
    by (rule complete_other) (use assms active_first in \<open>auto simp: tab_setup_def\<close>)
qed

lemma active_same:
  "same_page pg pg' \<Longrightarrow> hasClass pg' = hasClass pg \<Longrightarrow> active_elements pg' c = active_elements pg c"
  by (simp add: active_candidates same_page_candidates)

lemma active_log [simp]:
  "active_elements (shown_callback l pr pg) c = active_elements pg c"
  "active_elements (pg\<lparr>tabPending := p\<rparr>) c = active_elements pg c"
  by (rule active_same; simp)+

text \<open>The end of a switch of the pane \<open>a\<close> for \<open>t\<close>, on a page whose link is already marked.\<close>

lemma finish_switch:
  assumes "no_dropdowns q" "distinct (elements q)" "tab_setup env q el l t c"
    and "active_elements q l = [el]" "active_elements q c = [a]" "tabPending q = []"
  shows "active_elements (complete_tab \<lparr>tcElement = t, tcActive = Some a, tcLink = el, tcPrevious = prev\<rparr> q) l = [el] \<and>
    active_elements (complete_tab \<lparr>tcElement = t, tcActive = Some a, tcLink = el, tcPrevious = prev\<rparr> q) c = [t] \<and>
    tabPending (complete_tab \<lparr>tcElement = t, tcActive = Some a, tcLink = el, tcPrevious = prev\<rparr> q) = []"
proof -
  have f: "first_elt (active_elements q c) = Some a" using assms(5) by (simp add: first_elt_def)
  have "active_elements (transition_complete t (Some a) q) c = [t]"
    using complete_sole [OF assms(1,2), of t c] assms(3,5) f by (simp add: tab_setup_def)
  moreover have "active_elements (transition_complete t (Some a) q) l = active_elements q l"
    by (rule complete_other) (use assms(1-3) active_first [OF f] in \<open>auto simp: tab_setup_def\<close>)
  ultimately show ?thesis using assms(1,4,6) by (simp add: complete_tab_def)
qed

text \<open>
  Switching tabs: the call on a link that is not active, in a list with at most one active
  link and with one pane active in the container of its target, returns, and once the old pane
  has faded out the link is the only active one of its list and its target the only active pane.
\<close>

theorem tab_switch:
  assumes "no_dropdowns pg" and "distinct (elements pg)" and "tab_setup env pg el l t c"
    and "\<forall>ev. \<not> tabPrevents env ev" and "\<not> hasClass pg el ''active''"
    and "length (active_elements pg l) \<le> 1" and "active_elements pg c = [a]" and "tabPending pg = []"
  shows "\<exists>pg'. show_tab env el pg = Inr pg' \<and> active_elements (tab_transition_end a pg') l = [el] \<and>
    active_elements (tab_transition_end a pg') c = [t] \<and> tabPending (tab_transition_end a pg') = []"
proof -
  obtain pg1 prev where run: "show_tab env el pg = Inr (activate_pane env t c el prev (activate_link el l pg1))"
    and s1: "same_page pg pg1" "hasClass pg1 = hasClass pg" "tabPending pg1 = []"
    using show_runs [of env pg el l t c] assms by auto
  note n1 = same_page_ready [OF s1(1) assms(1-3)]
  have act1: "active_elements pg1 l = active_elements pg l" "active_elements pg1 c = [a]"
    using assms(7) active_same [OF s1(1,2)] by simp_all
  let ?pg2 = "activate_link el l pg1"
  have len: "length (active_elements pg1 l) \<le> 1" using act1 assms(6) by simp
  note link = link_part [OF n1 len]
  note n2 = same_page_ready [OF link(1) n1]
  have a2: "active_elements ?pg2 c = [a]" using link(4) act1 by simp
  let ?t = "\<lparr>tcElement = t, tcActive = Some a, tcLink = el, tcPrevious = prev\<rparr>"
  have fin: "active_elements (complete_tab ?t q) l = [el] \<and> active_elements (complete_tab ?t q) c = [t] \<and>
      tabPending (complete_tab ?t q) = []"
    if q: "same_page ?pg2 q" "hasClass q = hasClass ?pg2" "tabPending q = []" for q
    using finish_switch [OF same_page_ready [OF q(1) n2]] active_same [OF q(1,2)] a2 link(3) q(3) by simp
  show ?thesis
  proof (cases "tabSupportsEnd env \<and> hasClass ?pg2 a ''fade''")
    case True
    then have "activate_pane env t c el prev ?pg2 = ?pg2\<lparr>tabPending := [(a, ?t)]\<rparr>"
      using a2 link(2) s1(3) by (simp add: activate_pane_def first_elt_def)
    then have "show_tab env el pg = Inr (?pg2\<lparr>tabPending := [(a, ?t)]\<rparr>)" using run by simp
    moreover have "tab_transition_end a (?pg2\<lparr>tabPending := [(a, ?t)]\<rparr>) = complete_tab ?t (?pg2\<lparr>tabPending := []\<rparr>)"
      by (simp add: tab_transition_end_def)
    moreover note fin [of "?pg2\<lparr>tabPending := []\<rparr>"]
    ultimately show ?thesis by simp
  next
    case False
    then have "show_tab env el pg = Inr (complete_tab ?t ?pg2)"
      using run a2 by (auto simp: activate_pane_def first_elt_def Let_def)
    moreover have "tab_transition_end a q = q" if "tabPending q = []" for q
      using that by (cases q) (simp add: tab_transition_end_def)
    moreover have "tabPending ?pg2 = []" using link(2) s1(3) by simp
    ultimately show ?thesis using fin [of ?pg2] by simp
  qed
qed

text \<open>Three links in a navigation and their panes in another element; the first is shown.\<close>

definition demo_tabs :: tab_page where
  "demo_tabs =
     \<lparr>elements = [0, 1, 2, 3, 10, 11, 12, 13],
      ancestors = (\<lambda>e. if e \<in> {1, 2, 3} then [0] else if e \<in> {11, 12, 13} then [10] else []),
      nodeName = (\<lambda>_. ''DIV''),
      classList = (\<lambda>e. if e = 0 then {''nav''} else if e = 1 then {''active''}
        else if e = 11 then {''fade'', ''show'', ''active''} else {''fade''}),
      attribute = (\<lambda>e a. if a = ''data-target'' then
        (if e = 1 then Some ''a'' else if e = 2 then Some ''b'' else if e = 3 then Some ''c'' else None) else None),
      tabPending = [], tabEvents = []\<rparr>"

definition demo_tab_env :: tab_env where
  "demo_tab_env =
     \<lparr>tabSupportsEnd = True, tabPrevents = (\<lambda>_. False),
      tabQuery = (\<lambda>s. Some (if s = ''a'' then [11] else if s = ''b'' then [12] else if s = ''c'' then [13] else [])),
      tabEscape = None\<rparr>"

lemma demo_candidates: "candidates demo_tabs 0 = [1, 2, 3]" "candidates demo_tabs 10 = [11, 12, 13]"
  by (simp_all add: candidates_def children_def parentNode_def demo_tabs_def)

lemma demo_active: "active_elements demo_tabs 0 = [1]" "active_elements demo_tabs 10 = [11]"
  by (simp_all add: active_candidates demo_candidates) (simp_all add: hasClass_def demo_tabs_def)

lemma demo_setup: "tab_setup demo_tab_env demo_tabs 2 0 12 10" "tab_setup demo_tab_env demo_tabs 3 0 13 10"
  by (simp_all add: tab_setup_def demo_candidates)
    (simp_all add: list_element_def closest_def hasClass_def demo_tabs_def demo_tab_env_def tab_target_def
      getSelectorFromElement_def parentNode_def first_elt_def)

lemma demo_ready:
  "no_dropdowns demo_tabs" "distinct (elements demo_tabs)" "tabPending demo_tabs = []"
  "\<not> tabPrevents demo_tab_env ev" "tabSupportsEnd demo_tab_env" "hasClass demo_tabs 11 ''fade''"
  "\<not> hasClass demo_tabs 2 ''active''" "\<not> hasClass demo_tabs 3 ''active''"
  by (simp_all add: no_dropdowns_def hasClass_def demo_tabs_def demo_tab_env_def)

theorem tab_switch_witness:
  "\<exists>pg'. show_tab demo_tab_env 2 demo_tabs = Inr pg' \<and> active_elements (tab_transition_end 11 pg') 0 = [2] \<and>
    active_elements (tab_transition_end 11 pg') 10 = [12] \<and> tabPending (tab_transition_end 11 pg') = []"
  by (rule tab_switch) (use demo_ready demo_setup demo_active in simp_all)

section \<open>Two switches during one transition\<close>

lemma show_fading:
  assumes "no_dropdowns pg" "distinct (elements pg)" "tab_setup env pg el l t c"
    and "\<And>ev. \<not> tabPrevents env ev" "\<not> hasClass pg el ''active''"
    and "length (active_elements pg l) \<le> 1" "active_elements pg c = [a]"
    and "tabSupportsEnd env" "hasClass pg a ''fade''"
  shows "\<exists>q prev. show_tab env el pg = Inr (q\<lparr>tabPending := tabPending pg @
      [(a, \<lparr>tcElement = t, tcActive = Some a, tcLink = el, tcPrevious = prev\<rparr>)]\<rparr>) \<and>
    same_page pg q \<and> active_elements q l = [el] \<and> active_elements q c = [a] \<and>
    (\<forall>e. e \<notin> set (candidates pg l) \<longrightarrow> hasClass q e ''active'' = hasClass pg e ''active'')"
proof -
  obtain pg1 prev where run: "show_tab env el pg = Inr (activate_pane env t c el prev (activate_link el l pg1))"
    and s1: "same_page pg pg1" "hasClass pg1 = hasClass pg" "tabPending pg1 = tabPending pg"
    using show_runs [of env pg el l t c] assms by auto
  note n1 = same_page_ready [OF s1(1) assms(1-3)]
  have act1: "active_elements pg1 l = active_elements pg l" "active_elements pg1 c = [a]"
    using assms(7) active_same [OF s1(1,2)] by simp_all
  let ?q = "activate_link el l pg1"
  have len: "length (active_elements pg1 l) \<le> 1" using act1 assms(6) by simp
  note link = link_part [OF n1 len]
  have fade: "hasClass ?q a ''fade''"
    using link(1) assms(9) s1(2) by (simp add: same_page_def)
  have "show_tab env el pg = Inr (?q\<lparr>tabPending := tabPending pg @
      [(a, \<lparr>tcElement = t, tcActive = Some a, tcLink = el, tcPrevious = prev\<rparr>)]\<rparr>)"
    using run fade assms(8) link(2,4) act1 s1(3) by (simp add: activate_pane_def first_elt_def)
  moreover have "same_page pg ?q" using same_page_trans [OF s1(1) link(1)] .
  moreover have "active_elements ?q l = [el]" "active_elements ?q c = [a]" using link act1 by simp_all
  moreover have "hasClass ?q e ''active'' = hasClass pg e ''active''" if "e \<notin> set (candidates pg l)" for e
  proof -
    have "candidates pg1 l = candidates pg l" by (simp add: same_page_candidates [OF s1(1)])
    then have "e \<noteq> el" "first_elt (active_elements pg1 l) \<noteq> Some e"
      using that n1(3) active_first [of pg1 l e] by (auto simp: tab_setup_def)
    then show ?thesis using n1(1) s1(2) by (simp add: activate_link_def tab_complete_keeps)
  qed
  ultimately show ?thesis by blast
qed

text \<open>Two completions from the same old pane: both new panes are active after them.\<close>

lemma two_completions:
  assumes "no_dropdowns r"
    and "tcActive T1 = Some a" "tcElement T1 = t1" "tcActive T2 = Some a" "tcElement T2 = t2"
  shows "active_elements (complete_tab T2 (complete_tab T1 r)) x =
    filter (\<lambda>e. e = t2 \<or> e \<noteq> a \<and> (e = t1 \<or> hasClass r e ''active'')) (candidates r x)"
proof -
  let ?u = "transition_complete t1 (Some a) r"
  let ?v = "shown_callback (tcLink T1) (tcPrevious T1) ?u"
  have su: "same_page r ?v" using same_page_complete [OF assms(1)] by simp
  have nv: "no_dropdowns ?v" using assms(1) same_page_none [OF su] by simp
  have cand: "candidates (transition_complete t2 (Some a) ?v) = candidates r"
    using same_page_candidates [OF same_page_trans [OF su same_page_complete [OF nv]]] .
  have cls: "hasClass (transition_complete t2 (Some a) ?v) e ''active'' =
      (e = t2 \<or> e \<noteq> a \<and> (e = t1 \<or> hasClass r e ''active''))" for e
    using nv assms(1) by (simp add: tab_complete_keeps) auto
  have "active_elements (complete_tab T2 (complete_tab T1 r)) x =
      active_elements (transition_complete t2 (Some a) ?v) x"
    unfolding complete_tab_def using assms(2-5) by simp
  then show ?thesis by (simp only: active_candidates cand cls)
qed

text \<open>
  Two switches while one pane fades: when a second link is called before the old pane has
  faded out, the end of the transition completes both calls and leaves both panes active, though
  only the second link is.
\<close>

theorem tab_race_two_panes:
  assumes "no_dropdowns pg" "distinct (elements pg)" "\<forall>ev. \<not> tabPrevents env ev"
    and "tab_setup env pg el1 l t1 c" "tab_setup env pg el2 l t2 c" "el1 \<noteq> el2"
    and "\<not> hasClass pg el1 ''active''" "\<not> hasClass pg el2 ''active''"
    and "length (active_elements pg l) \<le> 1" "active_elements pg c = [a]"
    and "tabSupportsEnd env" "hasClass pg a ''fade''" "tabPending pg = []" "t1 \<noteq> a" "t2 \<noteq> a"
  shows "\<exists>pg1 pg2. show_tab env el1 pg = Inr pg1 \<and> show_tab env el2 pg1 = Inr pg2 \<and>
    set (active_elements (tab_transition_end a pg2) c) = {t1, t2} \<and>
    active_elements (tab_transition_end a pg2) l = [el2]"
proof -
  obtain q prev where q: "show_tab env el1 pg = Inr (q\<lparr>tabPending := tabPending pg @
      [(a, \<lparr>tcElement = t1, tcActive = Some a, tcLink = el1, tcPrevious = prev\<rparr>)]\<rparr>)" (is "_ = Inr ?q")
    "same_page pg q" "active_elements q l = [el1]" "active_elements q c = [a]"
    using show_fading [of pg env el1 l t1 c a] assms by blast
  have sq: "same_page pg ?q" using q(2) by simp
  note nq = same_page_ready [OF sq assms(1,2,5)]
  have aq: "active_elements ?q l = [el1]" "active_elements ?q c = [a]" using q by simp_all
  have "el2 \<in> set (candidates ?q l)" using nq(3) by (simp add: tab_setup_def)
  then have e2: "\<not> hasClass ?q el2 ''active''"
    using arg_cong [OF aq(1) [unfolded active_candidates], where f = set] assms(6) by auto
  have fq: "hasClass ?q a ''fade''" using q(2) assms(12) by (simp add: same_page_def)
  obtain r prev2 where r: "show_tab env el2 ?q = Inr (r\<lparr>tabPending := tabPending ?q @
      [(a, \<lparr>tcElement = t2, tcActive = Some a, tcLink = el2, tcPrevious = prev2\<rparr>)]\<rparr>)" (is "_ = Inr ?r")
    "same_page ?q r" "active_elements r l = [el2]" "active_elements r c = [a]"
    using show_fading [OF nq _ e2 _ aq(2) assms(11) fq] assms(3) aq(1) by auto
  let ?T1 = "\<lparr>tcElement = t1, tcActive = Some a, tcLink = el1, tcPrevious = prev\<rparr>"
  let ?T2 = "\<lparr>tcElement = t2, tcActive = Some a, tcLink = el2, tcPrevious = prev2\<rparr>"
  let ?s = "r\<lparr>tabPending := []\<rparr>"
  have fin: "tab_transition_end a ?r = complete_tab ?T2 (complete_tab ?T1 ?s)"
    using assms(13) by (simp add: tab_transition_end_def)
  have sr: "same_page pg ?s" using same_page_trans [OF sq] r(2) by simp
  have ns: "no_dropdowns ?s" using assms(1) same_page_none [OF sr] by simp
  have cr: "candidates r = candidates pg" using same_page_candidates [OF sr] by (simp add: same_page_candidates [of r ?s])
  have ra: "\<And>e. e \<in> set (candidates pg c) \<Longrightarrow> hasClass r e ''active'' = (e = a)"
    and rl: "\<And>e. e \<in> set (candidates pg l) \<Longrightarrow> hasClass r e ''active'' = (e = el2)"
    using arg_cong [OF r(4), where f = set] arg_cong [OF r(3), where f = set]
    by (auto simp: active_candidates cr)
  have a_c: "a \<in> set (candidates pg c)" using arg_cong [OF assms(10), where f = set] by (auto simp: active_candidates)
  have disj: "set (candidates pg l) \<inter> set (candidates pg c) = {}"
    and mem: "t1 \<in> set (candidates pg c)" "t2 \<in> set (candidates pg c)" "el2 \<in> set (candidates pg l)"
    using assms(4,5) by (simp_all add: tab_setup_def)
  have fa: "active_elements (tab_transition_end a ?r) x =
      filter (\<lambda>e. e = t2 \<or> e \<noteq> a \<and> (e = t1 \<or> hasClass r e ''active'')) (candidates pg x)" for x
    unfolding fin using two_completions [OF ns, of ?T1 a t1 ?T2 t2 x] same_page_candidates [OF sr] by simp
  have "set (active_elements (tab_transition_end a ?r) c) = {t1, t2}"
    unfolding fa using mem a_c ra assms(14,15) by auto
  moreover have "active_elements (tab_transition_end a ?r) l = [el2]"
  proof -
    have "active_elements (tab_transition_end a ?r) l = filter (\<lambda>e. e = el2) (candidates pg l)"
      unfolding fa by (rule filter_cong) (use disj mem a_c rl in auto)
    then show ?thesis using mem(3) assms(2) by (simp add: filter_one distinct_candidates)
  qed
  ultimately show ?thesis using q(1) r(1) by blast
qed

theorem tab_race_two_panes_witness:
  "\<exists>pg1 pg2. show_tab demo_tab_env 2 demo_tabs = Inr pg1 \<and> show_tab demo_tab_env 3 pg1 = Inr pg2 \<and>
    set (active_elements (tab_transition_end 11 pg2) 10) = {12, 13} \<and>
    active_elements (tab_transition_end 11 pg2) 0 = [3]"
  by (rule tab_race_two_panes) (use demo_ready demo_setup demo_active in simp_all)

end
