(* ===== verification/Bs_Dropdown.thy ===== *)
theory Bs_Dropdown
  imports Bs_Page
begin

text \<open>
  The dropdown plugin of \<open>client/w3cDemo/js/bootstrap.js\<close>: the toggles of a page, their menus,
  the closing of all menus before one opens, the positioning library's configuration and the
  keyboard. An instance is kept with its toggle; the events of the page's handlers are prevented
  as the environment says.
\<close>

section \<open>State\<close>

record dropdown =
  ddOffset :: jsval
  ddFlip :: jsval
  ddBoundary :: jsval
  ddMenu :: "nat option"
  ddInNavbar :: bool
  ddPopper :: bool

datatype dropdown_event = HideMenu nat | HiddenMenu nat | ShowMenu nat | ShownMenu nat

text \<open>What is given to the positioning library: its reference, its popper and its options.\<close>

datatype offset_option = OffsetValue jsval | OffsetFunction jsval

record popper_request =
  prReference :: nat
  prPopper :: "nat option"
  prPlacement :: string
  prOffset :: offset_option
  prFlip :: jsval
  prBoundaries :: jsval

record dropdown_page = page +
  instances :: "nat \<Rightarrow> dropdown option"
  bodyMouseover :: bool
  focused :: "nat option"
  popperRequests :: "popper_request list"
  dropdownEvents :: "dropdown_event list"

record dropdown_env =
  ddPrevents :: "dropdown_event \<Rightarrow> bool"
  ddQuery :: "string \<Rightarrow> nat list option"
  ddEscape :: "(string \<Rightarrow> string) option"
  ddData :: "nat \<Rightarrow> js_options"
  ddDisabled :: "nat \<Rightarrow> bool"
  touchDevice :: bool
  popperLoaded :: bool

record menu_event =
  evWhich :: nat
  evType :: string
  evTarget :: nat

section \<open>Queries\<close>

definition getParentFromElement :: "dropdown_env \<Rightarrow> 'a page_scheme \<Rightarrow> nat \<Rightarrow> nat option" where
  "getParentFromElement env pg e =
     (let target = (case getSelectorFromElement (ddEscape env) (ddQuery env) (attribute pg e) of
             Some s \<Rightarrow> if s = [] then None else Option.bind (ddQuery env s) first_elt
           | None \<Rightarrow> None)
      in case target of Some t \<Rightarrow> Some t | None \<Rightarrow> parentNode pg e)"

definition menuElement :: "dropdown_env \<Rightarrow> 'a page_scheme \<Rightarrow> nat \<Rightarrow> nat option" where
  "menuElement env pg e =
     Option.bind (getParentFromElement env pg e)
       (\<lambda>p. first_elt (filter (\<lambda>x. hasClass pg x ''dropdown-menu'') (descendants pg p)))"

definition detectNavbar :: "'a page_scheme \<Rightarrow> nat \<Rightarrow> bool" where
  "detectNavbar pg e = (closest pg (\<lambda>x. hasClass pg x ''navbar'') e \<noteq> None)"

definition toggles :: "'a page_scheme \<Rightarrow> nat list" where
  "toggles pg = filter (\<lambda>e. attribute pg e ''data-toggle'' = Some ''dropdown'') (elements pg)"

definition opt_hasClass :: "'a page_scheme \<Rightarrow> nat option \<Rightarrow> string \<Rightarrow> bool" where
  "opt_hasClass pg e k = (case e of Some x \<Rightarrow> hasClass pg x k | None \<Rightarrow> False)"

definition opt_do :: "(nat \<Rightarrow> 'b \<Rightarrow> 'b) \<Rightarrow> nat option \<Rightarrow> 'b \<Rightarrow> 'b" where
  "opt_do f e pg = (case e of Some x \<Rightarrow> f x pg | None \<Rightarrow> pg)"

text \<open>\<open>/input|textarea/i.test(tagName)\<close>.\<close>

definition is_text_input :: "'a page_scheme \<Rightarrow> nat \<Rightarrow> bool" where
  "is_text_input pg e =
     (let n = map upper_char (nodeName pg e) in sublist ''INPUT'' n \<or> sublist ''TEXTAREA'' n)"

section \<open>Instances\<close>

definition new_dropdown :: "dropdown_env \<Rightarrow> nat \<Rightarrow> js_options \<Rightarrow> 'a page_scheme \<Rightarrow> string + dropdown" where
  "new_dropdown env e given pg =
     (case getConfig ''dropdown'' dropdown_options dropdown_types (extends (ddData env e) given) of
        Inl msg \<Rightarrow> Inl msg
      | Inr cfg \<Rightarrow>
          Inr \<lparr>ddOffset = property cfg ''offset'', ddFlip = property cfg ''flip'',
               ddBoundary = property cfg ''boundary'', ddMenu = menuElement env pg e,
               ddInNavbar = detectNavbar pg e, ddPopper = False\<rparr>)"

definition getPlacement :: "dropdown \<Rightarrow> nat \<Rightarrow> 'a page_scheme \<Rightarrow> string" where
  "getPlacement d e pg =
     (let p = parentNode pg e; right = opt_hasClass pg (ddMenu d) ''dropdown-menu-right''
      in if opt_hasClass pg p ''dropup'' then (if right then ''top-end'' else ''top-start'')
         else if opt_hasClass pg p ''dropright'' then ''right-start''
         else if opt_hasClass pg p ''dropleft'' then ''left-start''
         else if right then ''bottom-end''
         else ''bottom-start'')"

definition getPopperConfig :: "dropdown \<Rightarrow> nat \<Rightarrow> nat \<Rightarrow> 'a page_scheme \<Rightarrow> popper_request" where
  "getPopperConfig d e reference pg =
     \<lparr>prReference = reference, prPopper = ddMenu d, prPlacement = getPlacement d e pg,
      prOffset = (if toType (ddOffset d) = ''function'' then OffsetFunction (ddOffset d) else OffsetValue (ddOffset d)),
      prFlip = ddFlip d, prBoundaries = ddBoundary d\<rparr>"

section \<open>Closing and opening\<close>

definition dd_trigger :: "dropdown_event \<Rightarrow> dropdown_page \<Rightarrow> dropdown_page" where
  "dd_trigger ev pg = pg\<lparr>dropdownEvents := dropdownEvents pg @ [ev]\<rparr>"

definition contains :: "'a page_scheme \<Rightarrow> nat option \<Rightarrow> nat \<Rightarrow> bool" where
  "contains pg p e = (case p of Some x \<Rightarrow> x \<in> set (ancestors pg e) | None \<Rightarrow> False)"

text \<open>The event keeps a menu open: a click into its text fields, or the tab key inside it.\<close>

definition keeps_open :: "'a page_scheme \<Rightarrow> menu_event option \<Rightarrow> nat option \<Rightarrow> bool" where
  "keeps_open pg event parent =
     (case event of
        None \<Rightarrow> False
      | Some ev \<Rightarrow>
          (evType ev = ''click'' \<and> is_text_input pg (evTarget ev) \<or>
           evType ev = ''keyup'' \<and> evWhich ev = 9) \<and> contains pg parent (evTarget ev))"

definition clear_menu :: "dropdown_env \<Rightarrow> menu_event option \<Rightarrow> nat \<Rightarrow> dropdown_page \<Rightarrow> dropdown_page" where
  "clear_menu env event t pg =
     (let parent = getParentFromElement env pg t
      in case instances pg t of
           None \<Rightarrow> pg
         | Some context \<Rightarrow>
             if \<not> opt_hasClass pg parent ''show'' then pg
             else if keeps_open pg event parent then pg
             else (let pg1 = dd_trigger (HideMenu t) pg
                   in if ddPrevents env (HideMenu t) then pg1
                      else (let pg2 = (if touchDevice env then pg1\<lparr>bodyMouseover := False\<rparr> else pg1);
                                pg3 = setAttribute ''aria-expanded'' ''false'' t pg2;
                                pg4 = opt_do (jq_removeClass ''show'') (ddMenu context) pg3;
                                pg5 = opt_do (jq_removeClass ''show'') parent pg4
                            in dd_trigger (HiddenMenu t) pg5)))"

definition ignores :: "menu_event option \<Rightarrow> bool" where
  "ignores event =
     (case event of None \<Rightarrow> False | Some ev \<Rightarrow> evWhich ev = 3 \<or> evType ev = ''keyup'' \<and> evWhich ev \<noteq> 9)"

definition clearMenus :: "dropdown_env \<Rightarrow> menu_event option \<Rightarrow> dropdown_page \<Rightarrow> dropdown_page" where
  "clearMenus env event pg =
     (if ignores event then pg else fold (clear_menu env event) (toggles pg) pg)"

text \<open>The creation of the popper; \<open>Inl\<close>: the positioning library is not loaded.\<close>

definition create_popper ::
  "dropdown_env \<Rightarrow> dropdown \<Rightarrow> nat \<Rightarrow> nat option \<Rightarrow> dropdown_page \<Rightarrow> dropdown_page + dropdown_page" where
  "create_popper env d e parent pg =
     (if ddInNavbar d then Inr pg
      else if \<not> popperLoaded env then Inl pg
      else
        (let aligned = opt_hasClass pg (ddMenu d) ''dropdown-menu-left'' \<or>
               opt_hasClass pg (ddMenu d) ''dropdown-menu-right'';
             reference = (case parent of
                 Some p \<Rightarrow> if hasClass pg p ''dropup'' \<and> aligned then p else e
               | None \<Rightarrow> e);
             pg1 = (if ddBoundary d \<noteq> JText ''scrollParent''
                    then opt_do (jq_addClass ''position-static'') parent pg else pg)
         in Inr (pg1\<lparr>instances := (instances pg1)(e \<mapsto> d\<lparr>ddPopper := True\<rparr>),
                     popperRequests := popperRequests pg1 @ [getPopperConfig d e reference pg1]\<rparr>)))"

definition toggle_class :: "string \<Rightarrow> nat \<Rightarrow> 'a page_scheme \<Rightarrow> 'a page_scheme" where
  "toggle_class k e pg = jq_toggleClass k (\<not> hasClass pg e k) e pg"

definition open_menu :: "dropdown_env \<Rightarrow> dropdown \<Rightarrow> nat \<Rightarrow> nat option \<Rightarrow> dropdown_page \<Rightarrow> dropdown_page" where
  "open_menu env d e parent pg =
     (let inNavbarNav = (case parent of
              Some p \<Rightarrow> closest pg (\<lambda>x. hasClass pg x ''navbar-nav'') p \<noteq> None | None \<Rightarrow> False);
          pg1 = (if touchDevice env \<and> \<not> inNavbarNav then pg\<lparr>bodyMouseover := True\<rparr> else pg);
          pg2 = setAttribute ''aria-expanded'' ''true'' e (pg1\<lparr>focused := Some e\<rparr>);
          pg3 = opt_do (toggle_class ''show'') (ddMenu d) pg2;
          pg4 = opt_do (toggle_class ''show'') parent pg3
      in dd_trigger (ShownMenu e) pg4)"

definition toggle_dropdown :: "dropdown_env \<Rightarrow> nat \<Rightarrow> dropdown \<Rightarrow> dropdown_page \<Rightarrow> dropdown_page + dropdown_page" where
  "toggle_dropdown env e d pg =
     (if ddDisabled env e \<or> hasClass pg e ''disabled'' then Inr pg
      else
        (let parent = getParentFromElement env pg e;
             isActive = opt_hasClass pg (ddMenu d) ''show'';
             pg1 = clearMenus env None pg
         in if isActive then Inr pg1
            else (let pg2 = dd_trigger (ShowMenu e) pg1
                  in if ddPrevents env (ShowMenu e) then Inr pg2
                     else (case create_popper env d e parent pg2 of
                         Inl pg3 \<Rightarrow> Inl pg3
                       | Inr pg3 \<Rightarrow> Inr (open_menu env d e parent pg3)))))"

text \<open>
  The click on a toggle: its instance is created when it has none. The message of a refused
  configuration is kept beside the page.
\<close>

definition click_toggle :: "dropdown_env \<Rightarrow> nat \<Rightarrow> dropdown_page \<Rightarrow> (string option \<times> dropdown_page) + dropdown_page" where
  "click_toggle env e pg =
     (case (case instances pg e of Some d \<Rightarrow> Inr d | None \<Rightarrow> new_dropdown env e Map.empty pg) of
        Inl msg \<Rightarrow> Inl (Some msg, pg)
      | Inr d \<Rightarrow>
          (case toggle_dropdown env e d (pg\<lparr>instances := (instances pg)(e \<mapsto> d)\<rparr>) of
             Inl pg' \<Rightarrow> Inl (None, pg')
           | Inr pg' \<Rightarrow> Inr pg'))"

section \<open>The keyboard\<close>

datatype key_outcome =
    Ignored
  | Consumed
  | Clicks "nat option"
  | Focuses nat

definition command_key :: "nat \<Rightarrow> bool" where
  "command_key which =
     (let s = show_nat which in sublist ''38'' s \<or> sublist ''40'' s \<or> sublist ''27'' s)"

definition not_a_command :: "'a page_scheme \<Rightarrow> nat \<Rightarrow> nat \<Rightarrow> bool" where
  "not_a_command pg target which =
     (if is_text_input pg target
      then which = 32 \<or> which \<noteq> 27 \<and>
        (which \<noteq> 40 \<and> which \<noteq> 38 \<or> closest pg (\<lambda>x. hasClass pg x ''dropdown-menu'') target \<noteq> None)
      else \<not> command_key which)"

fun indexOf :: "nat list \<Rightarrow> nat \<Rightarrow> int" where
  "indexOf [] e = -1"
| "indexOf (x # xs) e = (if x = e then 0 else (let i = indexOf xs e in if i = -1 then -1 else i + 1))"

definition next_index :: "nat \<Rightarrow> nat \<Rightarrow> int \<Rightarrow> int" where
  "next_index which n index =
     (let i1 = (if which = 38 \<and> 0 < index then index - 1 else index);
          i2 = (if which = 40 \<and> i1 < int n - 1 then i1 + 1 else i1)
      in if i2 < 0 then 0 else i2)"

definition visible_items :: "'a page_scheme \<Rightarrow> nat option \<Rightarrow> nat list" where
  "visible_items pg parent =
     (case parent of
        None \<Rightarrow> []
      | Some p \<Rightarrow> filter (\<lambda>e. hasClass pg e ''dropdown-item'' \<and> \<not> hasClass pg e ''disabled'' \<and>
          list_ex (\<lambda>a. hasClass pg a ''dropdown-menu'') (ancestors pg e)) (descendants pg p))"

definition dataApiKeydownHandler :: "dropdown_env \<Rightarrow> nat \<Rightarrow> nat \<Rightarrow> nat \<Rightarrow> 'a page_scheme \<Rightarrow> key_outcome" where
  "dataApiKeydownHandler env this target which pg =
     (if not_a_command pg target which then Ignored
      else if ddDisabled env this \<or> hasClass pg this ''disabled'' then Consumed
      else
        (let parent = getParentFromElement env pg this;
             isActive = opt_hasClass pg parent ''show''
         in if \<not> isActive \<and> (which \<noteq> 27 \<or> which \<noteq> 32) \<or> isActive \<and> (which = 27 \<or> which = 32)
            then Clicks (if which = 27
                         then Option.bind parent (\<lambda>p. first_elt (filter (\<lambda>x. x \<in> set (toggles pg)) (descendants pg p)))
                         else None)
            else (let items = visible_items pg parent
                  in if items = [] then Consumed
                     else Focuses (items ! nat (next_index which (length items) (indexOf items target))))))"

section \<open>At most one open menu\<close>

text \<open>
  Toggles with the same parent have the same menu, and conversely; no menu is the parent of a
  toggle; and a menu is shown only when the parent of its toggle is marked.
\<close>

definition with_menu :: "dropdown_page \<Rightarrow> nat \<Rightarrow> nat \<Rightarrow> bool" where
  "with_menu pg t m \<longleftrightarrow> t \<in> set (toggles pg) \<and> (\<exists>d. instances pg t = Some d \<and> ddMenu d = Some m)"

definition dd_tree :: "dropdown_env \<Rightarrow> dropdown_page \<Rightarrow> bool" where
  "dd_tree env pg \<longleftrightarrow>
     (\<forall>t \<in> set (toggles pg). \<forall>d. instances pg t = Some d \<longrightarrow> ddMenu d \<noteq> None) \<and>
     (\<forall>t m. with_menu pg t m \<longrightarrow> getParentFromElement env pg t \<noteq> None \<and>
        (\<forall>t' \<in> set (toggles pg). getParentFromElement env pg t' \<noteq> Some m) \<and>
        (\<forall>t' m'. with_menu pg t' m' \<longrightarrow>
           (getParentFromElement env pg t = getParentFromElement env pg t') = (m = m')))"

definition dd_marked :: "dropdown_env \<Rightarrow> dropdown_page \<Rightarrow> bool" where
  "dd_marked env pg \<longleftrightarrow>
     (\<forall>t m. with_menu pg t m \<and> hasClass pg m ''show'' \<longrightarrow> opt_hasClass pg (getParentFromElement env pg t) ''show'')"

text \<open>What the handlers leave alone.\<close>

definition dd_same :: "dropdown_page \<Rightarrow> dropdown_page \<Rightarrow> bool" where
  "dd_same pg pg' \<longleftrightarrow>
     elements pg' = elements pg \<and> ancestors pg' = ancestors pg \<and>
     (\<forall>e a. a \<noteq> ''aria-expanded'' \<longrightarrow> attribute pg' e a = attribute pg e a) \<and>
     (\<forall>t. map_option ddMenu (instances pg' t) = map_option ddMenu (instances pg t))"

lemma dd_same_refl [simp]: "dd_same pg pg" by (simp add: dd_same_def)

lemma dd_same_trans: "dd_same pg pg' \<Longrightarrow> dd_same pg' pg'' \<Longrightarrow> dd_same pg pg''"
  by (simp add: dd_same_def)

lemma dd_same_parent: "dd_same pg pg' \<Longrightarrow> getParentFromElement env pg' = getParentFromElement env pg"
proof
  fix e
  assume "dd_same pg pg'"
  then have eqs: "parentNode pg' e = parentNode pg e"
    "getSelectorFromElement (ddEscape env) (ddQuery env) (attribute pg' e) =
     getSelectorFromElement (ddEscape env) (ddQuery env) (attribute pg e)"
    by (auto simp: dd_same_def parentNode_def intro!: getSelector_cong)
  show "getParentFromElement env pg' e = getParentFromElement env pg e"
    unfolding getParentFromElement_def eqs ..
qed

lemma dd_same_toggles: "dd_same pg pg' \<Longrightarrow> toggles pg' = toggles pg"
  by (simp add: dd_same_def toggles_def)

lemma dd_same_menu: "dd_same pg pg' \<Longrightarrow> with_menu pg' t m = with_menu pg t m"
proof -
  assume s: "dd_same pg pg'"
  then have "map_option ddMenu (instances pg' t) = map_option ddMenu (instances pg t)" by (simp add: dd_same_def)
  then have "(\<exists>d. instances pg' t = Some d \<and> ddMenu d = Some m) = (\<exists>d. instances pg t = Some d \<and> ddMenu d = Some m)"
    by (cases "instances pg' t"; cases "instances pg t") auto
  then show ?thesis using dd_same_toggles [OF s] by (simp add: with_menu_def)
qed

lemma dd_same_tree:
  assumes "dd_same pg pg'" shows "dd_tree env pg' = dd_tree env pg"
proof -
  have "(\<forall>d. instances pg' t = Some d \<longrightarrow> ddMenu d \<noteq> None) = (\<forall>d. instances pg t = Some d \<longrightarrow> ddMenu d \<noteq> None)" for t
  proof -
    have "map_option ddMenu (instances pg' t) = map_option ddMenu (instances pg t)"
      using assms by (simp add: dd_same_def)
    then show ?thesis by (cases "instances pg' t"; cases "instances pg t") auto
  qed
  then show ?thesis
    unfolding dd_tree_def dd_same_menu [OF assms] dd_same_parent [OF assms] dd_same_toggles [OF assms] by simp
qed

lemma tree_parent: "dd_tree env pg \<Longrightarrow> with_menu pg t m \<Longrightarrow> \<exists>p. getParentFromElement env pg t = Some p"
  unfolding dd_tree_def by blast

lemma tree_menu_parent:
  "dd_tree env pg \<Longrightarrow> with_menu pg t m \<Longrightarrow> with_menu pg t' m' \<Longrightarrow> getParentFromElement env pg t' \<noteq> Some m"
  unfolding dd_tree_def with_menu_def by blast

lemma tree_shared:
  "dd_tree env pg \<Longrightarrow> with_menu pg t m \<Longrightarrow> with_menu pg t' m' \<Longrightarrow>
     (getParentFromElement env pg t = getParentFromElement env pg t') = (m = m')"
  unfolding dd_tree_def by blast

lemma tree_instance:
  "dd_tree env pg \<Longrightarrow> t \<in> set (toggles pg) \<Longrightarrow> instances pg t = Some d \<Longrightarrow> \<exists>m. ddMenu d = Some m \<and> with_menu pg t m"
  unfolding dd_tree_def with_menu_def by blast

text \<open>Marks and other fields change the class and attribute tables only.\<close>

lemma dd_fields [simp]:
  "instances (jq_addClass k e pg) = instances pg" "instances (jq_removeClass k e pg) = instances pg"
  "instances (setAttribute a v e pg) = instances pg" "instances (dd_trigger ev pg) = instances pg"
  "instances (jq_toggleClass k b e pg) = instances pg"
  by (simp_all add: jq_addClass_def jq_removeClass_def setAttribute_def dd_trigger_def jq_toggleClass_def)

lemma dd_hasClass [simp]:
  "hasClass (dd_trigger ev pg) = hasClass pg" "hasClass (pg\<lparr>bodyMouseover := b\<rparr>) = hasClass pg"
  "hasClass (pg\<lparr>focused := f\<rparr>) = hasClass pg"
  "hasClass (pg\<lparr>instances := i, popperRequests := r\<rparr>) = hasClass pg"
  by (simp_all add: dd_trigger_def hasClass_def fun_eq_iff)

lemma dd_same_simps [simp]:
  "dd_same pg (dd_trigger ev pg') = dd_same pg pg'" "dd_same pg (pg'\<lparr>bodyMouseover := b\<rparr>) = dd_same pg pg'"
  "dd_same pg (pg'\<lparr>focused := f\<rparr>) = dd_same pg pg'"
  "dd_same pg (jq_removeClass k e pg') = dd_same pg pg'" "dd_same pg (jq_addClass k e pg') = dd_same pg pg'"
  "dd_same pg (jq_toggleClass k on e pg') = dd_same pg pg'"
  "dd_same pg (setAttribute ''aria-expanded'' v e pg') = dd_same pg pg'"
  by (simp_all add: dd_same_def dd_trigger_def)

lemma dd_same_opt: "(\<And>e q. dd_same pg (f e q) = dd_same pg q) \<Longrightarrow> dd_same pg (opt_do f x q) = dd_same pg q"
  by (cases x) (simp_all add: opt_do_def)

lemma clear_same: "dd_same pg (clear_menu env ev t pg)"
  by (simp add: clear_menu_def Let_def dd_same_opt split: option.splits)

lemma opt_remove_class [simp]:
  "hasClass (opt_do (jq_removeClass k) x pg) e k' = (\<not> (x = Some e \<and> k = k') \<and> hasClass pg e k')"
  by (cases x) (simp_all add: opt_do_def)

text \<open>The step of a toggle: its menu and its parent are closed, no class is added.\<close>

lemma clear_hasClass:
  assumes "\<And>ev. \<not> ddPrevents env ev"
  shows "hasClass (clear_menu env None t pg) e ''show'' \<longleftrightarrow>
    hasClass pg e ''show'' \<and> \<not> (\<exists>d. instances pg t = Some d \<and>
      opt_hasClass pg (getParentFromElement env pg t) ''show'' \<and>
      (ddMenu d = Some e \<or> getParentFromElement env pg t = Some e))"
  using assms
  by (auto simp: clear_menu_def Let_def keeps_open_def split: option.splits)

text \<open>A toggle closes a parent with the menu of that parent.\<close>

lemma clear_parent:
  assumes "dd_tree env pg" "\<And>ev. \<not> ddPrevents env ev" "t \<in> set (toggles pg)" "with_menu pg t' m"
    and "getParentFromElement env pg t' = Some p"
    and "hasClass pg p ''show''" "\<not> hasClass (clear_menu env None t pg) p ''show''"
  shows "\<not> hasClass (clear_menu env None t pg) m ''show''"
proof -
  obtain d where d: "instances pg t = Some d" "opt_hasClass pg (getParentFromElement env pg t) ''show''"
    "ddMenu d = Some p \<or> getParentFromElement env pg t = Some p"
    using assms(6,7) by (auto simp: clear_hasClass [OF assms(2)])
  obtain m' where m': "ddMenu d = Some m'" "with_menu pg t m'" using tree_instance [OF assms(1,3) d(1)] by blast
  have "m' \<noteq> p" using tree_menu_parent [OF assms(1) m'(2) assms(4)] assms(5) by auto
  then have "getParentFromElement env pg t = Some p" using d(3) m'(1) by simp
  then have "m' = m" using tree_shared [OF assms(1) m'(2) assms(4)] assms(5) by simp
  then show ?thesis using d m' by (auto simp: clear_hasClass [OF assms(2)])
qed

lemma clear_marked:
  assumes "dd_tree env pg" "dd_marked env pg" "\<And>ev. \<not> ddPrevents env ev" "t \<in> set (toggles pg)"
  shows "dd_marked env (clear_menu env None t pg)"
  unfolding dd_marked_def
proof (intro allI impI)
  fix t' m
  assume *: "with_menu (clear_menu env None t pg) t' m \<and> hasClass (clear_menu env None t pg) m ''show''"
  note s = clear_same [of pg env None t]
  have wm: "with_menu pg t' m" using * dd_same_menu [OF s] by blast
  have hm: "hasClass pg m ''show''" using * clear_hasClass [OF assms(3)] by blast
  obtain p where p: "getParentFromElement env pg t' = Some p" using tree_parent [OF assms(1) wm] by blast
  have hp: "hasClass pg p ''show''" using assms(2) wm hm p by (force simp: dd_marked_def opt_hasClass_def)
  have "hasClass (clear_menu env None t pg) p ''show''"
    using clear_parent [OF assms(1,3,4) wm p hp] * by blast
  then show "opt_hasClass (clear_menu env None t pg) (getParentFromElement env (clear_menu env None t pg) t') ''show''"
    using p dd_same_parent [OF s] by (simp add: opt_hasClass_def)
qed

text \<open>After its own step the menu of a toggle is closed, and it stays so.\<close>

lemma clear_closes:
  assumes "dd_tree env pg" "dd_marked env pg" "\<And>ev. \<not> ddPrevents env ev" "with_menu pg t m"
  shows "\<not> hasClass (clear_menu env None t pg) m ''show''"
proof -
  obtain d where d: "instances pg t = Some d" "ddMenu d = Some m" using assms(4) by (auto simp: with_menu_def)
  show ?thesis
  proof (cases "hasClass pg m ''show''")
    case True
    then have "opt_hasClass pg (getParentFromElement env pg t) ''show''"
      using assms(2,4) by (auto simp: dd_marked_def)
    then show ?thesis using d by (auto simp: clear_hasClass [OF assms(3)])
  next
    case False
    then show ?thesis by (simp add: clear_hasClass [OF assms(3)])
  qed
qed

lemma clear_fold:
  assumes "dd_tree env pg" "dd_marked env pg" "\<And>ev. \<not> ddPrevents env ev" "set ts \<subseteq> set (toggles pg)"
  shows "dd_same pg (fold (clear_menu env None) ts pg) \<and> dd_marked env (fold (clear_menu env None) ts pg) \<and>
    (\<forall>e. hasClass (fold (clear_menu env None) ts pg) e ''show'' \<longrightarrow> hasClass pg e ''show'') \<and>
    (\<forall>t m. t \<in> set ts \<and> with_menu pg t m \<longrightarrow> \<not> hasClass (fold (clear_menu env None) ts pg) m ''show'') \<and>
    (\<forall>t m p. t \<in> set ts \<and> with_menu pg t m \<and> getParentFromElement env pg t = Some p \<longrightarrow>
       \<not> hasClass (fold (clear_menu env None) ts pg) p ''show'')"
  using assms
proof (induction ts arbitrary: pg)
  case (Cons t ts)
  let ?q = "clear_menu env None t pg"
  note s = clear_same [of pg env None t]
  have q: "dd_tree env ?q" "dd_marked env ?q" "set ts \<subseteq> set (toggles ?q)"
    using Cons.prems dd_same_tree [OF s] clear_marked [OF Cons.prems(1-3)] dd_same_toggles [OF s] by simp_all
  note IH = Cons.IH [OF q(1,2) Cons.prems(3) q(3)]
  have closed: "\<not> hasClass ?q m ''show''" if "with_menu pg t m" for m
    using clear_closes [OF Cons.prems(1-3) that] .
  have parent: "\<not> hasClass ?q p ''show''" if "with_menu pg t m" "getParentFromElement env pg t = Some p" for m p
    using that by (auto simp: clear_hasClass [OF Cons.prems(3)] with_menu_def opt_hasClass_def)
  have "hasClass ?q e ''show'' \<Longrightarrow> hasClass pg e ''show''" for e
    by (simp add: clear_hasClass [OF Cons.prems(3)])
  then show ?case
    using IH dd_same_trans [OF s] dd_same_menu [OF s] dd_same_parent [OF s] closed parent by auto
qed simp

lemma clearMenus_closes:
  assumes "dd_tree env pg" "dd_marked env pg" "\<And>ev. \<not> ddPrevents env ev"
  shows "dd_same pg (clearMenus env None pg)" "dd_marked env (clearMenus env None pg)"
    "with_menu pg t m \<Longrightarrow> \<not> hasClass (clearMenus env None pg) m ''show''"
    "with_menu pg t m \<Longrightarrow> getParentFromElement env pg t = Some p \<Longrightarrow> \<not> hasClass (clearMenus env None pg) p ''show''"
proof -
  have f: "clearMenus env None pg = fold (clear_menu env None) (toggles pg) pg"
    by (simp add: clearMenus_def ignores_def)
  note c = clear_fold [OF assms subset_refl]
  show "dd_same pg (clearMenus env None pg)" "dd_marked env (clearMenus env None pg)"
    unfolding f using c by blast+
  show "with_menu pg t m \<Longrightarrow> \<not> hasClass (clearMenus env None pg) m ''show''"
    "with_menu pg t m \<Longrightarrow> getParentFromElement env pg t = Some p \<Longrightarrow> \<not> hasClass (clearMenus env None pg) p ''show''"
    unfolding f using c by (metis with_menu_def)+
qed

lemma toggle_class_same [simp]: "dd_same pg (toggle_class k e pg') = dd_same pg pg'"
  by (simp add: toggle_class_def)

lemma toggle_class_has [simp]:
  "hasClass (toggle_class k e pg) e' k' = (if e = e' \<and> k = k' then \<not> hasClass pg e k else hasClass pg e' k')"
  by (simp add: toggle_class_def)

lemma open_same: "dd_same pg (open_menu env d e (Some p) pg)"
  by (simp add: open_menu_def Let_def dd_same_opt)

lemma open_hasClass:
  assumes "ddMenu d = Some m" "m \<noteq> p"
  shows "hasClass (open_menu env d e (Some p) pg) x ''show'' =
    (if x = m \<or> x = p then \<not> hasClass pg x ''show'' else hasClass pg x ''show'')"
  using assms by (auto simp: open_menu_def Let_def opt_do_def)

lemma create_ok:
  assumes "instances pg e = Some d" "popperLoaded env"
  shows "\<exists>pg'. create_popper env d e (Some p) pg = Inr pg' \<and> dd_same pg pg' \<and>
    (\<forall>x. hasClass pg' x ''show'' = hasClass pg x ''show'')"
proof (cases "ddInNavbar d")
  case True
  then show ?thesis by (simp add: create_popper_def)
next
  case False
  then show ?thesis
    using assms by (auto simp: create_popper_def Let_def dd_same_def opt_do_def)
qed

lemma clear_instances: "instances (clearMenus env None pg) = instances pg"
proof -
  have "instances (clear_menu env None t r) = instances r" for t r
    by (simp add: clear_menu_def Let_def opt_do_def split: option.splits)
  then have "instances (fold (clear_menu env None) ts r) = instances r" for ts r
    by (induction ts arbitrary: r) simp_all
  then show ?thesis by (simp add: clearMenus_def ignores_def)
qed

text \<open>A click on the toggle of a closed menu: all menus are closed, then its own is opened.\<close>

lemma toggle_opens:
  assumes "dd_tree env pg" "dd_marked env pg" "\<And>ev. \<not> ddPrevents env ev" "popperLoaded env"
    and "with_menu pg e m" "instances pg e = Some d" "ddMenu d = Some m"
    and "getParentFromElement env pg e = Some p"
    and "\<not> ddDisabled env e" "\<not> hasClass pg e ''disabled''" "\<not> hasClass pg m ''show''"
  obtains r where "toggle_dropdown env e d pg = Inr r" "dd_same pg r" "hasClass r p ''show''"
    "\<And>t m'. with_menu pg t m' \<Longrightarrow> hasClass r m' ''show'' = (m' = m)"
proof -
  let ?q = "clearMenus env None pg"
  let ?q1 = "dd_trigger (ShowMenu e) ?q"
  note cl = clearMenus_closes [OF assms(1,2,3)]
  have mp: "m' \<noteq> p" if "with_menu pg t m'" for t m'
    using tree_menu_parent [OF assms(1) that assms(5)] assms(8) by auto
  have "instances ?q1 e = Some d" using assms(6) by (simp add: clear_instances)
  from create_ok [OF this assms(4), of p] obtain q2 where
    q2: "create_popper env d e (Some p) ?q1 = Inr q2" "dd_same ?q1 q2"
      "\<And>x. hasClass q2 x ''show'' = hasClass ?q x ''show''" by auto
  let ?r = "open_menu env d e (Some p) q2"
  have s1: "dd_same pg ?q1" using cl(1) by simp
  have s: "dd_same pg ?r" using dd_same_trans [OF dd_same_trans [OF s1 q2(2)] open_same] .
  have run: "toggle_dropdown env e d pg = Inr ?r"
    using assms(3,7,9-11) assms(8) q2(1) by (simp add: toggle_dropdown_def Let_def opt_hasClass_def)
  note has = open_hasClass [OF assms(7) mp [OF assms(5)]]
  have "hasClass ?r m' ''show'' = (m' = m)" if "with_menu pg t m'" for t m'
    using cl(3) [OF that] cl(3) [OF assms(5)] mp [OF that] by (simp add: has q2(3))
  moreover have "hasClass ?r p ''show''"
    using cl(4) [OF assms(5,8)] mp [OF assms(5)] by (simp add: has q2(3))
  ultimately show thesis using that run s by blast
qed

text \<open>
  C38: The click on a toggle of a page whose menus agree with their parents, where nothing is
  prevented: the call returns, of all menus of the page at most the toggle's own is open after
  it, which is open exactly when it was closed before, and the page stays in agreement.
\<close>

theorem dropdown_exclusive:
  assumes "dd_tree env pg" "dd_marked env pg" "\<forall>ev. \<not> ddPrevents env ev" "popperLoaded env"
    and "e \<in> set (toggles pg)" "instances pg e = Some d" "ddMenu d = Some m"
    and "\<not> ddDisabled env e" "\<not> hasClass pg e ''disabled''"
  shows "\<exists>pg'. toggle_dropdown env e d pg = Inr pg' \<and>
    (\<forall>t m'. with_menu pg t m' \<longrightarrow> hasClass pg' m' ''show'' = (m' = m \<and> \<not> hasClass pg m ''show'')) \<and>
    dd_tree env pg' \<and> dd_marked env pg'"
proof -
  have wm: "with_menu pg e m" using assms(5-7) by (auto simp: with_menu_def)
  obtain p where p: "getParentFromElement env pg e = Some p" using tree_parent [OF assms(1) wm] by blast
  have np: "\<And>ev. \<not> ddPrevents env ev" using assms(3) by blast
  note cl = clearMenus_closes [OF assms(1,2) np]
  show ?thesis
  proof (cases "hasClass pg m ''show''")
    case True
    then have "toggle_dropdown env e d pg = Inr (clearMenus env None pg)"
      using assms(7-9) by (simp add: toggle_dropdown_def Let_def opt_hasClass_def)
    then show ?thesis using cl dd_same_tree [OF cl(1)] assms(1) True by blast
  next
    case False
    from toggle_opens [OF assms(1,2) np assms(4) wm assms(6,7) p assms(8,9) False] obtain r where
      r: "toggle_dropdown env e d pg = Inr r" "dd_same pg r" "hasClass r p ''show''"
        "\<And>t m'. with_menu pg t m' \<Longrightarrow> hasClass r m' ''show'' = (m' = m)" by blast
    have "getParentFromElement env pg t = Some p" if "with_menu pg t m'" "m' = m" for t m'
      using tree_shared [OF assms(1) wm, of t m'] that p by simp
    then have "dd_marked env r"
      unfolding dd_marked_def dd_same_menu [OF r(2)] dd_same_parent [OF r(2)]
      using r(3,4) by (auto simp: opt_hasClass_def)
    then show ?thesis using r False dd_same_tree [OF r(2)] assms(1) by blast
  qed
qed

text \<open>Two toggles, 1 and 2, in the elements 10 and 20 with the menus 11 and 21; the first is open.\<close>

definition demo_dropdown :: "nat \<Rightarrow> dropdown" where
  "demo_dropdown m =
     \<lparr>ddOffset = JNumber (Fin 0), ddFlip = JBool True, ddBoundary = JText ''scrollParent'', ddMenu = Some m,
      ddInNavbar = False, ddPopper = False\<rparr>"

definition demo_menus :: dropdown_page where
  "demo_menus =
     \<lparr>elements = [10, 1, 11, 12, 13, 20, 2, 21],
      ancestors = (\<lambda>e. if e = 1 \<or> e = 11 then [10] else if e = 2 \<or> e = 21 then [20]
        else if e = 12 \<or> e = 13 then [11, 10] else []),
      nodeName = (\<lambda>_. ''DIV''),
      classList = (\<lambda>e. if e = 10 then {''show''} else if e = 11 then {''dropdown-menu'', ''show''}
        else if e = 21 then {''dropdown-menu''} else if e = 12 \<or> e = 13 then {''dropdown-item''} else {}),
      attribute = (\<lambda>e a. if a = ''data-toggle'' \<and> (e = 1 \<or> e = 2) then Some ''dropdown'' else None),
      instances = (\<lambda>e. if e = 1 then Some (demo_dropdown 11) else if e = 2 then Some (demo_dropdown 21) else None),
      bodyMouseover = False, focused = None, popperRequests = [], dropdownEvents = []\<rparr>"

definition demo_dd_env :: dropdown_env where
  "demo_dd_env =
     \<lparr>ddPrevents = (\<lambda>_. False), ddQuery = (\<lambda>_. Some []), ddEscape = None, ddData = (\<lambda>_. Map.empty),
      ddDisabled = (\<lambda>_. False), touchDevice = False, popperLoaded = True\<rparr>"

lemma demo_parent: "getParentFromElement demo_dd_env demo_menus e =
    (if e = 1 \<or> e = 11 then Some 10 else if e = 2 \<or> e = 21 then Some 20
     else if e = 12 \<or> e = 13 then Some 11 else None)"
  by (simp add: getParentFromElement_def getSelectorFromElement_def demo_dd_env_def demo_menus_def parentNode_def)

lemma demo_toggles: "toggles demo_menus = [1, 2]"
  by (simp add: toggles_def demo_menus_def)

lemma demo_with_menu: "with_menu demo_menus t m \<longleftrightarrow> t = 1 \<and> m = 11 \<or> t = 2 \<and> m = 21"
  by (auto simp: with_menu_def demo_toggles) (auto simp: demo_menus_def demo_dropdown_def)

theorem dropdown_exclusive_witness:
  "\<exists>pg'. toggle_dropdown demo_dd_env 2 (demo_dropdown 21) demo_menus = Inr pg' \<and>
    (\<forall>t m'. with_menu demo_menus t m' \<longrightarrow>
       hasClass pg' m' ''show'' = (m' = 21 \<and> \<not> hasClass demo_menus 21 ''show'')) \<and>
    dd_tree demo_dd_env pg' \<and> dd_marked demo_dd_env pg'"
proof (rule dropdown_exclusive)
  show "dd_tree demo_dd_env demo_menus"
    by (auto simp: dd_tree_def demo_with_menu demo_parent demo_toggles) (auto simp: demo_menus_def demo_dropdown_def split: if_splits)
  show "dd_marked demo_dd_env demo_menus"
    by (simp add: dd_marked_def demo_with_menu demo_parent) (simp add: opt_hasClass_def hasClass_def demo_menus_def)
qed (simp_all add: demo_toggles, simp_all add: demo_menus_def demo_dd_env_def demo_dropdown_def hasClass_def)

section \<open>The keys\<close>

lemma indexOf_none: "e \<notin> set xs \<Longrightarrow> indexOf xs e = -1"
  by (induction xs) auto

lemma indexOf_nth: "distinct xs \<Longrightarrow> j < length xs \<Longrightarrow> indexOf xs (xs ! j) = int j"
proof (induction xs arbitrary: j)
  case (Cons x xs)
  then show ?case by (cases j) (auto simp: nth_mem)
qed simp

lemma distinct_items: "distinct (elements pg) \<Longrightarrow> distinct (visible_items pg parent)"
  by (simp add: visible_items_def descendants_def split: option.splits)

lemma command_keys: "command_key 38" "command_key 40" "command_key 27" "\<not> command_key 32"
  by code_simp+

text \<open>
  The arrow keys in an open menu with items move the focus by one item and never leave the
  list: down stops at the last item, up at the first, and from outside the items both go to the
  first.
\<close>

theorem dropdown_arrow_keys:
  assumes "which = 38 \<or> which = 40" "distinct (elements pg)" "\<not> is_text_input pg target"
    and "\<not> ddDisabled env this" "\<not> hasClass pg this ''disabled''"
    and "opt_hasClass pg (getParentFromElement env pg this) ''show''"
    and "visible_items pg (getParentFromElement env pg this) \<noteq> []"
  defines "items \<equiv> visible_items pg (getParentFromElement env pg this)"
  shows "\<exists>k < length items. dataApiKeydownHandler env this target which pg = Focuses (items ! k) \<and>
    (target \<notin> set items \<longrightarrow> k = 0) \<and>
    (\<forall>j < length items. target = items ! j \<longrightarrow>
       k = (if which = 40 then min (j + 1) (length items - 1) else j - 1))"
proof -
  let ?i = "next_index which (length items) (indexOf items target)"
  have ne: "0 < length items" using assms(7) by (simp add: items_def)
  have d: "distinct items" using assms(2) unfolding items_def by (rule distinct_items)
  have run: "dataApiKeydownHandler env this target which pg = Focuses (items ! nat ?i)"
    using assms(1,3-7) command_keys
    by (auto simp: dataApiKeydownHandler_def not_a_command_def Let_def items_def)
  have out: "nat ?i = 0" if "target \<notin> set items"
    using that by (auto simp: indexOf_none next_index_def Let_def)
  have inside: "nat ?i = (if which = 40 then min (j + 1) (length items - 1) else j - 1)"
    if "j < length items" "target = items ! j" for j
    using that assms(1) by (auto simp: indexOf_nth [OF d] next_index_def Let_def)
  have "nat ?i < length items"
  proof (cases "target \<in> set items")
    case True
    then obtain j where j: "j < length items" "target = items ! j" by (metis in_set_conv_nth)
    show ?thesis unfolding inside [OF j] using j ne by auto
  next
    case False
    then show ?thesis using out ne by simp
  qed
  then show ?thesis using run out inside by (intro exI [of _ "nat ?i"]) blast
qed

lemma demo_items: "visible_items demo_menus (getParentFromElement demo_dd_env demo_menus 1) = [12, 13]"
  unfolding demo_parent by (simp add: visible_items_def descendants_def hasClass_def demo_menus_def)

lemma demo_shown: "opt_hasClass demo_menus (getParentFromElement demo_dd_env demo_menus 1) ''show''"
  unfolding demo_parent by (simp add: opt_hasClass_def hasClass_def demo_menus_def)

lemma demo_enabled: "\<not> ddDisabled demo_dd_env 1" "\<not> hasClass demo_menus 1 ''disabled''" "distinct (elements demo_menus)"
  by (simp_all add: demo_dd_env_def hasClass_def demo_menus_def)

lemma demo_not_input: "\<not> is_text_input demo_menus 12"
proof -
  have "\<not> sublist ''INPUT'' (map upper_char ''DIV'') \<and> \<not> sublist ''TEXTAREA'' (map upper_char ''DIV'')" by code_simp
  then show ?thesis by (simp add: is_text_input_def demo_menus_def)
qed

theorem dropdown_arrow_keys_witness:
  "dataApiKeydownHandler demo_dd_env 1 12 40 demo_menus = Focuses 13"
proof -
  have "(40 :: nat) = 38 \<or> (40 :: nat) = 40" "[12, 13 :: nat] \<noteq> []" by simp_all
  then obtain k where k: "dataApiKeydownHandler demo_dd_env 1 12 40 demo_menus = Focuses ([12, 13] ! k)"
    and j: "\<forall>j < length [12, 13 :: nat]. 12 = [12, 13 :: nat] ! j \<longrightarrow>
      k = (if (40 :: nat) = 40 then min (j + 1) (length [12, 13 :: nat] - 1) else j - 1)"
    using dropdown_arrow_keys [of 40 demo_menus 12 demo_dd_env 1, unfolded demo_items,
        OF _ demo_enabled(3) demo_not_input demo_enabled(1,2) demo_shown] by metis
  from spec [OF j, of 0] have "k = 1" by simp
  with k show ?thesis by simp
qed

text \<open>The Escape key on a closed dropdown clicks its toggle, which opens the menu.\<close>

lemma escape_clicks_closed:
  assumes "\<not> is_text_input pg target" "\<not> ddDisabled env this" "\<not> hasClass pg this ''disabled''"
    and "\<not> opt_hasClass pg (getParentFromElement env pg this) ''show''"
  shows "\<exists>f. dataApiKeydownHandler env this target 27 pg = Clicks f"
  using assms command_keys by (simp add: dataApiKeydownHandler_def not_a_command_def Let_def)

end
