(* ===== verification/Bs_Collapse.thy ===== *)
theory Bs_Collapse
  imports Bs_Page
begin

text \<open>
  The collapse plugin of \<open>client/w3cDemo/js/bootstrap.js\<close>: panels that open and close with a
  transition, alone or as an accordion whose parent element groups them. An instance lives in a
  store; the data of a panel is the address of its instance, or nothing, since opening a panel
  can drop the instances of others whose transitions go on.
\<close>

section \<open>State\<close>

record collapse =
  clElement :: nat
  clConfigParent :: jsval
  clTriggers :: "nat list"
  clSelector :: "string option"
  clParent :: "nat option"
  clTransitioning :: bool

datatype collapse_event = ShowPanel nat | ShownPanel nat | HidePanel nat | HiddenPanel nat

datatype collapse_end = CompleteShow nat | CompleteHide nat

record collapse_page = page +
  store :: "nat \<Rightarrow> collapse"
  nextAddress :: nat
  dataOf :: "nat \<Rightarrow> nat option"
  panelEnds :: "(nat \<times> collapse_end) list"
  sizeStyle :: "nat \<Rightarrow> string \<Rightarrow> string"
  collapseEvents :: "collapse_event list"

record collapse_env =
  clPrevents :: "collapse_event \<Rightarrow> bool"
  clQuery :: "string \<Rightarrow> nat list option"
  clEscape :: "(string \<Rightarrow> string) option"
  clData :: "nat \<Rightarrow> js_options"
  clSupportsEnd :: bool
  scrollSize :: "nat \<Rightarrow> string \<Rightarrow> string"
  rectSize :: "nat \<Rightarrow> string \<Rightarrow> string"

text \<open>\<open>$(selector)\<close>, with no element where the selector is not valid.\<close>

definition select :: "collapse_env \<Rightarrow> string \<Rightarrow> nat list" where
  "select env s = (case clQuery env s of Some es \<Rightarrow> es | None \<Rightarrow> [])"

definition selector_of :: "collapse_env \<Rightarrow> 'a page_scheme \<Rightarrow> nat \<Rightarrow> string option" where
  "selector_of env pg e = getSelectorFromElement (clEscape env) (clQuery env) (attribute pg e)"

section \<open>Instances\<close>

definition addAriaAndCollapsedClass :: "nat option \<Rightarrow> nat list \<Rightarrow> 'a page_scheme \<Rightarrow> 'a page_scheme" where
  "addAriaAndCollapsedClass element triggers pg =
     (case element of
        None \<Rightarrow> pg
      | Some e \<Rightarrow>
          (let isOpen = hasClass pg e ''show''
           in fold (\<lambda>t p. setAttribute ''aria-expanded'' (if isOpen then ''true'' else ''false'') t
                            (jq_toggleClass ''collapsed'' (\<not> isOpen) t p)) triggers pg))"

definition getTargetFromElement :: "collapse_env \<Rightarrow> 'a page_scheme \<Rightarrow> nat \<Rightarrow> nat option" where
  "getTargetFromElement env pg e =
     (case selector_of env pg e of
        Some s \<Rightarrow> if s = [] then None else first_elt (select env s)
      | None \<Rightarrow> None)"

text \<open>The text of the parent option in a selector; an element's text names its class only.\<close>

definition parent_text :: "jsval \<Rightarrow> string" where
  "parent_text v =
     (case v of JText s \<Rightarrow> s | JElement _ \<Rightarrow> ''[object HTMLElement]'' | _ \<Rightarrow> ''[object Object]'')"

definition is_toggle :: "'a page_scheme \<Rightarrow> nat \<Rightarrow> bool" where
  "is_toggle pg e = (attribute pg e ''data-toggle'' = Some ''collapse'')"

definition parent_of_config :: "collapse_env \<Rightarrow> jsval \<Rightarrow> nat option" where
  "parent_of_config env v =
     (case v of
        JText s \<Rightarrow> first_elt (select env s)
      | JElement e \<Rightarrow> Some e
      | JQuery es \<Rightarrow> first_elt es
      | _ \<Rightarrow> None)"

text \<open>\<open>_getParent\<close>: the parent, and the marks of the toggles in it.\<close>

definition mark_siblings :: "collapse_env \<Rightarrow> jsval \<Rightarrow> nat option \<Rightarrow> 'a page_scheme \<Rightarrow> 'a page_scheme" where
  "mark_siblings env v parent pg =
     (case parent of
        None \<Rightarrow> pg
      | Some p \<Rightarrow>
          fold (\<lambda>t q. addAriaAndCollapsedClass (getTargetFromElement env q t) [t] q)
            (filter (\<lambda>t. is_toggle pg t \<and> attribute pg t ''data-parent'' = Some (parent_text v)) (descendants pg p)) pg)"

definition own_triggers :: "'a page_scheme \<Rightarrow> nat \<Rightarrow> nat list" where
  "own_triggers pg e =
     (let ref = CHR ''#'' # (case attribute pg e ''id'' of Some i \<Rightarrow> i | None \<Rightarrow> [])
      in filter (\<lambda>t. is_toggle pg t \<and>
           (attribute pg t ''href'' = Some ref \<or> attribute pg t ''data-target'' = Some ref)) (elements pg))"

definition matching_triggers :: "collapse_env \<Rightarrow> 'a page_scheme \<Rightarrow> nat \<Rightarrow> (nat \<times> string) list" where
  "matching_triggers env pg e =
     List.map_filter (\<lambda>t. case selector_of env pg t of
         Some s \<Rightarrow> if e \<in> set (select env s) then Some (t, s) else None | None \<Rightarrow> None)
       (filter (is_toggle pg) (elements pg))"

text \<open>
  The constructor up to its call of \<open>toggle\<close>: the address of the new instance and whether it is
  to be toggled. The options are the defaults with those of the panel and the given ones.
\<close>

definition new_collapse ::
  "collapse_env \<Rightarrow> nat \<Rightarrow> js_options \<Rightarrow> collapse_page \<Rightarrow> string + nat \<times> bool \<times> collapse_page" where
  "new_collapse env e given pg =
     (let coerced = (extends (map_of collapse_options) given)
            (''toggle'' \<mapsto> JBool (truthy (property (extends (map_of collapse_options) given) ''toggle'')))
      in case typeCheckConfig ''collapse'' coerced collapse_types of
           Inl msg \<Rightarrow> Inl msg
         | Inr _ \<Rightarrow>
             (let matching = matching_triggers env pg e;
                  triggers = own_triggers pg e @ map fst matching;
                  parentOption = property coerced ''parent'';
                  parent = (if truthy parentOption then parent_of_config env parentOption else None);
                  pg1 = (if truthy parentOption then mark_siblings env parentOption parent pg
                         else addAriaAndCollapsedClass (Some e) triggers pg);
                  a = nextAddress pg1;
                  inst = \<lparr>clElement = e, clConfigParent = parentOption, clTriggers = triggers,
                    clSelector = (if matching = [] then None else Some (snd (last matching))),
                    clParent = parent, clTransitioning = False\<rparr>
              in Inr (a, truthy (property coerced ''toggle''),
                      pg1\<lparr>store := (store pg1)(a := inst), nextAddress := a + 1\<rparr>)))"

section \<open>Opening and closing\<close>

definition cl_trigger :: "collapse_event \<Rightarrow> collapse_page \<Rightarrow> collapse_page" where
  "cl_trigger ev pg = pg\<lparr>collapseEvents := collapseEvents pg @ [ev]\<rparr>"

definition setTransitioning :: "nat \<Rightarrow> bool \<Rightarrow> collapse_page \<Rightarrow> collapse_page" where
  "setTransitioning a b pg = pg\<lparr>store := (store pg)(a := (store pg a)\<lparr>clTransitioning := b\<rparr>)\<rparr>"

definition getDimension :: "'a page_scheme \<Rightarrow> nat \<Rightarrow> string" where
  "getDimension pg e = (if hasClass pg e ''width'' then ''width'' else ''height'')"

definition set_size :: "nat \<Rightarrow> string \<Rightarrow> collapse_page \<Rightarrow> collapse_page" where
  "set_size e v pg =
     pg\<lparr>sizeStyle := (sizeStyle pg)(e := (sizeStyle pg e)(getDimension pg e := v))\<rparr>"

text \<open>The functions \<open>complete\<close> of \<open>show\<close> and of \<open>hide\<close>.\<close>

definition complete_show :: "nat \<Rightarrow> collapse_page \<Rightarrow> collapse_page" where
  "complete_show a pg =
     (let e = clElement (store pg a);
          pg1 = jq_addClass ''show'' e (jq_addClass ''collapse'' e (jq_removeClass ''collapsing'' e pg))
      in cl_trigger (ShownPanel e) (setTransitioning a False (set_size e [] pg1)))"

definition complete_hide :: "nat \<Rightarrow> collapse_page \<Rightarrow> collapse_page" where
  "complete_hide a pg =
     (let e = clElement (store pg a)
      in cl_trigger (HiddenPanel e)
           (jq_addClass ''collapse'' e (jq_removeClass ''collapsing'' e (setTransitioning a False pg))))"

text \<open>The triggers of a panel that closes are marked unless another target of theirs is open.\<close>

definition mark_closed :: "collapse_env \<Rightarrow> nat \<Rightarrow> 'a page_scheme \<Rightarrow> 'a page_scheme" where
  "mark_closed env t pg =
     (case selector_of env pg t of
        None \<Rightarrow> pg
      | Some s \<Rightarrow>
          if list_ex (\<lambda>x. hasClass pg x ''show'') (select env s) then pg
          else setAttribute ''aria-expanded'' ''false'' t (jq_addClass ''collapsed'' t pg))"

definition hide_panel :: "collapse_env \<Rightarrow> nat \<Rightarrow> collapse_page \<Rightarrow> collapse_page" where
  "hide_panel env a pg =
     (let inst = store pg a; e = clElement inst
      in if clTransitioning inst \<or> \<not> hasClass pg e ''show'' then pg
         else
           (let pg1 = cl_trigger (HidePanel e) pg
            in if clPrevents env (HidePanel e) then pg1
               else
                 (let pg2 = set_size e (rectSize env e (getDimension pg1 e)) pg1;
                      pg3 = jq_removeClass ''show'' e (jq_removeClass ''collapse'' e (jq_addClass ''collapsing'' e pg2));
                      pg4 = fold (mark_closed env) (clTriggers inst) pg3;
                      pg5 = set_size e [] (setTransitioning a True pg4)
                  in if clSupportsEnd env then pg5\<lparr>panelEnds := panelEnds pg5 @ [(e, CompleteHide a)]\<rparr>
                     else complete_hide a pg5)))"

text \<open>
  \<open>_jQueryInterface('hide')\<close> for one panel: a panel without an instance gets one, which is not
  toggled at its creation. \<open>Inl\<close>: the configuration is refused and the call throws.
\<close>

definition hide_one :: "collapse_env \<Rightarrow> nat \<Rightarrow> collapse_page \<Rightarrow> string \<times> collapse_page + collapse_page" where
  "hide_one env e pg =
     (case dataOf pg e of
        Some a \<Rightarrow> Inr (hide_panel env a pg)
      | None \<Rightarrow>
          (case new_collapse env e ((extends (map_of collapse_options) (clData env e))(''toggle'' \<mapsto> JBool False)) pg of
             Inl msg \<Rightarrow> Inl (msg, pg)
           | Inr (a, _, pg1) \<Rightarrow> Inr (hide_panel env a (pg1\<lparr>dataOf := (dataOf pg1)(e \<mapsto> a)\<rparr>))))"

fun hide_each :: "collapse_env \<Rightarrow> nat list \<Rightarrow> collapse_page \<Rightarrow> string \<times> collapse_page + collapse_page" where
  "hide_each env [] pg = Inr pg"
| "hide_each env (e # es) pg =
     (case hide_one env e pg of Inl err \<Rightarrow> Inl err | Inr pg1 \<Rightarrow> hide_each env es pg1)"

text \<open>The open or moving panels of the group, and those that are not the selector's own.\<close>

definition actives :: "collapse \<Rightarrow> 'a page_scheme \<Rightarrow> nat list" where
  "actives inst pg =
     (case clParent inst of
        None \<Rightarrow> []
      | Some p \<Rightarrow>
          filter (\<lambda>e. (hasClass pg e ''show'' \<or> hasClass pg e ''collapsing'') \<and>
            attribute pg e ''data-parent'' = Some (parent_text (clConfigParent inst))) (descendants pg p))"

definition others :: "collapse_env \<Rightarrow> collapse \<Rightarrow> 'a page_scheme \<Rightarrow> nat list" where
  "others env inst pg =
     (case clSelector inst of
        None \<Rightarrow> actives inst pg
      | Some s \<Rightarrow> filter (\<lambda>e. e \<notin> set (select env s)) (actives inst pg))"

definition open_panel :: "collapse_env \<Rightarrow> nat \<Rightarrow> collapse_page \<Rightarrow> collapse_page" where
  "open_panel env a pg =
     (let inst = store pg a; e = clElement inst;
          pg1 = jq_addClass ''collapsing'' e (jq_removeClass ''collapse'' e pg);
          pg2 = set_size e ''0px'' pg1;
          pg3 = fold (\<lambda>t p. setAttribute ''aria-expanded'' ''true'' t (jq_removeClass ''collapsed'' t p)) (clTriggers inst) pg2;
          pg4 = setTransitioning a True pg3
      in if clSupportsEnd env
         then set_size e (scrollSize env e (getDimension pg4 e))
                (pg4\<lparr>panelEnds := panelEnds pg4 @ [(e, CompleteShow a)]\<rparr>)
         else complete_show a pg4)"

definition show_panel :: "collapse_env \<Rightarrow> nat \<Rightarrow> collapse_page \<Rightarrow> string \<times> collapse_page + collapse_page" where
  "show_panel env a pg =
     (let inst = store pg a; e = clElement inst
      in if clTransitioning inst \<or> hasClass pg e ''show'' then Inr pg
         else
           (let act = actives inst pg; rest = others env inst pg;
                activesData = (case rest of [] \<Rightarrow> None | x # _ \<Rightarrow> dataOf pg x)
            in if (case activesData of Some b \<Rightarrow> clTransitioning (store pg b) | None \<Rightarrow> False) then Inr pg
               else
                 (let pg1 = cl_trigger (ShowPanel e) pg
                  in if clPrevents env (ShowPanel e) then Inr pg1
                     else if act = [] then Inr (open_panel env a pg1)
                     else (case hide_each env rest pg1 of
                         Inl err \<Rightarrow> Inl err
                       | Inr pg2 \<Rightarrow>
                           (let pg3 = (if activesData = None
                                       then pg2\<lparr>dataOf := (\<lambda>x. if x \<in> set act then None else dataOf pg2 x)\<rparr>
                                       else pg2)
                            in Inr (open_panel env a pg3))))))"

definition toggle_panel :: "collapse_env \<Rightarrow> nat \<Rightarrow> collapse_page \<Rightarrow> string \<times> collapse_page + collapse_page" where
  "toggle_panel env a pg =
     (if hasClass pg (clElement (store pg a)) ''show'' then Inr (hide_panel env a pg) else show_panel env a pg)"

text \<open>The click on a toggle, for one panel of its selector; a new instance takes the toggle's options.\<close>

definition click_panel :: "collapse_env \<Rightarrow> nat \<Rightarrow> nat \<Rightarrow> collapse_page \<Rightarrow> string \<times> collapse_page + collapse_page" where
  "click_panel env trigger e pg =
     (case dataOf pg e of
        Some a \<Rightarrow> toggle_panel env a pg
      | None \<Rightarrow>
          (case new_collapse env e (extends (extends (map_of collapse_options) (clData env e)) (clData env trigger)) pg of
             Inl msg \<Rightarrow> Inl (msg, pg)
           | Inr (a, tog, pg1) \<Rightarrow>
               (case (if tog then toggle_panel env a pg1 else Inr pg1) of
                  Inl err \<Rightarrow> Inl err
                | Inr pg2 \<Rightarrow> Inr (pg2\<lparr>dataOf := (dataOf pg2)(e \<mapsto> a)\<rparr>))))"

fun run_panel_end :: "collapse_end \<Rightarrow> collapse_page \<Rightarrow> collapse_page" where
  "run_panel_end (CompleteShow a) pg = complete_show a pg"
| "run_panel_end (CompleteHide a) pg = complete_hide a pg"

definition panel_transition_end :: "nat \<Rightarrow> collapse_page \<Rightarrow> collapse_page" where
  "panel_transition_end e pg =
     fold (\<lambda>(_, c). run_panel_end c) (filter (\<lambda>(x, _). x = e) (panelEnds pg))
       (pg\<lparr>panelEnds := filter (\<lambda>(x, _). x \<noteq> e) (panelEnds pg)\<rparr>)"

section \<open>What the steps leave alone\<close>

lemma collapse_fields [simp]:
  "store (jq_addClass k e pg) = store pg" "store (jq_removeClass k e pg) = store pg"
  "store (setAttribute att v e pg) = store pg" "store (cl_trigger ev pg) = store pg" "store (set_size e v pg) = store pg"
  "dataOf (jq_addClass k e pg) = dataOf pg" "dataOf (jq_removeClass k e pg) = dataOf pg"
  "dataOf (setAttribute att v e pg) = dataOf pg" "dataOf (cl_trigger ev pg) = dataOf pg"
  "dataOf (set_size e v pg) = dataOf pg" "dataOf (setTransitioning a b pg) = dataOf pg"
  "nextAddress (jq_addClass k e pg) = nextAddress pg" "nextAddress (jq_removeClass k e pg) = nextAddress pg"
  "nextAddress (setAttribute att v e pg) = nextAddress pg" "nextAddress (cl_trigger ev pg) = nextAddress pg"
  "nextAddress (set_size e v pg) = nextAddress pg" "nextAddress (setTransitioning a b pg) = nextAddress pg"
  "store (jq_toggleClass k on e pg) = store pg" "dataOf (jq_toggleClass k on e pg) = dataOf pg"
  "nextAddress (jq_toggleClass k on e pg) = nextAddress pg"
  by (simp_all add: jq_addClass_def jq_removeClass_def jq_toggleClass_def setAttribute_def cl_trigger_def
      set_size_def setTransitioning_def)

lemma collapse_classes [simp]:
  "hasClass (cl_trigger ev pg) = hasClass pg" "hasClass (set_size e v pg) = hasClass pg"
  "hasClass (setTransitioning a b pg) = hasClass pg" "hasClass (pg\<lparr>panelEnds := p\<rparr>) = hasClass pg"
  "hasClass (pg\<lparr>dataOf := d\<rparr>) = hasClass pg" "hasClass (pg\<lparr>store := s, nextAddress := n\<rparr>) = hasClass pg"
  by (simp_all add: cl_trigger_def set_size_def setTransitioning_def hasClass_def fun_eq_iff)

lemma fold_keeps: "(\<And>x q. f (g x q) = f q) \<Longrightarrow> f (fold g xs q) = f q"
  by (induction xs arbitrary: q) simp_all

text \<open>The marks of the triggers touch no state of the panels and no class but \<open>collapsed\<close>.\<close>

definition marks_only :: "collapse_page \<Rightarrow> collapse_page \<Rightarrow> bool" where
  "marks_only pg pg' \<longleftrightarrow>
     store pg' = store pg \<and> dataOf pg' = dataOf pg \<and> nextAddress pg' = nextAddress pg \<and>
     panelEnds pg' = panelEnds pg \<and> sizeStyle pg' = sizeStyle pg \<and>
     (\<forall>e k. k \<noteq> ''collapsed'' \<longrightarrow> hasClass pg' e k = hasClass pg e k)"

lemma marks_refl: "marks_only pg pg" by (simp add: marks_only_def)

lemma marks_class: "marks_only pg q \<Longrightarrow> marks_only pg (jq_toggleClass ''collapsed'' b t q)"
  "marks_only pg q \<Longrightarrow> marks_only pg (jq_addClass ''collapsed'' t q)"
  "marks_only pg q \<Longrightarrow> marks_only pg (jq_removeClass ''collapsed'' t q)"
  "marks_only pg q \<Longrightarrow> marks_only pg (setAttribute att v t q)"
  by (auto simp: marks_only_def) (simp_all add: jq_addClass_def jq_removeClass_def jq_toggleClass_def setAttribute_def)

lemma marks_fold: "(\<And>x q. marks_only pg q \<Longrightarrow> marks_only pg (g x q)) \<Longrightarrow> marks_only pg q \<Longrightarrow> marks_only pg (fold g xs q)"
  by (induction xs arbitrary: q) simp_all

lemma marks_aria: "marks_only pg q \<Longrightarrow> marks_only pg (addAriaAndCollapsedClass el ts q)"
  unfolding addAriaAndCollapsedClass_def Let_def
  by (auto split: option.split intro!: marks_fold marks_class)

lemma marks_siblings: "marks_only pg q \<Longrightarrow> marks_only pg (mark_siblings env v p q)"
  unfolding mark_siblings_def by (auto split: option.split intro!: marks_fold marks_aria)

lemma marks_closed: "marks_only pg q \<Longrightarrow> marks_only pg (mark_closed env t q)"
  unfolding mark_closed_def by (auto split: option.split intro!: marks_class)

lemma new_collapse_marks:
  assumes "new_collapse env e given pg = Inr (a, tog, pg')"
  shows "a = nextAddress pg" "nextAddress pg' = Suc (nextAddress pg)" "dataOf pg' = dataOf pg"
    "\<And>b. b \<noteq> a \<Longrightarrow> store pg' b = store pg b" "clElement (store pg' a) = e" "\<not> clTransitioning (store pg' a)"
    "\<And>x k. k \<noteq> ''collapsed'' \<Longrightarrow> hasClass pg' x k = hasClass pg x k"
proof -
  define coerced where "coerced = (extends (map_of collapse_options) given)
    (''toggle'' \<mapsto> JBool (truthy (property (extends (map_of collapse_options) given) ''toggle'')))"
  define pg1 where "pg1 = (let v = property coerced ''parent'' in
    if truthy v then mark_siblings env v (if truthy v then parent_of_config env v else None) pg
    else addAriaAndCollapsedClass (Some e) (own_triggers pg e @ map fst (matching_triggers env pg e)) pg)"
  have m: "marks_only pg pg1"
    unfolding pg1_def Let_def by (auto intro: marks_siblings marks_aria marks_refl)
  obtain inst where r: "a = nextAddress pg1" "pg' = pg1\<lparr>store := (store pg1)(a := inst), nextAddress := a + 1\<rparr>"
    "clElement inst = e" "\<not> clTransitioning inst"
    using assms unfolding new_collapse_def coerced_def [symmetric]
    by (auto simp: Let_def pg1_def split: sum.splits)
  show "a = nextAddress pg" "nextAddress pg' = Suc (nextAddress pg)" "dataOf pg' = dataOf pg"
    "\<And>b. b \<noteq> a \<Longrightarrow> store pg' b = store pg b" "clElement (store pg' a) = e" "\<not> clTransitioning (store pg' a)"
    "\<And>x k. k \<noteq> ''collapsed'' \<Longrightarrow> hasClass pg' x k = hasClass pg x k"
    using r m by (simp_all add: marks_only_def)
qed

section \<open>One panel\<close>

lemma store_transitioning [simp]:
  "store (setTransitioning a b pg) x = (if x = a then (store pg a)\<lparr>clTransitioning := b\<rparr> else store pg x)"
  by (simp add: setTransitioning_def)

text \<open>The page of a panel that starts to close, with its triggers marked.\<close>

definition hide_started :: "collapse_env \<Rightarrow> nat \<Rightarrow> collapse_page \<Rightarrow> collapse_page" where
  "hide_started env a pg =
     (let e = clElement (store pg a); pg1 = cl_trigger (HidePanel e) pg;
          pg2 = set_size e (rectSize env e (getDimension pg1 e)) pg1;
          pg3 = jq_removeClass ''show'' e (jq_removeClass ''collapse'' e (jq_addClass ''collapsing'' e pg2))
      in fold (mark_closed env) (clTriggers (store pg a)) pg3)"

lemma hide_unfold:
  "hide_panel env a pg =
     (let e = clElement (store pg a); pg5 = set_size e [] (setTransitioning a True (hide_started env a pg))
      in if clTransitioning (store pg a) \<or> \<not> hasClass pg e ''show'' then pg
         else if clPrevents env (HidePanel e) then cl_trigger (HidePanel e) pg
         else if clSupportsEnd env then pg5\<lparr>panelEnds := panelEnds pg5 @ [(e, CompleteHide a)]\<rparr>
         else complete_hide a pg5)"
  by (simp add: hide_panel_def hide_started_def Let_def)

lemma hide_started_keeps [simp]:
  "store (hide_started env a pg) = store pg" "dataOf (hide_started env a pg) = dataOf pg"
  "nextAddress (hide_started env a pg) = nextAddress pg"
  "k \<noteq> ''collapsed'' \<Longrightarrow> hasClass (hide_started env a pg) x k =
     (if x = clElement (store pg a)
      then k = ''collapsing'' \<or> k \<noteq> ''show'' \<and> k \<noteq> ''collapse'' \<and> hasClass pg x k else hasClass pg x k)"
proof -
  have m: "marks_only q (fold (mark_closed env) ts q)" for ts q
    by (intro marks_fold marks_closed marks_refl)
  show "store (hide_started env a pg) = store pg" "dataOf (hide_started env a pg) = dataOf pg"
    "nextAddress (hide_started env a pg) = nextAddress pg"
    using m unfolding hide_started_def Let_def marks_only_def by simp_all
  show "k \<noteq> ''collapsed'' \<Longrightarrow> hasClass (hide_started env a pg) x k =
     (if x = clElement (store pg a)
      then k = ''collapsing'' \<or> k \<noteq> ''show'' \<and> k \<noteq> ''collapse'' \<and> hasClass pg x k else hasClass pg x k)"
    using m unfolding hide_started_def Let_def marks_only_def by auto
qed

lemma complete_keeps [simp]:
  "dataOf (complete_hide a pg) = dataOf pg" "nextAddress (complete_hide a pg) = nextAddress pg"
  "store (complete_hide a pg) x = (if x = a then (store pg a)\<lparr>clTransitioning := False\<rparr> else store pg x)"
  "hasClass (complete_hide a pg) x k =
     (if x = clElement (store pg a) then k = ''collapse'' \<or> k \<noteq> ''collapsing'' \<and> hasClass pg x k else hasClass pg x k)"
  "dataOf (complete_show a pg) = dataOf pg" "nextAddress (complete_show a pg) = nextAddress pg"
  "store (complete_show a pg) x = (if x = a then (store pg a)\<lparr>clTransitioning := False\<rparr> else store pg x)"
  "hasClass (complete_show a pg) x k =
     (if x = clElement (store pg a)
      then k = ''collapse'' \<or> k = ''show'' \<or> k \<noteq> ''collapsing'' \<and> hasClass pg x k else hasClass pg x k)"
  by (auto simp: complete_hide_def complete_show_def Let_def)

lemma ends_same [simp]:
  "store (pg\<lparr>panelEnds := p\<rparr>) = store pg" "dataOf (pg\<lparr>panelEnds := p\<rparr>) = dataOf pg"
  by simp_all

text \<open>Closing a panel keeps the other panels; a panel that is not moving loses its open class.\<close>

lemma hide_keeps:
  "dataOf (hide_panel env a pg) = dataOf pg" "nextAddress (hide_panel env a pg) = nextAddress pg"
  "b \<noteq> a \<Longrightarrow> store (hide_panel env a pg) b = store pg b"
  "clElement (store (hide_panel env a pg) b) = clElement (store pg b)"
  "x \<noteq> clElement (store pg a) \<Longrightarrow> k \<noteq> ''collapsed'' \<Longrightarrow> hasClass (hide_panel env a pg) x k = hasClass pg x k"
  by (simp_all add: hide_unfold Let_def)

lemma hide_closes:
  assumes "\<And>ev. \<not> clPrevents env ev" "clTransitioning (store pg a) \<longrightarrow> \<not> hasClass pg (clElement (store pg a)) ''show''"
  shows "\<not> hasClass (hide_panel env a pg) (clElement (store pg a)) ''show''"
  using assms by (simp add: hide_unfold Let_def)

section \<open>The accordion\<close>

text \<open>The data of a panel is an instance of it, in use, that moves only without the open class.\<close>

definition data_wf :: "collapse_page \<Rightarrow> bool" where
  "data_wf pg \<longleftrightarrow>
     (\<forall>x b. dataOf pg x = Some b \<longrightarrow> b < nextAddress pg \<and> clElement (store pg b) = x \<and>
        (clTransitioning (store pg b) \<longrightarrow> \<not> hasClass pg x ''show''))"

text \<open>A step closes panels: it keeps the data well formed, old instances, and opens nothing.\<close>

definition closes_only :: "collapse_page \<Rightarrow> collapse_page \<Rightarrow> bool" where
  "closes_only pg pg' \<longleftrightarrow>
     data_wf pg' \<and> nextAddress pg \<le> nextAddress pg' \<and>
     (\<forall>b < nextAddress pg. clElement (store pg' b) = clElement (store pg b)) \<and>
     (\<forall>x. hasClass pg' x ''show'' \<longrightarrow> hasClass pg x ''show'')"

lemma closes_trans: "closes_only pg q \<Longrightarrow> closes_only q r \<Longrightarrow> closes_only pg r"
  by (auto simp: closes_only_def)

lemma hide_data_wf:
  assumes "data_wf pg" "\<And>ev. \<not> clPrevents env ev" "dataOf pg x = Some a"
  shows "closes_only pg (hide_panel env a pg)" "\<not> hasClass (hide_panel env a pg) x ''show''"
proof -
  have a: "a < nextAddress pg" "clElement (store pg a) = x" "clTransitioning (store pg a) \<longrightarrow> \<not> hasClass pg x ''show''"
    using assms(1,3) by (auto simp: data_wf_def)
  show closed: "\<not> hasClass (hide_panel env a pg) x ''show''"
    using hide_closes [OF assms(2), of pg a] a by simp
  have mono: "hasClass (hide_panel env a pg) y ''show'' \<longrightarrow> hasClass pg y ''show''" for y
    using hide_keeps(5) [of y pg a "''show''" env] closed a(2) by (cases "y = x") auto
  have "data_wf (hide_panel env a pg)"
    unfolding data_wf_def
  proof (intro allI impI)
    fix y b assume "dataOf (hide_panel env a pg) y = Some b"
    then have b: "dataOf pg y = Some b" by (simp add: hide_keeps)
    then have y: "b < nextAddress pg" "clElement (store pg b) = y" "clTransitioning (store pg b) \<longrightarrow> \<not> hasClass pg y ''show''"
      using assms(1) by (auto simp: data_wf_def)
    show "b < nextAddress (hide_panel env a pg) \<and> clElement (store (hide_panel env a pg) b) = y \<and>
        (clTransitioning (store (hide_panel env a pg) b) \<longrightarrow> \<not> hasClass (hide_panel env a pg) y ''show'')"
    proof (cases "b = a")
      case True
      then show ?thesis using y a closed by (simp add: hide_keeps)
    next
      case False
      then show ?thesis using y mono by (auto simp: hide_keeps)
    qed
  qed
  then show "closes_only pg (hide_panel env a pg)" using mono by (simp add: closes_only_def hide_keeps)
qed

lemma hide_one_closes:
  assumes "data_wf pg" "\<And>ev. \<not> clPrevents env ev" "hide_one env x pg = Inr pg'"
  shows "closes_only pg pg' \<and> \<not> hasClass pg' x ''show''"
proof (cases "dataOf pg x")
  case (Some a)
  then show ?thesis using assms hide_data_wf [OF assms(1,2) Some] by (simp add: hide_one_def)
next
  case None
  then obtain a t pg1 where
    new: "new_collapse env x ((extends (map_of collapse_options) (clData env x))(''toggle'' \<mapsto> JBool False)) pg = Inr (a, t, pg1)"
    and pg': "pg' = hide_panel env a (pg1\<lparr>dataOf := (dataOf pg1)(x \<mapsto> a)\<rparr>)" (is "_ = hide_panel env a ?q")
    using assms(3) by (auto simp: hide_one_def split: sum.splits)
  note n = new_collapse_marks [OF new]
  have "data_wf ?q"
    unfolding data_wf_def
  proof (intro allI impI)
    fix y b assume y: "dataOf ?q y = Some b"
    show "b < nextAddress ?q \<and> clElement (store ?q b) = y \<and> (clTransitioning (store ?q b) \<longrightarrow> \<not> hasClass ?q y ''show'')"
    proof (cases "y = x")
      case True
      then show ?thesis using y n by simp
    next
      case False
      then have "dataOf pg y = Some b" using y n(3) by simp
      then have "b < nextAddress pg \<and> clElement (store pg b) = y \<and> (clTransitioning (store pg b) \<longrightarrow> \<not> hasClass pg y ''show'')"
        using assms(1) unfolding data_wf_def by blast
      then show ?thesis using n by simp
    qed
  qed
  moreover have "closes_only pg ?q" if "data_wf ?q" using that n by (simp add: closes_only_def)
  moreover have "dataOf ?q x = Some a" by simp
  ultimately show ?thesis
    unfolding pg' using hide_data_wf [of ?q env x a, OF _ assms(2)] closes_trans by blast
qed

lemma hide_each_closes:
  assumes "data_wf pg" "\<And>ev. \<not> clPrevents env ev" "hide_each env xs pg = Inr pg'"
  shows "closes_only pg pg' \<and> (\<forall>x \<in> set xs. \<not> hasClass pg' x ''show'')"
  using assms(1,3)
proof (induction xs arbitrary: pg)
  case Nil
  then show ?case by (simp add: closes_only_def)
next
  case (Cons x xs)
  then obtain q where q: "hide_one env x pg = Inr q" "hide_each env xs q = Inr pg'"
    by (auto split: sum.splits)
  have one: "closes_only pg q" "\<not> hasClass q x ''show''"
    using hide_one_closes [OF Cons.prems(1) assms(2) q(1)] by blast+
  then have "data_wf q" by (simp add: closes_only_def)
  note IH = Cons.IH [OF this q(2)]
  then have "closes_only pg pg'" using closes_trans [OF one(1)] by blast
  moreover have "\<not> hasClass pg' x ''show''" using IH one(2) unfolding closes_only_def by blast
  ultimately show ?case using IH by simp
qed

text \<open>The panel that opens gets no other panel's classes.\<close>

lemma open_keeps:
  "x \<noteq> clElement (store pg a) \<Longrightarrow> hasClass (open_panel env a pg) x ''show'' = hasClass pg x ''show''"
  "hasClass (open_panel env a pg) (clElement (store pg a)) (if clSupportsEnd env then ''collapsing'' else ''show'')"
proof -
  have m: "marks_only q (fold (\<lambda>t p. setAttribute ''aria-expanded'' ''true'' t (jq_removeClass ''collapsed'' t p)) ts q)" for ts q
    by (intro marks_fold marks_class marks_refl)
  show "x \<noteq> clElement (store pg a) \<Longrightarrow> hasClass (open_panel env a pg) x ''show'' = hasClass pg x ''show''"
    "hasClass (open_panel env a pg) (clElement (store pg a)) (if clSupportsEnd env then ''collapsing'' else ''show'')"
    using m unfolding open_panel_def Let_def marks_only_def by auto
qed

lemma show_panel_closes:
  assumes "data_wf pg" "\<And>ev. \<not> clPrevents env ev" "a < nextAddress pg"
    and "\<not> clTransitioning (store pg a)" "\<not> hasClass pg (clElement (store pg a)) ''show''"
    and "\<And>x b. dataOf pg x = Some b \<Longrightarrow> x \<in> set (others env (store pg a) pg) \<Longrightarrow> \<not> clTransitioning (store pg b)"
    and "show_panel env a pg = Inr pg'"
  obtains q where "closes_only (cl_trigger (ShowPanel (clElement (store pg a))) pg) q"
    "\<forall>x \<in> set (others env (store pg a) pg). \<not> hasClass q x ''show''"
    "\<exists>d. pg' = open_panel env a (q\<lparr>dataOf := d\<rparr>)"
proof -
  let ?rest = "others env (store pg a) pg"
  let ?pg1 = "cl_trigger (ShowPanel (clElement (store pg a))) pg"
  have wf1: "data_wf ?pg1" using assms(1) by (simp add: data_wf_def)
  have free: "\<not> (case (case ?rest of [] \<Rightarrow> None | x # _ \<Rightarrow> dataOf pg x) of
      Some b \<Rightarrow> clTransitioning (store pg b) | None \<Rightarrow> False)"
    using assms(6) by (cases ?rest) (auto split: option.splits)
  have same: "\<exists>d. open_panel env a pg2 = open_panel env a (pg2\<lparr>dataOf := d\<rparr>)" for pg2
    by (rule exI [of _ "dataOf pg2"]) simp
  show thesis
  proof (cases "actives (store pg a) pg = []")
    case True
    then have rest: "?rest = []" by (simp add: others_def split: option.splits)
    have "pg' = open_panel env a ?pg1"
      using assms(4,5,7) assms(2) True free by (simp add: show_panel_def Let_def)
    then show thesis
      using that [of ?pg1] rest wf1 same [of ?pg1] by (auto simp: closes_only_def)
  next
    case False
    then obtain q where q: "hide_each env ?rest ?pg1 = Inr q"
      using assms(4,5,7) assms(2) free by (auto simp: show_panel_def Let_def split: sum.splits)
    obtain d where "pg' = open_panel env a q \<or> pg' = open_panel env a (q\<lparr>dataOf := d\<rparr>)"
      using assms(4,5,7) assms(2) free False q by (auto simp: show_panel_def Let_def split: if_splits)
    then show thesis
      using that [of q] hide_each_closes [OF wf1 assms(2) q] same [of q] by metis
  qed
qed

text \<open>
  C39: An accordion: a call that opens a panel of a group, where nothing is prevented and no
  member is moving, leaves no other panel of the group open, whichever of them had an instance
  before, and the panel itself opens, at once or by a transition. The group are the descendants of
  the parent that name it in their attribute and that the panel's own selector does not match.
\<close>

theorem collapse_accordion:
  assumes "data_wf pg" "\<forall>ev. \<not> clPrevents env ev" "a < nextAddress pg"
    and "\<not> clTransitioning (store pg a)" "\<not> hasClass pg (clElement (store pg a)) ''show''"
    and "\<forall>x b. dataOf pg x = Some b \<longrightarrow> \<not> clTransitioning (store pg b)"
    and "show_panel env a pg = Inr pg'"
  shows "(\<forall>p x. clParent (store pg a) = Some p \<and> x \<in> set (descendants pg p) \<and>
      attribute pg x ''data-parent'' = Some (parent_text (clConfigParent (store pg a))) \<and>
      (\<forall>s. clSelector (store pg a) = Some s \<longrightarrow> x \<notin> set (select env s)) \<and>
      x \<noteq> clElement (store pg a) \<longrightarrow> \<not> hasClass pg' x ''show'') \<and>
    hasClass pg' (clElement (store pg a)) (if clSupportsEnd env then ''collapsing'' else ''show'')"
proof -
  let ?e = "clElement (store pg a)"
  have np: "\<And>ev. \<not> clPrevents env ev" using assms(2) by blast
  obtain q d where q: "closes_only (cl_trigger (ShowPanel ?e) pg) q"
    "\<forall>x \<in> set (others env (store pg a) pg). \<not> hasClass q x ''show''"
    "pg' = open_panel env a (q\<lparr>dataOf := d\<rparr>)"
    using show_panel_closes [OF assms(1) np assms(3-5) _ assms(7)] assms(6) by metis
  have e: "clElement (store (q\<lparr>dataOf := d\<rparr>) a) = ?e" using q(1) assms(3) by (simp add: closes_only_def)
  have "\<not> hasClass q x ''show''"
    if "clParent (store pg a) = Some p" "x \<in> set (descendants pg p)"
      "attribute pg x ''data-parent'' = Some (parent_text (clConfigParent (store pg a)))"
      "\<forall>s. clSelector (store pg a) = Some s \<longrightarrow> x \<notin> set (select env s)" for p x
  proof (cases "hasClass pg x ''show''")
    case True
    then have "x \<in> set (others env (store pg a) pg)"
      using that by (auto simp: others_def actives_def split: option.splits)
    then show ?thesis using q(2) by blast
  qed (use q(1) in \<open>auto simp: closes_only_def\<close>)
  then show ?thesis
    using q(3) e open_keeps [where pg = "q\<lparr>dataOf := d\<rparr>" and a = a and env = env] by auto
qed

text \<open>An accordion, 10, with the panels 1, open, and 2; only the second has an instance.\<close>

definition demo_panels :: collapse_page where
  "demo_panels =
     \<lparr>elements = [10, 1, 2], ancestors = (\<lambda>e. if e = 1 \<or> e = 2 then [10] else []), nodeName = (\<lambda>_. ''DIV''),
      classList = (\<lambda>e. if e = 1 then {''collapse'', ''show''} else if e = 2 then {''collapse''} else {}),
      attribute = (\<lambda>e a. if a = ''data-parent'' \<and> (e = 1 \<or> e = 2) then Some ''acc'' else None),
      store = (\<lambda>_. \<lparr>clElement = 2, clConfigParent = JText ''acc'', clTriggers = [], clSelector = None,
        clParent = Some 10, clTransitioning = False\<rparr>),
      nextAddress = 1, dataOf = (\<lambda>e. if e = 2 then Some 0 else None), panelEnds = [],
      sizeStyle = (\<lambda>_ _. []), collapseEvents = []\<rparr>"

definition demo_cl_env :: collapse_env where
  "demo_cl_env =
     \<lparr>clPrevents = (\<lambda>_. False), clQuery = (\<lambda>s. Some (if s = ''acc'' then [10] else [])), clEscape = None,
      clData = (\<lambda>_. Map.empty), clSupportsEnd = True, scrollSize = (\<lambda>_ _. ''80px''), rectSize = (\<lambda>_ _. ''80px'')\<rparr>"

lemma demo_others: "others demo_cl_env (store demo_panels 0) demo_panels = [1]"
  "actives (store demo_panels 0) demo_panels = [1]"
  by (simp_all add: others_def actives_def descendants_def hasClass_def parent_text_def demo_panels_def)

lemma new_collapse_returns:
  assumes "property (extends (map_of collapse_options) given) ''parent'' = JText s"
  shows "\<exists>r. new_collapse env e given pg = Inr r"
proof -
  define coerced where "coerced = (extends (map_of collapse_options) given)
    (''toggle'' \<mapsto> JBool (truthy (property (extends (map_of collapse_options) given) ''toggle'')))"
  have "typeCheckConfig ''collapse'' coerced collapse_types = Inr ()"
    using assms unfolding typeCheck_ok_iff
    by (simp add: collapse_types_def coerced_def property_def type_matches_table)
  then show ?thesis
    unfolding new_collapse_def coerced_def [symmetric] by (simp add: Let_def)
qed

lemma demo_shows: "\<exists>pg'. show_panel demo_cl_env 0 demo_panels = Inr pg'"
proof -
  let ?given = "(extends (map_of collapse_options) (clData demo_cl_env 1))(''toggle'' \<mapsto> JBool False)"
  have "property (extends (map_of collapse_options) ?given) ''parent'' = JText []"
    by (simp add: property_def extends_def collapse_options_def demo_cl_env_def)
  note ret = new_collapse_returns [OF this, of demo_cl_env 1]
  have "\<exists>q. hide_each demo_cl_env [1] pg = Inr q" if none: "dataOf pg 1 = None" for pg
  proof -
    obtain a t pg1 where "new_collapse demo_cl_env 1 ?given pg = Inr (a, t, pg1)" using ret [of pg] by auto
    then show ?thesis using none by (simp add: hide_one_def)
  qed
  moreover have "dataOf (cl_trigger (ShowPanel 2) demo_panels) 1 = None" by (simp add: demo_panels_def)
  ultimately obtain q where "hide_each demo_cl_env [1] (cl_trigger (ShowPanel 2) demo_panels) = Inr q" by blast
  then show ?thesis
    using demo_others
    by (simp add: show_panel_def Let_def) (simp add: demo_panels_def demo_cl_env_def hasClass_def)
qed

theorem collapse_accordion_witness:
  "\<exists>pg'. show_panel demo_cl_env 0 demo_panels = Inr pg' \<and> \<not> hasClass pg' 1 ''show'' \<and> hasClass pg' 2 ''collapsing''"
proof -
  obtain pg' where pg': "show_panel demo_cl_env 0 demo_panels = Inr pg'" using demo_shows by blast
  have "data_wf demo_panels" "\<not> hasClass demo_panels 2 ''show''" "clElement (store demo_panels 0) = 2"
    "\<not> clTransitioning (store demo_panels b)" "0 < nextAddress demo_panels" "\<not> clPrevents demo_cl_env ev"
    "clSupportsEnd demo_cl_env" "clParent (store demo_panels 0) = Some 10"
    "clSelector (store demo_panels 0) = None" "1 \<in> set (descendants demo_panels 10)"
    "attribute demo_panels 1 ''data-parent'' = Some (parent_text (clConfigParent (store demo_panels 0)))" for b ev
    by (auto simp: data_wf_def demo_panels_def hasClass_def demo_cl_env_def descendants_def parent_text_def)
  with collapse_accordion [of demo_panels demo_cl_env 0, OF _ _ _ _ _ _ pg'] pg' show ?thesis by simp
qed

section \<open>Opening and closing again\<close>

lemma transitioning_same: "\<not> clTransitioning r \<Longrightarrow> r\<lparr>clTransitioning := False\<rparr> = r"
  by (cases r) simp

text \<open>A panel without a group that is at rest, and the page after its transition.\<close>

definition at_rest :: "nat \<Rightarrow> collapse_page \<Rightarrow> bool" where
  "at_rest a pg \<longleftrightarrow>
     \<not> clTransitioning (store pg a) \<and> clParent (store pg a) = None \<and>
     (\<forall>c. (clElement (store pg a), c) \<notin> set (panelEnds pg))"

definition toggled :: "collapse_env \<Rightarrow> nat \<Rightarrow> collapse_page \<Rightarrow> collapse_page option" where
  "toggled env a pg =
     (case toggle_panel env a pg of
        Inl _ \<Rightarrow> None
      | Inr pg' \<Rightarrow> Some (panel_transition_end (clElement (store pg a)) pg'))"

lemma no_ends: "\<forall>c. (e, c) \<notin> set ps \<Longrightarrow> filter (\<lambda>(x, _). x = e) ps = [] \<and> filter (\<lambda>(x, _). x \<noteq> e) ps = ps"
  by (induction ps) auto

lemma ends_fields [simp]:
  "panelEnds (cl_trigger ev pg) = panelEnds pg" "panelEnds (set_size e v pg) = panelEnds pg"
  "panelEnds (setTransitioning a b pg) = panelEnds pg" "panelEnds (jq_addClass k e pg) = panelEnds pg"
  "panelEnds (jq_removeClass k e pg) = panelEnds pg"
  by (simp_all add: cl_trigger_def set_size_def setTransitioning_def jq_addClass_def jq_removeClass_def)

lemma complete_ends [simp]:
  "panelEnds (complete_hide a pg) = panelEnds pg" "panelEnds (complete_show a pg) = panelEnds pg"
  by (simp_all add: complete_hide_def complete_show_def Let_def)

lemma hide_started_ends [simp]: "panelEnds (hide_started env a pg) = panelEnds pg"
proof -
  have "marks_only q (fold (mark_closed env) ts q)" for ts q
    by (intro marks_fold marks_closed marks_refl)
  then show ?thesis unfolding hide_started_def Let_def marks_only_def by simp
qed

definition open_started :: "nat \<Rightarrow> collapse_page \<Rightarrow> collapse_page" where
  "open_started a pg =
     (let e = clElement (store pg a)
      in setTransitioning a True
           (fold (\<lambda>t p. setAttribute ''aria-expanded'' ''true'' t (jq_removeClass ''collapsed'' t p))
              (clTriggers (store pg a)) (set_size e ''0px'' (jq_addClass ''collapsing'' e (jq_removeClass ''collapse'' e pg)))))"

lemma open_started_keeps [simp]:
  "store (open_started a pg) x = (if x = a then (store pg a)\<lparr>clTransitioning := True\<rparr> else store pg x)"
  "panelEnds (open_started a pg) = panelEnds pg"
  "k \<noteq> ''collapsed'' \<Longrightarrow> hasClass (open_started a pg) x k =
     (if x = clElement (store pg a) then k = ''collapsing'' \<or> k \<noteq> ''collapse'' \<and> hasClass pg x k else hasClass pg x k)"
proof -
  have m: "marks_only q (fold (\<lambda>t p. setAttribute ''aria-expanded'' ''true'' t (jq_removeClass ''collapsed'' t p)) ts q)" for ts q
    by (intro marks_fold marks_class marks_refl)
  show "store (open_started a pg) x = (if x = a then (store pg a)\<lparr>clTransitioning := True\<rparr> else store pg x)"
    "panelEnds (open_started a pg) = panelEnds pg"
    "k \<noteq> ''collapsed'' \<Longrightarrow> hasClass (open_started a pg) x k =
     (if x = clElement (store pg a) then k = ''collapsing'' \<or> k \<noteq> ''collapse'' \<and> hasClass pg x k else hasClass pg x k)"
    using m unfolding open_started_def Let_def marks_only_def by auto
qed

lemma open_unfold:
  "open_panel env a pg =
     (let e = clElement (store pg a); q = open_started a pg
      in if clSupportsEnd env
         then set_size e (scrollSize env e (getDimension q e)) (q\<lparr>panelEnds := panelEnds q @ [(e, CompleteShow a)]\<rparr>)
         else complete_show a q)"
  by (simp add: open_panel_def open_started_def Let_def)

lemma toggled_open:
  assumes "at_rest a pg" "\<And>ev. \<not> clPrevents env ev" "\<not> hasClass pg (clElement (store pg a)) ''show''"
  shows "\<exists>q. toggled env a pg = Some q \<and> at_rest a q \<and> store q a = store pg a \<and>
    (\<forall>k. k \<noteq> ''collapsed'' \<longrightarrow> hasClass q (clElement (store pg a)) k =
       (k = ''collapse'' \<or> k = ''show'' \<or> k \<noteq> ''collapsing'' \<and> hasClass pg (clElement (store pg a)) k))"
proof -
  let ?e = "clElement (store pg a)" and ?pg1 = "cl_trigger (ShowPanel (clElement (store pg a))) pg"
  have tp: "toggle_panel env a pg = Inr (open_panel env a ?pg1)"
    using assms by (simp add: at_rest_def toggle_panel_def show_panel_def Let_def actives_def others_def split: option.splits)
  have rest: "\<not> clTransitioning (store pg a)" "clParent (store pg a) = None" "\<forall>c. (?e, c) \<notin> set (panelEnds pg)"
    using assms(1) by (simp_all add: at_rest_def)
  note ne = no_ends [OF rest(3)]
  show ?thesis
  proof (cases "clSupportsEnd env")
    case True
    then show ?thesis
      using tp rest ne
      by (simp add: toggled_def open_unfold Let_def panel_transition_end_def at_rest_def transitioning_same) auto
  next
    case False
    have "panel_transition_end ?e r = r" if "panelEnds r = panelEnds pg" for r
      using that ne by (cases r) (simp add: panel_transition_end_def)
    with False show ?thesis
      using tp rest by (simp add: toggled_def open_unfold Let_def at_rest_def transitioning_same) auto
  qed
qed

lemma toggled_close:
  assumes "at_rest a pg" "\<And>ev. \<not> clPrevents env ev" "hasClass pg (clElement (store pg a)) ''show''"
  shows "\<exists>q. toggled env a pg = Some q \<and> at_rest a q \<and> store q a = store pg a \<and>
    (\<forall>k. k \<noteq> ''collapsed'' \<longrightarrow> hasClass q (clElement (store pg a)) k =
       (k = ''collapse'' \<or> k \<noteq> ''show'' \<and> k \<noteq> ''collapsing'' \<and> hasClass pg (clElement (store pg a)) k))"
proof -
  let ?e = "clElement (store pg a)"
  have tp: "toggle_panel env a pg = Inr (hide_panel env a pg)" using assms(3) by (simp add: toggle_panel_def)
  have rest: "\<not> clTransitioning (store pg a)" "clParent (store pg a) = None" "\<forall>c. (?e, c) \<notin> set (panelEnds pg)"
    using assms(1) by (simp_all add: at_rest_def)
  note ne = no_ends [OF rest(3)]
  show ?thesis
  proof (cases "clSupportsEnd env")
    case True
    then show ?thesis
      using tp rest ne assms(2,3)
      by (simp add: toggled_def hide_unfold Let_def panel_transition_end_def at_rest_def transitioning_same) auto
  next
    case False
    have "panel_transition_end ?e r = r" if "panelEnds r = panelEnds pg" for r
      using that ne by (cases r) (simp add: panel_transition_end_def)
    with False show ?thesis
      using tp rest assms(2,3) by (simp add: toggled_def hide_unfold Let_def at_rest_def transitioning_same) auto
  qed
qed

text \<open>
  A closed panel without a group opens: once the transition of a toggle has ended it is open
  and at rest, and after a second toggle and its transition it has the classes it started with,
  for any class but the mark of triggers; neither transition can be left unfinished.
\<close>

theorem collapse_toggle_roundtrip:
  assumes "at_rest a pg" "\<forall>ev. \<not> clPrevents env ev" "clElement (store pg a) = e"
    and "hasClass pg e ''collapse''" "\<not> hasClass pg e ''show''" "\<not> hasClass pg e ''collapsing''"
  shows "\<exists>q r. toggled env a pg = Some q \<and> at_rest a q \<and> hasClass q e ''show'' \<and>
    toggled env a q = Some r \<and> at_rest a r \<and>
    (\<forall>k. k \<noteq> ''collapsed'' \<longrightarrow> hasClass r e k = hasClass pg e k)"
proof -
  have np: "\<And>ev. \<not> clPrevents env ev" using assms(2) by blast
  obtain q where q: "toggled env a pg = Some q" "at_rest a q" "store q a = store pg a"
    "\<forall>k. k \<noteq> ''collapsed'' \<longrightarrow> hasClass q e k = (k = ''collapse'' \<or> k = ''show'' \<or> k \<noteq> ''collapsing'' \<and> hasClass pg e k)"
    using toggled_open [OF assms(1) np] assms(3,5) by auto
  have shown: "hasClass q (clElement (store q a)) ''show''" using q(3,4) assms(3) by simp
  obtain r where r: "toggled env a q = Some r" "at_rest a r"
    "\<forall>k. k \<noteq> ''collapsed'' \<longrightarrow> hasClass r e k = (k = ''collapse'' \<or> k \<noteq> ''show'' \<and> k \<noteq> ''collapsing'' \<and> hasClass q e k)"
    using toggled_close [OF q(2) np shown] q(3) assms(3) by auto
  have "\<forall>k. k \<noteq> ''collapsed'' \<longrightarrow> hasClass r e k = hasClass pg e k"
    using r(3) q(4) assms(4-6) by auto
  then show ?thesis using q r shown assms(3) by (intro exI [of _ q] exI [of _ r]) simp
qed

theorem collapse_toggle_roundtrip_witness:
  "\<exists>q r. toggled demo_cl_env 0 (demo_panels\<lparr>store := \<lambda>_. (store demo_panels 0)\<lparr>clParent := None\<rparr>\<rparr>) = Some q \<and>
    at_rest 0 q \<and> hasClass q 2 ''show'' \<and> toggled demo_cl_env 0 q = Some r \<and> at_rest 0 r \<and>
    (\<forall>k. k \<noteq> ''collapsed'' \<longrightarrow>
      hasClass r 2 k = hasClass (demo_panels\<lparr>store := \<lambda>_. (store demo_panels 0)\<lparr>clParent := None\<rparr>\<rparr>) 2 k)"
  by (rule collapse_toggle_roundtrip)
    (simp_all add: at_rest_def demo_panels_def demo_cl_env_def hasClass_def)

end
