(* ===== verification/Bs_Button.thy ===== *)
theory Bs_Button
  imports Bs_Page
begin

text \<open>
  The button and alert plugins of \<open>client/w3cDemo/js/bootstrap.js\<close>: toggles, groups of radio
  buttons and check boxes, and the removal of an alert.
\<close>

section \<open>Buttons\<close>

record button_page = page +
  inputType :: "nat \<Rightarrow> string"
  checked :: "nat \<Rightarrow> bool"
  radioGroup :: "nat \<Rightarrow> nat list"
  focusedInput :: "nat option"
  changeEvents :: "nat list"

text \<open>The browser unchecks the other radio buttons of the group of the one that is checked.\<close>

definition set_checked :: "nat \<Rightarrow> bool \<Rightarrow> button_page \<Rightarrow> button_page" where
  "set_checked i b pg =
     pg\<lparr>checked := (\<lambda>j. if j = i then b
         else if b \<and> inputType pg i = ''radio'' \<and> j \<in> set (radioGroup pg i) then False else checked pg j)\<rparr>"

definition toggle_root :: "'a page_scheme \<Rightarrow> nat \<Rightarrow> nat option" where
  "toggle_root pg e = closest pg (\<lambda>x. attribute pg x ''data-toggle'' = Some ''buttons'') e"

definition first_input :: "'a page_scheme \<Rightarrow> nat \<Rightarrow> nat option" where
  "first_input pg e = first_elt (filter (\<lambda>x. nodeName pg x = ''INPUT'') (descendants pg e))"

definition first_active :: "'a page_scheme \<Rightarrow> nat \<Rightarrow> nat option" where
  "first_active pg r = first_elt (filter (\<lambda>x. hasClass pg x ''active'') (descendants pg r))"

definition is_disabled :: "'a page_scheme \<Rightarrow> nat \<Rightarrow> nat \<Rightarrow> bool" where
  "is_disabled pg grp input =
     (attribute pg input ''disabled'' \<noteq> None \<or> attribute pg grp ''disabled'' \<noteq> None \<or>
      hasClass pg input ''disabled'' \<or> hasClass pg grp ''disabled'')"

text \<open>The last lines of \<open>toggle\<close>: the pressed state and the class.\<close>

definition finish_toggle :: "nat \<Rightarrow> bool \<Rightarrow> bool \<Rightarrow> button_page \<Rightarrow> button_page" where
  "finish_toggle e addAriaPressed triggerChange pg =
     (let pg1 = (if addAriaPressed
                 then setAttribute ''aria-pressed'' (if hasClass pg e ''active'' then ''false'' else ''true'') e pg
                 else pg)
      in if triggerChange then jq_toggleClass ''active'' (\<not> hasClass pg1 e ''active'') e pg1 else pg1)"

definition toggle_button :: "nat \<Rightarrow> button_page \<Rightarrow> button_page" where
  "toggle_button e pg =
     (case toggle_root pg e of
        None \<Rightarrow> finish_toggle e True True pg
      | Some grp \<Rightarrow>
          (case first_input pg e of
             None \<Rightarrow> finish_toggle e True True pg
           | Some input \<Rightarrow>
               (let radio = (inputType pg input = ''radio'');
                    already = (radio \<and> checked pg input \<and> hasClass pg e ''active'');
                    pg1 = (if radio \<and> \<not> already
                           then (case first_active pg grp of
                                   Some a \<Rightarrow> jq_removeClass ''active'' a pg | None \<Rightarrow> pg)
                           else pg)
                in if already then finish_toggle e False False (pg1\<lparr>focusedInput := Some input\<rparr>)
                   else if is_disabled pg1 grp input then pg1
                   else
                     (let pg2 = set_checked input (\<not> hasClass pg1 e ''active'') pg1;
                          pg3 = pg2\<lparr>changeEvents := changeEvents pg2 @ [input], focusedInput := Some input\<rparr>
                      in finish_toggle e False True pg3))))"

text \<open>The click on a toggle or on something in it: the button is the closest one.\<close>

definition click_button :: "nat \<Rightarrow> button_page \<Rightarrow> button_page" where
  "click_button target pg =
     (if hasClass pg target ''btn'' then toggle_button target pg
      else (case closest pg (\<lambda>x. hasClass pg x ''btn'') target of Some b \<Rightarrow> toggle_button b pg | None \<Rightarrow> pg))"

definition focus_button :: "string \<Rightarrow> nat \<Rightarrow> button_page \<Rightarrow> button_page" where
  "focus_button eventType target pg =
     (case closest pg (\<lambda>x. hasClass pg x ''btn'') target of
        Some b \<Rightarrow> jq_toggleClass ''focus'' (eventType = ''focus'' \<or> eventType = ''focusin'') b pg
      | None \<Rightarrow> pg)"

section \<open>A group of radio buttons\<close>

lemma button_simps [simp]:
  "hasClass (set_checked i b pg) = hasClass pg" "hasClass (pg\<lparr>focusedInput := f\<rparr>) = hasClass pg"
  "hasClass (pg\<lparr>changeEvents := c\<rparr>) = hasClass pg"
  "elements (set_checked i b pg) = elements pg" "ancestors (set_checked i b pg) = ancestors pg"
  by (simp_all add: set_checked_def hasClass_def fun_eq_iff)

lemma finish_simps [simp]:
  "elements (finish_toggle e a t pg) = elements pg" "ancestors (finish_toggle e a t pg) = ancestors pg"
  "hasClass (finish_toggle e a t pg) x k =
     (if t \<and> x = e \<and> k = ''active'' then \<not> hasClass pg e ''active'' else hasClass pg x k)"
  by (auto simp: finish_toggle_def Let_def)

definition active_buttons :: "'a page_scheme \<Rightarrow> nat \<Rightarrow> nat list" where
  "active_buttons pg grp = filter (\<lambda>x. hasClass pg x ''active'') (descendants pg grp)"

lemma first_active_only:
  assumes "length (active_buttons pg grp) \<le> 1"
  shows "set (active_buttons pg grp) = set_option (first_active pg grp)"
  using assms
  by (cases "active_buttons pg grp") (auto simp: active_buttons_def first_active_def first_elt_def)

lemma filter_is_one: "distinct xs \<Longrightarrow> a \<in> set xs \<Longrightarrow> filter (\<lambda>e. e = a) xs = [a]"
  by (induction xs) (auto simp: filter_empty_conv)

text \<open>
  A click on an enabled radio button of a group in which at most one element is active makes
  it the only active one; on the button that is active and checked it changes no class.
\<close>

theorem radio_exclusive:
  assumes "toggle_root pg e = Some grp" "first_input pg e = Some input" "inputType pg input = ''radio''"
    and "distinct (elements pg)" "e \<in> set (descendants pg grp)" "\<not> is_disabled pg grp input"
    and "length (active_buttons pg grp) \<le> 1" "hasClass pg e ''active'' = checked pg input"
  shows "active_buttons (toggle_button e pg) grp = [e]"
proof -
  have only: "x = y" if "x \<in> set (active_buttons pg grp)" "y \<in> set (active_buttons pg grp)" for x y
    using that assms(7) by (cases "active_buttons pg grp") auto
  have d: "distinct (descendants pg grp)" using assms(4) by (simp add: descendants_def)
  have tree: "descendants (toggle_button e pg) grp = descendants pg grp"
    by (simp add: toggle_button_def Let_def descendants_def split: option.splits)
  have cls: "hasClass (toggle_button e pg) x ''active'' = (x = e)" if x: "x \<in> set (descendants pg grp)" for x
  proof (cases "checked pg input")
    case True
    then have "hasClass pg e ''active''" using assms(8) by simp
    then show ?thesis
      using True assms(1-3,5) x only [of x e]
      by (auto simp: toggle_button_def Let_def active_buttons_def)
  next
    case False
    then have ne: "\<not> hasClass pg e ''active''" using assms(8) by simp
    let ?pg1 = "case first_active pg grp of Some a \<Rightarrow> jq_removeClass ''active'' a pg | None \<Rightarrow> pg"
    have off: "\<not> hasClass ?pg1 y ''active''" if "y \<in> set (descendants pg grp)" for y
    proof
      assume on: "hasClass ?pg1 y ''active''"
      then have "hasClass pg y ''active''" by (cases "first_active pg grp") simp_all
      then have "y \<in> set (active_buttons pg grp)" using that by (simp add: active_buttons_def)
      then have "first_active pg grp = Some y"
        unfolding first_active_only [OF assms(7)] by (cases "first_active pg grp") simp_all
      then show False using on by simp
    qed
    have dis: "\<not> is_disabled ?pg1 grp input"
      using assms(6) by (cases "first_active pg grp") (auto simp: is_disabled_def)
    show ?thesis
      using False assms(1-3,5) ne off [OF x] off [OF assms(5)] dis
      by (auto simp: toggle_button_def Let_def)
  qed
  have "active_buttons (toggle_button e pg) grp = filter (\<lambda>x. x = e) (descendants pg grp)"
    unfolding active_buttons_def tree by (rule filter_cong) (use cls in auto)
  then show ?thesis using d assms(5) by (simp add: filter_is_one)
qed

text \<open>A group, 10, of two labels, 1 and 2, with the radio buttons 11 and 12; the first is chosen.\<close>

definition demo_radios :: button_page where
  "demo_radios =
     \<lparr>elements = [10, 1, 11, 2, 12],
      ancestors = (\<lambda>e. if e = 1 \<or> e = 2 then [10] else if e = 11 then [1, 10] else if e = 12 then [2, 10] else []),
      nodeName = (\<lambda>e. if e = 11 \<or> e = 12 then ''INPUT'' else ''LABEL''),
      classList = (\<lambda>e. if e = 1 then {''btn'', ''active''} else if e = 2 then {''btn''} else {}),
      attribute = (\<lambda>e a. if e = 10 \<and> a = ''data-toggle'' then Some ''buttons'' else None),
      inputType = (\<lambda>_. ''radio''), checked = (\<lambda>e. e = 11), radioGroup = (\<lambda>_. [11, 12]),
      focusedInput = None, changeEvents = []\<rparr>"

theorem radio_exclusive_witness: "active_buttons (toggle_button 2 demo_radios) 10 = [2]"
  by (rule radio_exclusive [of _ _ _ 12])
    (simp_all add: toggle_root_def closest_def first_input_def first_elt_def descendants_def active_buttons_def
      is_disabled_def hasClass_def demo_radios_def)

text \<open>
  A click on a disabled radio button takes the mark off the active one: it is removed before the
  test whether the button is disabled.
\<close>

lemma radio_disabled_clears:
  assumes "toggle_root pg e = Some grp" "first_input pg e = Some input" "inputType pg input = ''radio''"
    and "\<not> checked pg input" "attribute pg input ''disabled'' \<noteq> None" "first_active pg grp = Some a"
  shows "\<not> hasClass (toggle_button e pg) a ''active''"
  using assms by (simp add: toggle_button_def Let_def is_disabled_def)

section \<open>Alerts\<close>

record alert_page = page +
  alertPending :: "nat list"
  alertEvents :: "(bool \<times> nat) list"

text \<open>The element that \<open>close\<close> removes: the target of the button's selector, or the alert around it.\<close>

definition getRootElement ::
  "(string \<Rightarrow> string) option \<Rightarrow> (string \<Rightarrow> nat list option) \<Rightarrow> 'a page_scheme \<Rightarrow> nat \<Rightarrow> nat option" where
  "getRootElement escape query pg e =
     (let target = (case getSelectorFromElement escape query (attribute pg e) of
             Some s \<Rightarrow> if s = [] then None else Option.bind (query s) first_elt
           | None \<Rightarrow> None)
      in case target of Some t \<Rightarrow> Some t | None \<Rightarrow> closest pg (\<lambda>x. hasClass pg x ''alert'') e)"

definition destroyElement :: "nat \<Rightarrow> alert_page \<Rightarrow> alert_page" where
  "destroyElement r pg =
     pg\<lparr>elements := filter (\<lambda>e. e \<noteq> r \<and> r \<notin> set (ancestors pg e)) (elements pg),
        alertEvents := alertEvents pg @ [(False, r)]\<rparr>"

definition removeElement :: "bool \<Rightarrow> nat \<Rightarrow> alert_page \<Rightarrow> alert_page" where
  "removeElement supportsEnd r pg =
     (let pg1 = jq_removeClass ''show'' r pg
      in if \<not> supportsEnd \<or> \<not> hasClass pg1 r ''fade'' then destroyElement r pg1
         else pg1\<lparr>alertPending := alertPending pg1 @ [r]\<rparr>)"

text \<open>The close event, marked \<open>True\<close>, may be prevented; the closed event is marked \<open>False\<close>.\<close>

definition close_alert ::
  "(string \<Rightarrow> string) option \<Rightarrow> (string \<Rightarrow> nat list option) \<Rightarrow> bool \<Rightarrow> bool \<Rightarrow> nat \<Rightarrow> alert_page \<Rightarrow> alert_page" where
  "close_alert escape query supportsEnd prevented e pg =
     (case getRootElement escape query pg e of
        None \<Rightarrow> pg
      | Some r \<Rightarrow>
          (let pg1 = pg\<lparr>alertEvents := alertEvents pg @ [(True, r)]\<rparr>
           in if prevented then pg1 else removeElement supportsEnd r pg1))"

definition alert_transition_end :: "nat \<Rightarrow> alert_page \<Rightarrow> alert_page" where
  "alert_transition_end r pg =
     fold destroyElement (filter (\<lambda>x. x = r) (alertPending pg))
       (pg\<lparr>alertPending := filter (\<lambda>x. x \<noteq> r) (alertPending pg)\<rparr>)"

lemma alert_fold:
  "elements (fold destroyElement (replicate n r) pg) =
     (if n = 0 then elements pg else filter (\<lambda>e. e \<noteq> r \<and> r \<notin> set (ancestors pg e)) (elements pg))
   \<and> ancestors (fold destroyElement (replicate n r) pg) = ancestors pg"
  by (induction n arbitrary: pg) (auto simp: destroyElement_def intro: filter_cong)

text \<open>
  An alert that is closed, and not prevented from it, is gone once its transition has ended,
  with everything in it, and the rest of the page stays, in its order.
\<close>

theorem alert_removed:
  assumes "getRootElement escape query pg e = Some r"
  shows "elements (alert_transition_end r (close_alert escape query supportsEnd False e pg)) =
    filter (\<lambda>x. x \<noteq> r \<and> r \<notin> set (ancestors pg x)) (elements pg)"
proof -
  have rep: "filter (\<lambda>x. x = r) xs = replicate (length (filter (\<lambda>x. x = r) xs)) r" for xs :: "nat list"
    by (induction xs) auto
  let ?pg1 = "pg\<lparr>alertEvents := alertEvents pg @ [(True, r)]\<rparr>"
  let ?q = "removeElement supportsEnd r ?pg1"
  have close: "close_alert escape query supportsEnd False e pg = ?q"
    using assms by (simp add: close_alert_def Let_def)
  have anc: "ancestors ?q = ancestors pg" by (simp add: removeElement_def destroyElement_def Let_def)
  have els: "elements ?q = elements pg \<and> r \<in> set (alertPending ?q) \<or>
      elements ?q = filter (\<lambda>x. x \<noteq> r \<and> r \<notin> set (ancestors pg x)) (elements pg)"
    by (simp add: removeElement_def destroyElement_def Let_def)
  let ?n = "length (filter (\<lambda>x. x = r) (alertPending ?q))"
  have "elements (alert_transition_end r ?q) =
      (if ?n = 0 then elements ?q else filter (\<lambda>x. x \<noteq> r \<and> r \<notin> set (ancestors pg x)) (elements ?q))"
    unfolding alert_transition_end_def by (subst rep, subst alert_fold [THEN conjunct1]) (simp add: anc)
  moreover have "r \<in> set (alertPending ?q) \<Longrightarrow> ?n \<noteq> 0" by (auto simp: filter_empty_conv)
  ultimately show ?thesis unfolding close using els by (auto simp: conj_commute)
qed

theorem alert_removed_witness:
  "elements (alert_transition_end 5 (close_alert None (\<lambda>_. None) True False 6
     \<lparr>elements = [4, 5, 6, 7], ancestors = (\<lambda>e. if e = 6 then [5] else []), nodeName = (\<lambda>_. ''DIV''),
      classList = (\<lambda>e. if e = 5 then {''alert'', ''fade''} else {}), attribute = (\<lambda>_ _. None),
      alertPending = [], alertEvents = []\<rparr>)) = [4, 7]"
  by (subst alert_removed)
    (simp_all add: getRootElement_def getSelectorFromElement_def closest_def hasClass_def)

end
