(* ===== verification/Bs_Tooltip.thy ===== *)
theory Bs_Tooltip
  imports Bs_Util
begin

text \<open>
  The tooltip plugin of \<open>client/w3cDemo/js/bootstrap.js\<close> and the popover, which inherits from it:
  one instance with its element, its tip, its triggers, delays and transitions, and the poppers
  of the positioning library that it creates and destroys. The instance has no \<open>selector\<close> option,
  so the handlers work on the instance itself. What the page and the browser decide is in the
  environment; a call that throws is \<open>Inl\<close> with the state it left.
\<close>

section \<open>State\<close>

datatype tip_kind = Tooltip | Popover

datatype hover_state = HoverUnset | HoverNull | HoverShow | HoverOut

datatype tip_event = TipShow | TipInserted | TipShown | TipHide | TipHidden

datatype tip_timer = ShowTimer | HideTimer

datatype tip_end = ShowComplete | HideComplete

datatype tip_error = NotVisible | TypeErr

text \<open>What is written into a part of the tip, named by its selector.\<close>

datatype tip_write =
    WriteText string jsval
  | WriteHtml string jsval
  | AppendNode string jsval

text \<open>The listeners of an instance: on its element, for a type of event, and on its modal.\<close>

datatype tip_listener =
    OnClick
  | OnEnter string
  | OnLeave string
  | OnModalHide

text \<open>What the positioning library is created with; the reference is always the element.\<close>

record tip_request =
  trPlacement :: string
  trOffset :: jsval
  trFlip :: jsval
  trBoundaries :: jsval

text \<open>
  Timers and poppers have numbers. A popper is live until it is destroyed. The tip is created
  from the template when it is first needed.
\<close>

record tooltip =
  tpKind :: tip_kind
  tpConfig :: js_options
  tpEnabled :: bool
  tpTimeout :: nat
  tpTimers :: "(nat \<times> tip_timer) list"
  nextTip :: nat
  hoverState :: hover_state
  activeTrigger :: "string \<Rightarrow> bool"
  tpPopper :: "nat option"
  livePoppers :: "nat list"
  nextPopper :: nat
  popperLog :: "tip_request list"
  tpTip :: bool
  tipClasses :: "string set"
  tipAttr :: "string \<Rightarrow> string option"
  tipInDom :: bool
  tipWrites :: "tip_write list"
  elementAttr :: "string \<Rightarrow> string option"
  tipEnds :: "tip_end list"
  tipListeners :: "tip_listener list"
  tipMouseover :: bool
  tipEvents :: "tip_event list"
  disposed :: bool

text \<open>
  \<open>tipUid\<close> is the identifier that \<open>getUID\<close> found; \<open>popperPlaces\<close> gives the placement that the
  positioning library starts from and the one it arrives at in its first update.
\<close>

record tip_env =
  tipPrevents :: "tip_event \<Rightarrow> bool"
  elementHidden :: bool
  elementInDom :: bool
  tipUid :: string
  placementFn :: "string \<Rightarrow> string"
  contentFn :: "string \<Rightarrow> jsval"
  popperPlaces :: "string \<Rightarrow> string \<times> string"
  tipSupportsEnd :: bool
  tipTouch :: bool
  templateClasses :: "jsval \<Rightarrow> string set"
  nodeText :: "jsval \<Rightarrow> string"
  alreadyIn :: "string \<Rightarrow> jsval \<Rightarrow> bool"

type_synonym tip_result = "tip_error \<times> tooltip + tooltip"

definition thenRun :: "tip_result \<Rightarrow> (tooltip \<Rightarrow> tip_result) \<Rightarrow> tip_result" where
  "thenRun r f = (case r of Inl e \<Rightarrow> Inl e | Inr st \<Rightarrow> f st)"

definition tip_trigger :: "tip_event \<Rightarrow> tooltip \<Rightarrow> tooltip" where
  "tip_trigger ev st = st\<lparr>tipEvents := tipEvents st @ [ev]\<rparr>"

section \<open>Configuration\<close>

definition option_table :: "tip_kind \<Rightarrow> (string \<times> jsval) list" where
  "option_table k = (case k of Tooltip \<Rightarrow> tooltip_options | Popover \<Rightarrow> popover_options)"

definition type_table :: "tip_kind \<Rightarrow> (string \<times> string) list" where
  "type_table k = (case k of Tooltip \<Rightarrow> tooltip_types | Popover \<Rightarrow> popover_types)"

text \<open>A number given as \<open>p\<close> is replaced by what \<open>f\<close> makes of it.\<close>

definition convert_number :: "string \<Rightarrow> (jsreal \<Rightarrow> jsval) \<Rightarrow> js_options \<Rightarrow> js_options" where
  "convert_number p f cfg = (case property cfg p of JNumber n \<Rightarrow> cfg(p \<mapsto> f n) | _ \<Rightarrow> cfg)"

definition tip_getConfig ::
  "(jsreal \<Rightarrow> string) \<Rightarrow> tip_kind \<Rightarrow> js_options \<Rightarrow> js_options \<Rightarrow> string + js_options" where
  "tip_getConfig showNumber k data given =
     (let cfg = extends (extends (map_of (option_table k)) data) given;
          cfg1 = convert_number ''delay'' (\<lambda>n. JObject [(''show'', JNumber n), (''hide'', JNumber n)]) cfg;
          cfg2 = convert_number ''title'' (\<lambda>n. JText (showNumber n)) cfg1;
          cfg3 = convert_number ''content'' (\<lambda>n. JText (showNumber n)) cfg2
      in case typeCheckConfig ''tooltip'' cfg3 (type_table k) of
           Inl msg \<Rightarrow> Inl msg
         | Inr _ \<Rightarrow> Inr cfg3)"

text \<open>
  The configuration that an instance hands to the instances it creates: what differs from the
  defaults. Objects are compared by identity; an object never is a default's.
\<close>

definition same_value :: "jsval \<Rightarrow> jsval \<Rightarrow> bool" where
  "same_value v w =
     (case v of JArray _ \<Rightarrow> False | JObject _ \<Rightarrow> False | JQuery _ \<Rightarrow> False | JNumber JsNaN \<Rightarrow> False | _ \<Rightarrow> v = w)"

definition getDelegateConfig :: "tip_kind \<Rightarrow> js_options \<Rightarrow> js_options" where
  "getDelegateConfig k cfg =
     (\<lambda>p. case cfg p of
            None \<Rightarrow> None
          | Some v \<Rightarrow> if same_value (property (map_of (option_table k)) p) v then None else Some v)"

definition member :: "jsval \<Rightarrow> string \<Rightarrow> jsval" where
  "member v p = (case v of JObject ps \<Rightarrow> (case map_of ps p of Some x \<Rightarrow> x | None \<Rightarrow> JUndefined) | _ \<Rightarrow> JUndefined)"

definition cfg :: "tooltip \<Rightarrow> string \<Rightarrow> jsval" where
  "cfg st p = property (tpConfig st) p"

definition delayed :: "tooltip \<Rightarrow> string \<Rightarrow> bool" where
  "delayed st which = (truthy (cfg st ''delay'') \<and> truthy (member (cfg st ''delay'') which))"

section \<open>The tip and its content\<close>

definition class_prefix :: "tip_kind \<Rightarrow> string" where
  "class_prefix k = (case k of Tooltip \<Rightarrow> ''bs-tooltip'' | Popover \<Rightarrow> ''bs-popover'')"

definition getTipElement :: "tip_env \<Rightarrow> tooltip \<Rightarrow> tooltip" where
  "getTipElement env st =
     (if tpTip st then st
      else st\<lparr>tpTip := True, tipClasses := templateClasses env (cfg st ''template''),
              tipAttr := (\<lambda>_. None), tipInDom := False\<rparr>)"

definition tip_addClass :: "string \<Rightarrow> tooltip \<Rightarrow> tooltip" where
  "tip_addClass k st = st\<lparr>tipClasses := insert k (tipClasses st)\<rparr>"

definition tip_removeClass :: "string \<Rightarrow> tooltip \<Rightarrow> tooltip" where
  "tip_removeClass k st = st\<lparr>tipClasses := tipClasses st - {k}\<rparr>"

definition getAttachment :: "string \<Rightarrow> string option" where
  "getAttachment placement =
     map_of [(''AUTO'', ''auto''), (''TOP'', ''top''), (''RIGHT'', ''right''), (''BOTTOM'', ''bottom''),
             (''LEFT'', ''left'')] (map upper_char placement)"

definition attachment_class :: "tip_kind \<Rightarrow> string option \<Rightarrow> string" where
  "attachment_class k a =
     class_prefix k @ ''-'' @ (case a of Some s \<Rightarrow> s | None \<Rightarrow> ''undefined'')"

definition addAttachmentClass :: "tip_env \<Rightarrow> string option \<Rightarrow> tooltip \<Rightarrow> tooltip" where
  "addAttachmentClass env a st = tip_addClass (attachment_class (tpKind st) a) (getTipElement env st)"

text \<open>All classes that the prefix begins and something follows, joined and removed.\<close>

definition cleanTipClass :: "tip_env \<Rightarrow> tooltip \<Rightarrow> tooltip" where
  "cleanTipClass env st =
     (let st1 = getTipElement env st
      in st1\<lparr>tipClasses := {k \<in> tipClasses st1. \<not> strict_prefix (class_prefix (tpKind st)) k}\<rparr>)"

definition handlePopperPlacementChange :: "tip_env \<Rightarrow> string \<Rightarrow> tooltip \<Rightarrow> tooltip" where
  "handlePopperPlacementChange env placement st =
     addAttachmentClass env (getAttachment placement) (cleanTipClass env st)"

definition getTitle :: "tip_env \<Rightarrow> tooltip \<Rightarrow> jsval" where
  "getTitle env st =
     (case elementAttr st ''data-original-title'' of
        Some (c # t) \<Rightarrow> JText (c # t)
      | _ \<Rightarrow> (case cfg st ''title'' of JFunction f \<Rightarrow> contentFn env f | v \<Rightarrow> v))"

definition getContent :: "tooltip \<Rightarrow> jsval" where
  "getContent st =
     (case elementAttr st ''data-content'' of Some (c # t) \<Rightarrow> JText (c # t) | _ \<Rightarrow> cfg st ''content'')"

definition tooltip_isWithContent :: "tip_env \<Rightarrow> tooltip \<Rightarrow> bool" where
  "tooltip_isWithContent env st = truthy (getTitle env st)"

definition popover_isWithContent :: "tip_env \<Rightarrow> tooltip \<Rightarrow> bool" where
  "popover_isWithContent env st = (truthy (getTitle env st) \<or> truthy (getContent st))"

definition isWithContent :: "tip_env \<Rightarrow> tooltip \<Rightarrow> bool" where
  "isWithContent env st =
     (case tpKind st of Tooltip \<Rightarrow> tooltip_isWithContent env st | Popover \<Rightarrow> popover_isWithContent env st)"

definition is_node :: "jsval \<Rightarrow> bool" where
  "is_node v = (truthy (nodeType v) \<or> (case v of JQuery _ \<Rightarrow> True | _ \<Rightarrow> truthy (member v ''jquery'')))"

definition tip_write :: "tip_write \<Rightarrow> tooltip \<Rightarrow> tooltip" where
  "tip_write w st = st\<lparr>tipWrites := tipWrites st @ [w]\<rparr>"

definition setElementContent :: "tip_env \<Rightarrow> string \<Rightarrow> jsval \<Rightarrow> tooltip \<Rightarrow> tip_result" where
  "setElementContent env part content st =
     (let html = truthy (cfg st ''html'')
      in if content = JNull then Inl (TypeErr, st)
         else if is_node content
         then (if html
               then Inr (if alreadyIn env part content then st else tip_write (AppendNode part content) st)
               else Inr (tip_write (WriteText part (JText (nodeText env content))) st))
         else Inr (tip_write (if html then WriteHtml part content else WriteText part content) st))"

definition bare_tip :: "tooltip \<Rightarrow> tip_result" where
  "bare_tip st = Inr (tip_removeClass ''show'' (tip_removeClass ''fade'' st))"

definition tooltip_setContent :: "tip_env \<Rightarrow> tooltip \<Rightarrow> tip_result" where
  "tooltip_setContent env st =
     (let st1 = getTipElement env st
      in thenRun (setElementContent env ''.tooltip-inner'' (getTitle env st1) st1) bare_tip)"

definition popover_setContent :: "tip_env \<Rightarrow> tooltip \<Rightarrow> tip_result" where
  "popover_setContent env st =
     (let st1 = getTipElement env st
      in thenRun (setElementContent env ''.popover-header'' (getTitle env st1) st1)
           (\<lambda>st2.
              let content = (case getContent st2 of JFunction f \<Rightarrow> contentFn env f | v \<Rightarrow> v)
              in thenRun (setElementContent env ''.popover-body'' content st2) bare_tip))"

definition setContent :: "tip_env \<Rightarrow> tooltip \<Rightarrow> tip_result" where
  "setContent env st =
     (case tpKind st of Tooltip \<Rightarrow> tooltip_setContent env st | Popover \<Rightarrow> popover_setContent env st)"

section \<open>Showing and hiding\<close>

definition add_popper :: "tooltip \<Rightarrow> tooltip" where
  "add_popper st =
     st\<lparr>tpPopper := Some (nextPopper st), livePoppers := livePoppers st @ [nextPopper st],
        nextPopper := nextPopper st + 1\<rparr>"

text \<open>
  The creation of the popper. Without a placement the positioning library throws. It marks the
  tip with its placement, and reports when the first update changed the placement.
\<close>

definition create_tip_popper :: "tip_env \<Rightarrow> string option \<Rightarrow> tooltip \<Rightarrow> tip_result" where
  "create_tip_popper env attachment st =
     (case attachment of
        None \<Rightarrow> Inl (TypeErr, st)
      | Some a \<Rightarrow>
          (let (original, final) = popperPlaces env a;
               st1 = st\<lparr>tipAttr := (tipAttr st)(''x-placement'' \<mapsto> final),
                        popperLog := popperLog st @
                          [\<lparr>trPlacement = a, trOffset = cfg st ''offset'', trFlip = cfg st ''fallbackPlacement'',
                            trBoundaries = cfg st ''boundary''\<rparr>]\<rparr>;
               st2 = (if original \<noteq> final then handlePopperPlacementChange env final st1 else st1)
           in Inr (add_popper st2)))"

text \<open>Destroying a popper, also a second time, takes its mark off the tip.\<close>

definition destroy_popper :: "tooltip \<Rightarrow> tooltip" where
  "destroy_popper st =
     (case tpPopper st of
        None \<Rightarrow> st
      | Some p \<Rightarrow> st\<lparr>livePoppers := filter (\<lambda>q. q \<noteq> p) (livePoppers st),
                     tipAttr := (tipAttr st)(''x-placement'' := None)\<rparr>)"

definition tip_animates :: "tip_env \<Rightarrow> tooltip \<Rightarrow> bool" where
  "tip_animates env st = (tipSupportsEnd env \<and> ''fade'' \<in> tipClasses st)"

definition complete_tip_hide :: "tip_env \<Rightarrow> tooltip \<Rightarrow> tooltip" where
  "complete_tip_hide env st =
     (let st1 = (if hoverState st \<noteq> HoverShow then st\<lparr>tipInDom := False\<rparr> else st);
          st2 = cleanTipClass env st1;
          st3 = st2\<lparr>elementAttr := (elementAttr st2)(''aria-describedby'' := None)\<rparr>
      in destroy_popper (tip_trigger TipHidden st3))"

definition hide_tip :: "tip_env \<Rightarrow> tooltip \<Rightarrow> tooltip" where
  "hide_tip env st =
     (let st1 = tip_trigger TipHide (getTipElement env st)
      in if tipPrevents env TipHide then st1
         else
           (let st2 = tip_removeClass ''show'' st1;
                st3 = (if tipTouch env then st2\<lparr>tipMouseover := False\<rparr> else st2);
                st4 = st3\<lparr>activeTrigger := (activeTrigger st3)(''click'' := False, ''focus'' := False, ''hover'' := False)\<rparr>;
                st5 = (if tip_animates env st4 then st4\<lparr>tipEnds := tipEnds st4 @ [HideComplete]\<rparr>
                       else complete_tip_hide env st4)
            in st5\<lparr>hoverState := HoverUnset\<rparr>))"

text \<open>\<open>clearTimeout\<close> of the latest timer, and a new one.\<close>

definition clear_timeout :: "tooltip \<Rightarrow> tooltip" where
  "clear_timeout st = st\<lparr>tpTimers := filter (\<lambda>(n, k). n \<noteq> tpTimeout st) (tpTimers st)\<rparr>"

definition set_timeout :: "tip_timer \<Rightarrow> tooltip \<Rightarrow> tooltip" where
  "set_timeout k st =
     st\<lparr>tpTimers := tpTimers st @ [(nextTip st, k)], tpTimeout := nextTip st, nextTip := nextTip st + 1\<rparr>"

definition isWithActiveTrigger :: "tooltip \<Rightarrow> bool" where
  "isWithActiveTrigger st = list_ex (activeTrigger st) [''click'', ''focus'', ''hover'']"

definition set_trigger :: "string option \<Rightarrow> string \<Rightarrow> bool \<Rightarrow> tooltip \<Rightarrow> tooltip" where
  "set_trigger event focusEvent on st =
     (case event of
        None \<Rightarrow> st
      | Some e \<Rightarrow>
          st\<lparr>activeTrigger := (activeTrigger st)((if e = focusEvent then ''focus'' else ''hover'') := on)\<rparr>)"

definition leave_tip :: "tip_env \<Rightarrow> string option \<Rightarrow> tooltip \<Rightarrow> tooltip" where
  "leave_tip env event st =
     (let st1 = set_trigger event ''focusout'' False st
      in if isWithActiveTrigger st1 then st1
         else
           (let st2 = (clear_timeout st1)\<lparr>hoverState := HoverOut\<rparr>
            in if delayed st2 ''hide'' then set_timeout HideTimer st2 else hide_tip env st2))"

text \<open>\<open>show\<close>, up to what it does when the tip has appeared.\<close>

definition show_tip_with :: "(tooltip \<Rightarrow> tip_result) \<Rightarrow> tip_env \<Rightarrow> tooltip \<Rightarrow> tip_result" where
  "show_tip_with shown env st =
     (if elementHidden env then Inl (NotVisible, st)
      else if \<not> (isWithContent env st \<and> tpEnabled st) then Inr st
      else
        (let st1 = tip_trigger TipShow st
         in if tipPrevents env TipShow \<or> \<not> elementInDom env then Inr st1
            else
              (let st2 = getTipElement env st1;
                   st3 = st2\<lparr>tipAttr := (tipAttr st2)(''id'' \<mapsto> tipUid env),
                             elementAttr := (elementAttr st2)(''aria-describedby'' \<mapsto> tipUid env)\<rparr>
               in thenRun (setContent env st3) (\<lambda>st4.
                  let st5 = (if truthy (cfg st4 ''animation'') then tip_addClass ''fade'' st4 else st4);
                      placement = (case cfg st5 ''placement'' of
                          JFunction f \<Rightarrow> placementFn env f | JText s \<Rightarrow> s | _ \<Rightarrow> []);
                      attachment = getAttachment placement;
                      st6 = addAttachmentClass env attachment st5;
                      st7 = tip_trigger TipInserted (st6\<lparr>tipInDom := True\<rparr>)
                  in thenRun (create_tip_popper env attachment st7) (\<lambda>st8.
                     let st9 = tip_addClass ''show'' st8;
                         st10 = (if tipTouch env then st9\<lparr>tipMouseover := True\<rparr> else st9)
                     in if tip_animates env st10 then Inr (st10\<lparr>tipEnds := tipEnds st10 @ [ShowComplete]\<rparr>)
                        else shown st10)))))"

text \<open>
  The end of \<open>show\<close>. When the tip has lost the mark of a popper, \<open>_fixTransition\<close> hides and shows
  it once more without animation, and that call ends without a second fix.
\<close>

definition shown_unanimated :: "tip_env \<Rightarrow> tooltip \<Rightarrow> tooltip" where
  "shown_unanimated env st =
     (let prevHoverState = hoverState st;
          st1 = tip_trigger TipShown (st\<lparr>hoverState := HoverNull\<rparr>)
      in if prevHoverState = HoverOut then leave_tip env None st1 else st1)"

definition fixTransition :: "tip_env \<Rightarrow> tooltip \<Rightarrow> tip_result" where
  "fixTransition env st =
     (let st1 = getTipElement env st; initConfigAnimation = cfg st1 ''animation''
      in if tipAttr st1 ''x-placement'' \<noteq> None then Inr st1
         else
           (let st2 = (tip_removeClass ''fade'' st1)\<lparr>tpConfig := (tpConfig st1)(''animation'' \<mapsto> JBool False)\<rparr>
            in thenRun (show_tip_with (\<lambda>s. Inr (shown_unanimated env s)) env (hide_tip env st2)) (\<lambda>st3.
               Inr (st3\<lparr>tpConfig := (tpConfig st3)(''animation'' \<mapsto> initConfigAnimation)\<rparr>))))"

definition complete_tip_show :: "tip_env \<Rightarrow> tooltip \<Rightarrow> tip_result" where
  "complete_tip_show env st =
     thenRun (if truthy (cfg st ''animation'') then fixTransition env st else Inr st)
       (\<lambda>st1. Inr (shown_unanimated env st1))"

definition show_tip :: "tip_env \<Rightarrow> tooltip \<Rightarrow> tip_result" where
  "show_tip env st = show_tip_with (complete_tip_show env) env st"

definition enter_tip :: "tip_env \<Rightarrow> string option \<Rightarrow> tooltip \<Rightarrow> tip_result" where
  "enter_tip env event st =
     (let st1 = getTipElement env (set_trigger event ''focusin'' True st)
      in if ''show'' \<in> tipClasses st1 \<or> hoverState st1 = HoverShow then Inr (st1\<lparr>hoverState := HoverShow\<rparr>)
         else
           (let st2 = (clear_timeout st1)\<lparr>hoverState := HoverShow\<rparr>
            in if delayed st2 ''show'' then Inr (set_timeout ShowTimer st2) else show_tip env st2))"

text \<open>\<open>toggle\<close>, called by the click listener or by the page.\<close>

definition toggle_tip :: "tip_env \<Rightarrow> bool \<Rightarrow> tooltip \<Rightarrow> tip_result" where
  "toggle_tip env clicked st =
     (if \<not> tpEnabled st then Inr st
      else if clicked
      then (let st1 = st\<lparr>activeTrigger := (activeTrigger st)(''click'' := \<not> activeTrigger st ''click'')\<rparr>
            in if isWithActiveTrigger st1 then enter_tip env None st1 else Inr (leave_tip env None st1))
      else (let st1 = getTipElement env st
            in if ''show'' \<in> tipClasses st1 then Inr (leave_tip env None st1) else enter_tip env None st1))"

section \<open>Life of an instance\<close>

definition fixTitle :: "tooltip \<Rightarrow> tooltip" where
  "fixTitle st =
     (let title = elementAttr st ''title''
      in if (title \<noteq> None \<and> title \<noteq> Some []) \<or> elementAttr st ''data-original-title'' = None
         then st\<lparr>elementAttr := (elementAttr st)
                (''data-original-title'' \<mapsto> (case title of Some t \<Rightarrow> t | None \<Rightarrow> []), ''title'' \<mapsto> [])\<rparr>
         else st)"

text \<open>The listeners for one trigger; a modal around the element gets one for each of them.\<close>

definition trigger_listeners :: "bool \<Rightarrow> string \<Rightarrow> tip_listener list" where
  "trigger_listeners inModal t =
     (if t = ''click'' then [OnClick]
      else if t = ''manual'' then []
      else if t = ''hover'' then [OnEnter ''mouseenter'', OnLeave ''mouseleave'']
      else [OnEnter ''focusin'', OnLeave ''focusout'']) @
     (if inModal then [OnModalHide] else [])"

definition tip_setListeners :: "bool \<Rightarrow> tooltip \<Rightarrow> tooltip" where
  "tip_setListeners inModal st =
     (let triggers = split_char CHR '' '' (case cfg st ''trigger'' of JText s \<Rightarrow> s | _ \<Rightarrow> []);
          st1 = st\<lparr>tipListeners := tipListeners st @ concat (map (trigger_listeners inModal) triggers)\<rparr>
      in if truthy (cfg st ''selector'')
         then st1\<lparr>tpConfig := (tpConfig st1)(''trigger'' \<mapsto> JText ''manual'', ''selector'' \<mapsto> JText [])\<rparr>
         else fixTitle st1)"

definition new_tooltip ::
  "(jsreal \<Rightarrow> string) \<Rightarrow> tip_kind \<Rightarrow> bool \<Rightarrow> (string \<Rightarrow> string option) \<Rightarrow> js_options \<Rightarrow> js_options \<Rightarrow> string + tooltip" where
  "new_tooltip showNumber k inModal attrs data given =
     (case tip_getConfig showNumber k data given of
        Inl msg \<Rightarrow> Inl msg
      | Inr c \<Rightarrow>
          Inr (tip_setListeners inModal
            \<lparr>tpKind = k, tpConfig = c, tpEnabled = True, tpTimeout = 0, tpTimers = [], nextTip = 1,
             hoverState = HoverUnset, activeTrigger = (\<lambda>_. False), tpPopper = None, livePoppers = [],
             nextPopper = 0, popperLog = [], tpTip = False, tipClasses = {}, tipAttr = (\<lambda>_. None),
             tipInDom = False, tipWrites = [], elementAttr = attrs, tipEnds = [], tipListeners = [],
             tipMouseover = False, tipEvents = [], disposed = False\<rparr>))"

text \<open>Removing the tip also removes the handlers that wait for the end of its transition.\<close>

definition dispose_tip :: "tooltip \<Rightarrow> tooltip" where
  "dispose_tip st =
     (let st1 = (clear_timeout st)\<lparr>tipListeners := []\<rparr>;
          st2 = (if tpTip st1 then st1\<lparr>tipInDom := False, tipEnds := []\<rparr> else st1)
      in (destroy_popper st2)\<lparr>tpPopper := None, tpTip := False, disposed := True\<rparr>)"

section \<open>What can happen to an instance\<close>

text \<open>
  Calls of the page, events on the element and its modal, timers, the end of a transition of the
  tip, and reports of a popper. A disposed instance is out of the page's reach: only what was
  scheduled or registered elsewhere still finds it.
\<close>

datatype tip_action =
    EnableCall
  | DisableCall
  | ToggleEnabled
  | ToggleCall
  | ShowCall
  | HideCall
  | DisposeCall
  | DomEvent string
  | ModalHides
  | TipTimer nat
  | TipTransitionEnd
  | PopperUpdates nat string

definition run_listener :: "tip_env \<Rightarrow> tip_action \<Rightarrow> tip_listener \<Rightarrow> tooltip \<Rightarrow> tip_result" where
  "run_listener env a l st =
     (case l of
        OnClick \<Rightarrow> if a = DomEvent ''click'' then toggle_tip env True st else Inr st
      | OnEnter e \<Rightarrow> if a = DomEvent e then enter_tip env (Some e) st else Inr st
      | OnLeave e \<Rightarrow> if a = DomEvent e then Inr (leave_tip env (Some e) st) else Inr st
      | OnModalHide \<Rightarrow> if a = ModalHides then Inr (hide_tip env st) else Inr st)"

fun run_listeners :: "tip_env \<Rightarrow> tip_action \<Rightarrow> tip_listener list \<Rightarrow> tooltip \<Rightarrow> tip_result" where
  "run_listeners env a [] st = Inr st"
| "run_listeners env a (l # ls) st = thenRun (run_listener env a l st) (run_listeners env a ls)"

text \<open>
  The end of a transition runs the handlers that wait, each once; an exception leaves the rest.
\<close>

fun run_tip_ends :: "tip_env \<Rightarrow> nat \<Rightarrow> tooltip \<Rightarrow> tip_result" where
  "run_tip_ends env 0 st = Inr st"
| "run_tip_ends env (Suc n) st =
     (case tipEnds st of
        [] \<Rightarrow> Inr st
      | h # hs \<Rightarrow>
          (let st1 = st\<lparr>tipEnds := hs\<rparr>
           in thenRun (case h of ShowComplete \<Rightarrow> complete_tip_show env st1 | HideComplete \<Rightarrow> Inr (complete_tip_hide env st1))
                (run_tip_ends env n)))"

definition tip_timer_fires :: "tip_env \<Rightarrow> nat \<Rightarrow> tooltip \<Rightarrow> tip_result" where
  "tip_timer_fires env n st =
     (case map_of (tpTimers st) n of
        None \<Rightarrow> Inr st
      | Some k \<Rightarrow>
          (let st1 = st\<lparr>tpTimers := filter (\<lambda>(m, k). m \<noteq> n) (tpTimers st)\<rparr>
           in case k of
                ShowTimer \<Rightarrow> if hoverState st1 = HoverShow then show_tip env st1 else Inr st1
              | HideTimer \<Rightarrow> Inr (if hoverState st1 = HoverOut then hide_tip env st1 else st1)))"

definition tip_input :: "tip_env \<Rightarrow> tip_action \<Rightarrow> tooltip \<Rightarrow> tip_result" where
  "tip_input env a st =
     (case a of
        TipTimer n \<Rightarrow> tip_timer_fires env n st
      | TipTransitionEnd \<Rightarrow> run_tip_ends env (length (tipEnds st)) st
      | PopperUpdates p placement \<Rightarrow>
          if p \<notin> set (livePoppers st) then Inr st
          else if disposed st then Inl (TypeErr, st)
          else Inr (handlePopperPlacementChange env placement st)
      | _ \<Rightarrow>
          if disposed st then Inr st
          else (case a of
              EnableCall \<Rightarrow> Inr (st\<lparr>tpEnabled := True\<rparr>)
            | DisableCall \<Rightarrow> Inr (st\<lparr>tpEnabled := False\<rparr>)
            | ToggleEnabled \<Rightarrow> Inr (st\<lparr>tpEnabled := \<not> tpEnabled st\<rparr>)
            | ToggleCall \<Rightarrow> toggle_tip env False st
            | ShowCall \<Rightarrow> show_tip env st
            | HideCall \<Rightarrow> Inr (hide_tip env st)
            | DisposeCall \<Rightarrow> Inr (dispose_tip st)
            | _ \<Rightarrow> run_listeners env a (tipListeners st) st))"

text \<open>An exception ends the handler, not the page.\<close>

definition tip_step :: "tooltip \<Rightarrow> tip_env \<times> tip_action \<Rightarrow> tooltip" where
  "tip_step st = (\<lambda>(env, a). case tip_input env a st of Inl (_, st') \<Rightarrow> st' | Inr st' \<Rightarrow> st')"

section \<open>What every operation keeps\<close>

text \<open>
  The timers and the poppers are changed by a few primitive operations only. A predicate on them
  that these keep is kept by everything that can happen to an instance.
\<close>

definition tip_core :: "tooltip \<Rightarrow> (nat \<times> tip_timer) list \<times> nat \<times> nat \<times> nat option \<times> nat list \<times> nat" where
  "tip_core st = (tpTimers st, tpTimeout st, nextTip st, tpPopper st, livePoppers st, nextPopper st)"

lemma tip_core_update [simp]:
  "tip_core (st\<lparr>tpConfig := c\<rparr>) = tip_core st" "tip_core (st\<lparr>tpEnabled := b\<rparr>) = tip_core st"
  "tip_core (st\<lparr>hoverState := h\<rparr>) = tip_core st" "tip_core (st\<lparr>activeTrigger := t\<rparr>) = tip_core st"
  "tip_core (st\<lparr>popperLog := l\<rparr>) = tip_core st" "tip_core (st\<lparr>tpTip := b\<rparr>) = tip_core st"
  "tip_core (st\<lparr>tipClasses := ks\<rparr>) = tip_core st" "tip_core (st\<lparr>tipAttr := a\<rparr>) = tip_core st"
  "tip_core (st\<lparr>tipInDom := b\<rparr>) = tip_core st" "tip_core (st\<lparr>tipWrites := ws\<rparr>) = tip_core st"
  "tip_core (st\<lparr>elementAttr := a\<rparr>) = tip_core st" "tip_core (st\<lparr>tipEnds := es\<rparr>) = tip_core st"
  "tip_core (st\<lparr>tipListeners := ls\<rparr>) = tip_core st" "tip_core (st\<lparr>tipMouseover := b\<rparr>) = tip_core st"
  "tip_core (st\<lparr>tipEvents := vs\<rparr>) = tip_core st" "tip_core (st\<lparr>disposed := b\<rparr>) = tip_core st"
  by (simp_all add: tip_core_def)

lemma tip_core_same [simp]:
  "tip_core (tip_trigger ev st) = tip_core st" "tip_core (tip_addClass k st) = tip_core st"
  "tip_core (tip_removeClass k st) = tip_core st" "tip_core (getTipElement env st) = tip_core st"
  "tip_core (addAttachmentClass env attachment st) = tip_core st" "tip_core (cleanTipClass env st) = tip_core st"
  "tip_core (handlePopperPlacementChange env pl st) = tip_core st" "tip_core (tip_write w st) = tip_core st"
  "tip_core (set_trigger event f on st) = tip_core st" "tip_core (fixTitle st) = tip_core st"
  by (simp_all add: tip_trigger_def tip_addClass_def tip_removeClass_def getTipElement_def
      addAttachmentClass_def cleanTipClass_def handlePopperPlacementChange_def tip_write_def
      set_trigger_def fixTitle_def Let_def split: option.split)

text \<open>A predicate of the state a call leaves, whether it returns or throws.\<close>

definition leaves :: "(tooltip \<Rightarrow> bool) \<Rightarrow> tip_result \<Rightarrow> bool" where
  "leaves P r = (case r of Inl (_, st) \<Rightarrow> P st | Inr st \<Rightarrow> P st)"

lemma leaves_simps [simp]: "leaves P (Inr st) = P st" "leaves P (Inl (e, st)) = P st"
  by (simp_all add: leaves_def)

lemma leaves_thenRun: "leaves P r \<Longrightarrow> (\<And>s. P s \<Longrightarrow> leaves P (f s)) \<Longrightarrow> leaves P (thenRun r f)"
  by (cases r) (simp_all add: thenRun_def)

locale tip_invariant =
  fixes P :: "tooltip \<Rightarrow> bool"
  assumes core: "tip_core st' = tip_core st \<Longrightarrow> P st \<Longrightarrow> P st'"
    and clear: "P st \<Longrightarrow> P (clear_timeout st)"
    and set_cleared: "P st \<Longrightarrow> P (set_timeout k ((clear_timeout st)\<lparr>hoverState := h\<rparr>))"
    and fired: "P st \<Longrightarrow> P (st\<lparr>tpTimers := filter (\<lambda>(m, k). m \<noteq> n) (tpTimers st)\<rparr>)"
    and destroyed: "P st \<Longrightarrow> P (destroy_popper st)"
    and dropped: "P st \<Longrightarrow> P (st\<lparr>tpPopper := None\<rparr>)"
    and created: "P st \<Longrightarrow> P (add_popper st)"
begin

lemma core_eq: "tip_core st' = tip_core st \<Longrightarrow> P st' = P st"
  using core [of st' st] core [of st st'] by auto

lemma same [simp]:
  "P (st\<lparr>tpConfig := c\<rparr>) = P st" "P (st\<lparr>tpEnabled := b\<rparr>) = P st"
  "P (st\<lparr>hoverState := h\<rparr>) = P st" "P (st\<lparr>activeTrigger := t\<rparr>) = P st"
  "P (st\<lparr>popperLog := l\<rparr>) = P st" "P (st\<lparr>tpTip := b\<rparr>) = P st"
  "P (st\<lparr>tipClasses := ks\<rparr>) = P st" "P (st\<lparr>tipAttr := a\<rparr>) = P st"
  "P (st\<lparr>tipInDom := b\<rparr>) = P st" "P (st\<lparr>tipWrites := ws\<rparr>) = P st"
  "P (st\<lparr>elementAttr := a\<rparr>) = P st" "P (st\<lparr>tipEnds := es\<rparr>) = P st"
  "P (st\<lparr>tipListeners := ls\<rparr>) = P st" "P (st\<lparr>tipMouseover := b\<rparr>) = P st"
  "P (st\<lparr>tipEvents := vs\<rparr>) = P st" "P (st\<lparr>disposed := b\<rparr>) = P st"
  "P (tip_trigger ev st) = P st" "P (tip_addClass k st) = P st" "P (tip_removeClass k st) = P st"
  "P (getTipElement env st) = P st" "P (addAttachmentClass env attachment st) = P st"
  "P (cleanTipClass env st) = P st" "P (handlePopperPlacementChange env pl st) = P st"
  "P (tip_write w st) = P st" "P (set_trigger event f on st) = P st"
  by (rule core_eq; simp)+

lemma keep_complete_hide: "P st \<Longrightarrow> P (complete_tip_hide env st)"
  by (simp add: complete_tip_hide_def Let_def destroyed)

lemma keep_hide: "P st \<Longrightarrow> P (hide_tip env st)"
  by (simp add: hide_tip_def Let_def keep_complete_hide)

lemma keep_leave: "P st \<Longrightarrow> P (leave_tip env event st)"
  by (simp add: leave_tip_def Let_def keep_hide clear set_cleared)

lemma keep_content: "P st \<Longrightarrow> leaves P (setContent env st)"
  by (auto simp: setContent_def tooltip_setContent_def popover_setContent_def bare_tip_def setElementContent_def
      Let_def intro!: leaves_thenRun split: tip_kind.split)

lemma keep_popper: "P st \<Longrightarrow> leaves P (create_tip_popper env a st)"
  by (auto simp: create_tip_popper_def Let_def intro: created split: option.split prod.split)

lemma keep_show_with:
  assumes "P st" and "\<And>s. P s \<Longrightarrow> leaves P (f s)"
  shows "leaves P (show_tip_with f env st)"
  using assms
  by (auto simp: show_tip_with_def Let_def intro!: leaves_thenRun keep_content keep_popper)

lemma keep_unanimated: "P st \<Longrightarrow> P (shown_unanimated env st)"
  by (simp add: shown_unanimated_def Let_def keep_leave)

lemma keep_fix: "P st \<Longrightarrow> leaves P (fixTransition env st)"
  by (auto simp: fixTransition_def Let_def intro!: leaves_thenRun keep_show_with keep_hide keep_unanimated)

lemma keep_complete_show: "P st \<Longrightarrow> leaves P (complete_tip_show env st)"
  by (auto simp: complete_tip_show_def intro!: leaves_thenRun keep_fix keep_unanimated)

lemma keep_show: "P st \<Longrightarrow> leaves P (show_tip env st)"
  unfolding show_tip_def by (rule keep_show_with) (auto intro: keep_complete_show)

lemma keep_enter: "P st \<Longrightarrow> leaves P (enter_tip env event st)"
  by (auto simp: enter_tip_def Let_def clear set_cleared intro!: keep_show)

lemma keep_toggle: "P st \<Longrightarrow> leaves P (toggle_tip env clicked st)"
  by (auto simp: toggle_tip_def Let_def intro: keep_enter keep_leave)

lemma keep_listeners: "P st \<Longrightarrow> leaves P (run_listeners env a ls st)"
proof (induction ls arbitrary: st)
  case (Cons l ls)
  have "leaves P (run_listener env a l st)"
    using Cons.prems by (auto simp: run_listener_def intro: keep_toggle keep_enter keep_leave keep_hide split: tip_listener.split)
  then show ?case by (auto intro: leaves_thenRun Cons.IH)
qed simp

lemma keep_ends: "P st \<Longrightarrow> leaves P (run_tip_ends env n st)"
proof (induction n arbitrary: st)
  case (Suc n)
  then show ?case
    by (auto simp: Let_def intro!: leaves_thenRun keep_complete_show keep_complete_hide split: list.split tip_end.split)
qed simp

lemma keep_timer: "P st \<Longrightarrow> leaves P (tip_timer_fires env n st)"
  by (auto simp: tip_timer_fires_def Let_def fired intro: keep_show keep_hide split: option.split tip_timer.split)

lemma keep_dispose: "P st \<Longrightarrow> P (dispose_tip st)"
  by (simp add: dispose_tip_def Let_def dropped destroyed clear)

lemma keep_input: "P st \<Longrightarrow> leaves P (tip_input env a st)"
  by (cases a) (auto simp: tip_input_def intro: keep_timer keep_ends keep_show keep_hide keep_toggle keep_dispose keep_listeners)

lemma keep_step: "P st \<Longrightarrow> P (tip_step st i)"
  using keep_input [of st "fst i" "snd i"] by (auto simp: tip_step_def leaves_def split: prod.split sum.splits)

end

sublocale tip_invariant \<subseteq> machine: invariant_machine tip_step P
  by standard (rule keep_step)

section \<open>Timers\<close>

definition latest_only :: "tooltip \<Rightarrow> bool" where
  "latest_only st \<longleftrightarrow> tpTimers st = [] \<or> (\<exists>k. tpTimers st = [(tpTimeout st, k)])"

interpretation one_timer: tip_invariant latest_only
proof
  fix st n assume "latest_only st"
  then show "latest_only (st\<lparr>tpTimers := filter (\<lambda>(m, k). m \<noteq> n) (tpTimers st)\<rparr>)"
    by (cases "tpTimeout st = n") (auto simp: latest_only_def)
qed (auto simp: latest_only_def tip_core_def clear_timeout_def set_timeout_def destroy_popper_def
    add_popper_def split: option.split)

text \<open>
  Whatever happens to a tooltip or popover, at most one of its timers is running, and it is the
  one that the next call to cancel a timer cancels: no delayed show or hide is lost track of.
\<close>

theorem tooltip_one_timer:
  assumes "new_tooltip showNumber k inModal attrs data given = Inr st"
  shows "tpTimers (foldl tip_step st inputs) \<in>
    {[], [(tpTimeout (foldl tip_step st inputs), ShowTimer)], [(tpTimeout (foldl tip_step st inputs), HideTimer)]}"
proof -
  have "tpTimers st = []"
    using assms
    by (auto simp: new_tooltip_def tip_setListeners_def fixTitle_def Let_def split: sum.splits if_splits)
  then have "latest_only (foldl tip_step st inputs)"
    by (intro one_timer.machine.run_inv) (simp add: latest_only_def)
  then show ?thesis by (auto simp: latest_only_def intro: tip_timer.exhaust)
qed

section \<open>A hover that works\<close>

definition calm :: "tip_env \<Rightarrow> bool" where
  "calm env \<longleftrightarrow> tipSupportsEnd env \<and> (\<forall>ev. \<not> tipPrevents env ev) \<and> \<not> elementHidden env \<and> elementInDom env"

text \<open>A tooltip with a title, animated and shown on hover and focus, that only the pointer has reached.\<close>

definition hover_tip :: "tooltip \<Rightarrow> bool" where
  "hover_tip st \<longleftrightarrow>
     tpKind st = Tooltip \<and> tpEnabled st \<and> \<not> disposed st \<and> truthy (cfg st ''animation'') \<and>
     tipListeners st = [OnEnter ''mouseenter'', OnLeave ''mouseleave'', OnEnter ''focusin'', OnLeave ''focusout''] \<and>
     \<not> activeTrigger st ''click'' \<and> \<not> activeTrigger st ''focus'' \<and>
     (\<exists>c t. elementAttr st ''data-original-title'' = Some (c # t)) \<and>
     (\<exists>s. cfg st ''placement'' = JText s \<and> getAttachment s \<noteq> None)"

lemma hover_tip_cong:
  assumes "hover_tip st" "tpKind st' = tpKind st" "tpEnabled st' = tpEnabled st" "disposed st' = disposed st"
    "tpConfig st' = tpConfig st" "tipListeners st' = tipListeners st"
    "\<not> activeTrigger st' ''click''" "\<not> activeTrigger st' ''focus''"
    "elementAttr st' ''data-original-title'' = elementAttr st ''data-original-title''"
  shows "hover_tip st'"
  using assms by (simp add: hover_tip_def cfg_def)

lemma hide_fading:
  assumes "calm env" "tpTip st" "''fade'' \<in> tipClasses st"
  shows "tpKind (hide_tip env st) = tpKind st" "tpEnabled (hide_tip env st) = tpEnabled st"
    "disposed (hide_tip env st) = disposed st" "tpConfig (hide_tip env st) = tpConfig st"
    "tipListeners (hide_tip env st) = tipListeners st" "elementAttr (hide_tip env st) = elementAttr st"
    "tpTip (hide_tip env st)" "tipClasses (hide_tip env st) = tipClasses st - {''show''}"
    "tipEnds (hide_tip env st) = tipEnds st @ [HideComplete]" "hoverState (hide_tip env st) = HoverUnset"
    "tpPopper (hide_tip env st) = tpPopper st" "livePoppers (hide_tip env st) = livePoppers st"
    "nextPopper (hide_tip env st) = nextPopper st" "tipInDom (hide_tip env st) = tipInDom st"
    "tipEvents (hide_tip env st) = tipEvents st @ [TipHide]"
    "\<not> activeTrigger (hide_tip env st) ''click''" "\<not> activeTrigger (hide_tip env st) ''focus''"
  using assms
  by (simp_all add: hide_tip_def Let_def calm_def tip_trigger_def getTipElement_def
      tip_removeClass_def tip_animates_def)

text \<open>The pointer leaves a shown tip: the tip begins to fade out.\<close>

lemma pointer_leaves:
  assumes "calm env" "hover_tip st" "tpTip st" "''fade'' \<in> tipClasses st" "\<not> delayed st ''hide''"
  shows "\<exists>s. tip_step st (env, DomEvent ''mouseleave'') = s \<and> hover_tip s \<and> tpTip s \<and>
    tipClasses s = tipClasses st - {''show''} \<and> tipEnds s = tipEnds st @ [HideComplete] \<and>
    hoverState s = HoverUnset \<and> tpPopper s = tpPopper st \<and> livePoppers s = livePoppers st \<and>
    nextPopper s = nextPopper st \<and> tpConfig s = tpConfig st \<and> tipInDom s = tipInDom st \<and>
    elementAttr s = elementAttr st \<and> tipEvents s = tipEvents st @ [TipHide]"
proof -
  let ?s = "leave_tip env (Some ''mouseleave'') st"
  have step: "tip_step st (env, DomEvent ''mouseleave'') = ?s"
    using assms(2) by (simp add: tip_step_def tip_input_def hover_tip_def run_listener_def thenRun_def)
  define c where "c = clear_timeout (set_trigger (Some ''mouseleave'') ''focusout'' False st)"
  have c: "tpKind c = tpKind st" "tpEnabled c = tpEnabled st" "disposed c = disposed st" "tpConfig c = tpConfig st"
    "tipListeners c = tipListeners st" "elementAttr c = elementAttr st" "tpTip c" "tipClasses c = tipClasses st"
    "tipEnds c = tipEnds st" "tpPopper c = tpPopper st" "livePoppers c = livePoppers st"
    "nextPopper c = nextPopper st" "tipInDom c = tipInDom st" "tipEvents c = tipEvents st"
    "\<not> activeTrigger c ''click''" "\<not> activeTrigger c ''focus''"
    using assms(2,3) by (simp_all add: c_def clear_timeout_def set_trigger_def hover_tip_def)
  have active: "\<not> isWithActiveTrigger (set_trigger (Some ''mouseleave'') ''focusout'' False st)"
    using assms(2) by (simp add: isWithActiveTrigger_def set_trigger_def hover_tip_def)
  have "\<not> delayed (c\<lparr>hoverState := HoverOut\<rparr>) ''hide''"
    using assms(5) c(4) by (simp add: delayed_def cfg_def)
  then have s: "?s = hide_tip env (c\<lparr>hoverState := HoverOut\<rparr>)"
    using active by (simp add: leave_tip_def Let_def c_def)
  note hid = hide_fading [OF assms(1), of "c\<lparr>hoverState := HoverOut\<rparr>", folded s]
  have "hover_tip ?s"
    by (rule hover_tip_cong [OF assms(2)]) (use assms(4) c in \<open>simp_all add: hid\<close>)
  then show ?thesis unfolding step using assms(4) c by (simp add: hid)
qed

text \<open>Classes of the placement are never those that fade and show the tip.\<close>

lemma placement_class [simp]:
  "class_prefix k @ s \<noteq> ''fade''" "class_prefix k @ s \<noteq> ''show''"
  "''fade'' \<noteq> class_prefix k @ s" "''show'' \<noteq> class_prefix k @ s"
  "\<not> strict_prefix (class_prefix k) ''fade''" "\<not> strict_prefix (class_prefix k) ''show''"
  by (cases k; simp add: class_prefix_def strict_prefix_def)+

text \<open>Only the looks of the tip change: its classes, attributes and content.\<close>

definition looks_only :: "tooltip \<Rightarrow> tooltip \<Rightarrow> bool" where
  "looks_only st s \<longleftrightarrow>
     tip_core s = tip_core st \<and> tpKind s = tpKind st \<and> tpConfig s = tpConfig st \<and> tpEnabled s = tpEnabled st \<and>
     hoverState s = hoverState st \<and> activeTrigger s = activeTrigger st \<and> tpTip s = tpTip st \<and>
     tipInDom s = tipInDom st \<and> elementAttr s = elementAttr st \<and> tipEnds s = tipEnds st \<and>
     tipListeners s = tipListeners st \<and> tipEvents s = tipEvents st \<and> disposed s = disposed st"

lemma getTipElement_present [simp]: "tpTip st \<Longrightarrow> getTipElement env st = st"
  by (simp add: getTipElement_def)

lemma looks_only_basic:
  "looks_only st st" "looks_only st (tip_addClass k s) = looks_only st s"
  "looks_only st (tip_removeClass k s) = looks_only st s" "looks_only st (tip_write w s) = looks_only st s"
  "looks_only st (s\<lparr>tipAttr := a\<rparr>) = looks_only st s" "looks_only st (s\<lparr>popperLog := l\<rparr>) = looks_only st s"
  "looks_only st (s\<lparr>tipMouseover := b\<rparr>) = looks_only st s" "looks_only st (s\<lparr>tipClasses := ks\<rparr>) = looks_only st s"
  unfolding looks_only_def by (simp_all add: tip_addClass_def tip_removeClass_def tip_write_def)

lemma looks_only_placement:
  assumes "looks_only st s" "tpTip st"
  shows "looks_only st (addAttachmentClass env attachment s)"
    "looks_only st (handlePopperPlacementChange env placement s)"
proof -
  have "tpTip s" using assms by (simp add: looks_only_def)
  then show "looks_only st (addAttachmentClass env attachment s)"
    "looks_only st (handlePopperPlacementChange env placement s)"
    using assms(1)
    by (simp_all add: addAttachmentClass_def handlePopperPlacementChange_def cleanTipClass_def Let_def looks_only_basic)
qed

lemmas looks_only_intros = looks_only_basic looks_only_placement

lemma content_written:
  assumes "tpTip st" "getTitle env st = JText t" "tpKind st = Tooltip"
  shows "\<exists>s. setContent env st = Inr s \<and> looks_only st s \<and> tipClasses s = tipClasses st - {''fade'', ''show''}"
proof -
  obtain w where "setElementContent env ''.tooltip-inner'' (JText t) st = Inr (tip_write w st)"
    by (auto simp: setElementContent_def is_node_def nodeType_def member_def truthy_def Let_def)
  then have "setContent env st = Inr (tip_removeClass ''show'' (tip_removeClass ''fade'' (tip_write w st)))"
    using assms by (simp add: setContent_def tooltip_setContent_def bare_tip_def thenRun_def)
  moreover have "tipClasses (tip_removeClass ''show'' (tip_removeClass ''fade'' (tip_write w st)))
      = tipClasses st - {''fade'', ''show''}"
    by (auto simp: tip_removeClass_def tip_write_def)
  ultimately show ?thesis by (auto simp: looks_only_basic)
qed

lemma popper_created:
  assumes "tpTip st"
  shows "\<exists>s. create_tip_popper env (Some a) st = Inr (add_popper s) \<and> looks_only st s \<and>
    tipAttr s ''x-placement'' \<noteq> None \<and>
    (''fade'' \<in> tipClasses s) = (''fade'' \<in> tipClasses st) \<and> (''show'' \<in> tipClasses s) = (''show'' \<in> tipClasses st)"
proof -
  obtain original final where po: "popperPlaces env a = (original, final)" by (cases "popperPlaces env a")
  let ?s = "st\<lparr>tipAttr := (tipAttr st)(''x-placement'' \<mapsto> final),
     popperLog := popperLog st @ [\<lparr>trPlacement = a, trOffset = cfg st ''offset'', trFlip = cfg st ''fallbackPlacement'',
       trBoundaries = cfg st ''boundary''\<rparr>]\<rparr>"
  let ?t = "if original \<noteq> final then handlePopperPlacementChange env final ?s else ?s"
  have "create_tip_popper env (Some a) st = Inr (add_popper ?t)"
    by (simp add: create_tip_popper_def po)
  moreover have "looks_only st ?t" using assms by (simp add: looks_only_intros)
  moreover have "tipAttr ?t ''x-placement'' \<noteq> None"
    "(''fade'' \<in> tipClasses ?t) = (''fade'' \<in> tipClasses st)" "(''show'' \<in> tipClasses ?t) = (''show'' \<in> tipClasses st)"
    using assms by (simp_all add: handlePopperPlacementChange_def addAttachmentClass_def cleanTipClass_def
      tip_addClass_def attachment_class_def Let_def)
  ultimately show ?thesis by blast
qed

text \<open>
  The tip appears: a new popper, and a transition to wait for. \<open>s7\<close> is the state before the
  popper is created.
\<close>

lemma show_steps:
  assumes "calm env" "hover_tip st" "tpTip st"
  obtains s4 a s8 where
    "looks_only ((tip_trigger TipShow st)\<lparr>elementAttr := (elementAttr st)(''aria-describedby'' \<mapsto> tipUid env)\<rparr>) s4"
    "looks_only (tip_trigger TipInserted
       ((addAttachmentClass env (Some a) (tip_addClass ''fade'' s4))\<lparr>tipInDom := True\<rparr>)) s8"
    "tipAttr s8 ''x-placement'' \<noteq> None" "''fade'' \<in> tipClasses s8"
    "show_tip env st = Inr
       ((let s9 = tip_addClass ''show'' (add_popper s8) in if tipTouch env then s9\<lparr>tipMouseover := True\<rparr> else s9)
          \<lparr>tipEnds := tipEnds s8 @ [ShowComplete]\<rparr>)"
proof -
  obtain c t where t: "elementAttr st ''data-original-title'' = Some (c # t)" using assms(2) by (auto simp: hover_tip_def)
  obtain p a where p: "cfg st ''placement'' = JText p" "getAttachment p = Some a"
    using assms(2) by (auto simp: hover_tip_def)
  let ?st3 = "(tip_trigger TipShow st)\<lparr>tipAttr := (tipAttr st)(''id'' \<mapsto> tipUid env),
    elementAttr := (elementAttr st)(''aria-describedby'' \<mapsto> tipUid env)\<rparr>"
  have st3: "tpTip ?st3" "getTitle env ?st3 = JText (c # t)" "tpKind ?st3 = Tooltip"
    using assms(2,3) t by (simp_all add: tip_trigger_def getTitle_def hover_tip_def)
  obtain s4 where s4: "setContent env ?st3 = Inr s4" "looks_only ?st3 s4" using content_written [OF st3] by blast
  let ?s7 = "tip_trigger TipInserted
    ((addAttachmentClass env (Some a) (tip_addClass ''fade'' s4))\<lparr>tipInDom := True\<rparr>)"
  have tip4: "tpTip s4" using s4(2) assms(3) by (simp add: looks_only_def tip_trigger_def)
  then have "tpTip ?s7" by (simp add: tip_trigger_def addAttachmentClass_def tip_addClass_def)
  from popper_created [OF this, of env a] obtain s8 where
    s8: "create_tip_popper env (Some a) ?s7 = Inr (add_popper s8)" "looks_only ?s7 s8"
      "tipAttr s8 ''x-placement'' \<noteq> None" "''fade'' \<in> tipClasses s8"
    by (auto simp: tip_trigger_def addAttachmentClass_def tip_addClass_def tip4)
  have "looks_only ((tip_trigger TipShow st)\<lparr>elementAttr := (elementAttr st)(''aria-describedby'' \<mapsto> tipUid env)\<rparr>) s4"
    using s4(2) by (simp add: looks_only_def tip_core_def tip_trigger_def)
  moreover have "isWithContent env st" "tpEnabled st" "truthy (cfg st ''animation'')"
    using assms(2) t by (auto simp: isWithContent_def tooltip_isWithContent_def getTitle_def hover_tip_def truthy_def)
  moreover have cfg4: "cfg s4 = cfg st" using s4(2) by (auto simp: looks_only_def cfg_def tip_trigger_def)
  moreover have "cfg (tip_addClass ''fade'' s4) = cfg s4" by (rule ext) (simp add: cfg_def tip_addClass_def)
  ultimately show thesis
    using that [of s4 a s8] s8 assms s4(1) p
    by (simp add: show_tip_def show_tip_with_def Let_def thenRun_def calm_def tip_trigger_def tip_animates_def
        tip_addClass_def add_popper_def)
qed

lemma show_appears:
  assumes "calm env" "hover_tip st" "tpTip st"
  shows "\<exists>s. show_tip env st = Inr s \<and> hover_tip s \<and> tpTip s \<and> tpConfig s = tpConfig st \<and>
    {''fade'', ''show''} \<subseteq> tipClasses s \<and> tipEnds s = tipEnds st @ [ShowComplete] \<and>
    hoverState s = hoverState st \<and> tpPopper s = Some (nextPopper st) \<and>
    livePoppers s = livePoppers st @ [nextPopper st] \<and> nextPopper s = nextPopper st + 1 \<and>
    tipInDom s \<and> tipEvents s = tipEvents st @ [TipShow, TipInserted] \<and> tipAttr s ''x-placement'' \<noteq> None \<and>
    elementAttr s = (elementAttr st)(''aria-describedby'' \<mapsto> tipUid env)"
proof -
  from show_steps [OF assms] obtain s4 a s8 where
    s4: "looks_only ((tip_trigger TipShow st)\<lparr>elementAttr := (elementAttr st)(''aria-describedby'' \<mapsto> tipUid env)\<rparr>) s4"
    and s8: "looks_only (tip_trigger TipInserted
       ((addAttachmentClass env (Some a) (tip_addClass ''fade'' s4))\<lparr>tipInDom := True\<rparr>)) s8"
    and x: "tipAttr s8 ''x-placement'' \<noteq> None" "''fade'' \<in> tipClasses s8"
    and run: "show_tip env st = Inr
       ((let s9 = tip_addClass ''show'' (add_popper s8) in if tipTouch env then s9\<lparr>tipMouseover := True\<rparr> else s9)
          \<lparr>tipEnds := tipEnds s8 @ [ShowComplete]\<rparr>)" (is "_ = Inr ?s")
    by blast
  let ?s7 = "tip_trigger TipInserted ((addAttachmentClass env (Some a) (tip_addClass ''fade'' s4))\<lparr>tipInDom := True\<rparr>)"
  have tip4: "tpTip s4" using s4 assms(3) by (simp add: looks_only_def tip_trigger_def)
  have s7: "tpKind ?s7 = tpKind st" "tpConfig ?s7 = tpConfig st" "tpEnabled ?s7 = tpEnabled st"
    "hoverState ?s7 = hoverState st" "activeTrigger ?s7 = activeTrigger st" "tpTip ?s7" "tipInDom ?s7"
    "elementAttr ?s7 = (elementAttr st)(''aria-describedby'' \<mapsto> tipUid env)" "tipEnds ?s7 = tipEnds st"
    "tipListeners ?s7 = tipListeners st" "disposed ?s7 = disposed st"
    "tipEvents ?s7 = tipEvents st @ [TipShow, TipInserted]" "tip_core ?s7 = tip_core st"
    using s4 tip4
    by (simp_all add: looks_only_def tip_trigger_def addAttachmentClass_def tip_addClass_def tip_core_def)
  have s: "tpKind ?s = tpKind st" "tpConfig ?s = tpConfig st" "tpEnabled ?s = tpEnabled st"
    "hoverState ?s = hoverState st" "activeTrigger ?s = activeTrigger st" "tpTip ?s" "tipInDom ?s"
    "elementAttr ?s = (elementAttr st)(''aria-describedby'' \<mapsto> tipUid env)"
    "tipEnds ?s = tipEnds st @ [ShowComplete]" "tipListeners ?s = tipListeners st" "disposed ?s = disposed st"
    "tipEvents ?s = tipEvents st @ [TipShow, TipInserted]" "tpPopper ?s = Some (nextPopper st)"
    "livePoppers ?s = livePoppers st @ [nextPopper st]" "nextPopper ?s = nextPopper st + 1"
    "tipAttr ?s ''x-placement'' \<noteq> None" "{''fade'', ''show''} \<subseteq> tipClasses ?s"
    using s7 s8 x by (simp_all add: looks_only_def tip_addClass_def add_popper_def tip_core_def Let_def)
  have "hover_tip ?s"
    by (rule hover_tip_cong [OF assms(2)]) (use assms(2) in \<open>simp_all add: s hover_tip_def\<close>)
  with run s show ?thesis by blast
qed

lemma pointer_enters:
  assumes "calm env" "hover_tip st" "''show'' \<notin> tipClasses (getTipElement env st)" "hoverState st \<noteq> HoverShow"
    "\<not> delayed st ''show''"
  shows "\<exists>s. tip_step st (env, DomEvent ''mouseenter'') = s \<and> hover_tip s \<and> tpTip s \<and> tpConfig s = tpConfig st \<and>
    {''fade'', ''show''} \<subseteq> tipClasses s \<and> tipEnds s = tipEnds st @ [ShowComplete] \<and>
    hoverState s = HoverShow \<and> tpPopper s = Some (nextPopper st) \<and>
    livePoppers s = livePoppers st @ [nextPopper st] \<and> nextPopper s = nextPopper st + 1 \<and>
    tipInDom s \<and> tipEvents s = tipEvents st @ [TipShow, TipInserted] \<and> tipAttr s ''x-placement'' \<noteq> None \<and>
    elementAttr s = (elementAttr st)(''aria-describedby'' \<mapsto> tipUid env)"
proof -
  define c where "c = (clear_timeout (getTipElement env (set_trigger (Some ''mouseenter'') ''focusin'' True st)))
    \<lparr>hoverState := HoverShow\<rparr>"
  have c: "tpKind c = tpKind st" "tpEnabled c = tpEnabled st" "disposed c = disposed st" "tpConfig c = tpConfig st"
    "tipListeners c = tipListeners st" "elementAttr c = elementAttr st" "tpTip c" "hoverState c = HoverShow"
    "tipEnds c = tipEnds st" "livePoppers c = livePoppers st" "nextPopper c = nextPopper st"
    "tipEvents c = tipEvents st" "\<not> activeTrigger c ''click''" "\<not> activeTrigger c ''focus''"
    using assms(2) by (simp_all add: c_def clear_timeout_def set_trigger_def hover_tip_def getTipElement_def)
  have "''show'' \<notin> tipClasses (getTipElement env (set_trigger (Some ''mouseenter'') ''focusin'' True st))"
    "hoverState (getTipElement env (set_trigger (Some ''mouseenter'') ''focusin'' True st)) \<noteq> HoverShow"
    using assms(3,4) by (auto simp: getTipElement_def set_trigger_def cfg_def split: if_splits)
  moreover have "\<not> delayed c ''show''" using assms(5) c(4) by (simp add: delayed_def cfg_def)
  ultimately have enter: "enter_tip env (Some ''mouseenter'') st = show_tip env c"
    by (simp add: enter_tip_def Let_def c_def)
  have ht: "hover_tip c" by (rule hover_tip_cong [OF assms(2)]) (simp_all add: c)
  from show_appears [OF assms(1) this c(7)] obtain s where
    s: "show_tip env c = Inr s" "hover_tip s \<and> tpTip s \<and> tpConfig s = tpConfig c \<and>
    {''fade'', ''show''} \<subseteq> tipClasses s \<and> tipEnds s = tipEnds c @ [ShowComplete] \<and>
    hoverState s = hoverState c \<and> tpPopper s = Some (nextPopper c) \<and>
    livePoppers s = livePoppers c @ [nextPopper c] \<and> nextPopper s = nextPopper c + 1 \<and>
    tipInDom s \<and> tipEvents s = tipEvents c @ [TipShow, TipInserted] \<and> tipAttr s ''x-placement'' \<noteq> None \<and>
    elementAttr s = (elementAttr c)(''aria-describedby'' \<mapsto> tipUid env)" by blast
  have "tip_step st (env, DomEvent ''mouseenter'') = s"
    using assms(2) enter s(1) by (simp add: tip_step_def tip_input_def hover_tip_def run_listener_def thenRun_def)
  then show ?thesis using s(2) c by simp
qed

section \<open>A popper that is never destroyed\<close>

text \<open>Popper \<open>p\<close> is live, and not the one that the instance would destroy.\<close>

definition leaked :: "nat \<Rightarrow> tooltip \<Rightarrow> bool" where
  "leaked p st \<longleftrightarrow> p \<in> set (livePoppers st) \<and> tpPopper st \<noteq> Some p \<and> p < nextPopper st"

interpretation leak: tip_invariant "leaked p" for p
  by standard
    (auto simp: leaked_def tip_core_def clear_timeout_def set_timeout_def destroy_popper_def add_popper_def
      split: option.split)

text \<open>
  A tooltip that is entered again while it fades out leaks a popper: the one of its first
  showing stays alive, listening to the page, whatever happens afterwards, the disposal of the
  tooltip included.
\<close>

theorem tooltip_leaks_popper:
  assumes "calm env" "hover_tip st" "tpTip st" "''fade'' \<in> tipClasses st"
    and "tpPopper st = Some p" "p \<in> set (livePoppers st)" "p < nextPopper st"
    and "\<not> delayed st ''show''" "\<not> delayed st ''hide''"
  shows "p \<in> set (livePoppers (foldl tip_step st
    ((env, DomEvent ''mouseleave'') # (env, DomEvent ''mouseenter'') # inputs)))"
proof -
  define s where "s = tip_step st (env, DomEvent ''mouseleave'')"
  have s: "hover_tip s" "tpTip s" "tipClasses s = tipClasses st - {''show''}" "hoverState s = HoverUnset"
    "livePoppers s = livePoppers st" "nextPopper s = nextPopper st" "tpConfig s = tpConfig st"
    using pointer_leaves [OF assms(1-4,9)] by (simp_all add: s_def)
  then have "''show'' \<notin> tipClasses (getTipElement env s)" "\<not> delayed s ''show''"
    using assms(8) by (simp_all add: delayed_def cfg_def)
  from pointer_enters [OF assms(1) s(1) this(1) _ this(2)] s(4)
  have "leaked p (tip_step s (env, DomEvent ''mouseenter''))"
    using s(5,6) assms(6,7) by (simp add: leaked_def)
  from leak.machine.run_inv [OF this, of inputs] show ?thesis by (simp add: leaked_def s_def)
qed

section \<open>Coming and going\<close>

lemma end_shown:
  assumes "tpTip st" "tipEnds st = [ShowComplete]" "tipAttr st ''x-placement'' \<noteq> None" "hoverState st \<noteq> HoverOut"
  shows "tip_step st (env, TipTransitionEnd)
    = st\<lparr>tipEnds := [], hoverState := HoverNull, tipEvents := tipEvents st @ [TipShown]\<rparr>"
  using assms
  by (simp add: tip_step_def tip_input_def complete_tip_show_def fixTransition_def shown_unanimated_def thenRun_def
      tip_trigger_def Let_def)

lemma end_hidden:
  assumes "tpTip st" "tipEnds st = [HideComplete]" "hoverState st \<noteq> HoverShow"
  shows "\<not> tipInDom (tip_step st (env, TipTransitionEnd))"
    "elementAttr (tip_step st (env, TipTransitionEnd)) = (elementAttr st)(''aria-describedby'' := None)"
    "tipEnds (tip_step st (env, TipTransitionEnd)) = []"
    "hoverState (tip_step st (env, TipTransitionEnd)) = hoverState st"
    "tipEvents (tip_step st (env, TipTransitionEnd)) = tipEvents st @ [TipHidden]"
    "tipClasses (tip_step st (env, TipTransitionEnd))
       = {k \<in> tipClasses st. \<not> strict_prefix (class_prefix (tpKind st)) k}"
    "livePoppers (tip_step st (env, TipTransitionEnd))
       = (case tpPopper st of None \<Rightarrow> livePoppers st | Some p \<Rightarrow> filter (\<lambda>q. q \<noteq> p) (livePoppers st))"
  using assms
  by (simp_all add: tip_step_def tip_input_def complete_tip_hide_def cleanTipClass_def thenRun_def
      tip_trigger_def destroy_popper_def Let_def split: option.split)

text \<open>
  C40: The pointer enters and leaves a hidden tooltip, and each transition ends: the tip is shown and
  hidden with all its events in order, and afterwards the page is as before. The tip is out of the
  document and has no class of a placement, the element is not described by it, and the popper that
  was created is destroyed.
\<close>

theorem tooltip_hover_roundtrip:
  assumes "calm env" "hover_tip st" "''show'' \<notin> tipClasses (getTipElement env st)" "hoverState st \<noteq> HoverShow"
    and "tipEnds st = []" "\<not> delayed st ''show''" "\<not> delayed st ''hide''" "\<forall>q \<in> set (livePoppers st). q < nextPopper st"
    and "st' = foldl tip_step st [(env, DomEvent ''mouseenter''), (env, TipTransitionEnd),
      (env, DomEvent ''mouseleave''), (env, TipTransitionEnd)]"
  shows "\<not> tipInDom st' \<and> elementAttr st' = (elementAttr st)(''aria-describedby'' := None) \<and>
    livePoppers st' = livePoppers st \<and> tipEnds st' = [] \<and>
    (\<forall>k \<in> tipClasses st'. \<not> strict_prefix ''bs-tooltip'' k) \<and> ''show'' \<notin> tipClasses st' \<and>
    tipEvents st' = tipEvents st @ [TipShow, TipInserted, TipShown, TipHide, TipHidden]"
proof -
  let ?m = "[(env, DomEvent ''mouseenter''), (env, TipTransitionEnd), (env, DomEvent ''mouseleave'')]"
  define s1 where "s1 = tip_step st (env, DomEvent ''mouseenter'')"
  have s1: "hover_tip s1" "tpTip s1" "tpConfig s1 = tpConfig st" "{''fade'', ''show''} \<subseteq> tipClasses s1"
    "tipEnds s1 = [ShowComplete]" "hoverState s1 = HoverShow" "tpPopper s1 = Some (nextPopper st)"
    "livePoppers s1 = livePoppers st @ [nextPopper st]" "tipEvents s1 = tipEvents st @ [TipShow, TipInserted]"
    "tipAttr s1 ''x-placement'' \<noteq> None" "elementAttr s1 = (elementAttr st)(''aria-describedby'' \<mapsto> tipUid env)"
    using pointer_enters [OF assms(1-4,6)] assms(5) by (simp_all add: s1_def)
  define s2 where "s2 = tip_step s1 (env, TipTransitionEnd)"
  have s2: "s2 = s1\<lparr>tipEnds := [], hoverState := HoverNull, tipEvents := tipEvents s1 @ [TipShown]\<rparr>"
    unfolding s2_def using s1(6) by (intro end_shown s1(2,5,10)) simp
  have "hover_tip s2" using s1(1) by (simp add: s2 hover_tip_def cfg_def)
  moreover have "tpTip s2" "''fade'' \<in> tipClasses s2" "\<not> delayed s2 ''hide''"
    using s1 assms(7) by (simp_all add: s2 delayed_def cfg_def)
  moreover define s3 where "s3 = tip_step s2 (env, DomEvent ''mouseleave'')"
  ultimately have s3: "hover_tip s3" "tpTip s3" "tipClasses s3 = tipClasses s1 - {''show''}"
    "tipEnds s3 = [HideComplete]" "hoverState s3 = HoverUnset" "tpPopper s3 = tpPopper s1"
    "livePoppers s3 = livePoppers s1" "elementAttr s3 = elementAttr s1"
    "tipEvents s3 = tipEvents st @ [TipShow, TipInserted, TipShown, TipHide]"
    using pointer_leaves [OF assms(1), of s2] s1(9) by (simp_all add: s2)
  have run: "st' = tip_step s3 (env, TipTransitionEnd)" by (simp add: assms(9) s1_def s2_def s3_def)
  have kind: "tpKind s3 = Tooltip" using s3(1) by (simp add: hover_tip_def)
  have live: "filter (\<lambda>q. q \<noteq> nextPopper st) (livePoppers st) = livePoppers st"
    using assms(8) by (simp add: filter_id_conv less_imp_neq)
  note fin = end_hidden [OF s3(2,4), of env, folded run]
  show ?thesis
    using fin s3 s1(7,8,11) kind live by (simp add: class_prefix_def)
qed

section \<open>A hover too short\<close>

lemma complete_quiet [simp]:
  "tpTimers (complete_tip_hide env st) = tpTimers st"
  "tipEvents (complete_tip_hide env st) = tipEvents st @ [TipHidden]"
  by (simp_all add: complete_tip_hide_def destroy_popper_def cleanTipClass_def getTipElement_def
      tip_trigger_def Let_def split: option.split)

lemma hide_quiet:
  "tpTimers (hide_tip env st) = tpTimers st"
  "tipEvents (hide_tip env st) \<in> {tipEvents st @ [TipHide], tipEvents st @ [TipHide, TipHidden]}"
proof -
  have t: "tpTimers (getTipElement env st) = tpTimers st" "tipEvents (getTipElement env st) = tipEvents st"
    by (simp_all add: getTipElement_def)
  show "tpTimers (hide_tip env st) = tpTimers st"
    unfolding hide_tip_def Let_def by (simp add: t tip_trigger_def tip_removeClass_def)
  show "tipEvents (hide_tip env st) \<in> {tipEvents st @ [TipHide], tipEvents st @ [TipHide, TipHidden]}"
    unfolding hide_tip_def Let_def by (simp add: t tip_trigger_def tip_removeClass_def)
qed

text \<open>
  A hover shorter than the delay shows nothing: the timer is cancelled, and no event of a show
  is triggered; only the events of hiding are, although there was nothing to hide.
\<close>

theorem tooltip_short_hover:
  assumes "hover_tip st" "latest_only st" "''show'' \<notin> tipClasses (getTipElement env st)" "hoverState st \<noteq> HoverShow"
    and "delayed st ''show''" "\<not> delayed st ''hide''"
    and "st' = foldl tip_step st [(env, DomEvent ''mouseenter''), (env, DomEvent ''mouseleave'')]"
  shows "tpTimers st' = [] \<and>
    tipEvents st' \<in> {tipEvents st @ [TipHide], tipEvents st @ [TipHide, TipHidden]}"
proof -
  define c where "c = (clear_timeout (getTipElement env (set_trigger (Some ''mouseenter'') ''focusin'' True st)))
    \<lparr>hoverState := HoverShow\<rparr>"
  have c: "tpConfig c = tpConfig st" "tpTimers c = []" "tipEvents c = tipEvents st" "tipListeners c = tipListeners st"
    "disposed c = disposed st" "\<not> activeTrigger c ''click''" "\<not> activeTrigger c ''focus''"
    using assms(1,2)
    by (auto simp: c_def clear_timeout_def set_trigger_def hover_tip_def getTipElement_def latest_only_def)
  have "''show'' \<notin> tipClasses (getTipElement env (set_trigger (Some ''mouseenter'') ''focusin'' True st))"
    "hoverState (getTipElement env (set_trigger (Some ''mouseenter'') ''focusin'' True st)) \<noteq> HoverShow"
    using assms(3,4) by (auto simp: getTipElement_def set_trigger_def cfg_def split: if_splits)
  moreover have d: "delayed c ''show''" "\<And>s. tpConfig s = tpConfig st \<Longrightarrow> \<not> delayed s ''hide''"
    using assms(5,6) c(1) by (simp_all add: delayed_def cfg_def)
  ultimately have "enter_tip env (Some ''mouseenter'') st = Inr (set_timeout ShowTimer c)"
    by (simp add: enter_tip_def Let_def c_def)
  then have "tip_step st (env, DomEvent ''mouseenter'') = set_timeout ShowTimer c"
    using assms(1) by (simp add: tip_step_def tip_input_def hover_tip_def run_listener_def thenRun_def)
  moreover define l where "l = clear_timeout (set_trigger (Some ''mouseleave'') ''focusout'' False (set_timeout ShowTimer c))"
  have "leave_tip env (Some ''mouseleave'') (set_timeout ShowTimer c) = hide_tip env (l\<lparr>hoverState := HoverOut\<rparr>)"
    using c(1,6,7) d(2) unfolding leave_tip_def Let_def l_def [symmetric]
    by (simp add: isWithActiveTrigger_def set_trigger_def set_timeout_def l_def clear_timeout_def)
  moreover have "tipListeners (set_timeout ShowTimer c)
      = [OnEnter ''mouseenter'', OnLeave ''mouseleave'', OnEnter ''focusin'', OnLeave ''focusout'']"
    "\<not> disposed (set_timeout ShowTimer c)"
    using assms(1) c(4,5) by (simp_all add: set_timeout_def hover_tip_def)
  ultimately have "st' = hide_tip env (l\<lparr>hoverState := HoverOut\<rparr>)"
    by (simp add: assms(7) tip_step_def tip_input_def run_listener_def thenRun_def)
  moreover have "tpTimers l = []" "tipEvents l = tipEvents st"
    using c(2,3) by (simp_all add: l_def clear_timeout_def set_trigger_def set_timeout_def)
  ultimately show ?thesis using hide_quiet [of env "l\<lparr>hoverState := HoverOut\<rparr>"] by simp
qed

section \<open>A tooltip of a page\<close>

definition demo_attrs :: "string \<Rightarrow> string option" where
  "demo_attrs = [''title'' \<mapsto> ''Speed'']"

lemma delay_object:
  "type_matches ''(number|object)'' (value_type (JObject [(''show'', JNumber n), (''hide'', JNumber m)]))"
proof -
  have "value_type (JObject [(''show'', JNumber n), (''hide'', JNumber m)]) = ''object''"
    by (simp add: value_type_def isElement_def first_of_def nodeType_def truthy_def toType_def)
  moreover have "type_matches ''(number|object)'' ''object''" by code_simp
  ultimately show ?thesis by simp
qed

lemma demo_config:
  "\<exists>c. tip_getConfig showNumber Tooltip Map.empty given = Inr c \<and> property c ''animation'' = JBool True \<and>
     property c ''trigger'' = JText ''hover focus'' \<and> property c ''selector'' = JBool False \<and>
     property c ''placement'' = JText ''top'' \<and> property c ''delay'' = JObject [(''show'', JNumber n), (''hide'', JNumber (Fin 0))]"
  if "given = [''delay'' \<mapsto> JObject [(''show'', JNumber n), (''hide'', JNumber (Fin 0))]]"
proof -
  let ?c = "extends (extends (map_of (option_table Tooltip)) Map.empty) given"
  have "typeCheckConfig ''tooltip'' ?c (type_table Tooltip) = Inr ()"
    unfolding typeCheck_ok_iff
    using that by (simp add: type_table_def option_table_def tooltip_types_def tooltip_options_def extends_def property_def
        type_matches_table delay_object)
  then show ?thesis
    using that
    by (simp add: tip_getConfig_def convert_number_def Let_def)
      (simp add: extends_def property_def option_table_def tooltip_options_def convert_number_def)
qed

text \<open>The tooltip with that title, shown on hover and focus after \<open>n\<close> milliseconds.\<close>

definition demo_tip :: "jsreal \<Rightarrow> tooltip" where
  "demo_tip n =
     (case new_tooltip (\<lambda>_. []) Tooltip False demo_attrs Map.empty
         [''delay'' \<mapsto> JObject [(''show'', JNumber n), (''hide'', JNumber (Fin 0))]] of
        Inr st \<Rightarrow> st
      | Inl _ \<Rightarrow> undefined)"

definition demo_tip_env :: tip_env where
  "demo_tip_env =
     \<lparr>tipPrevents = (\<lambda>_. False), elementHidden = False, elementInDom = True, tipUid = ''tooltip1'',
      placementFn = (\<lambda>_. []), contentFn = (\<lambda>_. JNull), popperPlaces = (\<lambda>a. (a, ''bottom'')),
      tipSupportsEnd = True, tipTouch = False, templateClasses = (\<lambda>_. {''tooltip''}),
      nodeText = (\<lambda>_. []), alreadyIn = (\<lambda>_ _. False)\<rparr>"

lemma demo_calm: "calm demo_tip_env"
  by (simp add: calm_def demo_tip_env_def)

lemma demo_tip_new:
  "\<exists>given. new_tooltip (\<lambda>_. []) Tooltip False demo_attrs Map.empty given = Inr (demo_tip n)"
  "tpTip (demo_tip n) = False" "tipEnds (demo_tip n) = []" "hoverState (demo_tip n) = HoverUnset"
  "livePoppers (demo_tip n) = []" "tpPopper (demo_tip n) = None" "nextPopper (demo_tip n) = 0"
  "tpTimers (demo_tip n) = []" "tipEvents (demo_tip n) = []" "hover_tip (demo_tip n)"
  "delayed (demo_tip n) ''show'' = truthy (JNumber n)" "\<not> delayed (demo_tip n) ''hide''"
proof -
  let ?given = "[''delay'' \<mapsto> JObject [(''show'', JNumber n), (''hide'', JNumber (Fin 0))]]"
  obtain c where c: "tip_getConfig (\<lambda>_. []) Tooltip Map.empty ?given = Inr c" "property c ''animation'' = JBool True"
    "property c ''trigger'' = JText ''hover focus''" "property c ''selector'' = JBool False"
    "property c ''placement'' = JText ''top''"
    "property c ''delay'' = JObject [(''show'', JNumber n), (''hide'', JNumber (Fin 0))]"
    using demo_config [OF refl] by blast
  have words: "split_char CHR '' '' ''hover focus'' = [''hover'', ''focus'']" "getAttachment ''top'' = Some ''top''"
    by code_simp+
  show "\<exists>given. new_tooltip (\<lambda>_. []) Tooltip False demo_attrs Map.empty given = Inr (demo_tip n)"
    by (rule exI [of _ ?given]) (simp add: demo_tip_def new_tooltip_def c(1))
  show "tpTip (demo_tip n) = False" "tipEnds (demo_tip n) = []" "hoverState (demo_tip n) = HoverUnset"
    "livePoppers (demo_tip n) = []" "tpPopper (demo_tip n) = None" "nextPopper (demo_tip n) = 0"
    "tpTimers (demo_tip n) = []" "tipEvents (demo_tip n) = []" "hover_tip (demo_tip n)"
    "delayed (demo_tip n) ''show'' = truthy (JNumber n)" "\<not> delayed (demo_tip n) ''hide''"
    using c words
    by (simp_all add: demo_tip_def new_tooltip_def tip_setListeners_def trigger_listeners_def fixTitle_def
        demo_attrs_def hover_tip_def cfg_def delayed_def member_def truthy_def Let_def)
qed

lemma demo_not_shown: "''show'' \<notin> tipClasses (getTipElement demo_tip_env (demo_tip n))"
  by (simp add: getTipElement_def demo_tip_new(2) demo_tip_env_def)

theorem tooltip_one_timer_witness:
  "tpTimers (foldl tip_step (demo_tip (Fin 100)) [(demo_tip_env, DomEvent ''mouseenter''), (demo_tip_env, HideCall)])
    \<in> {[], [(tpTimeout (foldl tip_step (demo_tip (Fin 100))
         [(demo_tip_env, DomEvent ''mouseenter''), (demo_tip_env, HideCall)]), ShowTimer)],
       [(tpTimeout (foldl tip_step (demo_tip (Fin 100))
         [(demo_tip_env, DomEvent ''mouseenter''), (demo_tip_env, HideCall)]), HideTimer)]}"
proof -
  obtain given where "new_tooltip (\<lambda>_. []) Tooltip False demo_attrs Map.empty given = Inr (demo_tip (Fin 100))"
    using demo_tip_new(1) by blast
  then show ?thesis by (rule tooltip_one_timer)
qed

theorem tooltip_hover_roundtrip_witness:
  "tipEvents (foldl tip_step (demo_tip (Fin 0)) [(demo_tip_env, DomEvent ''mouseenter''),
      (demo_tip_env, TipTransitionEnd), (demo_tip_env, DomEvent ''mouseleave''), (demo_tip_env, TipTransitionEnd)])
    = [TipShow, TipInserted, TipShown, TipHide, TipHidden]"
  using tooltip_hover_roundtrip [OF demo_calm demo_tip_new(10) demo_not_shown _ demo_tip_new(3) _ demo_tip_new(12) _ refl, of "Fin 0"]
  by (simp add: demo_tip_new truthy_def)

theorem tooltip_short_hover_witness:
  "tpTimers (foldl tip_step (demo_tip (Fin 100))
     [(demo_tip_env, DomEvent ''mouseenter''), (demo_tip_env, DomEvent ''mouseleave'')]) = []"
proof -
  have "latest_only (demo_tip (Fin 100))" by (simp add: latest_only_def demo_tip_new)
  moreover have "hoverState (demo_tip (Fin 100)) \<noteq> HoverShow" "delayed (demo_tip (Fin 100)) ''show''"
    by (simp_all add: demo_tip_new truthy_def)
  ultimately show ?thesis
    using tooltip_short_hover [OF demo_tip_new(10) _ demo_not_shown _ _ demo_tip_new(12) refl, of "Fin 100"] by blast
qed

text \<open>The same tooltip without a delay, after it was shown.\<close>

definition shown_tip :: tooltip where
  "shown_tip = foldl tip_step (demo_tip (Fin 0)) [(demo_tip_env, DomEvent ''mouseenter''), (demo_tip_env, TipTransitionEnd)]"

lemma shown_tip_facts:
  "hover_tip shown_tip" "tpTip shown_tip" "''fade'' \<in> tipClasses shown_tip" "tpPopper shown_tip = Some 0"
  "livePoppers shown_tip = [0]" "nextPopper shown_tip = 1" "\<not> delayed shown_tip ''show''" "\<not> delayed shown_tip ''hide''"
proof -
  define s where "s = tip_step (demo_tip (Fin 0)) (demo_tip_env, DomEvent ''mouseenter'')"
  have "\<not> delayed (demo_tip (Fin 0)) ''show''" "hoverState (demo_tip (Fin 0)) \<noteq> HoverShow"
    by (simp_all add: demo_tip_new truthy_def)
  from pointer_enters [OF demo_calm demo_tip_new(10) demo_not_shown this(2,1)]
  have s: "hover_tip s" "tpTip s" "tpConfig s = tpConfig (demo_tip (Fin 0))" "''fade'' \<in> tipClasses s"
    "tipEnds s = [ShowComplete]" "hoverState s = HoverShow" "tpPopper s = Some 0" "livePoppers s = [0]"
    "nextPopper s = 1" "tipAttr s ''x-placement'' \<noteq> None"
    by (simp_all add: s_def demo_tip_new)
  have "hoverState s \<noteq> HoverOut" by (simp add: s(6))
  then have e: "shown_tip = s\<lparr>tipEnds := [], hoverState := HoverNull, tipEvents := tipEvents s @ [TipShown]\<rparr>"
    using end_shown [OF s(2,5,10), of demo_tip_env] by (simp add: shown_tip_def s_def)
  have "delayed shown_tip = delayed (demo_tip (Fin 0))"
    by (rule ext) (simp add: e delayed_def cfg_def s(3))
  then show "\<not> delayed shown_tip ''show''" "\<not> delayed shown_tip ''hide''"
    using demo_tip_new(11,12) [of "Fin 0"] by (simp_all add: truthy_def)
  show "hover_tip shown_tip" using s(1) by (simp add: e hover_tip_def cfg_def)
  show "tpTip shown_tip" "''fade'' \<in> tipClasses shown_tip" "tpPopper shown_tip = Some 0"
    "livePoppers shown_tip = [0]" "nextPopper shown_tip = 1"
    using s by (simp_all add: e)
qed

theorem tooltip_leaks_popper_witness:
  "0 \<in> set (livePoppers (foldl tip_step shown_tip ((demo_tip_env, DomEvent ''mouseleave'') #
     (demo_tip_env, DomEvent ''mouseenter'') # [(demo_tip_env, TipTransitionEnd), (demo_tip_env, DisposeCall)])))"
  using tooltip_leaks_popper [OF demo_calm shown_tip_facts(1-4) _ _ shown_tip_facts(7,8),
      of "[(demo_tip_env, TipTransitionEnd), (demo_tip_env, DisposeCall)]"] shown_tip_facts(5,6)
  by simp

end
