(* ===== verification/Go_Json.thy ===== *)
theory Go_Json
  imports Prelude "HOL-Library.AList" "HOL-Library.Monad_Syntax"
begin

text \<open>
  Go's \<open>encoding/json\<close> and \<open>strings\<close> as the server uses them: decoding a text into
  \<open>map[string]interface{}\<close> with \<open>Decoder.Decode\<close> and \<open>Unmarshal\<close>, and \<open>Marshal\<close>
  of such a map. Strings are byte sequences. A Go map is an association list with distinct keys;
  what the library does with it does not depend on the order. A \<open>float64\<close> is the text
  \<open>Marshal\<close> prints for it: the conversion of a numeral to that text is the argument
  \<open>fmt\<close>, which is \<open>None\<close> for a numeral out of range.
\<close>

section \<open>Values\<close>

datatype gojson =
    GoNull
  | GoBool bool
  | GoNum string
  | GoStr string
  | GoArr "gojson list"
  | GoObj "(string \<times> gojson) list"

type_synonym gomap = "(string \<times> gojson) list"

text \<open>\<open>m[k]\<close>: a missing key reads as \<open>nil\<close>, which is also what \<open>null\<close> decodes to.\<close>

definition gget :: "gomap \<Rightarrow> string \<Rightarrow> gojson" where
  "gget m k = (case map_of m k of None \<Rightarrow> GoNull | Some v \<Rightarrow> v)"

definition gset :: "string \<Rightarrow> gojson \<Rightarrow> gomap \<Rightarrow> gomap" where
  "gset k v m = AList.update k v m"

definition gdelete :: "string \<Rightarrow> gomap \<Rightarrow> gomap" where
  "gdelete k m = AList.delete k m"

text \<open>The members of an object in text order: the last one of a name counts.\<close>

definition members_map :: "(string \<times> gojson) list \<Rightarrow> gomap" where
  "members_map kvs = foldl (\<lambda>m (k, v). gset k v m) [] kvs"

section \<open>UTF-8\<close>

definition cont_byte :: "char \<Rightarrow> bool" where
  "cont_byte c = (128 \<le> (of_char c :: nat) \<and> (of_char c :: nat) < 192)"

text \<open>The length of the UTF-8 sequence a string begins with, 0 when it is not one.\<close>

definition utf8_width :: "string \<Rightarrow> nat" where
  "utf8_width s =
     (case s of [] \<Rightarrow> 0
      | a # t \<Rightarrow>
        (let n = (of_char a :: nat) in
         if n < 128 then 1
         else if 194 \<le> n \<and> n < 224 then (case t of b # _ \<Rightarrow> if cont_byte b then 2 else 0 | _ \<Rightarrow> 0)
         else if 224 \<le> n \<and> n < 240 then
           (case t of b # c # _ \<Rightarrow>
              if cont_byte b \<and> cont_byte c \<and> (n = 224 \<longrightarrow> 160 \<le> (of_char b :: nat))
                 \<and> (n = 237 \<longrightarrow> (of_char b :: nat) < 160) then 3 else 0
            | _ \<Rightarrow> 0)
         else if 240 \<le> n \<and> n < 245 then
           (case t of b # c # d # _ \<Rightarrow>
              if cont_byte b \<and> cont_byte c \<and> cont_byte d \<and> (n = 240 \<longrightarrow> 144 \<le> (of_char b :: nat))
                 \<and> (n = 244 \<longrightarrow> (of_char b :: nat) < 144) then 4 else 0
            | _ \<Rightarrow> 0)
         else 0))"

text \<open>The runes of a string; \<open>None\<close> is a byte that belongs to no valid sequence.\<close>

function utf8_split :: "string \<Rightarrow> string option list" where
  "utf8_split s =
     (if s = [] then []
      else if utf8_width s = 0 then None # utf8_split (tl s)
      else Some (take (utf8_width s) s) # utf8_split (drop (utf8_width s) s))"
  by pat_completeness auto
termination by (relation "measure length") auto

declare utf8_split.simps [simp del]

definition replacement_char :: string where
  "replacement_char = [CHR 0xEF, CHR 0xBF, CHR 0xBD]"

definition rune_or_replacement :: "string option \<Rightarrow> string" where
  "rune_or_replacement r = (case r of None \<Rightarrow> replacement_char | Some bs \<Rightarrow> bs)"

definition utf8_fix :: "string \<Rightarrow> string" where
  "utf8_fix s = concat (map rune_or_replacement (utf8_split s))"

definition utf8_encode :: "nat \<Rightarrow> string" where
  "utf8_encode r =
     (if r < 128 then [char_of r]
      else if r < 2048 then [char_of (192 + r div 64), char_of (128 + r mod 64)]
      else if r < 65536 then
        [char_of (224 + r div 4096), char_of (128 + r div 64 mod 64), char_of (128 + r mod 64)]
      else [char_of (240 + r div 262144), char_of (128 + r div 4096 mod 64),
            char_of (128 + r div 64 mod 64), char_of (128 + r mod 64)])"

section \<open>Lexical elements\<close>

definition is_space :: "char \<Rightarrow> bool" where
  "is_space c = (c = CHR '' '' \<or> c = CHR 0x09 \<or> c = CHR 0x0A \<or> c = CHR 0x0D)"

definition skip_ws :: "string \<Rightarrow> string" where
  "skip_ws s = dropWhile is_space s"

definition is_digit :: "char \<Rightarrow> bool" where
  "is_digit c = (48 \<le> (of_char c :: nat) \<and> (of_char c :: nat) \<le> 57)"

definition hex_value :: "char \<Rightarrow> nat option" where
  "hex_value c =
     (let n = of_char c in
      if 48 \<le> n \<and> n \<le> 57 then Some (n - 48)
      else if 97 \<le> n \<and> n \<le> 102 then Some (n - 87)
      else if 65 \<le> n \<and> n \<le> 70 then Some (n - 55)
      else None)"

definition hex4 :: "char \<Rightarrow> char \<Rightarrow> char \<Rightarrow> char \<Rightarrow> nat option" where
  "hex4 a b c d =
     (case (hex_value a, hex_value b, hex_value c, hex_value d) of
        (Some i, Some j, Some k, Some l) \<Rightarrow> Some (((i * 16 + j) * 16 + k) * 16 + l)
      | _ \<Rightarrow> None)"

text \<open>The text up to the closing quote, and what follows it.\<close>

fun split_str :: "string \<Rightarrow> (string \<times> string) option" where
  "split_str [] = None"
| "split_str (c # s) =
     (if c = CHR 0x22 then Some ([], s)
      else if (of_char c :: nat) < 32 then None
      else if c = CHR 0x5C then
        (case s of [] \<Rightarrow> None
         | e # t \<Rightarrow> map_option (\<lambda>(r, u). (c # e # r, u)) (split_str t))
      else map_option (\<lambda>(r, u). (c # r, u)) (split_str s))"

definition simple_escape :: "char \<Rightarrow> char option" where
  "simple_escape c = map_of
     [(CHR 0x22, CHR 0x22), (CHR 0x5C, CHR 0x5C), (CHR ''/'', CHR ''/''), (CHR ''b'', CHR 0x08),
      (CHR ''f'', CHR 0x0C), (CHR ''n'', CHR 0x0A), (CHR ''r'', CHR 0x0D), (CHR ''t'', CHR 0x09)] c"

text \<open>\<open>getu4\<close>: the value of a leading \<open>\uXXXX\<close>.\<close>

definition getu4 :: "string \<Rightarrow> nat option" where
  "getu4 s =
     (case s of x # u # a # b # c # d # _ \<Rightarrow>
        if x = CHR 0x5C \<and> u = CHR ''u'' then hex4 a b c d else None
      | _ \<Rightarrow> None)"

definition low_surrogate :: "nat option \<Rightarrow> nat option" where
  "low_surrogate r = (case r of Some n \<Rightarrow> if 56320 \<le> n \<and> n < 57344 then Some n else None | None \<Rightarrow> None)"

function unescape :: "string \<Rightarrow> string option" where
  "unescape s =
     (case s of [] \<Rightarrow> Some []
      | c # t \<Rightarrow>
        if c \<noteq> CHR 0x5C then map_option ((#) c) (unescape t)
        else
          (case getu4 s of
             Some r \<Rightarrow>
               if 55296 \<le> r \<and> r < 56320 then
                 (case low_surrogate (getu4 (drop 6 s)) of
                    Some r1 \<Rightarrow> map_option ((@) (utf8_encode ((r - 55296) * 1024 + (r1 - 56320) + 65536)))
                                 (unescape (drop 12 s))
                  | None \<Rightarrow> map_option ((@) replacement_char) (unescape (drop 6 s)))
               else if 56320 \<le> r \<and> r < 57344 then map_option ((@) replacement_char) (unescape (drop 6 s))
               else map_option ((@) (utf8_encode r)) (unescape (drop 6 s))
           | None \<Rightarrow>
               (case t of [] \<Rightarrow> None
                | e # u \<Rightarrow>
                  (case simple_escape e of
                     None \<Rightarrow> None
                   | Some x \<Rightarrow> map_option ((#) x) (unescape u)))))"
  by pat_completeness auto
termination by (relation "measure length") auto

declare unescape.simps [simp del]

text \<open>A string literal after its opening quote.\<close>

definition parse_str :: "string \<Rightarrow> (string \<times> string) option" where
  "parse_str s =
     (case split_str s of
        None \<Rightarrow> None
      | Some (raw, rest) \<Rightarrow> map_option (\<lambda>x. (utf8_fix x, rest)) (unescape raw))"

definition parse_frac :: "string \<Rightarrow> (string \<times> string) option" where
  "parse_frac s =
     (case s of
        CHR ''.'' # t \<Rightarrow>
          (if takeWhile is_digit t = [] then None
           else Some (CHR ''.'' # takeWhile is_digit t, dropWhile is_digit t))
      | _ \<Rightarrow> Some ([], s))"

definition exp_sign :: "string \<Rightarrow> string" where
  "exp_sign t = (case t of x # _ \<Rightarrow> if x = CHR ''+'' \<or> x = CHR ''-'' then [x] else [] | [] \<Rightarrow> [])"

definition parse_exp :: "string \<Rightarrow> (string \<times> string) option" where
  "parse_exp s =
     (case s of
        x # t \<Rightarrow>
          (if x = CHR ''e'' \<or> x = CHR ''E'' then
             (let u = drop (length (exp_sign t)) t in
              if takeWhile is_digit u = [] then None
              else Some (x # exp_sign t @ takeWhile is_digit u, dropWhile is_digit u))
           else Some ([], s))
      | [] \<Rightarrow> Some ([], s))"

definition int_digits :: "string \<Rightarrow> string" where
  "int_digits s = (case s of [] \<Rightarrow> []
     | c # _ \<Rightarrow> if c = CHR ''0'' then [c] else takeWhile is_digit s)"

definition num_sign :: "string \<Rightarrow> string" where
  "num_sign s = (case s of c # _ \<Rightarrow> if c = CHR ''-'' then [c] else [] | [] \<Rightarrow> [])"

definition parse_num :: "string \<Rightarrow> (string \<times> string) option" where
  "parse_num s =
     (let sg = num_sign s; t = drop (length sg) s; ds = int_digits t in
      if ds = [] then None
      else
        (case parse_frac (drop (length ds) t) of
           None \<Rightarrow> None
         | Some (fs, u) \<Rightarrow>
             map_option (\<lambda>(es, v). (sg @ ds @ fs @ es, v)) (parse_exp u)))"

section \<open>Decoding\<close>

text \<open>The next character after white space, and a value that is not an object or an array.\<close>

definition next_token :: "string \<Rightarrow> (char \<times> string) option" where
  "next_token s = (case skip_ws s of [] \<Rightarrow> None | c # t \<Rightarrow> Some (c, t))"

definition parse_scalar :: "string \<Rightarrow> (gojson \<times> string) option" where
  "parse_scalar s =
     (if prefix [CHR 0x22] s then map_option (apfst GoStr) (parse_str (drop 1 s))
      else if prefix ''true'' s then Some (GoBool True, drop 4 s)
      else if prefix ''false'' s then Some (GoBool False, drop 5 s)
      else if prefix ''null'' s then Some (GoNull, drop 4 s)
      else map_option (apfst GoNum) (parse_num s))"

text \<open>
  The grammar, with the members of objects in text order and the numerals as written. The first
  argument bounds the recursion (a bound above twice the length of the text is enough), the second is
  the nesting still allowed; the library allows 10000.
\<close>

fun parse_value :: "nat \<Rightarrow> nat \<Rightarrow> string \<Rightarrow> (gojson \<times> string) option"
  and parse_members :: "nat \<Rightarrow> nat \<Rightarrow> string \<Rightarrow> ((string \<times> gojson) list \<times> string) option"
  and parse_elems :: "nat \<Rightarrow> nat \<Rightarrow> string \<Rightarrow> (gojson list \<times> string) option"
where
  "parse_value 0 d s = None"
| "parse_value (Suc n) d s = do {
     (c, t) \<leftarrow> next_token s;
     if c = CHR 0x7B then
       (if d = 0 then None
        else do {
          (e, u) \<leftarrow> next_token t;
          if e = CHR 0x7D then Some (GoObj [], u)
          else map_option (apfst GoObj) (parse_members n (d - 1) t) })
     else if c = CHR 0x5B then
       (if d = 0 then None
        else do {
          (e, u) \<leftarrow> next_token t;
          if e = CHR 0x5D then Some (GoArr [], u)
          else map_option (apfst GoArr) (parse_elems n (d - 1) t) })
     else parse_scalar (c # t) }"
| "parse_members 0 d s = None"
| "parse_members (Suc n) d s = do {
     (c, t) \<leftarrow> next_token s;
     (k, u) \<leftarrow> (if c = CHR 0x22 then parse_str t else None);
     (e, w) \<leftarrow> next_token u;
     (v, x) \<leftarrow> (if e = CHR '':'' then parse_value n d w else None);
     (f, y) \<leftarrow> next_token x;
     if f = CHR '','' then map_option (apfst ((#) (k, v))) (parse_members n d y)
     else if f = CHR 0x7D then Some ([(k, v)], y)
     else None }"
| "parse_elems 0 d s = None"
| "parse_elems (Suc n) d s = do {
     (v, x) \<leftarrow> parse_value n d s;
     (f, y) \<leftarrow> next_token x;
     if f = CHR '','' then map_option (apfst ((#) v)) (parse_elems n d y)
     else if f = CHR 0x5D then Some ([v], y)
     else None }"

definition maxNestingDepth :: nat where
  "maxNestingDepth = 10000"

definition parse_json :: "string \<Rightarrow> (gojson \<times> string) option" where
  "parse_json s = parse_value (Suc (2 * length s)) maxNestingDepth s"

text \<open>
  What the parsed text becomes as a Go value: numerals are converted, and of the members of one
  name the last one stays. A numeral out of range leaves \<open>nil\<close> and an error.
\<close>

fun go_value :: "(string \<Rightarrow> string option) \<Rightarrow> gojson \<Rightarrow> gojson" where
  "go_value fmt (GoNum t) = (case fmt t of None \<Rightarrow> GoNull | Some u \<Rightarrow> GoNum u)"
| "go_value fmt (GoArr vs) = GoArr (map (go_value fmt) vs)"
| "go_value fmt (GoObj kvs) = GoObj (members_map (map (\<lambda>(k, v). (k, go_value fmt v)) kvs))"
| "go_value fmt v = v"

fun num_error :: "(string \<Rightarrow> string option) \<Rightarrow> gojson \<Rightarrow> bool" where
  "num_error fmt (GoNum t) = (fmt t = None)"
| "num_error fmt (GoArr vs) = list_ex (num_error fmt) vs"
| "num_error fmt (GoObj kvs) = list_ex (\<lambda>(k, v). num_error fmt v) kvs"
| "num_error fmt v = False"

text \<open>
  \<open>Decode\<close> into an empty \<open>map[string]interface{}\<close>: whether it failed, and the map. It
  looks at one value and ignores what follows it.
\<close>

definition decode_map :: "(string \<Rightarrow> string option) \<Rightarrow> string \<Rightarrow> bool \<times> gomap" where
  "decode_map fmt s =
     (case parse_json s of
        None \<Rightarrow> (True, [])
      | Some (GoNull, _) \<Rightarrow> (False, [])
      | Some (GoObj kvs, _) \<Rightarrow>
          (num_error fmt (GoObj kvs),
           members_map (map (\<lambda>(k, v). (k, go_value fmt v)) kvs))
      | Some _ \<Rightarrow> (True, []))"

text \<open>\<open>Unmarshal\<close> checks the whole text first.\<close>

definition parse_whole :: "string \<Rightarrow> gojson option" where
  "parse_whole s =
     (case parse_json s of
        None \<Rightarrow> None
      | Some (v, rest) \<Rightarrow> if skip_ws rest = [] then Some v else None)"

definition unmarshal_map :: "(string \<Rightarrow> string option) \<Rightarrow> string \<Rightarrow> bool \<times> gomap" where
  "unmarshal_map fmt s = (if parse_whole s = None then (True, []) else decode_map fmt s)"

text \<open>\<open>Unmarshal\<close> into a \<open>[]string\<close>; \<open>None\<close> is an error.\<close>

fun string_elem :: "gojson \<Rightarrow> string option" where
  "string_elem (GoStr s) = Some s"
| "string_elem GoNull = Some []"
| "string_elem _ = None"

fun all_some :: "'a option list \<Rightarrow> 'a list option" where
  "all_some [] = Some []"
| "all_some (None # _) = None"
| "all_some (Some x # xs) = map_option ((#) x) (all_some xs)"

definition unmarshal_strings :: "string \<Rightarrow> string list option" where
  "unmarshal_strings s =
     (case parse_whole s of
        Some (GoArr vs) \<Rightarrow> all_some (map string_elem vs)
      | Some GoNull \<Rightarrow> Some []
      | _ \<Rightarrow> None)"

text \<open>
  A string field of a struct: the names of the members are matched without regard to case (two
  further runes fold into ASCII letters), \<open>null\<close> leaves the field, any other value is an
  error.
\<close>

function fold_name :: "string \<Rightarrow> string" where
  "fold_name s =
     (if s = [] then []
      else if prefix [CHR 0xC5, CHR 0xBF] s then CHR ''s'' # fold_name (drop 2 s)
      else if prefix [CHR 0xE2, CHR 0x84, CHR 0xAA] s then CHR ''k'' # fold_name (drop 3 s)
      else (if 65 \<le> (of_char (hd s) :: nat) \<and> (of_char (hd s) :: nat) \<le> 90
            then char_of ((of_char (hd s) :: nat) + 32) else hd s) # fold_name (tl s))"
  by pat_completeness auto
termination by (relation "measure length") auto

declare fold_name.simps [simp del]

fun field_step :: "string \<Rightarrow> bool \<times> string \<Rightarrow> string \<times> gojson \<Rightarrow> bool \<times> string" where
  "field_step name (err, cur) (k, v) =
     (if fold_name k \<noteq> fold_name name then (err, cur)
      else (case v of GoStr s \<Rightarrow> (err, s) | GoNull \<Rightarrow> (err, cur) | _ \<Rightarrow> (True, cur)))"

definition struct_field :: "string \<Rightarrow> (string \<times> gojson) list \<Rightarrow> bool \<times> string" where
  "struct_field name kvs = foldl (field_step name) (False, []) kvs"

text \<open>Two string fields, as every struct the service manager decodes has; \<open>None\<close> is an error.\<close>

fun struct2 :: "string \<Rightarrow> string \<Rightarrow> gojson \<Rightarrow> (string \<times> string) option" where
  "struct2 f g (GoObj kvs) =
     (if fst (struct_field f kvs) \<or> fst (struct_field g kvs) then None
      else Some (snd (struct_field f kvs), snd (struct_field g kvs)))"
| "struct2 f g GoNull = Some ([], [])"
| "struct2 f g _ = None"

definition unmarshal_struct2 :: "string \<Rightarrow> string \<Rightarrow> string \<Rightarrow> (string \<times> string) option" where
  "unmarshal_struct2 f g s = (case parse_whole s of None \<Rightarrow> None | Some v \<Rightarrow> struct2 f g v)"

section \<open>Encoding\<close>

definition hex_digit :: "nat \<Rightarrow> char" where
  "hex_digit n = (if n < 10 then char_of (48 + n) else char_of (87 + n))"

definition u00 :: "nat \<Rightarrow> string" where
  "u00 n = [CHR 0x5C, CHR ''u'', CHR ''0'', CHR ''0'', hex_digit (n div 16), hex_digit (n mod 16)]"

text \<open>\<open>Marshal\<close> also escapes the characters HTML gives a meaning.\<close>

definition enc_ascii :: "char \<Rightarrow> string" where
  "enc_ascii c =
     (if c = CHR 0x22 \<or> c = CHR 0x5C then [CHR 0x5C, c]
      else if c = CHR 0x0A then [CHR 0x5C, CHR ''n'']
      else if c = CHR 0x0D then [CHR 0x5C, CHR ''r'']
      else if c = CHR 0x09 then [CHR 0x5C, CHR ''t'']
      else if (of_char c :: nat) < 32 \<or> c = CHR ''<'' \<or> c = CHR ''>'' \<or> c = CHR ''&'' then u00 (of_char c)
      else [c])"

definition enc_rune :: "string option \<Rightarrow> string" where
  "enc_rune r =
     (case r of
        None \<Rightarrow> CHR 0x5C # ''ufffd''
      | Some bs \<Rightarrow>
          if length bs = 1 then enc_ascii (hd bs)
          else if bs = [CHR 0xE2, CHR 0x80, CHR 0xA8] then CHR 0x5C # ''u2028''
          else if bs = [CHR 0xE2, CHR 0x80, CHR 0xA9] then CHR 0x5C # ''u2029''
          else bs)"

definition enc_body :: "string \<Rightarrow> string" where
  "enc_body s = concat (map enc_rune (utf8_split s))"

definition enc_str :: "string \<Rightarrow> string" where
  "enc_str s = CHR 0x22 # enc_body s @ [CHR 0x22]"

fun commas :: "string list \<Rightarrow> string" where
  "commas [] = []"
| "commas [x] = x"
| "commas (x # y # xs) = x @ CHR '','' # commas (y # xs)"

definition enc_member :: "string \<times> string \<Rightarrow> string" where
  "enc_member kv = enc_str (fst kv) @ CHR '':'' # snd kv"

fun marshal :: "gojson \<Rightarrow> string" where
  "marshal GoNull = ''null''"
| "marshal (GoBool b) = (if b then ''true'' else ''false'')"
| "marshal (GoNum t) = t"
| "marshal (GoStr s) = enc_str s"
| "marshal (GoArr vs) = CHR 0x5B # commas (map marshal vs) @ [CHR 0x5D]"
| "marshal (GoObj kvs) =
     CHR 0x7B # commas (map enc_member (sort_key fst (map (\<lambda>(k, v). (k, marshal v)) kvs))) @ [CHR 0x7D]"

end
