(* ===== verification/Server_Utils.thy ===== *)
theory Server_Utils
  imports Go_Json Wire_Encode Server_Validate
begin

text \<open>
  What the server's threads share: \<open>utils/common.go\<close>, \<open>utils/managerdata.go\<close> and the
  message surgery of \<open>utils/managerhandlers.go\<close>. A run-time panic (a slice or an index out of
  range, a failed type assertion) is \<open>None\<close>.
\<close>

section \<open>Strings\<close>

text \<open>\<open>strings.Index\<close>; the code's -1 is \<open>None\<close>.\<close>

fun index_of :: "string \<Rightarrow> string \<Rightarrow> nat option" where
  "index_of [] sub = (if sub = [] then Some 0 else None)"
| "index_of (c # s) sub = (if prefix sub (c # s) then Some 0 else map_option Suc (index_of s sub))"

text \<open>\<open>strings.Replace\<close> of one character by another everywhere, and of the first occurrence
  of a character by a text.\<close>

definition replace_char :: "char \<Rightarrow> char \<Rightarrow> string \<Rightarrow> string" where
  "replace_char a b s = map (\<lambda>c. if c = a then b else c) s"

fun replace_first :: "char \<Rightarrow> string \<Rightarrow> string \<Rightarrow> string" where
  "replace_first a new [] = []"
| "replace_first a new (c # s) = (if c = a then new @ s else c # replace_first a new s)"

definition trim_prefix :: "string \<Rightarrow> string \<Rightarrow> string" where
  "trim_prefix p s = (if prefix p s then drop (length p) s else s)"

text \<open>
  \<open>strconv.Atoi\<close> with its error thrown away: 0 for a malformed numeral, the nearest bound for
  one out of range.
\<close>

definition atoi_value :: "string \<Rightarrow> int" where
  "atoi_value s =
     (case atoi s of
        Some i \<Rightarrow> i
      | None \<Rightarrow>
          (let neg = (s \<noteq> [] \<and> hd s = CHR ''-'');
               ds = (if s \<noteq> [] \<and> (hd s = CHR ''-'' \<or> hd s = CHR ''+'') then tl s else s)
           in if ds = [] \<or> read_digits 0 ds = None then 0
              else if neg then - (2 ^ 63) else 2 ^ 63 - 1))"

definition UrlToPath :: "string \<Rightarrow> string" where
  "UrlToPath url = trim_prefix ''.'' (replace_char (CHR ''/'') (CHR ''.'') url)"

definition PathToUrl :: "string \<Rightarrow> string" where
  "PathToUrl path = CHR ''/'' # replace_char (CHR ''.'') (CHR ''/'') path"

definition ExtractRootName :: "string \<Rightarrow> string" where
  "ExtractRootName path =
     (case index_of path ''.'' of None \<Rightarrow> path | Some i \<Rightarrow> take i path)"

text \<open>The argument is the time in the local zone, formatted as RFC 3339.\<close>

definition GetRfcTime :: "string \<Rightarrow> string option" where
  "GetRfcTime withTimeZone =
     (if length withTimeZone < 6 then None
      else if withTimeZone ! (length withTimeZone - 6) = CHR ''+''
           then Some (take (length withTimeZone - 6) withTimeZone @ ''Z'')
           else Some withTimeZone)"

section \<open>The index loops\<close>

text \<open>The first index at which a condition holds; the code's -1 is \<open>None\<close>.\<close>

fun index_where :: "('a \<Rightarrow> bool) \<Rightarrow> 'a list \<Rightarrow> nat option" where
  "index_where P [] = None"
| "index_where P (x # xs) = (if P x then Some 0 else map_option Suc (index_where P xs))"

lemma index_where_Some: "index_where P xs = Some i \<Longrightarrow> i < length xs \<and> P (xs ! i) \<and> (\<forall>j < i. \<not> P (xs ! j))"
proof (induction xs arbitrary: i)
  case (Cons x xs)
  show ?case
  proof (cases "P x")
    case True
    then show ?thesis using Cons.prems by simp
  next
    case False
    then obtain k where k: "index_where P xs = Some k" "i = Suc k" using Cons.prems by auto
    from Cons.IH [OF k(1)] show ?thesis using False k(2) by (auto simp: nth_Cons split: nat.splits)
  qed
qed simp

lemma index_where_first:
  "i < length xs \<Longrightarrow> P (xs ! i) \<Longrightarrow> (\<And>j. j < i \<Longrightarrow> \<not> P (xs ! j)) \<Longrightarrow> index_where P xs = Some i"
proof (induction xs arbitrary: i)
  case (Cons x xs)
  show ?case
  proof (cases i)
    case 0
    then show ?thesis using Cons.prems by simp
  next
    case (Suc k)
    have "index_where P xs = Some k"
      by (rule Cons.IH) (use Cons.prems Suc in \<open>force+\<close>)
    moreover have "\<not> P x" using Cons.prems(3) [of 0] Suc by simp
    ultimately show ?thesis using Suc by simp
  qed
qed simp

lemma index_where_cong: "(\<And>x. x \<in> set xs \<Longrightarrow> P x = Q x) \<Longrightarrow> index_where P xs = index_where Q xs"
  by (induction xs) auto

lemma index_where_map: "index_where P (map f xs) = index_where (P \<circ> f) xs"
  by (induction xs) simp_all

lemma index_where_None: "index_where P xs = None \<longleftrightarrow> (\<forall>x \<in> set xs. \<not> P x)"
  by (induction xs) auto

section \<open>Access control values\<close>

text \<open>None 0, write-only 1, read-write 2, with consent 10 more.\<close>

definition validationMatrix :: "int list list" where
  "validationMatrix =
     [[0, 1, 2, 11, 12], [1, 1, 2, 11, 12], [2, 2, 2, 12, 12], [11, 11, 12, 11, 12],
      [12, 12, 12, 12, 12]]"

definition translateToMatrixIndex :: "int \<Rightarrow> nat" where
  "translateToMatrixIndex index =
     (if index = 0 then 0 else if index = 1 then 1 else if index = 2 then 2
      else if index = 11 then 3 else if index = 12 then 4 else 0)"

definition GetMaxValidation :: "int \<Rightarrow> int \<Rightarrow> int" where
  "GetMaxValidation newValidation currentMaxValidation =
     validationMatrix ! translateToMatrixIndex newValidation
       ! translateToMatrixIndex currentMaxValidation"

section \<open>Tokens\<close>

definition b64_value :: "char \<Rightarrow> nat option" where
  "b64_value c =
     (let n = of_char c in
      if 65 \<le> n \<and> n \<le> 90 then Some (n - 65)
      else if 97 \<le> n \<and> n \<le> 122 then Some (n - 71)
      else if 48 \<le> n \<and> n \<le> 57 then Some (n + 4)
      else if c = CHR ''-'' then Some 62
      else if c = CHR ''_'' then Some 63
      else None)"

fun b64_groups :: "bool \<Rightarrow> nat list \<Rightarrow> string" where
  "b64_groups whole (a # b # c # d # r) =
     char_of (a * 4 + b div 16) # char_of (b mod 16 * 16 + c div 4) # char_of (c mod 4 * 64 + d)
       # b64_groups whole r"
| "b64_groups whole [a, b, c] =
     (if whole then [char_of (a * 4 + b div 16), char_of (b mod 16 * 16 + c div 4)] else [])"
| "b64_groups whole [a, b] = (if whole then [char_of (a * 4 + b div 16)] else [])"
| "b64_groups whole _ = []"

text \<open>
  \<open>base64.RawURLEncoding.DecodeString\<close>, its error thrown away: line ends are skipped, and a
  character outside the alphabet ends the output at the last whole group before it.
\<close>

definition b64_decode :: "string \<Rightarrow> string" where
  "b64_decode s =
     (let t = filter (\<lambda>c. c \<noteq> CHR 0x0A \<and> c \<noteq> CHR 0x0D) s;
          vs = takeWhile (\<lambda>v. v \<noteq> None) (map b64_value t)
      in b64_groups (length vs = length t) (map the vs))"

text \<open>
  The text after the first occurrence of a claim's name, up to the next comma or the last
  character, without the quotes around it.
\<close>

definition claim_value :: "string \<Rightarrow> string \<Rightarrow> nat \<Rightarrow> string option" where
  "claim_value decoded claim claimIndex =
     (let startIndex = claimIndex + length claim + 2 in
      if length decoded \<le> startIndex then None
      else
        (let endIndex = (case index_of (drop startIndex decoded) '','' of
                           Some j \<Rightarrow> j + startIndex | None \<Rightarrow> length decoded - 1);
             stop = (if decoded ! (endIndex - 1) = CHR 0x22 then endIndex - 1 else endIndex);
             start = (if decoded ! startIndex = CHR 0x22 then startIndex + 1 else startIndex)
         in slice decoded start stop))"

definition ExtractFromToken :: "string \<Rightarrow> string \<Rightarrow> string option" where
  "ExtractFromToken token claim =
     (case index_of token ''.'' of None \<Rightarrow> None
      | Some delimiter1 \<Rightarrow>
        (case index_of (drop (delimiter1 + 1) token) ''.'' of None \<Rightarrow> None
         | Some j \<Rightarrow>
           (let decodedHeader = b64_decode (take delimiter1 token);
                decodedPayload = b64_decode (take j (drop (delimiter1 + 1) token))
            in (case index_of decodedHeader claim of
                  Some i \<Rightarrow> claim_value decodedHeader claim i
                | None \<Rightarrow>
                    (case index_of decodedPayload claim of
                       Some i \<Rightarrow> claim_value decodedPayload claim i
                     | None \<Rightarrow> Some [])))))"

section \<open>Messages\<close>

text \<open>The result code and the map; the code leaves the error to its callers.\<close>

definition MapRequest :: "(string \<Rightarrow> string option) \<Rightarrow> string \<Rightarrow> int \<times> gomap" where
  "MapRequest fmt request =
     (let (err, m) = decode_map fmt request in (if err then - 1 else 0, m))"

definition FinalizeMessage :: "gomap \<Rightarrow> string" where
  "FinalizeMessage responseMap = marshal (GoObj (gdelete ''origin'' responseMap))"

definition AddKeyValue :: "string \<Rightarrow> string \<Rightarrow> string \<Rightarrow> string option" where
  "AddKeyValue message key value =
     (if value = [] then Some message
      else if message = [] then None
      else if hd value = CHR 0x7B
           then Some (butlast message @ '', '' @ [CHR 0x22] @ key @ [CHR 0x22] @ '':'' @ value @ [CHR 0x7D])
           else Some (butlast message @ '', '' @ [CHR 0x22] @ key @ [CHR 0x22] @ '':'' @ [CHR 0x22]
                        @ value @ [CHR 0x22, CHR 0x7D]))"

definition ErrorInfoList :: "(string \<times> string \<times> string) list" where
  "ErrorInfoList =
     [(''400'', ''bad_request'', ''The request is malformed.''),
      (''400'', ''invalid_data'', ''Data present in the request is invalid.''),
      (''401'', ''expired_token'', ''Access token has expired.''),
      (''401'', ''invalid_token'', ''Access token is invalid.''),
      (''401'', ''missing_token'', ''Access token is missing.''),
      (''403'', ''forbidden_request'', ''The server refuses to carry out the request.''),
      (''404'', ''unavailable_data'', ''The requested data was not found.''),
      (''503'', ''service_unavailable'', ''The server is temporarily unable to handle the request.'')]"

text \<open>\<open>now\<close> is what \<open>GetRfcTime\<close> returns. The map of the response is a global of its
  owner: what a request does not set stays from the error before.\<close>

definition copy_if_set :: "string \<Rightarrow> gomap \<Rightarrow> gomap \<Rightarrow> gomap" where
  "copy_if_set k reqMap m = (if gget reqMap k \<noteq> GoNull then gset k (gget reqMap k) m else m)"

definition error_object :: "nat \<Rightarrow> string \<Rightarrow> gojson" where
  "error_object errorListIndex altErrorMessage =
     (let (number, reason, message) = ErrorInfoList ! errorListIndex in
      GoObj [(''number'', GoStr number), (''reason'', GoStr reason),
             (''message'', GoStr (if altErrorMessage \<noteq> [] then altErrorMessage else message))])"

definition SetErrorResponse :: "string \<Rightarrow> gomap \<Rightarrow> gomap \<Rightarrow> nat \<Rightarrow> string \<Rightarrow> gomap" where
  "SetErrorResponse now reqMap errRespMap errorListIndex altErrorMessage =
     (let m1 = copy_if_set ''RouterId'' reqMap errRespMap;
          m2 = copy_if_set ''action'' reqMap m1;
          m3 = (if gget reqMap ''requestId'' \<noteq> GoNull
                then gset ''requestId'' (gget reqMap ''requestId'') m2
                else gdelete ''requestId'' m2);
          m4 = copy_if_set ''subscriptionId'' reqMap m3;
          m5 = gset ''error'' (error_object errorListIndex altErrorMessage) m4
      in gset ''ts'' (GoStr now) m5)"

section \<open>Filters\<close>

record FilterObject =
  Type :: string
  Parameter :: string

definition emptyFilter :: FilterObject where
  "emptyFilter = \<lparr>Type = [], Parameter = []\<rparr>"

text \<open>
  One member of a filter expression, and a whole expression. Go visits the members of a map in
  no fixed order; the argument \<open>iter\<close> lists them in the order of this visit.
\<close>

fun filter_member :: "FilterObject \<Rightarrow> string \<times> gojson \<Rightarrow> FilterObject" where
  "filter_member f (k, v) =
     (case v of
        GoStr vv \<Rightarrow> if k = ''type'' then f\<lparr>Type := vv\<rparr>
                    else if k = ''parameter'' then f\<lparr>Parameter := vv\<rparr> else f
      | GoArr vv \<Rightarrow> if k = ''parameter'' then f\<lparr>Parameter := marshal (GoArr vv)\<rparr> else f
      | GoObj vv \<Rightarrow> f\<lparr>Parameter := marshal (GoObj vv)\<rparr>
      | _ \<Rightarrow> f)"

definition unpackFilterLevel2 :: "(gomap \<Rightarrow> gomap) \<Rightarrow> gomap \<Rightarrow> FilterObject" where
  "unpackFilterLevel2 iter filterExpression = foldl filter_member emptyFilter (iter filterExpression)"

definition unpackFilterLevel1 :: "(gomap \<Rightarrow> gomap) \<Rightarrow> gojson list \<Rightarrow> FilterObject list" where
  "unpackFilterLevel1 iter filterArray =
     map (\<lambda>v. case v of GoObj m \<Rightarrow> unpackFilterLevel2 iter m | _ \<Rightarrow> emptyFilter) filterArray"

definition UnpackFilter :: "(gomap \<Rightarrow> gomap) \<Rightarrow> gojson \<Rightarrow> FilterObject list" where
  "UnpackFilter iter fexp =
     (case fexp of
        GoArr vv \<Rightarrow> unpackFilterLevel1 iter vv
      | GoObj m \<Rightarrow> [unpackFilterLevel2 iter m]
      | _ \<Rightarrow> [])"

section \<open>Routing\<close>

text \<open>The transport manager and the client a message belongs to travel inside it.\<close>

definition router_id :: "int \<Rightarrow> int \<Rightarrow> string" where
  "router_id mgrId clientId = show_int mgrId @ ''?'' @ show_int clientId"

definition dquoted :: "string \<Rightarrow> string" where
  "dquoted s = CHR 0x22 # s @ [CHR 0x22]"

definition createRouterIdProperty :: "int \<Rightarrow> int \<Rightarrow> string" where
  "createRouterIdProperty mgrId clientId = dquoted ''RouterId'' @ '':'' @ dquoted (router_id mgrId clientId)"

definition AddRoutingForwardRequest :: "string \<Rightarrow> int \<Rightarrow> int \<Rightarrow> string" where
  "AddRoutingForwardRequest reqMessage mgrId clientId =
     (let newPrefix = CHR 0x7B # createRouterIdProperty mgrId clientId @ '', ''
            @ dquoted ''origin'' @ '':'' @ dquoted ''external'' @ '', ''
      in replace_first (CHR 0x7B) newPrefix reqMessage)"

definition RemoveInternalData :: "string \<Rightarrow> (string \<times> int) option" where
  "RemoveInternalData response =
     (case index_of response ''RouterId'' of None \<Rightarrow> None
      | Some i \<Rightarrow>
        if i = 0 then None
        else
          (let routerIdStart = i - 1;
               clientIdStart = (case index_of (drop routerIdStart response) ''?'' of
                                  None \<Rightarrow> routerIdStart | Some j \<Rightarrow> j + 1 + routerIdStart);
               clientIdStop = NextQuoteMark (to_bytes response) clientIdStart
           in (case slice response clientIdStart clientIdStop of None \<Rightarrow> None
               | Some digits \<Rightarrow>
                 (let routerIdStop = (case index_of (drop clientIdStop response) '','' of
                                        None \<Rightarrow> clientIdStop | Some j \<Rightarrow> j + 1 + clientIdStop)
                  in Some (take routerIdStart response @ drop routerIdStop response,
                           atoi_value digits)))))"

section \<open>HTTP requests\<close>

definition splitToPathQueryKeyValue :: "string \<Rightarrow> (string \<times> string \<times> string) option" where
  "splitToPathQueryKeyValue path =
     (case index_of path ''?'' of
        None \<Rightarrow> Some (path, [], [])
      | Some delim \<Rightarrow>
        (case index_at path (delim + 1) of
           None \<Rightarrow> None
         | Some c \<Rightarrow>
           if c = CHR ''f'' then
             map_option (\<lambda>v. (take delim path, ''filter'', v)) (slice path (delim + 8) (length path))
           else if c = CHR ''m'' then
             map_option (\<lambda>v. (take delim path, ''metadata'', v)) (slice path (delim + 10) (length path))
           else Some (path, [], [])))"

text \<open>\<open>strings.ReplaceAll\<close> of a three-character escape.\<close>

fun replace_escape :: "string \<Rightarrow> string \<Rightarrow> string \<Rightarrow> string" where
  "replace_escape old new (a # b # c # s) =
     (if [a, b, c] = old then new @ replace_escape old new s
      else a # replace_escape old new (b # c # s))"
| "replace_escape old new s = s"

text \<open>What the client gets: the message without the members that are not for it.\<close>

definition backendHttpAppSession :: "(string \<Rightarrow> string option) \<Rightarrow> string \<Rightarrow> string" where
  "backendHttpAppSession fmt message =
     (let m = snd (MapRequest fmt message)
      in FinalizeMessage (gdelete ''requestId'' (gdelete ''action'' m)))"

definition unsupported_method :: string where
  "unsupported_method =
     CHR 0x7B # dquoted ''error'' @ '': '' @ dquoted ''400'' @ '', '' @ dquoted ''reason'' @ '': ''
       @ dquoted ''Bad request'' @ '', '' @ dquoted ''message'' @ '':'' @ dquoted ''Unsupported HTTP method'' @ [CHR 0x7D]"

text \<open>
  The message an HTTP request becomes, \<open>Inl\<close> the response when the method is not supported.
  \<open>tag\<close> is the running number of the request.
\<close>

definition frontendHttpAppSession ::
  "(string \<Rightarrow> string option) \<Rightarrow> string \<Rightarrow> string \<Rightarrow> string \<Rightarrow> string \<Rightarrow> int
    \<Rightarrow> (string + string) option" where
  "frontendHttpAppSession fmt httpMethod uri token body tag =
     (let path0 = (if uri = [] then ''empty-path'' else uri);
          path = replace_escape ''%20'' [] (replace_escape ''%22'' [CHR 0x22] path0)
      in (case (if contains path ''?'' then splitToPathQueryKeyValue path else Some (path, [], [])) of
            None \<Rightarrow> None
          | Some (p, queryKey, queryValue) \<Rightarrow>
            (let m0 = gset ''path'' (GoStr p) [];
                 m1 = (if token \<noteq> [] then gset ''authorization'' (GoStr (trim_prefix ''Bearer '' token)) m0 else m0);
                 m2 = gset ''requestId'' (GoStr (show_int tag)) m1
             in if httpMethod = ''OPTIONS'' \<or> httpMethod = ''GET'' then
                  map_option Inr (AddKeyValue (FinalizeMessage (gset ''action'' (GoStr ''get'') m2)) queryKey queryValue)
                else if httpMethod = ''POST'' then
                  map_option Inr (AddKeyValue
                    (FinalizeMessage (gset ''value'' (GoStr body) (gset ''action'' (GoStr ''set'') m2)))
                    queryKey queryValue)
                else Some (Inl (backendHttpAppSession fmt unsupported_method)))))"

end
