(* ===== verification/Server_Core.thy ===== *)
theory Server_Core
  imports Server_Utils
begin

text \<open>
  The server core, \<open>server/vissv2server/vissv2server.go\<close>: what \<open>serveRequest\<close> and
  \<open>issueServiceRequest\<close> do with one message of a transport manager. The outcome is the new
  value of the global \<open>errorResponseMap\<close> and the one message that is sent, to the transport
  manager or to the service manager; \<open>None\<close> is a run-time panic, which ends the server. The
  tree library, the access token server behind its channel, the HTTP call for the no-scope list
  and the clock are fields of the environment.
\<close>

section \<open>The environment\<close>

record 'n vss_lib =
  VSSsearchNodes :: "string \<Rightarrow> bool \<Rightarrow> bool \<Rightarrow> nat \<Rightarrow> string list \<Rightarrow> (string \<times> 'n) list \<times> int"
  VSSgetName :: "'n \<Rightarrow> string"
  VSSgetType :: "'n \<Rightarrow> int"
  VSSgetDescr :: "'n \<Rightarrow> string"
  VSSgetDatatype :: "'n \<Rightarrow> string"
  VSSgetChildren :: "'n \<Rightarrow> 'n list"

text \<open>
  \<open>VSSsearchNodes\<close> gives the matching nodes, each with its path in a buffer padded with zero
  bytes, and the access control value of the search. \<open>ats\<close> answers a request on the channel
  of the access token server; \<open>noScopeBody\<close> is the body of the answer to the HTTP request for
  a token context, \<open>None\<close> when the request fails.
\<close>

record 'n core_env =
  vss :: "'n vss_lib"
  ats :: "string \<Rightarrow> string"
  noScopeBody :: "string \<Rightarrow> string option"
  fmtNum :: "string \<Rightarrow> string option"
  mapOrder :: "gomap \<Rightarrow> gomap"
  rfcTime :: string

datatype core_msg = ToTransport nat string | ToService nat string

definition initErrorResponseMap :: gomap where
  "initErrorResponseMap =
     [(''RouterId'', GoNum ''0''), (''action'', GoStr ''unknown''), (''requestId'', GoStr ''XXX''),
      (''error'', GoStr (CHR 0x7B # dquoted ''number'' @ '':AAA, '' @ dquoted ''reason'' @ '': '' @ dquoted ''BBB''
         @ '', '' @ dquoted ''message'' @ '': '' @ dquoted ''CCC'' @ [CHR 0x7D])),
      (''ts'', GoNum ''1234'')]"

section \<open>Routing of responses\<close>

definition extractMgrId :: "string \<Rightarrow> int option" where
  "extractMgrId routerId = map_option (\<lambda>delim. atoi_value (take delim routerId)) (index_of routerId ''?'')"

definition getRouterId :: "string \<Rightarrow> string option" where
  "getRouterId response =
     (case index_of response ''RouterId'' of
        None \<Rightarrow> Some []
      | Some i \<Rightarrow>
        (let afterRouterIdKey = i + 8 + 1;
             routerIdValStart = NextQuoteMark (to_bytes response) afterRouterIdKey + 1;
             routerIdValStop = NextQuoteMark (to_bytes response) routerIdValStart
         in slice response routerIdValStart routerIdValStop))"

text \<open>The branch of \<open>serviceDataSession\<close> for a response: the transport manager it goes to.\<close>

definition serviceDataSession_response :: "string \<Rightarrow> (nat \<times> string) option" where
  "serviceDataSession_response response =
     (case getRouterId response of None \<Rightarrow> None
      | Some routerId \<Rightarrow>
        (case extractMgrId routerId of None \<Rightarrow> None
         | Some mgrIndex \<Rightarrow>
             if 0 \<le> mgrIndex \<and> mgrIndex < 4 then Some (nat mgrIndex, response) else None))"

section \<open>The tree\<close>

definition searchTree ::
  "'n core_env \<Rightarrow> string \<Rightarrow> bool \<Rightarrow> bool \<Rightarrow> nat \<Rightarrow> string list \<Rightarrow> (string \<times> 'n) list \<times> int" where
  "searchTree env path anyDepth leafNodesOnly listSize noScopeList =
     (if 0 < length path then VSSsearchNodes (vss env) path anyDepth leafNodesOnly listSize noScopeList
      else ([], - 1))"

fun getPathLen :: "string \<Rightarrow> nat" where
  "getPathLen [] = 0"
| "getPathLen (c # path) = (if of_char c = (0::nat) then 0 else Suc (getPathLen path))"

definition nodeTypesToString :: "int \<Rightarrow> string" where
  "nodeTypesToString nodeType =
     (if nodeType = 1 then ''sensor'' else if nodeType = 2 then ''actuator''
      else if nodeType = 3 then ''attribute'' else if nodeType = 4 then ''branch'' else [])"

text \<open>The pieces of a node's description, in the order they are appended.\<close>

definition node_head :: "'n vss_lib \<Rightarrow> 'n \<Rightarrow> string" where
  "node_head lib n =
     dquoted (VSSgetName lib n) @ '':'' @ [CHR 0x7B] @ dquoted ''type'' @ '':''
       @ dquoted (nodeTypesToString (VSSgetType lib n)) @ '','' @ dquoted ''description'' @ '':''
       @ dquoted (VSSgetDescr lib n) @ '',''"

definition strip_comma :: "string \<Rightarrow> string" where
  "strip_comma s =
     (if last s = CHR '','' \<and> last (butlast s) \<noteq> CHR 0x7D then butlast s else s)"

function jsonifyTreeNode :: "'n vss_lib \<Rightarrow> 'n \<Rightarrow> string \<Rightarrow> nat \<Rightarrow> nat \<Rightarrow> string" where
  "jsonifyTreeNode lib nodeHandle jsonBuffer depth maxDepth =
     (if depth \<ge> maxDepth then jsonBuffer
      else
        (let nodeType = VSSgetType lib nodeHandle;
             children = VSSgetChildren lib nodeHandle;
             b0 = node_head lib nodeHandle
         in
         if nodeType \<noteq> 4 \<and> nodeType \<noteq> 1 \<and> nodeType \<noteq> 2 \<and> nodeType \<noteq> 3 then []
         else
           (let b1 = (if nodeType = 4 then b0
                      else b0 @ dquoted ''datatype'' @ '':'' @ dquoted (VSSgetDatatype lib nodeHandle) @ '','');
                b2 = (if depth + 1 < maxDepth \<and> children \<noteq> [] then
                        butlast (b1 @ dquoted ''children'' @ '':'' @ [CHR 0x7B]
                          @ concat (map (\<lambda>c. jsonifyTreeNode lib c jsonBuffer (depth + 1) maxDepth) children))
                        @ [CHR 0x7D]
                      else b1)
            in jsonBuffer @ strip_comma b2 @ [CHR 0x7D] @ '','')))"
  by pat_completeness auto
termination
  by (relation "measure (\<lambda>(lib, n, b, depth, maxDepth). maxDepth - depth)") auto

declare jsonifyTreeNode.simps [simp del]

definition countPathSegments :: "string \<Rightarrow> nat" where
  "countPathSegments path = length (filter (\<lambda>c. c = CHR ''.'') path) + 1"

definition extractNoScopeElementsLevel2 :: "gojson list \<Rightarrow> string list" where
  "extractNoScopeElementsLevel2 noScopeMap = map (\<lambda>v. case v of GoStr vv \<Rightarrow> vv | _ \<Rightarrow> []) noScopeMap"

text \<open>The first member, in the order of the visit, that is a string or an array.\<close>

fun extractNoScopeElementsLevel1 :: "gomap \<Rightarrow> string list" where
  "extractNoScopeElementsLevel1 [] = []"
| "extractNoScopeElementsLevel1 ((k, v) # m) =
     (case v of
        GoStr vv \<Rightarrow> [vv]
      | GoArr vv \<Rightarrow> extractNoScopeElementsLevel2 vv
      | _ \<Rightarrow> extractNoScopeElementsLevel1 m)"

definition getNoScopeList :: "'n core_env \<Rightarrow> string \<Rightarrow> string list" where
  "getNoScopeList env tokenContext =
     (case noScopeBody env tokenContext of
        None \<Rightarrow> []
      | Some body \<Rightarrow>
        (let (err, m) = unmarshal_map (fmtNum env) body
         in if err then [] else extractNoScopeElementsLevel1 (mapOrder env m)))"

definition synthesizeJsonTree :: "'n core_env \<Rightarrow> string \<Rightarrow> nat \<Rightarrow> string \<Rightarrow> string" where
  "synthesizeJsonTree env path depth tokenContext =
     (let noScopeList = getNoScopeList env tokenContext;
          (searchData, validation) =
            searchTree env path False False (length noScopeList) noScopeList
      in if length searchData < countPathSegments path then []
         else
           (let subTreeRoot = snd (searchData ! (length searchData - 1));
                jsonBuffer = jsonifyTreeNode (vss env) subTreeRoot [] 0 (if depth = 0 then 100 else depth)
            in if 0 < length jsonBuffer then [CHR 0x7B] @ butlast jsonBuffer @ [CHR 0x7D] else []))"

section \<open>Access tokens\<close>

definition getTokenErrorMessage :: "int \<Rightarrow> string" where
  "getTokenErrorMessage index =
     (if index = 1 then ''Invalid Access Token. ''
      else if index = 2 then ''Access Token not found. ''
      else if index = 5 then ''Invalid Access Token Signature. ''
      else if index = 6 then ''Invalid Access Token Signature Algorithm. ''
      else if index = 10 then ''Invalid iat claim. Invalid time format. ''
      else if index = 11 then ''Invalid iat claim. Future time. ''
      else if index = 15 then ''Invalid exp claim. Invalid time format. ''
      else if index = 16 then ''Invalid exp claim. Token Expired. ''
      else if index = 20 then ''Invalid AUD. ''
      else if index = 21 then ''Invalid Context. ''
      else if index = 30 then ''Invalid Token: token revoked. ''
      else if index = 40 \<or> index = 41 \<or> index = 42 then ''Internal error. ''
      else if index = 60 then ''Permission denied. Purpose does not match signals requested. ''
      else if index = 61 then ''Permission denied. Read only access mode trying to write. ''
      else ''Unknown error. '')"

definition setTokenErrorResponse :: "string \<Rightarrow> gomap \<Rightarrow> gomap \<Rightarrow> int \<Rightarrow> gomap" where
  "setTokenErrorResponse now reqMap errMap errorCode =
     SetErrorResponse now reqMap errMap 3 (getTokenErrorMessage errorCode)"

definition atsRequest :: "string \<Rightarrow> string \<Rightarrow> string \<Rightarrow> int \<Rightarrow> string" where
  "atsRequest accessToken action paths validation =
     CHR 0x7B # dquoted ''token'' @ '':'' @ dquoted accessToken @ '','' @ dquoted ''paths'' @ '':'' @ dquoted paths
       @ '','' @ dquoted ''action'' @ '':'' @ dquoted action @ '','' @ dquoted ''validation'' @ '':''
       @ dquoted (show_int validation) @ [CHR 0x7D]"

text \<open>A type assertion to \<open>string\<close>.\<close>

fun as_string :: "gojson \<Rightarrow> string option" where
  "as_string (GoStr s) = Some s"
| "as_string _ = None"

text \<open>A member that is read only when it is there.\<close>

definition string_if_set :: "gomap \<Rightarrow> string \<Rightarrow> string option" where
  "string_if_set m k = (if gget m k = GoNull then Some [] else as_string (gget m k))"

definition verifyToken ::
  "'n core_env \<Rightarrow> string \<Rightarrow> string \<Rightarrow> string \<Rightarrow> int \<Rightarrow> (int \<times> string \<times> string) option" where
  "verifyToken env accessToken action paths validation =
     (let (err, bdy) = unmarshal_map (fmtNum env) (ats env (atsRequest accessToken action paths validation)) in
      if err then Some (41, [], [])
      else if gget bdy ''validation'' = GoNull then Some (42, [], [])
      else do {
        v \<leftarrow> as_string (gget bdy ''validation'');
        (case atoi v of
           None \<Rightarrow> Some (42, [], [])
         | Some atsValidation \<Rightarrow>
             if atsValidation = 0 then do {
               handle \<leftarrow> string_if_set bdy ''handle'';
               gatingId \<leftarrow> string_if_set bdy ''gatingId'';
               Some (0, handle, gatingId) }
             else Some (atsValidation, [], [])) })"

definition getTokenContext :: "gomap \<Rightarrow> string option" where
  "getTokenContext reqMap =
     (if gget reqMap ''authorization'' \<noteq> GoNull then do {
        t \<leftarrow> as_string (gget reqMap ''authorization'');
        ExtractFromToken t ''clx'' }
      else Some [])"

section \<open>The filters of a request\<close>

text \<open>
  What the loop over the filters comes to: paths to search for, an answer of its own, or a
  message for the service manager; \<open>FiltersDone []\<close> when no filter gives paths.
\<close>

datatype filters_result =
    FiltersDone "string list"
  | FiltersBadRequest
  | FiltersMetadata string
  | FiltersForward

fun filterLoop :: "'n core_env \<Rightarrow> gomap \<Rightarrow> string \<Rightarrow> FilterObject list \<Rightarrow> filters_result option" where
  "filterLoop env requestMap rootPath [] = Some (FiltersDone [])"
| "filterLoop env requestMap rootPath (f # filterList) =
     (if Type f = ''paths'' then
        (if contains (Parameter f) ''['' then
           (case unmarshal_strings (Parameter f) of
              None \<Rightarrow> Some FiltersBadRequest
            | Some ps \<Rightarrow> Some (FiltersDone (map (\<lambda>p. rootPath @ ''.'' @ UrlToPath p) ps)))
         else Some (FiltersDone [rootPath @ ''.'' @ UrlToPath (Parameter f)]))
      else if Type f = ''static-metadata'' then do {
        ctx \<leftarrow> getTokenContext requestMap;
        path \<leftarrow> as_string (gget requestMap ''path'');
        (let metadata = synthesizeJsonTree env path 2 (if ctx = [] then ''Undefined+Undefined+Undefined'' else ctx)
         in Some (if 0 < length metadata then FiltersMetadata metadata else FiltersBadRequest)) }
      else if Type f = ''dynamic-metadata'' \<and> Parameter f = ''server_capabilities'' then Some FiltersForward
      else filterLoop env requestMap rootPath filterList)"

section \<open>Requests\<close>

text \<open>The error answer: the global map is updated and sent.\<close>

definition reply_error ::
  "'n core_env \<Rightarrow> gomap \<Rightarrow> nat \<Rightarrow> string \<Rightarrow> nat \<Rightarrow> gomap \<Rightarrow> gomap \<times> core_msg" where
  "reply_error env requestMap index alt tDChanIndex errMap =
     (let errMap' = SetErrorResponse (rfcTime env) requestMap errMap index alt
      in (errMap', ToTransport tDChanIndex (FinalizeMessage errMap')))"

text \<open>The nodes found for all search paths, the last search's nodes, and the access control value.\<close>

fun searchLoop ::
  "'n core_env \<Rightarrow> string list \<Rightarrow> (string \<times> 'n) list \<Rightarrow> (string \<times> 'n) list \<Rightarrow> int
    \<Rightarrow> (string \<times> 'n) list \<times> (string \<times> 'n) list \<times> int" where
  "searchLoop env [] found searchData maxValidation = (found, searchData, maxValidation)"
| "searchLoop env (p # ps) found searchData maxValidation =
     (let (matches, validation) = searchTree env p True True 0 []
      in searchLoop env ps (found @ matches) matches (GetMaxValidation validation maxValidation))"

definition path_text :: "(string \<times> 'n) list \<Rightarrow> string" where
  "path_text found =
     (let paths = concat (map (\<lambda>(p, n). dquoted (take (getPathLen p) p) @ '', '') found);
          paths1 = take (length paths - 2) paths
      in if length found = 1 then butlast (tl paths1)
         else if length found > 1 then ''['' @ paths1 @ '']''
         else paths1)"

text \<open>\<open>ACTUATOR\<close> is the node type of a leaf that can be set.\<close>

definition actuator :: int where
  "actuator = 2"

text \<open>The check of the access token, for the code of a validation: the error code, the handle and
  the gating id.\<close>

definition checkToken ::
  "'n core_env \<Rightarrow> gomap \<Rightarrow> string \<Rightarrow> int \<Rightarrow> (int \<times> string \<times> string) option" where
  "checkToken env requestMap paths maxValidation =
     (if gget requestMap ''authorization'' = GoNull then Some (2, [], [])
      else if gget requestMap ''action'' = GoStr ''set'' \<or> maxValidation mod 10 = 2 then
        (case as_string (gget requestMap ''authorization'') of
           None \<Rightarrow> Some (1, [], [])
         | Some authToken \<Rightarrow> do {
             action \<leftarrow> as_string (gget requestMap ''action'');
             verifyToken env authToken action paths maxValidation })
      else Some (0, [], []))"

definition set_if_nonempty :: "string \<Rightarrow> string \<Rightarrow> gomap \<Rightarrow> gomap" where
  "set_if_nonempty k v m = (if v \<noteq> [] then gset k (GoStr v) m else m)"

text \<open>
  The second half of \<open>issueServiceRequest\<close>, from the search on. Go's \<open>%\<close> truncates; the
  values of the matrix are not negative, so \<open>mod\<close> agrees with it.
\<close>

definition searchAndForward ::
  "'n core_env \<Rightarrow> gomap \<Rightarrow> string list \<Rightarrow> nat \<Rightarrow> nat \<Rightarrow> gomap \<Rightarrow> (gomap \<times> core_msg) option" where
  "searchAndForward env requestMap searchPath tDChanIndex sDChanIndex errMap =
     (let (found, searchData, validation) = searchLoop env searchPath [] [] (- 1) in
      if length found = 0 then Some (reply_error env requestMap 6 [] tDChanIndex errMap)
      else if gget requestMap ''action'' = GoStr ''set'' \<and> searchData = [] then None
      else if gget requestMap ''action'' = GoStr ''set''
              \<and> VSSgetType (vss env) (snd (hd searchData)) \<noteq> actuator
      then Some (reply_error env requestMap 1 [] tDChanIndex errMap)
      else
        (let paths = path_text found;
             maxValidation = (if gget requestMap ''origin'' = GoStr ''internal'' then 0 else validation)
         in if maxValidation mod 10 = 0 \<or> maxValidation mod 10 = 1 \<or> maxValidation mod 10 = 2 then do {
              (errorCode, tokenHandle, gatingId) \<leftarrow>
                (if maxValidation mod 10 = 0 then Some (0, [], [])
                 else checkToken env requestMap paths maxValidation);
              if errorCode \<noteq> 0 then
                (let errMap' = setTokenErrorResponse (rfcTime env) requestMap errMap errorCode
                 in Some (errMap', ToTransport tDChanIndex (FinalizeMessage errMap')))
              else
                Some (errMap, ToService sDChanIndex (FinalizeMessage
                  (set_if_nonempty ''gatingId'' gatingId (set_if_nonempty ''handle'' tokenHandle
                    (gset ''path'' (GoStr paths) requestMap))))) }
            else Some (reply_error env requestMap 7 [] tDChanIndex errMap)))"

definition issueServiceRequest ::
  "'n core_env \<Rightarrow> gomap \<Rightarrow> nat \<Rightarrow> nat \<Rightarrow> gomap \<Rightarrow> (gomap \<times> core_msg) option" where
  "issueServiceRequest env requestMap tDChanIndex sDChanIndex errMap =
     (if gget requestMap ''action'' = GoStr ''internal-killsubscriptions''
         \<or> gget requestMap ''action'' = GoStr ''internal-cancelsubscription''
      then Some (errMap, ToService sDChanIndex (FinalizeMessage requestMap))
      else do {
        rootPath \<leftarrow> as_string (gget requestMap ''path'');
        r \<leftarrow> (if gget requestMap ''filter'' \<noteq> GoNull
              then filterLoop env requestMap rootPath (UnpackFilter (mapOrder env) (gget requestMap ''filter''))
              else Some (FiltersDone []));
        (case r of
           FiltersBadRequest \<Rightarrow> Some (reply_error env requestMap 0 [] tDChanIndex errMap)
         | FiltersForward \<Rightarrow> Some (errMap, ToService sDChanIndex (FinalizeMessage requestMap))
         | FiltersMetadata metadata \<Rightarrow> do {
             answer \<leftarrow> AddKeyValue
               (FinalizeMessage (gset ''ts'' (GoStr (rfcTime env)) (gdelete ''filter'' (gdelete ''path'' requestMap))))
               ''metadata'' metadata;
             Some (errMap, ToTransport tDChanIndex answer) }
         | FiltersDone searchPath \<Rightarrow>
             searchAndForward env requestMap (if searchPath = [] then [rootPath] else searchPath)
               tDChanIndex sDChanIndex errMap) })"

text \<open>The rest of \<open>serveRequest\<close>, after the path is rewritten.\<close>

definition serveParsed ::
  "'n core_env \<Rightarrow> string \<Rightarrow> string \<Rightarrow> gomap \<Rightarrow> nat \<Rightarrow> nat \<Rightarrow> gomap \<Rightarrow> (gomap \<times> core_msg) option" where
  "serveParsed env request action requestMap tDChanIndex sDChanIndex errMap =
     (if action = ''set'' \<and> gget requestMap ''filter'' \<noteq> GoNull
      then Some (reply_error env requestMap 0 [] tDChanIndex errMap)
      else if action = ''unsubscribe'' then Some (errMap, ToService sDChanIndex request)
      else issueServiceRequest env requestMap tDChanIndex sDChanIndex errMap)"

definition serveRequest ::
  "'n core_env \<Rightarrow> string \<Rightarrow> nat \<Rightarrow> nat \<Rightarrow> gomap \<Rightarrow> (gomap \<times> core_msg) option" where
  "serveRequest env request tDChanIndex sDChanIndex errMap =
     (let (code, requestMap) = MapRequest (fmtNum env) request in
      if code \<noteq> 0 then Some (reply_error env requestMap 0 [] tDChanIndex errMap)
      else if gget requestMap ''action'' = GoNull then Some (reply_error env requestMap 1 [] tDChanIndex errMap)
      else do {
        action \<leftarrow> as_string (gget requestMap ''action'');
        if \<not> validRequest request action then Some (reply_error env requestMap 1 [] tDChanIndex errMap)
        else do {
          path \<leftarrow> (if gget requestMap ''path'' \<noteq> GoNull
                  then map_option Some (as_string (gget requestMap ''path'')) else Some None);
          (case path of
             Some p \<Rightarrow>
               if contains p ''*'' then Some (reply_error env requestMap 1 [] tDChanIndex errMap)
               else serveParsed env request action (gset ''path'' (GoStr (UrlToPath p)) requestMap)
                      tDChanIndex sDChanIndex errMap
           | None \<Rightarrow> serveParsed env request action requestMap tDChanIndex sDChanIndex errMap) } })"

end
