(* ===== verification/Go_Json_Props.thy ===== *)
theory Go_Json_Props
  imports Go_Json
begin

text \<open>
  The laws of the JSON library model that the server's components rest on: a bound above twice
  the length of the text never cuts the parser short, a marshalled map is read back as the same map,
  and what the textual surgery of the transport managers does to the decoded map.
\<close>

section \<open>The parser consumes its input\<close>

lemma length_skip_ws: "length (skip_ws s) \<le> length s"
  by (simp add: skip_ws_def length_dropWhile_le)

lemma skip_ws_Cons: "skip_ws s = c # t \<Longrightarrow> length t < length s"
  using length_skip_ws [of s] by simp

lemma split_str_length: "split_str s = Some (raw, rest) \<Longrightarrow> length rest < length s"
  by (induction s arbitrary: raw rest rule: split_str.induct)
    (fastforce split: if_splits list.splits)+

lemma parse_str_length: "parse_str s = Some (x, rest) \<Longrightarrow> length rest < length s"
  by (auto simp: parse_str_def split: option.splits dest: split_str_length)

lemma parse_frac_length: "parse_frac s = Some (x, rest) \<Longrightarrow> length rest \<le> length s"
  using length_dropWhile_le [of is_digit "tl s"]
  by (auto simp: parse_frac_def split: list.splits char.splits bool.splits if_splits)

lemma parse_exp_length: "parse_exp s = Some (x, rest) \<Longrightarrow> length rest \<le> length s"
proof (cases s)
  case (Cons c t)
  assume "parse_exp s = Some (x, rest)"
  with Cons show ?thesis
    using length_dropWhile_le [of is_digit "drop (length (exp_sign t)) t"]
    by (auto simp: parse_exp_def Let_def split: if_splits)
qed (simp add: parse_exp_def)

lemma int_digits_length: "length (int_digits s) \<le> length s"
  by (auto simp: int_digits_def length_takeWhile_le split: list.splits)

lemma parse_num_length: "parse_num s = Some (x, rest) \<Longrightarrow> length rest < length s"
proof -
  assume "parse_num s = Some (x, rest)"
  then obtain fs u es where ds: "int_digits (drop (length (num_sign s)) s) \<noteq> []"
    and f: "parse_frac (drop (length (int_digits (drop (length (num_sign s)) s)))
               (drop (length (num_sign s)) s)) = Some (fs, u)"
    and e: "parse_exp u = Some (es, rest)"
    by (auto simp: parse_num_def Let_def split: if_splits option.splits)
  have "length rest \<le> length s - length (num_sign s)
      - length (int_digits (drop (length (num_sign s)) s))"
    using parse_frac_length [OF f] parse_exp_length [OF e] by simp
  moreover have "0 < length (int_digits (drop (length (num_sign s)) s))" using ds by simp
  moreover have "length (int_digits (drop (length (num_sign s)) s)) \<le> length s - length (num_sign s)"
    using int_digits_length [of "drop (length (num_sign s)) s"] by simp
  ultimately show ?thesis by linarith
qed

lemma next_token_length: "next_token s = Some (c, t) \<Longrightarrow> length t < length s"
  by (auto simp: next_token_def split: list.splits dest: skip_ws_Cons)

lemma next_token_Cons: "next_token s = Some (c, t) \<Longrightarrow> length (c # t) \<le> length s"
  using next_token_length [of s c t] by simp

lemma parse_scalar_length: "parse_scalar s = Some (v, r) \<Longrightarrow> length r < length s"
  by (fastforce simp: parse_scalar_def split: if_splits dest: parse_str_length parse_num_length
      prefix_length_le)

text \<open>One level of the grammar, read backwards.\<close>

lemma parse_value_SomeE:
  assumes "parse_value (Suc n) d s = Some (v, r)"
  obtains c t where "next_token s = Some (c, t)" "c \<noteq> CHR 0x7B" "c \<noteq> CHR 0x5B" "parse_scalar (c # t) = Some (v, r)"
  | t where "next_token s = Some (CHR 0x7B, t)" "0 < d" "next_token t = Some (CHR 0x7D, r)" "v = GoObj []"
  | t e u kvs where "next_token s = Some (CHR 0x7B, t)" "0 < d" "next_token t = Some (e, u)" "e \<noteq> CHR 0x7D"
      "parse_members n (d - 1) t = Some (kvs, r)" "v = GoObj kvs"
  | t where "next_token s = Some (CHR 0x5B, t)" "0 < d" "next_token t = Some (CHR 0x5D, r)" "v = GoArr []"
  | t e u vs where "next_token s = Some (CHR 0x5B, t)" "0 < d" "next_token t = Some (e, u)" "e \<noteq> CHR 0x5D"
      "parse_elems n (d - 1) t = Some (vs, r)" "v = GoArr vs"
  using assms by (auto simp: bind_eq_Some_conv simp del: One_nat_def split: if_splits) blast+

lemma parse_members_SomeE:
  assumes "parse_members (Suc n) d s = Some (kvs, r)"
  obtains t k u w v x where "next_token s = Some (CHR 0x22, t)" "parse_str t = Some (k, u)"
      "next_token u = Some (CHR '':'', w)" "parse_value n d w = Some (v, x)" "next_token x = Some (CHR 0x7D, r)"
      "kvs = [(k, v)]"
  | t k u w v x y kvs' where "next_token s = Some (CHR 0x22, t)" "parse_str t = Some (k, u)"
      "next_token u = Some (CHR '':'', w)" "parse_value n d w = Some (v, x)" "next_token x = Some (CHR '','', y)"
      "parse_members n d y = Some (kvs', r)" "kvs = (k, v) # kvs'"
  using assms by (auto simp: bind_eq_Some_conv simp del: One_nat_def split: if_splits)

lemma parse_elems_SomeE:
  assumes "parse_elems (Suc n) d s = Some (vs, r)"
  obtains v x where "parse_value n d s = Some (v, x)" "next_token x = Some (CHR 0x5D, r)" "vs = [v]"
  | v x y vs' where "parse_value n d s = Some (v, x)" "next_token x = Some (CHR '','', y)"
      "parse_elems n d y = Some (vs', r)" "vs = v # vs'"
  using assms by (auto simp: bind_eq_Some_conv simp del: One_nat_def split: if_splits)

lemma parse_lengths:
  "(\<forall>d s v r. parse_value n d s = Some (v, r) \<longrightarrow> length r < length s)
   \<and> (\<forall>d s kvs r. parse_members n d s = Some (kvs, r) \<longrightarrow> length r < length s)
   \<and> (\<forall>d s vs r. parse_elems n d s = Some (vs, r) \<longrightarrow> length r < length s)"
proof (induction n)
  case (Suc n)
  have "length r < length s" if "parse_value (Suc n) d s = Some (v, r)" for d s v r
    using that
    by (cases rule: parse_value_SomeE)
      (use Suc in \<open>fastforce dest: next_token_length parse_scalar_length\<close>)+
  moreover have "length r < length s" if "parse_members (Suc n) d s = Some (kvs, r)" for d s kvs r
    using that
    by (cases rule: parse_members_SomeE)
      (use Suc in \<open>fastforce dest: next_token_length parse_str_length\<close>)+
  moreover have "length r < length s" if "parse_elems (Suc n) d s = Some (vs, r)" for d s vs r
    using that
    by (cases rule: parse_elems_SomeE) (use Suc in \<open>fastforce dest: next_token_length\<close>)+
  ultimately show ?case by blast
qed simp

lemmas parse_value_length = parse_lengths [THEN conjunct1, rule_format]
lemmas parse_members_length = parse_lengths [THEN conjunct2, THEN conjunct1, rule_format]
lemmas parse_elems_length = parse_lengths [THEN conjunct2, THEN conjunct2, rule_format]

section \<open>The bound on the recursion\<close>

text \<open>
  A result found under some bound is found under every bound above twice the length of the text.
\<close>

lemma parse_bounds:
  "(\<forall>m d s v r. parse_value n d s = Some (v, r) \<longrightarrow> 2 * length s < m \<longrightarrow> parse_value m d s = Some (v, r))
   \<and> (\<forall>m d s kvs r. parse_members n d s = Some (kvs, r) \<longrightarrow> 2 * length s < m
        \<longrightarrow> parse_members m d s = Some (kvs, r))
   \<and> (\<forall>m d s vs r. parse_elems n d s = Some (vs, r) \<longrightarrow> 2 * length s + 1 < m
        \<longrightarrow> parse_elems m d s = Some (vs, r))"
proof (induction n)
  case (Suc n)
  have val: "parse_value n d t = Some (v, r) \<Longrightarrow> 2 * length t < m \<Longrightarrow> parse_value m d t = Some (v, r)"
    and mem: "parse_members n d t = Some (kvs, r) \<Longrightarrow> 2 * length t < m
      \<Longrightarrow> parse_members m d t = Some (kvs, r)"
    and elm: "parse_elems n d t = Some (vs, r) \<Longrightarrow> 2 * length t + 1 < m
      \<Longrightarrow> parse_elems m d t = Some (vs, r)" for m d t v kvs vs r
    using Suc.IH by blast+
  have V: "parse_value (Suc m) d s = Some (v, r)"
    if "parse_value (Suc n) d s = Some (v, r)" and m: "2 * length s < Suc m" for m d s v r
    using that(1)
  proof (cases rule: parse_value_SomeE)
    case (3 t e u kvs)
    then have "2 * length t < m" using m next_token_length [OF 3(1)] by simp
    from mem [OF 3(5) this] 3 show ?thesis by simp
  next
    case (5 t e u vs)
    then have "2 * length t + 1 < m" using m next_token_length [OF 5(1)] by simp
    from elm [OF 5(5) this] 5 show ?thesis by simp
  qed simp_all
  have M: "parse_members (Suc m) d s = Some (kvs, r)"
    if "parse_members (Suc n) d s = Some (kvs, r)" and m: "2 * length s < Suc m" for m d s kvs r
    using that(1)
  proof (cases rule: parse_members_SomeE)
    case (1 t k u w v x)
    then have "2 * length w < m"
      using m next_token_length [OF 1(1)] parse_str_length [OF 1(2)] next_token_length [OF 1(3)] by simp
    from val [OF 1(4) this] 1 show ?thesis by simp
  next
    case (2 t k u w v x y kvs')
    then have w: "2 * length w < m"
      using m next_token_length [OF 2(1)] parse_str_length [OF 2(2)] next_token_length [OF 2(3)] by simp
    then have "2 * length y < m"
      using parse_value_length [OF 2(4)] next_token_length [OF 2(5)] by simp
    from val [OF 2(4) w] mem [OF 2(6) this] 2 show ?thesis by simp
  qed
  have E: "parse_elems (Suc m) d s = Some (vs, r)"
    if "parse_elems (Suc n) d s = Some (vs, r)" and m: "2 * length s + 1 < Suc m" for m d s vs r
    using that(1)
  proof (cases rule: parse_elems_SomeE)
    case (1 v x)
    then show ?thesis using val [OF 1(1)] m by simp
  next
    case (2 v x y vs')
    then have "2 * length y + 1 < m"
      using m parse_value_length [OF 2(1)] next_token_length [OF 2(2)] by simp
    from val [OF 2(1)] elm [OF 2(3) this] m 2 show ?thesis by simp
  qed
  show ?case
  proof (intro conjI allI impI)
    show "parse_value m d s = Some (v, r)"
      if "parse_value (Suc n) d s = Some (v, r)" "2 * length s < m" for m d s v r
      using that(2) by (cases m) (simp_all add: V [OF that(1)] del: parse_value.simps parse_members.simps parse_elems.simps)
    show "parse_members m d s = Some (kvs, r)"
      if "parse_members (Suc n) d s = Some (kvs, r)" "2 * length s < m" for m d s kvs r
      using that(2) by (cases m) (simp_all add: M [OF that(1)] del: parse_value.simps parse_members.simps parse_elems.simps)
    show "parse_elems m d s = Some (vs, r)"
      if "parse_elems (Suc n) d s = Some (vs, r)" "2 * length s + 1 < m" for m d s vs r
      using that(2) by (cases m) (simp_all add: E [OF that(1)] del: parse_value.simps parse_members.simps parse_elems.simps)
  qed
qed simp

lemmas parse_value_bound = parse_bounds [THEN conjunct1, rule_format]
lemmas parse_members_bound = parse_bounds [THEN conjunct2, THEN conjunct1, rule_format]
lemmas parse_elems_bound = parse_bounds [THEN conjunct2, THEN conjunct2, rule_format]

lemma parse_json_of_bound:
  "parse_value n maxNestingDepth s = Some (v, r) \<Longrightarrow> parse_json s = Some (v, r)"
  unfolding parse_json_def by (erule parse_value_bound) simp

section \<open>UTF-8\<close>

lemma utf8_width_le: "utf8_width s \<le> length s"
  by (auto simp: utf8_width_def Let_def split: list.splits)

definition rune :: "string \<Rightarrow> bool" where
  "rune bs \<longleftrightarrow> bs \<noteq> [] \<and> utf8_width bs = length bs"

lemma utf8_width_rune: "rune bs \<Longrightarrow> utf8_width (bs @ r) = length bs"
  unfolding rune_def
  by (cases bs; cases "tl bs"; cases "tl (tl bs)"; cases "tl (tl (tl bs))")
    (auto simp: utf8_width_def Let_def split: if_splits)

lemma rune_take: "utf8_width s \<noteq> 0 \<Longrightarrow> rune (take (utf8_width s) s)"
  unfolding rune_def
  by (cases s; cases "tl s"; cases "tl (tl s)"; cases "tl (tl (tl s))")
    (auto simp: utf8_width_def Let_def split: if_splits)

lemma rune_replacement [simp]: "rune replacement_char"
  by (simp add: rune_def replacement_char_def utf8_width_def cont_byte_def)

lemma rune_ascii [simp]: "(of_char c :: nat) < 128 \<Longrightarrow> rune [c]"
  by (simp add: rune_def utf8_width_def)

lemma utf8_split_Nil [simp]: "utf8_split [] = []"
  by (simp add: utf8_split.simps)

lemma utf8_split_rune [simp]: "rune bs \<Longrightarrow> utf8_split (bs @ s) = Some bs # utf8_split s"
  by (subst utf8_split.simps) (simp add: utf8_width_rune, simp add: rune_def)

lemma utf8_split_runes: "list_all rune bss \<Longrightarrow> utf8_split (concat bss) = map Some bss"
  by (induction bss) simp_all

lemma utf8_split_valid: "Some bs \<in> set (utf8_split s) \<Longrightarrow> rune bs"
proof (induction s rule: utf8_split.induct)
  case (1 s)
  from "1.prems" have "s \<noteq> []" by auto
  show ?case
  proof (cases "utf8_width s = 0")
    case True
    with 1 \<open>s \<noteq> []\<close> show ?thesis by (simp add: utf8_split.simps [of s])
  next
    case False
    with 1 \<open>s \<noteq> []\<close> rune_take [of s] show ?thesis by (auto simp add: utf8_split.simps [of s])
  qed
qed

lemma rune_or_replacement_rune: "r \<in> set (utf8_split s) \<Longrightarrow> rune (rune_or_replacement r)"
  by (cases r) (auto simp: rune_or_replacement_def dest: utf8_split_valid)

lemma utf8_split_fix: "utf8_split (utf8_fix s) = map (Some \<circ> rune_or_replacement) (utf8_split s)"
  unfolding utf8_fix_def
  by (subst utf8_split_runes) (auto simp: list_all_iff rune_or_replacement_rune)

lemma utf8_fix_idem [simp]: "utf8_fix (utf8_fix s) = utf8_fix s"
  unfolding utf8_fix_def [of "utf8_fix s"] utf8_split_fix
  by (simp add: utf8_fix_def comp_def rune_or_replacement_def [of "Some _"])

lemma utf8_fix_Nil [simp]: "utf8_fix [] = []"
  by (simp add: utf8_fix_def)

lemma utf8_fix_rune [simp]: "rune bs \<Longrightarrow> utf8_fix (bs @ s) = bs @ utf8_fix s"
  by (simp add: utf8_fix_def rune_or_replacement_def)

lemma utf8_fix_ascii: "list_all (\<lambda>c. (of_char c :: nat) < 128) s \<Longrightarrow> utf8_fix s = s"
proof (induction s)
  case (Cons c s)
  then show ?case using utf8_fix_rune [of "[c]" s] by simp
qed simp

section \<open>String literals\<close>

text \<open>Every rune's escaped text is passed over whole by the scanner, and unescapes to the rune.\<close>

lemma rune_single: "rune [c] \<Longrightarrow> (of_char c :: nat) < 128"
  by (auto simp: rune_def utf8_width_def Let_def split: if_splits)

lemma rune_multi: "rune bs \<Longrightarrow> length bs \<noteq> 1 \<Longrightarrow> list_all (\<lambda>c. 128 \<le> (of_char c :: nat)) bs"
  unfolding rune_def
  by (cases bs; cases "tl bs"; cases "tl (tl bs)"; cases "tl (tl (tl bs))")
    (auto simp: utf8_width_def Let_def cont_byte_def split: if_splits)

lemma encoded_runes:
  "utf8_encode 65533 = replacement_char" "utf8_encode 8232 = [CHR 0xE2, CHR 0x80, CHR 0xA8]"
  "utf8_encode 8233 = [CHR 0xE2, CHR 0x80, CHR 0xA9]"
  by (simp_all add: utf8_encode_def replacement_char_def char_of_eq_iff)

lemma utf8_split_rune_ok: "\<forall>r \<in> set (utf8_split s). case r of None \<Rightarrow> True | Some bs \<Rightarrow> rune bs"
  by (auto split: option.splits dest: utf8_split_valid)

definition plain_char :: "char \<Rightarrow> bool" where
  "plain_char c = (32 \<le> (of_char c :: nat) \<and> c \<noteq> CHR 0x22 \<and> c \<noteq> CHR 0x5C)"

lemma split_str_plain:
  "list_all plain_char xs \<Longrightarrow> split_str (xs @ s) = map_option (\<lambda>(r, u). (xs @ r, u)) (split_str s)"
  by (cases "split_str s"; induction xs) (auto simp: plain_char_def)

lemma unescape_plain: "list_all plain_char xs \<Longrightarrow> unescape (xs @ s) = map_option ((@) xs) (unescape s)"
proof (induction xs)
  case (Cons x xs)
  then show ?case by (simp add: unescape.simps [of "x # xs @ s"] plain_char_def option.map_comp comp_def)
next
  case Nil
  show ?case by (cases "unescape s") simp_all
qed

lemma unescape_simple:
  "simple_escape e = Some x \<Longrightarrow> unescape (CHR 0x5C # e # s) = map_option ((#) x) (unescape s)"
  by (subst unescape.simps) (auto simp: getu4_def simple_escape_def split: list.splits if_splits)

lemma unescape_u4:
  assumes "hex4 a b c d = Some r" and "r < 55296 \<or> 57344 \<le> r"
  shows "unescape (CHR 0x5C # CHR ''u'' # a # b # c # d # s) = map_option ((@) (utf8_encode r)) (unescape s)"
  using assms by (subst unescape.simps) (auto simp: getu4_def)

lemma split_str_pair:
  "32 \<le> (of_char e :: nat) \<Longrightarrow> split_str (CHR 0x5C # e # s) = map_option (\<lambda>(r, u). (CHR 0x5C # e # r, u)) (split_str s)"
  by (subst split_str.simps) (simp del: split_str.simps)

lemma hex_value_digit: "n < 16 \<Longrightarrow> hex_value (hex_digit n) = Some n"
  by (auto simp: hex_value_def hex_digit_def of_char_of)

lemma hex4_u00: "n < 256 \<Longrightarrow> hex4 (CHR ''0'') (CHR ''0'') (hex_digit (n div 16)) (hex_digit (n mod 16)) = Some n"
  by (simp add: hex4_def hex_value_digit) (simp add: hex_value_def)

lemma plain_char_code: "plain_char c \<longleftrightarrow> 32 \<le> (of_char c :: nat) \<and> (of_char c :: nat) \<noteq> 34 \<and> (of_char c :: nat) \<noteq> 92"
proof -
  have "c = CHR 0x22 \<longleftrightarrow> (of_char c :: nat) = of_char (CHR 0x22)"
    "c = CHR 0x5C \<longleftrightarrow> (of_char c :: nat) = of_char (CHR 0x5C)"
    by (simp_all only: of_char_eq_iff)
  then show ?thesis by (simp add: plain_char_def)
qed

lemma plain_hex_digit: "n < 16 \<Longrightarrow> plain_char (hex_digit n)"
  by (auto simp: plain_char_code hex_digit_def of_char_of)

lemma split_str_u:
  assumes "list_all plain_char xs"
  shows "split_str (CHR 0x5C # CHR ''u'' # xs @ s)
    = map_option (\<lambda>(r, u). (CHR 0x5C # CHR ''u'' # xs @ r, u)) (split_str s)"
  using assms split_str_plain [of xs s]
  by (simp add: split_str_pair option.map_comp comp_def case_prod_unfold del: split_str.simps)


text \<open>The three shapes of an escaped character.\<close>

lemma enc_ascii_cases:
  obtains "enc_ascii c = [c]" "plain_char c"
  | e where "enc_ascii c = [CHR 0x5C, e]" "simple_escape e = Some c" "32 \<le> (of_char e :: nat)"
  | "enc_ascii c = u00 (of_char c)"
proof (cases "c \<in> set [CHR 0x22, CHR 0x5C, CHR 0x0A, CHR 0x0D, CHR 0x09]")
  case True
  then show ?thesis using that(2) by (auto simp: enc_ascii_def simple_escape_def)
next
  case False
  then show ?thesis
    using that(1,3)
    by (cases "(of_char c :: nat) < 32 \<or> c = CHR ''<'' \<or> c = CHR ''>'' \<or> c = CHR ''&''")
      (simp_all add: enc_ascii_def plain_char_def)
qed

lemma split_enc_ascii:
  assumes "(of_char c :: nat) < 128"
  shows "split_str (enc_ascii c @ s) = map_option (\<lambda>(r, u). (enc_ascii c @ r, u)) (split_str s)"
proof (cases c rule: enc_ascii_cases)
  case 1
  then show ?thesis using split_str_plain [of "[c]"] by simp
next
  case (2 e)
  then show ?thesis by (simp add: split_str_pair del: split_str.simps)
next
  case 3
  have "list_all plain_char (drop 2 (u00 (of_char c)))"
    using assms plain_hex_digit by (simp add: u00_def) (simp add: plain_char_def)
  from split_str_u [OF this] 3 show ?thesis by (simp add: u00_def del: split_str.simps)
qed

lemma unescape_enc_ascii:
  assumes "(of_char c :: nat) < 128"
  shows "unescape (enc_ascii c @ s) = map_option ((#) c) (unescape s)"
proof (cases c rule: enc_ascii_cases)
  case 1
  then show ?thesis
    using unescape_plain [of "[c]" s] by (simp add: map_option_case split: option.splits)
next
  case (2 e)
  then show ?thesis by (simp add: unescape_simple)
next
  case 3
  then show ?thesis
    using unescape_u4 [OF hex4_u00, of "of_char c" s] assms
    by (simp add: u00_def utf8_encode_def) (simp add: map_option_case split: option.splits)
qed

lemma enc_rune_escapes:
  assumes "case r of None \<Rightarrow> True | Some bs \<Rightarrow> rune bs"
  shows "split_str (enc_rune r @ s) = map_option (\<lambda>(x, u). (enc_rune r @ x, u)) (split_str s)
    \<and> unescape (enc_rune r @ s) = map_option ((@) (rune_or_replacement r)) (unescape s)"
proof -
  have u: "split_str (CHR 0x5C # CHR ''u'' # [a, b, c, d] @ s)
      = map_option (\<lambda>(x, u). ((CHR 0x5C # CHR ''u'' # [a, b, c, d]) @ x, u)) (split_str s)
    \<and> unescape (CHR 0x5C # CHR ''u'' # [a, b, c, d] @ s) = map_option ((@) (utf8_encode n)) (unescape s)"
    if "list_all plain_char [a, b, c, d]" "hex4 a b c d = Some n" "n < 55296 \<or> 57344 \<le> n" for a b c d n
    using split_str_u [OF that(1)] unescape_u4 [OF that(2,3)] by simp
  show ?thesis
  proof (cases r)
    case None
    have "list_all plain_char ''fffd'' \<and> hex4 (CHR ''f'') (CHR ''f'') (CHR ''f'') (CHR ''d'') = Some 65533
        \<and> utf8_encode 65533 = replacement_char"
      by (simp add: plain_char_code hex4_def hex_value_def encoded_runes)
    with u [of "CHR ''f''" "CHR ''f''" "CHR ''f''" "CHR ''d''" 65533] None show ?thesis
      by (simp add: enc_rune_def rune_or_replacement_def del: split_str.simps)
  next
    case (Some bs)
    then have bs: "rune bs" using assms by simp
    consider c where "bs = [c]" | "bs = [CHR 0xE2, CHR 0x80, CHR 0xA8]" | "bs = [CHR 0xE2, CHR 0x80, CHR 0xA9]"
      | "enc_rune r = bs" "length bs \<noteq> 1"
      using Some bs
      by (cases "length bs = 1"; cases "bs = [CHR 0xE2, CHR 0x80, CHR 0xA8]";
          cases "bs = [CHR 0xE2, CHR 0x80, CHR 0xA9]")
        (auto simp: enc_rune_def length_Suc_conv)
    then show ?thesis
    proof cases
      case 1
      then show ?thesis
        using Some bs split_enc_ascii [of c s] unescape_enc_ascii [of c s] rune_single [of c]
        by (simp add: enc_rune_def rune_or_replacement_def) (simp add: map_option_case split: option.splits)
    next
      case 2
      have "list_all plain_char ''2028'' \<and> hex4 (CHR ''2'') (CHR ''0'') (CHR ''2'') (CHR ''8'') = Some 8232
        \<and> utf8_encode 8232 = [CHR 0xE2, CHR 0x80, CHR 0xA8]"
        by (simp add: plain_char_code hex4_def hex_value_def encoded_runes)
      with u [of "CHR ''2''" "CHR ''0''" "CHR ''2''" "CHR ''8''" 8232] 2 Some show ?thesis
        by (simp add: enc_rune_def rune_or_replacement_def del: split_str.simps)
    next
      case 3
      have "list_all plain_char ''2029'' \<and> hex4 (CHR ''2'') (CHR ''0'') (CHR ''2'') (CHR ''9'') = Some 8233
        \<and> utf8_encode 8233 = [CHR 0xE2, CHR 0x80, CHR 0xA9]"
        by (simp add: plain_char_code hex4_def hex_value_def encoded_runes)
      with u [of "CHR ''2''" "CHR ''0''" "CHR ''2''" "CHR ''9''" 8233] 3 Some show ?thesis
        by (simp add: enc_rune_def rune_or_replacement_def del: split_str.simps)
    next
      case 4
      then have "list_all plain_char bs"
        using rune_multi [OF bs] by (auto simp: list_all_iff plain_char_def)
      then show ?thesis
        using 4 Some split_str_plain [of bs s] unescape_plain [of bs s]
        by (simp add: rune_or_replacement_def)
    qed
  qed
qed

lemma split_enc_body: "split_str (enc_body x @ CHR 0x22 # s) = Some (enc_body x, s)"
proof -
  have "\<forall>r \<in> set rs. case r of None \<Rightarrow> True | Some bs \<Rightarrow> rune bs \<Longrightarrow>
    split_str (concat (map enc_rune rs) @ CHR 0x22 # s) = Some (concat (map enc_rune rs), s)" for rs
    by (induction rs) (simp_all add: enc_rune_escapes)
  from this [OF utf8_split_rune_ok] show ?thesis unfolding enc_body_def .
qed

lemma unescape_enc_body: "unescape (enc_body x) = Some (utf8_fix x)"
proof -
  have "\<forall>r \<in> set rs. case r of None \<Rightarrow> True | Some bs \<Rightarrow> rune bs \<Longrightarrow>
    unescape (concat (map enc_rune rs)) = Some (concat (map rune_or_replacement rs))" for rs
    by (induction rs) (simp_all add: enc_rune_escapes unescape.simps [of "[]"])
  from this [OF utf8_split_rune_ok] show ?thesis unfolding enc_body_def utf8_fix_def .
qed

text \<open>A marshalled string reads back, with its invalid bytes replaced.\<close>

lemma parse_enc_str: "parse_str (enc_body x @ CHR 0x22 # s) = Some (utf8_fix x, s)"
  by (simp add: parse_str_def split_enc_body unescape_enc_body)

section \<open>Numerals\<close>

text \<open>What may follow a value inside an array or an object.\<close>

definition value_end :: "string \<Rightarrow> bool" where
  "value_end rest = (case rest of [] \<Rightarrow> True | c # _ \<Rightarrow> c = CHR '','' \<or> c = CHR 0x5D \<or> c = CHR 0x7D)"

lemma span_append:
  assumes "case rest of [] \<Rightarrow> True | c # _ \<Rightarrow> \<not> P c"
  shows "takeWhile P (s @ rest) = takeWhile P s" and "dropWhile P (s @ rest) = dropWhile P s @ rest"
  using assms by (induction s) (auto split: list.splits)

lemma value_end_digit: "value_end rest \<Longrightarrow> case rest of [] \<Rightarrow> True | c # _ \<Rightarrow> \<not> is_digit c"
  by (auto simp: value_end_def is_digit_def split: list.splits)

lemmas span_digits = span_append [OF value_end_digit]

lemma parse_frac_append:
  "parse_frac s = Some (x, u) \<Longrightarrow> value_end rest \<Longrightarrow> parse_frac (s @ rest) = Some (x, u @ rest)"
proof (cases s)
  case Nil
  assume "parse_frac s = Some (x, u)" and "value_end rest"
  with Nil show ?thesis by (auto simp: parse_frac_def value_end_def split: list.splits)
next
  case (Cons c t)
  assume "parse_frac s = Some (x, u)" and "value_end rest"
  with Cons show ?thesis
    by (cases "c = CHR ''.''") (auto simp: parse_frac_def span_digits split: if_splits char.splits bool.splits)
qed

lemma parse_exp_append:
  "parse_exp s = Some (x, u) \<Longrightarrow> value_end rest \<Longrightarrow> parse_exp (s @ rest) = Some (x, u @ rest)"
proof (cases s)
  case Nil
  assume "parse_exp s = Some (x, u)" and "value_end rest"
  with Nil show ?thesis by (auto simp: parse_exp_def value_end_def split: list.splits)
next
  case (Cons c t)
  assume "parse_exp s = Some (x, u)" and rest: "value_end rest"
  moreover have "exp_sign (t @ rest) = exp_sign t" if "takeWhile is_digit (drop (length (exp_sign t)) t) \<noteq> []"
    using that by (cases t) (auto simp: exp_sign_def)
  moreover have "length (exp_sign t) \<le> length t" by (auto simp: exp_sign_def split: list.splits)
  ultimately show ?thesis using Cons span_digits [OF rest]
    by (auto simp: parse_exp_def Let_def split: if_splits)
qed

lemma int_digits_append: "int_digits t \<noteq> [] \<Longrightarrow> value_end rest \<Longrightarrow> int_digits (t @ rest) = int_digits t"
  using span_digits [of rest t] by (cases t) (auto simp: int_digits_def)

lemma parse_num_append:
  assumes "parse_num s = Some (x, u)" and rest: "value_end rest"
  shows "parse_num (s @ rest) = Some (x, u @ rest)"
proof -
  define t where "t = drop (length (num_sign s)) s"
  from assms(1) obtain fs w es where ds: "int_digits t \<noteq> []"
    and f: "parse_frac (drop (length (int_digits t)) t) = Some (fs, w)"
    and e: "parse_exp w = Some (es, u)" and x: "x = num_sign s @ int_digits t @ fs @ es"
    unfolding t_def by (auto simp: parse_num_def Let_def split: if_splits option.splits)
  have sg: "num_sign (s @ rest) = num_sign s" using ds unfolding t_def
    by (cases s) (auto simp: num_sign_def int_digits_def)
  moreover have "drop (length (num_sign s)) (s @ rest) = t @ rest"
    unfolding t_def by (auto simp: num_sign_def split: list.splits)
  moreover have "length (int_digits t) \<le> length t" by (rule int_digits_length)
  ultimately show ?thesis
    using ds x int_digits_append [OF ds rest] parse_frac_append [OF f rest] parse_exp_append [OF e rest]
    by (simp add: parse_num_def Let_def)
qed

definition json_number :: "string \<Rightarrow> bool" where
  "json_number t = (parse_num t = Some (t, []))"

lemma json_number_hd:
  assumes "json_number t"
  obtains c u where "t = c # u" "c = CHR ''-'' \<or> is_digit c"
proof (cases t)
  case (Cons c u)
  with assms that show ?thesis
    by (auto simp: json_number_def parse_num_def Let_def num_sign_def int_digits_def is_digit_def
        split: if_splits)
qed (use assms in \<open>simp add: json_number_def parse_num_def num_sign_def int_digits_def\<close>)

section \<open>A marshalled value reads back\<close>

fun go_ok :: "(string \<Rightarrow> string option) \<Rightarrow> gojson \<Rightarrow> bool" where
  "go_ok fmt (GoNum t) = (json_number t \<and> fmt t = Some t)"
| "go_ok fmt (GoStr s) = (utf8_fix s = s)"
| "go_ok fmt (GoArr vs) = list_all (go_ok fmt) vs"
| "go_ok fmt (GoObj kvs) = (distinct (map fst kvs) \<and> list_all (\<lambda>(k, v). utf8_fix k = k \<and> go_ok fmt v) kvs)"
| "go_ok fmt v = True"

fun nesting :: "gojson \<Rightarrow> nat" where
  "nesting (GoArr vs) = Suc (Max (set (0 # map nesting vs)))"
| "nesting (GoObj kvs) = Suc (Max (set (0 # map (\<lambda>(k, v). nesting v) kvs)))"
| "nesting v = 0"

text \<open>The same value with the members of every object in key order.\<close>

fun sorted_value :: "gojson \<Rightarrow> gojson" where
  "sorted_value (GoArr vs) = GoArr (map sorted_value vs)"
| "sorted_value (GoObj kvs) = GoObj (sort_key fst (map (\<lambda>(k, v). (k, sorted_value v)) kvs))"
| "sorted_value v = v"

lemma insort_key_map: "insort_key f (g x) (map g xs) = map g (insort_key (f \<circ> g) x xs)"
  by (induction xs) simp_all

lemma sort_key_map: "sort_key f (map g xs) = map g (sort_key (f \<circ> g) xs)"
  by (induction xs) (simp_all add: insort_key_map [unfolded comp_def] comp_def)

lemma sort_members: "sort_key fst (map (\<lambda>(k, v). (k, h v)) kvs) = map (\<lambda>(k, v). (k, h v)) (sort_key fst kvs)"
  using sort_key_map [of fst "\<lambda>(k, v). (k, h v)" kvs] by (simp add: comp_def case_prod_unfold)

lemma next_token_char: "\<not> is_space c \<Longrightarrow> next_token (c # s) = Some (c, s)"
  by (simp add: next_token_def skip_ws_def)

lemma nonspace [simp]:
  "\<not> is_space (CHR '','')" "\<not> is_space (CHR 0x5B)" "\<not> is_space (CHR 0x5D)" "\<not> is_space (CHR 0x7B)"
  "\<not> is_space (CHR 0x7D)" "\<not> is_space (CHR 0x22)" "\<not> is_space (CHR '':'')" "\<not> is_space (CHR ''-'')"
  "\<not> is_space (CHR ''t'')" "\<not> is_space (CHR ''f'')" "\<not> is_space (CHR ''n'')"
  by (simp_all add: is_space_def)

lemma nonspace_digit: "is_digit c \<Longrightarrow> \<not> is_space c"
  by (auto simp: is_space_def is_digit_def)

text \<open>
  One value after another: \<open>reads d v\<close> says that \<open>v\<close>, marshalled and followed by any
  end of value, parses with nesting \<open>d\<close> to its sorted form.
\<close>

definition reads :: "nat \<Rightarrow> gojson \<Rightarrow> bool" where
  "reads d v \<longleftrightarrow> (\<forall>rest m. value_end rest \<longrightarrow> 2 * length (marshal v @ rest) < m
     \<longrightarrow> parse_value m d (marshal v @ rest) = Some (sorted_value v, rest))"

lemma readsD:
  "reads d v \<Longrightarrow> value_end rest \<Longrightarrow> 2 * length (marshal v @ rest) < m
    \<Longrightarrow> parse_value m d (marshal v @ rest) = Some (sorted_value v, rest)"
  by (simp add: reads_def)

lemma reads_scalar:
  assumes "marshal v = c # u" "\<not> is_space c" "c \<noteq> CHR 0x7B" "c \<noteq> CHR 0x5B"
    and "\<And>rest. value_end rest \<Longrightarrow> parse_scalar (marshal v @ rest) = Some (sorted_value v, rest)"
  shows "reads d v"
  unfolding reads_def
proof (intro allI impI)
  fix rest m
  assume rest: "value_end rest" and m: "2 * length (marshal v @ rest) < m"
  then obtain n where n: "m = Suc n" by (cases m) auto
  have "parse_scalar (c # u @ rest) = Some (sorted_value v, rest)"
    using assms(5) [OF rest] assms(1) by simp
  then show "parse_value m d (marshal v @ rest) = Some (sorted_value v, rest)"
    using assms(1-4) by (simp add: n next_token_char)
qed

lemma reads_number: "json_number t \<Longrightarrow> reads d (GoNum t)"
proof -
  assume t: "json_number t"
  then obtain c u where cu: "t = c # u" "c = CHR ''-'' \<or> is_digit c" by (rule json_number_hd)
  have hd: "c \<noteq> CHR 0x22" "c \<noteq> CHR ''t''" "c \<noteq> CHR ''f''" "c \<noteq> CHR ''n''" "c \<noteq> CHR 0x7B" "c \<noteq> CHR 0x5B"
    using cu(2) by (auto simp: is_digit_def)
  show ?thesis
  proof (rule reads_scalar)
    show "marshal (GoNum t) = c # u" "c \<noteq> CHR 0x7B" "c \<noteq> CHR 0x5B" using cu hd by simp_all
    show "\<not> is_space c" using cu(2) by (auto simp: nonspace_digit)
    show "parse_scalar (marshal (GoNum t) @ rest) = Some (sorted_value (GoNum t), rest)"
      if "value_end rest" for rest
      using parse_num_append [OF t [unfolded json_number_def] that] cu(1) hd
      by (simp add: parse_scalar_def)
  qed
qed

lemma reads_string: "utf8_fix s = s \<Longrightarrow> reads d (GoStr s)"
  by (rule reads_scalar [where c = "CHR 0x22" and u = "enc_body s @ [CHR 0x22]"])
    (simp_all add: enc_str_def parse_scalar_def parse_enc_str)

lemma reads_literal: "v = GoNull \<or> v = GoBool b \<Longrightarrow> reads d v"
  by (cases b; rule reads_scalar [where c = "hd (marshal v)" and u = "tl (marshal v)"])
    (auto simp: parse_scalar_def)

lemma commas_Cons: "xs \<noteq> [] \<Longrightarrow> commas (x # xs) = x @ CHR '','' # commas xs"
  by (cases xs) simp_all

lemma commas_hd: "\<forall>x \<in> set xs. x \<noteq> [] \<Longrightarrow> xs \<noteq> [] \<Longrightarrow> \<exists>u. commas xs = hd (hd xs) # u"
  by (cases xs; cases "tl xs"; cases "hd xs") auto

lemma value_end_punct [simp]: "value_end (CHR '','' # s)" "value_end (CHR 0x5D # s)" "value_end (CHR 0x7D # s)"
  by (simp_all add: value_end_def)

lemma parse_elems_marshal:
  assumes "vs \<noteq> []" and "\<forall>v \<in> set vs. reads d v"
    and "2 * length (commas (map marshal vs) @ CHR 0x5D # rest) + 1 < m"
  shows "parse_elems m d (commas (map marshal vs) @ CHR 0x5D # rest) = Some (map sorted_value vs, rest)"
  using assms
proof (induction vs arbitrary: m)
  case (Cons v vs)
  then obtain n where n: "m = Suc n" by (cases m) auto
  have v: "reads d v" using Cons.prems by simp
  show ?case
  proof (cases "vs = []")
    case True
    then show ?thesis
      using readsD [OF v, of "CHR 0x5D # rest" n] Cons.prems by (simp add: n next_token_char)
  next
    case False
    then have "parse_elems n d (commas (map marshal vs) @ CHR 0x5D # rest) = Some (map sorted_value vs, rest)"
      using Cons by (simp add: n commas_Cons)
    then show ?thesis
      using readsD [OF v, of "CHR '','' # commas (map marshal vs) @ CHR 0x5D # rest" n] Cons.prems False
      by (simp add: n next_token_char commas_Cons)
  qed
qed simp

lemma parse_members_marshal:
  assumes "kvs \<noteq> []" and "\<forall>(k, v) \<in> set kvs. utf8_fix k = k \<and> reads d v"
    and "2 * length (commas (map (\<lambda>(k, v). enc_member (k, marshal v)) kvs) @ CHR 0x7D # rest) < m"
  shows "parse_members m d (commas (map (\<lambda>(k, v). enc_member (k, marshal v)) kvs) @ CHR 0x7D # rest)
    = Some (map (\<lambda>(k, v). (k, sorted_value v)) kvs, rest)"
  using assms
proof (induction kvs arbitrary: m)
  case (Cons kv kvs)
  obtain k v where kv: "kv = (k, v)" by (cases kv)
  obtain n where n: "m = Suc n" using Cons.prems(3) by (cases m) auto
  have v: "reads d v" and k: "utf8_fix k = k" using Cons.prems(2) kv by auto
  let ?more = "if kvs = [] then [] else CHR '','' # commas (map (\<lambda>(k, v). enc_member (k, marshal v)) kvs)"
  have whole: "commas (map (\<lambda>(k, v). enc_member (k, marshal v)) (kv # kvs)) @ CHR 0x7D # rest
    = CHR 0x22 # enc_body k @ CHR 0x22 # CHR '':'' # marshal v @ ?more @ CHR 0x7D # rest"
    by (simp add: kv commas_Cons enc_member_def enc_str_def)
  have "2 * length (marshal v @ ?more @ CHR 0x7D # rest) < n"
    using Cons.prems(3) unfolding whole n by simp
  then have val: "parse_value n d (marshal v @ ?more @ CHR 0x7D # rest)
    = Some (sorted_value v, ?more @ CHR 0x7D # rest)"
    by (intro readsD [OF v]) simp_all
  show ?case
  proof (cases "kvs = []")
    case True
    then show ?thesis
      using val unfolding whole n by (simp add: next_token_char parse_enc_str k kv)
  next
    case False
    then have "parse_members n d (commas (map (\<lambda>(k, v). enc_member (k, marshal v)) kvs) @ CHR 0x7D # rest)
      = Some (map (\<lambda>(k, v). (k, sorted_value v)) kvs, rest)"
      using Cons by (simp add: n kv commas_Cons)
    then show ?thesis
      using val False unfolding whole n by (simp add: next_token_char parse_enc_str k kv)
  qed
qed simp

text \<open>What begins a value is not a closing bracket, so an element list is not taken for an empty array.\<close>

lemma parse_value_token:
  assumes "parse_value n d s = Some (v, r)"
  obtains c t where "next_token s = Some (c, t)" "c \<noteq> CHR 0x5D"
proof (cases n)
  case (Suc m)
  have "\<not> is_digit (CHR 0x5D)" by (simp add: is_digit_def)
  then have "parse_scalar (CHR 0x5D # t) = None" for t
    by (simp add: parse_scalar_def parse_num_def num_sign_def int_digits_def)
  with assms [unfolded Suc] show ?thesis
    by (elim parse_value_SomeE) (use that in \<open>fastforce+\<close>)
qed (use assms in simp)

lemma parse_elems_token:
  assumes "parse_elems n d s = Some (vs, r)"
  shows "\<exists>c t. next_token s = Some (c, t) \<and> c \<noteq> CHR 0x5D"
proof (cases n)
  case (Suc m)
  from assms [unfolded Suc] obtain v x where "parse_value m d s = Some (v, x)"
    by (elim parse_elems_SomeE)
  then show ?thesis by (metis parse_value_token)
qed (use assms in simp)

lemma parse_members_token:
  assumes "parse_members n d s = Some (kvs, r)"
  shows "\<exists>t. next_token s = Some (CHR 0x22, t)"
proof (cases n)
  case (Suc m)
  from assms [unfolded Suc] show ?thesis by (elim parse_members_SomeE) blast+
qed (use assms in simp)

lemma reads_array:
  assumes "\<forall>v \<in> set vs. reads d v"
  shows "reads (Suc d) (GoArr vs)"
  unfolding reads_def
proof (intro allI impI)
  fix rest m
  assume m: "2 * length (marshal (GoArr vs) @ rest) < m"
  then obtain n where n: "m = Suc n" by (cases m) auto
  show "parse_value m (Suc d) (marshal (GoArr vs) @ rest) = Some (sorted_value (GoArr vs), rest)"
  proof (cases "vs = []")
    case True
    then show ?thesis by (simp add: n next_token_char)
  next
    case False
    have elems: "parse_elems n d (commas (map marshal vs) @ CHR 0x5D # rest) = Some (map sorted_value vs, rest)"
      using m by (intro parse_elems_marshal False assms) (simp add: n)
    then obtain e u where "next_token (commas (map marshal vs) @ CHR 0x5D # rest) = Some (e, u)"
      "e \<noteq> CHR 0x5D" using parse_elems_token by blast
    with elems show ?thesis by (simp add: n next_token_char)
  qed
qed

lemma reads_object:
  assumes "\<forall>(k, v) \<in> set kvs. utf8_fix k = k \<and> reads d v"
  shows "reads (Suc d) (GoObj kvs)"
  unfolding reads_def
proof (intro allI impI)
  let ?kvs = "sort_key fst kvs"
  fix rest m
  assume m: "2 * length (marshal (GoObj kvs) @ rest) < m"
  then obtain n where n: "m = Suc n" by (cases m) auto
  have out: "marshal (GoObj kvs) = CHR 0x7B # commas (map (\<lambda>(k, v). enc_member (k, marshal v)) ?kvs) @ [CHR 0x7D]"
    by (simp add: sort_members) (simp add: comp_def case_prod_unfold)
  show "parse_value m (Suc d) (marshal (GoObj kvs) @ rest) = Some (sorted_value (GoObj kvs), rest)"
  proof (cases "kvs = []")
    case True
    then show ?thesis by (simp add: n next_token_char)
  next
    case False
    then have "?kvs \<noteq> []" by (metis length_0_conv length_sort)
    then have mems: "parse_members n d (commas (map (\<lambda>(k, v). enc_member (k, marshal v)) ?kvs) @ CHR 0x7D # rest)
        = Some (map (\<lambda>(k, v). (k, sorted_value v)) ?kvs, rest)"
      using m assms unfolding out by (intro parse_members_marshal) (simp_all add: n)
    from mems show ?thesis
      using parse_members_token [OF mems] unfolding out by (auto simp: n next_token_char sort_members)
  qed
qed

text \<open>\<open>Unmarshal\<close> after \<open>Marshal\<close>: the same value, its members in key order.\<close>

theorem marshal_reads: "go_ok fmt v \<Longrightarrow> nesting v \<le> d \<Longrightarrow> reads d v"
proof (induction v arbitrary: d)
  case (GoArr vs)
  then obtain d' where d: "d = Suc d'" by (cases d) auto
  have "nesting v \<le> d'" if "v \<in> set vs" for v
  proof -
    have "nesting v \<le> Max (set (0 # map nesting vs))" using that by (intro Max_ge) auto
    then show ?thesis using GoArr.prems(2) unfolding d nesting.simps by linarith
  qed
  then show ?case using GoArr unfolding d by (intro reads_array) (auto simp: list_all_iff)
next
  case (GoObj kvs)
  then obtain d' where d: "d = Suc d'" by (cases d) auto
  have "nesting v \<le> d'" if "(k, v) \<in> set kvs" for k v
  proof -
    have "nesting v \<le> Max (set (0 # map (\<lambda>(k, v). nesting v) kvs))" using that by (intro Max_ge) force+
    then show ?thesis using GoObj.prems(2) unfolding d nesting.simps by linarith
  qed
  then show ?case using GoObj unfolding d
    by (intro reads_object) (fastforce simp: list_all_iff)
qed (simp_all add: reads_number reads_string reads_literal)

lemma parse_json_marshal:
  assumes "go_ok fmt v" and "nesting v \<le> maxNestingDepth" and "value_end rest"
  shows "parse_json (marshal v @ rest) = Some (sorted_value v, rest)"
  unfolding parse_json_def
  by (intro readsD [OF marshal_reads [OF assms(1,2)]] assms(3)) simp

lemma members_map_distinct: "distinct (map fst kvs) \<Longrightarrow> members_map kvs = kvs"
proof (induction kvs rule: rev_induct)
  case (snoc kv kvs)
  have "k \<notin> fst ` set m \<Longrightarrow> AList.update k v m = m @ [(k, v)]" for k and v :: gojson and m
    by (induction m) auto
  from snoc this [of "fst kv" kvs "snd kv"] show ?case
    by (simp add: members_map_def gset_def case_prod_unfold)
qed (simp add: members_map_def)

lemma go_value_ok: "go_ok fmt v \<Longrightarrow> go_value fmt v = v"
proof (induction v)
  case (GoObj kvs)
  have "map (\<lambda>(k, v). (k, go_value fmt v)) kvs = kvs"
    using GoObj by (intro map_idI) (fastforce simp: list_all_iff)
  with GoObj.prems show ?case by (simp add: members_map_distinct)
qed (simp_all add: list_all_iff map_idI)

lemma num_error_ok: "go_ok fmt v \<Longrightarrow> \<not> num_error fmt v"
  by (induction v) (fastforce simp: list_all_iff list_ex_iff)+

lemma go_ok_sorted: "go_ok fmt v \<Longrightarrow> go_ok fmt (sorted_value v)"
proof (induction v)
  case (GoObj kvs)
  have "distinct (map fst (sort_key fst kvs))"
    using GoObj.prems by (simp add: distinct_map inj_on_def)
  then have "distinct (map fst (map (\<lambda>(k, v). (k, sorted_value v)) (sort_key fst kvs)))"
    by (simp add: comp_def case_prod_unfold)
  moreover have "\<forall>(k, v) \<in> set kvs. utf8_fix k = k \<and> go_ok fmt (sorted_value v)"
    using GoObj by (fastforce simp: list_all_iff)
  ultimately show ?case by (auto simp: list_all_iff sort_members)
qed (auto simp: list_all_iff)

lemma gget_gset: "gget (gset k v m) k' = (if k' = k then v else gget m k')"
  by (auto simp: gget_def gset_def update_conv')

lemma gget_gdelete: "gget (gdelete k m) k' = (if k' = k then GoNull else gget m k')"
  by (simp add: gget_def gdelete_def delete_conv')

end
