(* ===== verification/Server_Core_Props.thy ===== *)
theory Server_Core_Props
  imports Server_Core Go_Json_Props
begin

text \<open>
  What the server core guarantees: who an answer is sent to, what a request must have passed
  before it is forwarded, which requests are answered with an error, and where a client's text
  gets past the checks.
\<close>

section \<open>Substring search\<close>

lemma index_of_char: "c \<notin> set x \<Longrightarrow> index_of (x @ c # y) [c] = Some (length x)"
  by (induction x) auto

lemma index_of_char_None: "c \<notin> set x \<Longrightarrow> index_of x [c] = None"
  by (induction x) auto

lemma replace_first_at: "c \<notin> set x \<Longrightarrow> replace_first c new (x @ c # y) = x @ new @ y"
  by (induction x) auto

section \<open>Router ids\<close>

lemma digit_chars: "d < 10 \<Longrightarrow> digit d \<noteq> CHR ''?'' \<and> digit d \<noteq> CHR 0x22 \<and> digit d \<noteq> CHR '',''
    \<and> plain_char (digit d) \<and> (of_char (digit d) :: nat) < 128"
proof -
  assume d: "d < 10"
  then have "(of_char (digit d) :: nat) = 48 + d" by (simp add: digit_def of_char_of)
  then have "(of_char (digit d) :: nat) \<notin> {63, 34, 44, 92}" "32 \<le> (of_char (digit d) :: nat)"
    "(of_char (digit d) :: nat) < 128" using d by auto
  then show ?thesis by (auto simp: plain_char_code)
qed

lemma show_nat_chars: "c \<in> set (show_nat n) \<Longrightarrow> c \<noteq> CHR ''?'' \<and> c \<noteq> CHR 0x22 \<and> c \<noteq> CHR '',''
    \<and> plain_char c \<and> (of_char c :: nat) < 128"
  by (metis set_show_nat digit_chars)

lemma router_id_nat: "router_id (int a) (int c) = show_nat a @ CHR ''?'' # show_nat c"
  by (simp add: router_id_def show_int_def)

lemma router_id_chars: "\<forall>x \<in> set (router_id (int a) (int c)). plain_char x \<and> (of_char x :: nat) < 128"
proof -
  have "plain_char (CHR ''?'') \<and> (of_char (CHR ''?'') :: nat) < 128" by (simp add: plain_char_def)
  then show ?thesis unfolding router_id_nat by (auto dest!: show_nat_chars)
qed

lemma atoi_value_show_nat: "n < 2 ^ 63 \<Longrightarrow> atoi_value (show_nat n) = int n"
  using atoi_show_int [of "int n"] by (simp add: atoi_value_def show_int_def)

text \<open>Text that begins with the routing member.\<close>

definition routed :: "nat \<Rightarrow> nat \<Rightarrow> string \<Rightarrow> string" where
  "routed a c rest = CHR 0x7B # createRouterIdProperty (int a) (int c) @ CHR '','' # rest"

lemma routed_text:
  "routed a c rest = ''{'' @ [CHR 0x22] @ ''RouterId'' @ [CHR 0x22] @ '':'' @ [CHR 0x22]
     @ show_nat a @ ''?'' @ show_nat c @ [CHR 0x22] @ '','' @ rest"
  by (simp add: routed_def createRouterIdProperty_def dquoted_def router_id_nat)

lemma index_of_routed: "index_of (routed a c rest) ''RouterId'' = Some 2"
  by (simp add: routed_text)

lemma byte_char_quote: "byte_char 34 = CHR 0x22"
  by (simp add: byte_char_def char_of_eq_iff)

lemma to_bytes_no_quote: "CHR 0x22 \<notin> set s \<Longrightarrow> 34 \<notin> set (to_bytes s)"
  using byte_char_quote char_byte_inverse by (force simp: to_bytes_def)

lemma NextQuoteMark_at:
  assumes "drop k s = w @ CHR 0x22 # rest" and "CHR 0x22 \<notin> set w"
  shows "NextQuoteMark (to_bytes s) k = k + length w"
proof -
  have "drop k (to_bytes s) = to_bytes (drop k s)" by (simp add: to_bytes_def drop_map)
  also have "\<dots> = to_bytes w @ 34 # to_bytes rest" by (simp add: assms(1) char_byte_def)
  finally show ?thesis
    using nextQuoteFrom_found [OF to_bytes_no_quote [OF assms(2)]] by (simp add: NextQuoteMark_def)
qed

lemma getRouterId_routed: "getRouterId (routed a c rest) = Some (router_id (int a) (int c))"
proof -
  let ?s = "routed a c rest"
  have "NextQuoteMark (to_bytes ?s) 11 = 12"
    by (subst NextQuoteMark_at [where w = "'':''"
          and rest = "show_nat a @ ''?'' @ show_nat c @ [CHR 0x22] @ '','' @ rest"])
      (simp_all add: routed_text)
  moreover have d: "drop 13 ?s = (show_nat a @ CHR ''?'' # show_nat c) @ CHR 0x22 # CHR '','' # rest"
    by (simp add: routed_text)
  then have "NextQuoteMark (to_bytes ?s) 13 = 13 + length (show_nat a @ CHR ''?'' # show_nat c)"
    by (rule NextQuoteMark_at) (use show_nat_chars in auto)
  moreover have "length ?s = 13 + length (drop 13 ?s)" by (simp add: routed_text)
  ultimately show ?thesis
    by (simp add: getRouterId_def index_of_routed slice_def d router_id_nat)
qed

lemma extractMgrId_router_id: "a < 2 ^ 63 \<Longrightarrow> extractMgrId (router_id (int a) (int c)) = Some (int a)"
proof -
  have "CHR ''?'' \<notin> set (show_nat a)" using show_nat_chars by blast
  then show "a < 2 ^ 63 \<Longrightarrow> ?thesis"
    by (simp add: extractMgrId_def router_id_nat index_of_char atoi_value_show_nat)
qed

lemma serviceDataSession_routed:
  "a < 4 \<Longrightarrow> serviceDataSession_response (routed a c rest) = Some (a, routed a c rest)"
  by (simp add: serviceDataSession_response_def getRouterId_routed extractMgrId_router_id)

lemma RemoveInternalData_found:
  assumes "index_of s ''RouterId'' = Some i" "i \<noteq> 0" "index_of (drop (i - 1) s) ''?'' = Some j"
    and "k = j + 1 + (i - 1)" "n = NextQuoteMark (to_bytes s) k" "slice s k n = Some ds"
    and "index_of (drop n s) '','' = Some l"
  shows "RemoveInternalData s = Some (take (i - 1) s @ drop (l + 1 + n) s, atoi_value ds)"
  using assms by (simp add: RemoveInternalData_def Let_def)

lemma RemoveInternalData_routed:
  assumes "c < 2 ^ 63"
  shows "RemoveInternalData (routed a c rest) = Some (CHR 0x7B # rest, int c)"
proof -
  let ?s = "routed a c rest" and ?k = "14 + length (show_nat a)"
  let ?n = "?k + length (show_nat c)"
  have d1: "drop (2 - 1) ?s = (dquoted ''RouterId'' @ '':'' @ [CHR 0x22] @ show_nat a)
      @ CHR ''?'' # show_nat c @ [CHR 0x22] @ '','' @ rest"
    by (simp add: routed_text dquoted_def)
  have "CHR ''?'' \<notin> set (dquoted ''RouterId'' @ '':'' @ [CHR 0x22] @ show_nat a)"
    using show_nat_chars by (auto simp: dquoted_def)
  from index_of_char [OF this] have q: "index_of (drop (2 - 1) ?s) ''?'' = Some (12 + length (show_nat a))"
    unfolding d1 by (simp add: dquoted_def)
  let ?front = "''{'' @ dquoted ''RouterId'' @ '':'' @ [CHR 0x22] @ show_nat a @ ''?''"
  have front: "?s = ?front @ show_nat c @ CHR 0x22 # CHR '','' # rest" "length ?front = ?k"
    by (simp_all add: routed_text dquoted_def)
  then have dk: "drop ?k ?s = show_nat c @ CHR 0x22 # CHR '','' # rest"
    by (metis append_eq_conv_conj)
  have "CHR 0x22 \<notin> set (show_nat c)" using show_nat_chars by blast
  from NextQuoteMark_at [OF dk this] have stop: "?n = NextQuoteMark (to_bytes ?s) ?k" by simp
  have "drop ?n ?s = drop (length (show_nat c)) (drop ?k ?s)" by (simp only: drop_drop add.commute)
  then have ds: "drop ?n ?s = CHR 0x22 # CHR '','' # rest" unfolding dk by simp
  have sl: "slice ?s ?k ?n = Some (show_nat c)"
    unfolding slice_def dk using front by (simp add: routed_text)
  have "RemoveInternalData ?s = Some (take (2 - 1) ?s @ drop (1 + 1 + ?n) ?s, atoi_value (show_nat c))"
    by (rule RemoveInternalData_found [OF index_of_routed _ q _ stop sl]) (simp_all add: ds)
  moreover have "drop (1 + 1 + ?n) ?s = drop 2 (drop ?n ?s)" by (simp only: drop_drop) simp
  moreover have "take (2 - 1) ?s = ''{''" by (simp add: routed_text)
  ultimately show ?thesis by (simp add: ds atoi_value_show_nat [OF assms])
qed

section \<open>Responses\<close>

definition simple_char :: "char \<Rightarrow> bool" where
  "simple_char c = (plain_char c \<and> (of_char c :: nat) < 128 \<and> c \<noteq> CHR ''<'' \<and> c \<noteq> CHR ''>'' \<and> c \<noteq> CHR ''&'')"

lemma utf8_split_ascii:
  "list_all (\<lambda>c. (of_char c :: nat) < 128) s \<Longrightarrow> utf8_split s = map (\<lambda>c. Some [c]) s"
proof (induction s)
  case (Cons c s)
  then show ?case using utf8_split_rune [of "[c]" s] by simp
qed simp

lemma simple_ascii: "list_all simple_char s \<Longrightarrow> list_all (\<lambda>c. (of_char c :: nat) < 128) s"
  by (auto simp: list_all_iff simple_char_def)

lemma enc_ascii_simple: "simple_char c \<Longrightarrow> enc_ascii c = [c]"
proof -
  assume c: "simple_char c"
  then have "c \<noteq> CHR 0x0A \<and> c \<noteq> CHR 0x0D \<and> c \<noteq> CHR 0x09"
    by (auto simp: simple_char_def plain_char_code)
  then show ?thesis using c unfolding simple_char_def plain_char_def enc_ascii_def by simp
qed

lemma enc_body_simple: "list_all simple_char s \<Longrightarrow> enc_body s = s"
  unfolding enc_body_def utf8_split_ascii [OF simple_ascii]
  by (induction s) (simp_all add: enc_rune_def enc_ascii_simple)

lemma utf8_fix_simple: "list_all simple_char s \<Longrightarrow> utf8_fix s = s"
  by (intro utf8_fix_ascii simple_ascii)

lemma parse_str_simple: "list_all simple_char s \<Longrightarrow> parse_str (s @ CHR 0x22 # rest) = Some (s, rest)"
  using parse_enc_str [of s rest] by (simp add: enc_body_simple utf8_fix_simple)

lemma router_id_simple [simp]: "list_all simple_char (router_id (int a) (int c))"
proof -
  have "simple_char (CHR ''?'')" by (simp add: simple_char_def plain_char_def)
  moreover have "simple_char x" if "x \<in> set (show_nat n)" for x n
  proof -
    from set_show_nat [OF that] obtain d where d: "d < 10" "x = digit d" by blast
    then have "(of_char x :: nat) = 48 + d" by (simp add: digit_def of_char_of)
    then have "(of_char x :: nat) \<notin> {60, 62, 38}" using d by auto
    then have "x \<noteq> CHR ''<'' \<and> x \<noteq> CHR ''>'' \<and> x \<noteq> CHR ''&''" by auto
    then show ?thesis using show_nat_chars [OF that] by (simp add: simple_char_def)
  qed
  ultimately show ?thesis by (auto simp: router_id_nat list_all_iff)
qed

lemma simple_letters [simp]:
  "list_all simple_char ''RouterId''" "list_all simple_char ''origin''" "list_all simple_char ''external''"
  by (simp_all add: simple_char_def plain_char_def)

lemma enc_RouterId [simp]: "enc_body ''RouterId'' = ''RouterId''"
  by (intro enc_body_simple simple_letters)

text \<open>The members of a response, other than its router id, have names that sort after it.\<close>

definition routable :: "gomap \<Rightarrow> nat \<Rightarrow> nat \<Rightarrow> bool" where
  "routable m a c \<longleftrightarrow> distinct (map fst m) \<and> (''RouterId'', GoStr (router_id (int a) (int c))) \<in> set m
     \<and> (\<forall>k \<in> fst ` set m. k \<noteq> ''RouterId'' \<longrightarrow> ''RouterId'' < k)
     \<and> ''origin'' \<notin> fst ` set m \<and> length m \<noteq> 1"

lemma gdelete_filter: "gdelete k m = filter (\<lambda>kv. fst kv \<noteq> k) m"
  by (auto simp: gdelete_def AList.delete_eq intro: filter_cong)

lemma gdelete_absent: "k \<notin> fst ` set m \<Longrightarrow> gdelete k m = m"
  by (simp add: gdelete_def)

lemma gdelete_keys: "fst ` set (gdelete k m) = fst ` set m - {k}"
  by (force simp: gdelete_filter)

lemma sorted_distinct_unique:
  assumes "distinct (map fst xs)" "distinct (map fst ys)" "sorted (map fst xs)" "sorted (map fst ys)"
    and "set xs = set ys"
  shows "xs = (ys :: ('k :: linorder \<times> 'v) list)"
proof -
  have "inj_on fst (set xs \<union> set ys)"
    using assms(1,5) by (simp add: distinct_map)
  then show ?thesis using assms by (intro map_sorted_distinct_set_unique [of fst])
qed

lemma distinct_map_sort_key: "distinct (map fst m) \<Longrightarrow> distinct (map fst (sort_key fst m))"
  by (simp add: distinct_map)

lemma sort_key_min:
  assumes "distinct (map fst m)" and "(k, v) \<in> set m" and "\<forall>k' \<in> fst ` set m. k' \<noteq> k \<longrightarrow> k < k'"
  shows "sort_key fst m = (k, v) # sort_key fst (gdelete k m)"
proof (rule sorted_distinct_unique)
  show "distinct (map fst (sort_key fst m))" using assms(1) by (rule distinct_map_sort_key)
  have dg: "distinct (map fst (gdelete k m))" using assms(1) by (simp add: gdelete_filter distinct_map_filter)
  have "k \<notin> fst ` set (gdelete k m)" by (auto simp: gdelete_filter)
  then show "distinct (map fst ((k, v) # sort_key fst (gdelete k m)))"
    using distinct_map_sort_key [OF dg] by simp
  show "sorted (map fst (sort_key fst m))" by simp
  show "sorted (map fst ((k, v) # sort_key fst (gdelete k m)))"
  proof -
    have "k \<le> fst kv" if "kv \<in> set (gdelete k m)" for kv
      using assms(3) that less_imp_le [of k "fst kv"] by (simp add: gdelete_filter)
    then show ?thesis by simp
  qed
  have only: "kv = (k, v)" if "kv \<in> set m" "fst kv = k" for kv
    using eq_key_imp_eq_value [OF assms(1,2)] that by (metis prod.collapse)
  show "set (sort_key fst m) = set ((k, v) # sort_key fst (gdelete k m))"
    by (simp add: gdelete_filter) (use assms(2) only in blast)
qed

lemma FinalizeMessage_routed:
  assumes "routable m a c"
  shows "\<exists>rest. FinalizeMessage m = routed a c rest
    \<and> FinalizeMessage (gdelete ''RouterId'' m) = CHR 0x7B # rest"
proof -
  let ?others = "gdelete ''RouterId'' m"
  let ?ms = "map (enc_member \<circ> (\<lambda>(k, v). (k, marshal v))) (sort_key fst ?others)"
  have o: "gdelete ''origin'' m = m" "gdelete ''origin'' ?others = ?others"
  proof -
    have "''origin'' \<notin> fst ` set m" using assms unfolding routable_def by (elim conjE)
    then show "gdelete ''origin'' m = m" "gdelete ''origin'' ?others = ?others"
      by (intro gdelete_absent, simp add: gdelete_keys)+
  qed
  have sk: "sort_key fst m = (''RouterId'', GoStr (router_id (int a) (int c))) # sort_key fst ?others"
    using assms unfolding routable_def by (elim conjE) (rule sort_key_min)
  have "length m = Suc (length ?others)" using arg_cong [OF sk, of length] by simp
  moreover have "length m \<noteq> 1" using assms unfolding routable_def by (elim conjE)
  ultimately have "length ?ms \<noteq> 0" by simp
  then have "?ms \<noteq> []" by force
  moreover have "enc_member (''RouterId'', marshal (GoStr (router_id (int a) (int c))))
      = createRouterIdProperty (int a) (int c)"
    by (simp add: enc_member_def enc_str_def enc_body_simple createRouterIdProperty_def dquoted_def)
  ultimately have "FinalizeMessage m = routed a c (commas ?ms @ [CHR 0x7D])"
    by (simp add: FinalizeMessage_def o sort_members sk commas_Cons routed_def)
  moreover have "FinalizeMessage ?others = CHR 0x7B # commas ?ms @ [CHR 0x7D]"
    by (simp add: FinalizeMessage_def o sort_members)
  ultimately show ?thesis by blast
qed


section \<open>Requests on their way in\<close>

text \<open>
  The text that \<open>AddRoutingForwardRequest\<close> puts after the opening brace parses as two members
  in front of the client's own.
\<close>

definition routing_members :: "nat \<Rightarrow> nat \<Rightarrow> (string \<times> gojson) list" where
  "routing_members a c =
     [(''RouterId'', GoStr (router_id (int a) (int c))), (''origin'', GoStr ''external'')]"

definition routing_text :: "nat \<Rightarrow> nat \<Rightarrow> string" where
  "routing_text a c = createRouterIdProperty (int a) (int c) @ '', ''
     @ dquoted ''origin'' @ '':'' @ dquoted ''external'' @ '', ''"

lemma parse_string_value:
  "list_all simple_char x \<Longrightarrow> parse_value (Suc n) d (dquoted x @ rest) = Some (GoStr x, rest)"
  by (simp add: dquoted_def next_token_char parse_scalar_def parse_str_simple)

lemma parse_members_space: "parse_members n d (CHR '' '' # s) = parse_members n d s"
  by (cases n) (simp_all add: next_token_def skip_ws_def is_space_def)

lemma parse_member_text:
  assumes "list_all simple_char k" "list_all simple_char x"
    and "parse_members (Suc n) d t = Some (kvs, r)"
  shows "parse_members (Suc (Suc n)) d (dquoted k @ '':'' @ dquoted x @ '','' @ t)
    = Some ((k, GoStr x) # kvs, r)"
proof -
  have "parse_value (Suc n) d (dquoted x @ CHR '','' # t) = Some (GoStr x, CHR '','' # t)"
    by (rule parse_string_value [OF assms(2)])
  then show ?thesis
    using assms(1,3) by (simp add: dquoted_def next_token_char parse_str_simple del: parse_value.simps)
qed

lemma parse_routing_text:
  assumes "parse_members (Suc n) d t = Some (kvs, r)"
  shows "parse_members (Suc (Suc (Suc n))) d (routing_text a c @ t) = Some (routing_members a c @ kvs, r)"
proof -
  have "parse_members (Suc n) d (CHR '' '' # t) = Some (kvs, r)" using assms by (simp only: parse_members_space)
  then have "parse_members (Suc (Suc n)) d (dquoted ''origin'' @ '':'' @ dquoted ''external'' @ '','' @ '' '' @ t)
      = Some ((''origin'', GoStr ''external'') # kvs, r)"
    by (intro parse_member_text simple_letters) simp
  then have "parse_members (Suc (Suc n)) d ('' '' @ dquoted ''origin'' @ '':'' @ dquoted ''external'' @ '','' @ '' '' @ t)
      = Some ((''origin'', GoStr ''external'') # kvs, r)"
    by (simp only: parse_members_space append.simps)
  then have "parse_members (Suc (Suc (Suc n))) d (dquoted ''RouterId'' @ '':'' @ dquoted (router_id (int a) (int c))
      @ '','' @ '' '' @ dquoted ''origin'' @ '':'' @ dquoted ''external'' @ '','' @ '' '' @ t)
      = Some ((''RouterId'', GoStr (router_id (int a) (int c))) # (''origin'', GoStr ''external'') # kvs, r)"
    by (intro parse_member_text simple_letters router_id_simple)
  then show ?thesis by (simp add: routing_text_def routing_members_def createRouterIdProperty_def)
qed

lemma next_token_split: "next_token s = Some (c, t) \<Longrightarrow> \<exists>w. s = w @ c # t \<and> (\<forall>x \<in> set w. is_space x) \<and> \<not> is_space c"
proof -
  assume "next_token s = Some (c, t)"
  then have d: "dropWhile is_space s = c # t"
    by (auto simp: next_token_def skip_ws_def split: list.splits)
  have "s = takeWhile is_space s @ c # t" using takeWhile_dropWhile_id [of is_space s] d by simp
  moreover have "\<not> is_space c" using hd_dropWhile [of is_space s] d by simp
  ultimately show ?thesis by (metis set_takeWhileD)
qed

lemma next_token_spaces: "\<forall>x \<in> set w. is_space x \<Longrightarrow> \<not> is_space c \<Longrightarrow> next_token (w @ c # t) = Some (c, t)"
  by (simp add: next_token_def skip_ws_def dropWhile_append1 [of _ w] dropWhile_append2)

lemma AddRouting_object:
  assumes "parse_json s = Some (GoObj kvs, r)" and "kvs \<noteq> []"
  shows "parse_json (AddRoutingForwardRequest s (int a) (int c)) = Some (GoObj (routing_members a c @ kvs), r)"
proof -
  let ?d = maxNestingDepth
  from assms obtain n t e u where s: "next_token s = Some (CHR 0x7B, t)" and e: "next_token t = Some (e, u)"
    and m: "parse_members (Suc n) (?d - 1) t = Some (kvs, r)" and d: "0 < ?d"
  proof -
    from assms(1) have "parse_value (Suc (2 * length s)) ?d s = Some (GoObj kvs, r)"
      by (simp only: parse_json_def)
    then show thesis
    proof (cases rule: parse_value_SomeE)
      case (1 c t)
      then show thesis by (auto simp: parse_scalar_def split: if_splits)
    next
      case (3 t e u kvs')
      then have "0 < 2 * length s" using parse_members_length by (cases s) auto
      then show thesis using that [of t e u "2 * length s - 1"] 3 by simp
    qed (use assms(2) in auto)
  qed
  obtain w where w: "s = w @ CHR 0x7B # t" "\<forall>x \<in> set w. is_space x" using next_token_split [OF s] by blast
  then have "CHR 0x7B \<notin> set w" by (auto simp: is_space_def)
  then have out: "AddRoutingForwardRequest s (int a) (int c) = w @ CHR 0x7B # routing_text a c @ t"
    by (simp add: AddRoutingForwardRequest_def w replace_first_at routing_text_def)
  have "parse_value (Suc (Suc (Suc (Suc n)))) ?d (w @ CHR 0x7B # routing_text a c @ t)
      = Some (GoObj (routing_members a c @ kvs), r)"
  proof -
    have "next_token (w @ CHR 0x7B # routing_text a c @ t) = Some (CHR 0x7B, routing_text a c @ t)"
      by (rule next_token_spaces [OF w(2)]) simp
    moreover obtain v where "next_token (routing_text a c @ t) = Some (CHR 0x22, v)"
      by (simp add: routing_text_def createRouterIdProperty_def dquoted_def next_token_char)
    ultimately show ?thesis
      using parse_routing_text [OF m, of a c] d
      by (simp add: del: parse_members.simps)
  qed
  then show ?thesis unfolding out by (rule parse_json_of_bound)
qed

lemma map_of_members_map: "map_of (members_map kvs) = map_of (rev kvs)"
proof (induction kvs rule: rev_induct)
  case (snoc kv kvs)
  then show ?case
    by (cases kv) (simp add: members_map_def gset_def update_conv')
qed (simp add: members_map_def)

lemma map_of_rev_map: "map_of (rev (map (\<lambda>(k, v). (k, f v)) kvs)) k = map_option f (map_of (rev kvs) k)"
  using map_of_map [of f "rev kvs"] by (simp add: rev_map)

text \<open>What a client's object becomes in the server core: its own members win over the added ones.\<close>

definition client_map :: "(string \<Rightarrow> string option) \<Rightarrow> nat \<Rightarrow> nat \<Rightarrow> (string \<times> gojson) list \<Rightarrow> gomap" where
  "client_map fmt a c kvs = members_map (map (\<lambda>(k, v). (k, go_value fmt v)) (routing_members a c @ kvs))"

lemma MapRequest_client:
  assumes "parse_json s = Some (GoObj kvs, r)" and "kvs \<noteq> []"
  shows "MapRequest fmt (AddRoutingForwardRequest s (int a) (int c))
    = (if num_error fmt (GoObj kvs) then - 1 else 0, client_map fmt a c kvs)"
  unfolding MapRequest_def decode_map_def AddRouting_object [OF assms]
  by (simp add: client_map_def routing_members_def)

lemma gget_client_map:
  "gget (client_map fmt a c kvs) k =
     (case map_of (rev kvs) k of
        Some v \<Rightarrow> go_value fmt v
      | None \<Rightarrow> if k = ''RouterId'' then GoStr (router_id (int a) (int c))
                else if k = ''origin'' then GoStr ''external'' else GoNull)"
proof -
  have "map_of (rev (routing_members a c @ kvs)) k =
      (case map_of (rev kvs) k of Some v \<Rightarrow> Some v | None \<Rightarrow> map_of (routing_members a c) k)"
    by (simp add: routing_members_def map_add_def split: option.splits)
  then show ?thesis
    unfolding gget_def client_map_def map_of_members_map map_of_rev_map
    by (simp add: routing_members_def split: option.splits)
qed

text \<open>
  The way in. When a client sends a non-empty JSON object, the server core works on a map
  that has the client's own members, as JSON reads them, and besides these the router id of the
  client and the origin ''external'' exactly where the client has sent no member of that name.
\<close>

theorem client_request_decoded:
  assumes "parse_json s = Some (GoObj kvs, r)" and "kvs \<noteq> []" and "\<not> num_error fmt (GoObj kvs)"
  shows "\<exists>m. MapRequest fmt (AddRoutingForwardRequest s (int a) (int c)) = (0, m) \<and>
    (\<forall>k. gget m k =
     (case map_of (rev kvs) k of
        Some v \<Rightarrow> go_value fmt v
      | None \<Rightarrow> if k = ''RouterId'' then GoStr (router_id (int a) (int c))
                else if k = ''origin'' then GoStr ''external'' else GoNull))"
  using MapRequest_client [OF assms(1,2), of fmt a c] assms(3) gget_client_map [of fmt a c kvs] by auto

section \<open>Access control values\<close>

definition access_value :: "int \<Rightarrow> bool" where
  "access_value v \<longleftrightarrow> v \<in> {0, 1, 2, 11, 12}"

lemma GetMaxValidation_join:
  assumes "access_value v" "access_value w"
  shows "access_value (GetMaxValidation v w)"
    and "GetMaxValidation v w mod 10 = max (v mod 10) (w mod 10)"
    and "GetMaxValidation v w div 10 = max (v div 10) (w div 10)"
  using assms unfolding access_value_def
  by (elim insertE emptyE;
      simp add: GetMaxValidation_def validationMatrix_def translateToMatrixIndex_def)+

lemma translate_lt: "translateToMatrixIndex v \<in> {0, 1, 2, 3, 4}"
  by (simp add: translateToMatrixIndex_def)

lemma GetMaxValidation_range: "access_value (GetMaxValidation v w)"
  using translate_lt [of v] translate_lt [of w] unfolding GetMaxValidation_def
  by (elim insertE emptyE; simp add: access_value_def validationMatrix_def)

lemma GetMaxValidation_initial: "access_value v \<Longrightarrow> GetMaxValidation v (- 1) = v"
  by (auto simp: access_value_def GetMaxValidation_def validationMatrix_def translateToMatrixIndex_def)

lemma searchLoop_found: "fst (searchLoop env ps found sd w) = found @ concat (map (\<lambda>p. fst (searchTree env p True True 0 [])) ps)"
  by (induction ps arbitrary: found sd w) (simp_all split: prod.splits)

text \<open>The access control value of one search path.\<close>

definition path_access :: "'n core_env \<Rightarrow> string \<Rightarrow> int" where
  "path_access env p = snd (searchTree env p True True 0 [])"

lemma searchLoop_access:
  "snd (snd (searchLoop env ps found sd w)) = foldl (\<lambda>w p. GetMaxValidation (path_access env p) w) w ps"
  by (induction ps arbitrary: found sd w) (simp_all add: path_access_def split: prod.splits)

lemma fold_access:
  assumes "\<forall>p \<in> set ps. access_value (path_access env p)" and "access_value w"
  shows "foldl (\<lambda>w p. GetMaxValidation (path_access env p) w) w ps mod 10
      = Max (insert (w mod 10) ((\<lambda>p. path_access env p mod 10) ` set ps))
    \<and> foldl (\<lambda>w p. GetMaxValidation (path_access env p) w) w ps div 10
      = Max (insert (w div 10) ((\<lambda>p. path_access env p div 10) ` set ps))"
  using assms
proof (induction ps arbitrary: w)
  case (Cons p ps)
  let ?w = "GetMaxValidation (path_access env p) w"
  have a: "access_value (path_access env p)" using Cons.prems by simp
  note join = GetMaxValidation_join [OF a Cons.prems(2)]
  have ih: "foldl (\<lambda>w p. GetMaxValidation (path_access env p) w) ?w ps mod 10
      = Max (insert (?w mod 10) ((\<lambda>p. path_access env p mod 10) ` set ps))
    \<and> foldl (\<lambda>w p. GetMaxValidation (path_access env p) w) ?w ps div 10
      = Max (insert (?w div 10) ((\<lambda>p. path_access env p div 10) ` set ps))"
    by (rule Cons.IH) (use Cons.prems join in simp_all)
  have ins: "Max (insert (max x y) S) = Max (insert y (insert x S))" if "finite S" for x y :: int and S
    using that by (cases "S = {}") (simp_all add: max.assoc max.commute max.left_commute)
  show ?case using ih by (simp add: join ins)
qed simp

text \<open>
  The access control value of a request with several paths. Read-write control on one of them
  means read-write control of the request, write-only control on one of them at least write-only
  control, and consent is required as soon as one of them requires it, in whatever order the
  paths are listed.
\<close>

theorem request_access_is_maximum:
  assumes "ps \<noteq> []" and "\<forall>p \<in> set ps. access_value (path_access env p)"
  shows "snd (snd (searchLoop env ps [] [] (- 1))) mod 10 = Max ((\<lambda>p. path_access env p mod 10) ` set ps)
    \<and> snd (snd (searchLoop env ps [] [] (- 1))) div 10 = Max ((\<lambda>p. path_access env p div 10) ` set ps)"
proof -
  obtain p qs where ps: "ps = p # qs" using assms(1) by (cases ps) auto
  have "access_value (path_access env p)" using assms(2) ps by simp
  then show ?thesis
    using fold_access [of qs env "path_access env p"] assms(2)
    unfolding searchLoop_access ps by (simp add: GetMaxValidation_initial)
qed

section \<open>What a forwarded request has passed\<close>

lemma searchLoop_range: "ps \<noteq> [] \<Longrightarrow> access_value (snd (snd (searchLoop env ps [] [] (- 1))))"
proof -
  assume "ps \<noteq> []"
  then obtain qs q where "ps = qs @ [q]" by (metis rev_exhaust)
  then show ?thesis unfolding searchLoop_access by (simp add: GetMaxValidation_range)
qed

text \<open>The token of a request has been accepted by the access token server for these paths.\<close>

definition token_accepted :: "'n core_env \<Rightarrow> gomap \<Rightarrow> string \<Rightarrow> int \<Rightarrow> bool" where
  "token_accepted env m paths v =
     (case (gget m ''authorization'', gget m ''action'') of
        (GoStr t, GoStr action) \<Rightarrow>
          (case verifyToken env t action paths v of Some (code, _) \<Rightarrow> code = 0 | None \<Rightarrow> False)
      | _ \<Rightarrow> False)"

lemma checkToken_accepts:
  assumes "checkToken env m paths v = Some (0, h, g)"
    and "v mod 10 = 2 \<or> gget m ''action'' = GoStr ''set''"
  shows "token_accepted env m paths v"
  using assms
  by (auto simp: checkToken_def token_accepted_def bind_eq_Some_conv split: if_splits option.splits
      elim!: as_string.elims)

lemma searchAndForward_service:
  assumes "searchAndForward env m ps tD sD e = Some (e', ToService s msg)"
    and "searchLoop env ps [] [] (- 1) = (found, sd, v)"
  shows "e' = e \<and> s = sD \<and> found \<noteq> []
    \<and> (gget m ''action'' = GoStr ''set'' \<longrightarrow> sd \<noteq> [] \<and> VSSgetType (vss env) (snd (hd sd)) = actuator)
    \<and> (gget m ''origin'' = GoStr ''internal'' \<or> v mod 10 = 0
       \<or> v mod 10 = 1 \<and> gget m ''authorization'' \<noteq> GoNull \<and> gget m ''action'' \<noteq> GoStr ''set''
       \<or> token_accepted env m (path_text found) v)"
proof -
  from assms have fwd: "found \<noteq> []" "gget m ''action'' = GoStr ''set'' \<Longrightarrow> sd \<noteq> []"
    "gget m ''action'' = GoStr ''set'' \<Longrightarrow> VSSgetType (vss env) (snd (hd sd)) = actuator"
    by (auto simp: searchAndForward_def reply_error_def Let_def split: if_splits)
  let ?v = "if gget m ''origin'' = GoStr ''internal'' then 0 else v"
  from assms fwd obtain ec h g where c: "(if ?v mod 10 = 0 then Some (0, [], []) else checkToken env m (path_text found) ?v) = Some (ec, h, g)"
    and out: "ec = 0" "e' = e" "s = sD"
    by (auto simp: searchAndForward_def reply_error_def Let_def bind_eq_Some_conv split: if_splits)
  have "token_accepted env m (path_text found) v"
    if "gget m ''origin'' \<noteq> GoStr ''internal''" "v mod 10 \<noteq> 0" "v mod 10 = 2 \<or> gget m ''action'' = GoStr ''set''"
    using c that out by (auto intro: checkToken_accepts)
  moreover have "gget m ''authorization'' \<noteq> GoNull" if "gget m ''origin'' \<noteq> GoStr ''internal''" "v mod 10 \<noteq> 0"
    using c that out by (auto simp: checkToken_def split: if_splits)
  moreover have "v mod 10 = 0 \<or> v mod 10 = 1 \<or> v mod 10 = 2" if "gget m ''origin'' \<noteq> GoStr ''internal''"
    using assms fwd that by (auto simp: searchAndForward_def reply_error_def Let_def split: if_splits)
  ultimately show ?thesis using fwd out by blast
qed

text \<open>The search paths of a request, when its filters leave it to be searched for.\<close>

definition request_paths :: "'n core_env \<Rightarrow> gomap \<Rightarrow> string list option" where
  "request_paths env m =
     (case gget m ''path'' of
        GoStr rootPath \<Rightarrow>
          (if gget m ''filter'' = GoNull then Some [rootPath]
           else (case filterLoop env m rootPath (UnpackFilter (mapOrder env) (gget m ''filter'')) of
                   Some (FiltersDone ps) \<Rightarrow> Some (if ps = [] then [rootPath] else ps)
                 | _ \<Rightarrow> None))
      | _ \<Rightarrow> None)"

text \<open>The filter that asks for the capabilities of the server.\<close>

definition asks_capabilities :: "'n core_env \<Rightarrow> gomap \<Rightarrow> bool" where
  "asks_capabilities env m \<longleftrightarrow> gget m ''filter'' \<noteq> GoNull \<and>
     (\<exists>f \<in> set (UnpackFilter (mapOrder env) (gget m ''filter'')).
        Type f = ''dynamic-metadata'' \<and> Parameter f = ''server_capabilities'')"

lemma filterLoop_forward:
  "filterLoop env m r fs = Some FiltersForward \<Longrightarrow>
     \<exists>f \<in> set fs. Type f = ''dynamic-metadata'' \<and> Parameter f = ''server_capabilities''"
  by (induction fs) (auto simp: bind_eq_Some_conv Let_def split: if_splits option.splits)

lemma issueServiceRequest_service:
  assumes "issueServiceRequest env m tD sD e = Some (e', ToService s msg)"
  shows "gget m ''action'' \<in> {GoStr ''internal-killsubscriptions'', GoStr ''internal-cancelsubscription''}
    \<or> asks_capabilities env m
    \<or> (\<exists>ps. request_paths env m = Some ps \<and> searchAndForward env m ps tD sD e = Some (e', ToService s msg))"
proof (cases "gget m ''action'' = GoStr ''internal-killsubscriptions'' \<or> gget m ''action'' = GoStr ''internal-cancelsubscription''")
  case False
  let ?fs = "UnpackFilter (mapOrder env) (gget m ''filter'')"
  from assms False obtain rp r where rp: "as_string (gget m ''path'') = Some rp"
    and r: "(if gget m ''filter'' \<noteq> GoNull then filterLoop env m rp ?fs else Some (FiltersDone [])) = Some r"
    and out: "(case r of FiltersBadRequest \<Rightarrow> Some (reply_error env m 0 [] tD e)
       | FiltersForward \<Rightarrow> Some (e, ToService sD (FinalizeMessage m))
       | FiltersMetadata metadata \<Rightarrow> do {
           answer \<leftarrow> AddKeyValue (FinalizeMessage (gset ''ts'' (GoStr (rfcTime env)) (gdelete ''filter'' (gdelete ''path'' m))))
             ''metadata'' metadata;
           Some (e, ToTransport tD answer) }
       | FiltersDone sp \<Rightarrow> searchAndForward env m (if sp = [] then [rp] else sp) tD sD e)
      = Some (e', ToService s msg)"
    by (auto simp: issueServiceRequest_def bind_eq_Some_conv)
  have path: "gget m ''path'' = GoStr rp" using rp by (auto elim: as_string.elims)
  show ?thesis
  proof (cases r)
    case FiltersForward
    then have "filterLoop env m rp ?fs = Some FiltersForward" "gget m ''filter'' \<noteq> GoNull"
      using r by (auto split: if_splits)
    then show ?thesis using filterLoop_forward by (auto simp: asks_capabilities_def)
  next
    case (FiltersDone sp)
    then have "request_paths env m = Some (if sp = [] then [rp] else sp)"
      using r path by (auto simp: request_paths_def split: if_splits)
    then show ?thesis using out FiltersDone by auto
  qed (use out in \<open>auto simp: reply_error_def Let_def bind_eq_Some_conv\<close>)
qed auto

text \<open>The map \<open>serveRequest\<close> goes on with: the path in dotted form.\<close>

definition served_map :: "gomap \<Rightarrow> gomap" where
  "served_map m = (case gget m ''path'' of GoStr p \<Rightarrow> gset ''path'' (GoStr (UrlToPath p)) m | _ \<Rightarrow> m)"

lemma serveRequest_service:
  assumes "serveRequest env request tD sD e = Some (e', ToService s msg)"
  shows "\<exists>m action. MapRequest (fmtNum env) request = (0, m) \<and> gget m ''action'' = GoStr action
    \<and> validRequest request action
    \<and> serveParsed env request action (served_map m) tD sD e = Some (e', ToService s msg)"
proof -
  obtain code m where m: "MapRequest (fmtNum env) request = (code, m)" by fastforce
  with assms obtain action where "code = 0" "as_string (gget m ''action'') = Some action" "validRequest request action"
    "serveParsed env request action (served_map m) tD sD e = Some (e', ToService s msg)"
    by (auto simp: serveRequest_def served_map_def reply_error_def Let_def bind_eq_Some_conv
        split: if_splits elim!: as_string.elims)
  then show ?thesis using m by (auto elim: as_string.elims)
qed



section \<open>Error answers\<close>

text \<open>
  The members that the global error map can have. The order of the strings is only needed
  here, so it is evaluated once.
\<close>

definition error_keys :: "string set" where
  "error_keys = {''RouterId'', ''action'', ''requestId'', ''subscriptionId'', ''error'', ''ts''}"

lemma error_keys_order: "k \<in> error_keys \<Longrightarrow> k \<noteq> ''RouterId'' \<Longrightarrow> ''RouterId'' < k"
proof -
  have "\<forall>k \<in> set [''action'', ''requestId'', ''subscriptionId'', ''error'', ''ts'']. ''RouterId'' < k"
    by code_simp
  then show "k \<in> error_keys \<Longrightarrow> k \<noteq> ''RouterId'' \<Longrightarrow> ''RouterId'' < k"
    unfolding error_keys_def by auto
qed

definition error_map_ok :: "gomap \<Rightarrow> bool" where
  "error_map_ok e \<longleftrightarrow> distinct (map fst e) \<and> fst ` set e \<subseteq> error_keys
     \<and> ''RouterId'' \<in> fst ` set e \<and> ''error'' \<in> fst ` set e"

lemma keys_gset: "fst ` set (gset k v m) = insert k (fst ` set m)"
  using arg_cong [OF dom_update [of k v m], of "\<lambda>x. x"] by (simp add: gset_def dom_map_of_conv_image_fst [symmetric])

lemma distinct_gset: "distinct (map fst m) \<Longrightarrow> distinct (map fst (gset k v m))"
  unfolding gset_def by (rule distinct_update)

lemma distinct_gdelete: "distinct (map fst m) \<Longrightarrow> distinct (map fst (gdelete k m))"
  by (simp add: gdelete_filter distinct_map_filter)

lemma gget_in: "distinct (map fst m) \<Longrightarrow> gget m k = v \<Longrightarrow> v \<noteq> GoNull \<Longrightarrow> (k, v) \<in> set m"
  by (auto simp: gget_def split: option.splits dest: map_of_SomeD)

lemma error_map_ok_init: "error_map_ok initErrorResponseMap"
  by (simp add: error_map_ok_def initErrorResponseMap_def error_keys_def)

lemma copy_if_set_ok:
  "distinct (map fst e) \<Longrightarrow> distinct (map fst (copy_if_set k m e))"
  "fst ` set (copy_if_set k m e) = (if gget m k \<noteq> GoNull then insert k (fst ` set e) else fst ` set e)"
  "gget (copy_if_set k m e) k' = (if k' = k \<and> gget m k \<noteq> GoNull then gget m k else gget e k')"
  by (simp_all add: copy_if_set_def distinct_gset keys_gset gget_gset)

lemma error_map_ok_gset: "error_map_ok e \<Longrightarrow> k \<in> error_keys \<Longrightarrow> error_map_ok (gset k v e)"
  by (auto simp: error_map_ok_def distinct_gset keys_gset)

lemma error_map_ok_copy: "error_map_ok e \<Longrightarrow> k \<in> error_keys \<Longrightarrow> error_map_ok (copy_if_set k m e)"
  by (simp add: copy_if_set_def error_map_ok_gset)

lemma error_map_ok_delete: "error_map_ok e \<Longrightarrow> error_map_ok (gdelete ''requestId'' e)"
  by (auto simp: error_map_ok_def distinct_gdelete gdelete_keys)

lemma error_keys_mem:
  "''RouterId'' \<in> error_keys" "''action'' \<in> error_keys" "''requestId'' \<in> error_keys"
  "''subscriptionId'' \<in> error_keys" "''error'' \<in> error_keys" "''ts'' \<in> error_keys"
  by (simp_all add: error_keys_def)

lemma SetErrorResponse_ok: "error_map_ok e \<Longrightarrow> error_map_ok (SetErrorResponse now m e i alt)"
  by (simp add: SetErrorResponse_def Let_def error_map_ok_gset error_map_ok_copy error_map_ok_delete
      error_keys_mem)

lemma SetErrorResponse_router:
  "gget (SetErrorResponse now m e i alt) ''RouterId'' =
     (if gget m ''RouterId'' \<noteq> GoNull then gget m ''RouterId'' else gget e ''RouterId'')"
  by (simp add: SetErrorResponse_def Let_def gget_gset gget_gdelete copy_if_set_ok)

lemma error_map_routable:
  assumes "error_map_ok e" and "gget e ''RouterId'' = GoStr (router_id (int a) (int c))"
  shows "routable e a c"
proof -
  have "length e \<noteq> 1"
  proof
    assume "length e = 1"
    then obtain kv where "e = [kv]" by (auto simp: length_Suc_conv)
    with assms(1) have "''RouterId'' = fst kv" "''error'' = fst kv" by (auto simp: error_map_ok_def)
    then have "''RouterId'' = ''error''" by (rule trans [OF _ sym])
    then show False by simp
  qed
  moreover have "''origin'' \<notin> fst ` set e" using assms(1) by (auto simp: error_map_ok_def error_keys_def)
  moreover have "\<forall>k \<in> fst ` set e. k \<noteq> ''RouterId'' \<longrightarrow> ''RouterId'' < k"
    using assms(1) error_keys_order unfolding error_map_ok_def by blast
  moreover have "distinct (map fst e)" using assms(1) by (simp add: error_map_ok_def)
  ultimately show ?thesis
    unfolding routable_def using gget_in [OF _ assms(2)] by simp
qed

text \<open>Whom an error answer reaches: the sender when the request could be read, else the client
  of the error answer before.\<close>

lemma error_answer_client:
  assumes "error_map_ok e" and "c < 2 ^ 63"
    and "gget m ''RouterId'' = GoStr (router_id (int a) (int c))
      \<or> gget m ''RouterId'' = GoNull \<and> gget e ''RouterId'' = GoStr (router_id (int a) (int c))"
  shows "\<exists>trimmed. RemoveInternalData (FinalizeMessage (SetErrorResponse now m e i alt)) = Some (trimmed, int c)"
proof -
  have "gget (SetErrorResponse now m e i alt) ''RouterId'' = GoStr (router_id (int a) (int c))"
    using assms(3) by (auto simp: SetErrorResponse_router)
  from error_map_routable [OF SetErrorResponse_ok [OF assms(1)] this]
  have "routable (SetErrorResponse now m e i alt) a c" .
  from FinalizeMessage_routed [OF this] RemoveInternalData_routed [OF assms(2)] show ?thesis by metis
qed

text \<open>
  C7: The answer to a message that is not a JSON object goes astray. It is sent with the router id
  of the last error answer, so in the transport manager it is delivered to the client of that
  earlier request.
\<close>

theorem malformed_answer_goes_to_earlier_client:
  assumes "error_map_ok e" and "gget e ''RouterId'' = GoStr (router_id (int a) (int c))" and "c < 2 ^ 63"
    and "decode_map (fmtNum env) request = (True, [])"
  shows "\<exists>e' answer trimmed. serveRequest env request tD sD e = Some (e', ToTransport tD answer)
    \<and> RemoveInternalData answer = Some (trimmed, int c)"
proof -
  have "gget [] ''RouterId'' = GoNull" by (simp add: gget_def)
  from error_answer_client [OF assms(1,3) disjI2, of "[]" a "rfcTime env" 0 "[]"] this assms(2)
  show ?thesis
    unfolding serveRequest_def MapRequest_def assms(4) by (simp add: reply_error_def Let_def)
qed

definition is_text :: "gojson \<Rightarrow> bool" where
  "is_text v = (as_string v \<noteq> None)"

lemma is_text_iff: "is_text v \<longleftrightarrow> (\<exists>s. v = GoStr s)"
  by (cases v) (simp_all add: is_text_def)

text \<open>The three ways through the first half of \<open>serveRequest\<close>.\<close>

lemma serveRequest_cases:
  assumes "MapRequest (fmtNum env) request = (code, m)"
  obtains (reply) i where "serveRequest env request tD sD e = Some (reply_error env m i [] tD e)"
      "code \<noteq> 0 \<or> gget m ''action'' = GoNull \<or> is_text (gget m ''action'')"
      "gget m ''path'' = GoNull \<or> is_text (gget m ''path'') \<or> code \<noteq> 0 \<or> gget m ''action'' = GoNull
        \<or> (\<exists>action. gget m ''action'' = GoStr action \<and> \<not> validRequest request action)"
      "code \<noteq> 0 \<or> (\<forall>action. gget m ''action'' = GoStr action \<longrightarrow> validRequest request action
        \<longrightarrow> gget m ''path'' \<noteq> GoNull)"
  | (parsed) action where "code = 0" "gget m ''action'' = GoStr action" "validRequest request action"
      "serveRequest env request tD sD e = serveParsed env request action (served_map m) tD sD e"
      "gget m ''path'' = GoNull \<or> is_text (gget m ''path'')"
  | (crash) "serveRequest env request tD sD e = None" "code = 0" "gget m ''action'' \<noteq> GoNull"
      "\<not> is_text (gget m ''action'') \<or> (\<exists>action. gget m ''action'' = GoStr action \<and> validRequest request action
         \<and> gget m ''path'' \<noteq> GoNull \<and> \<not> is_text (gget m ''path''))"
proof (cases "code = 0 \<and> is_text (gget m ''action'')")
  case False
  then consider "code \<noteq> 0" | "code = 0" "gget m ''action'' = GoNull"
    | "code = 0" "gget m ''action'' \<noteq> GoNull" "\<not> is_text (gget m ''action'')" by auto
  then show ?thesis
  proof cases
    case 1
    then show ?thesis by (intro reply) (simp_all add: serveRequest_def assms)
  next
    case 2
    then show ?thesis by (intro reply) (simp_all add: serveRequest_def assms)
  next
    case 3
    then show ?thesis by (intro crash) (simp_all add: serveRequest_def assms is_text_def)
  qed
next
  case True
  then obtain action where a: "code = 0" "gget m ''action'' = GoStr action" by (auto simp: is_text_iff)
  note sr = serveRequest_def [of env request tD sD e, unfolded assms prod.case Let_def a, simplified]
  consider "\<not> validRequest request action" | "validRequest request action" "gget m ''path'' = GoNull"
    | p where "validRequest request action" "gget m ''path'' = GoStr p" "contains p ''*''"
    | p where "validRequest request action" "gget m ''path'' = GoStr p" "\<not> contains p ''*''"
    | "validRequest request action" "gget m ''path'' \<noteq> GoNull" "\<not> is_text (gget m ''path'')"
    by (auto simp: is_text_iff)
  then show ?thesis
  proof cases
    case 1
    then show ?thesis using a by (intro reply) (simp_all add: sr is_text_iff)
  next
    case 2
    then show ?thesis using a by (intro parsed) (simp_all add: sr served_map_def)
  next
    case (3 p)
    then show ?thesis using a by (intro reply) (simp_all add: sr is_text_iff)
  next
    case (4 p)
    then show ?thesis using a by (intro parsed) (simp_all add: sr served_map_def is_text_iff)
  next
    case 5
    then show ?thesis using a by (intro crash) (auto simp: sr is_text_def)
  qed
qed

text \<open>
  Error answers otherwise find their sender. When the decoded request carries the router id of
  a client, as every readable message of a transport manager does, and has no filter, whatever is
  sent back to the transport manager is an error answer that the manager delivers to that client,
  and the global error map keeps the members and the shape it needs for this.
\<close>

theorem error_answer_returns_to_sender:
  assumes "serveRequest env request tD sD e = Some (e', ToTransport t answer)"
    and "MapRequest (fmtNum env) request = (code, m)" and "error_map_ok e"
    and "gget m ''RouterId'' = GoStr (router_id (int a) (int c))" and "c < 2 ^ 63"
    and "gget m ''filter'' = GoNull"
  shows "t = tD \<and> error_map_ok e' \<and> answer = FinalizeMessage e'
    \<and> (\<exists>trimmed. RemoveInternalData answer = Some (trimmed, int c))"
proof -
  let ?m = "served_map m"
  have keep: "gget ?m k = gget m k" if "k \<noteq> ''path''" for k
    using that by (auto simp: served_map_def gget_gset split: gojson.splits)
  have sp: "\<exists>i alt m'. (m' = m \<or> m' = ?m) \<and> (e', ToTransport t answer) = reply_error env m' i alt tD e"
  proof -
    have search: "\<exists>i alt. (e', ToTransport t answer) = reply_error env ?m i alt tD e"
      if "searchAndForward env ?m ps tD sD e = Some (e', ToTransport t answer)" for ps
      using that
      by (auto simp: searchAndForward_def reply_error_def setTokenErrorResponse_def Let_def bind_eq_Some_conv
          split: if_splits prod.splits)
    have "\<exists>i alt. (e', ToTransport t answer) = reply_error env ?m i alt tD e"
      if "serveParsed env request action ?m tD sD e = Some (e', ToTransport t answer)" for action
      using that assms(6) search
      by (auto simp: serveParsed_def issueServiceRequest_def keep bind_eq_Some_conv split: if_splits)
    note parsed_reply = this
    show ?thesis
      using assms(2)
    proof (cases rule: serveRequest_cases [of env request code m tD sD e])
      case (reply i)
      then show ?thesis using assms(1) by auto
    next
      case (parsed action)
      then have "serveParsed env request action (served_map m) tD sD e = Some (e', ToTransport t answer)"
        using assms(1) by simp
      then show ?thesis using parsed_reply by blast
    next
      case crash
      then show ?thesis using assms(1) by simp
    qed
  qed
  then obtain i alt m' where m': "gget m' ''RouterId'' = GoStr (router_id (int a) (int c))"
    and r: "(e', ToTransport t answer) = reply_error env m' i alt tD e"
    using assms(4) keep [of "''RouterId''"] by auto
  from r have "e' = SetErrorResponse (rfcTime env) m' e i alt" "t = tD" "answer = FinalizeMessage e'"
    by (simp_all add: reply_error_def Let_def)
  then show ?thesis
    using error_answer_client [OF assms(3,5) disjI1 [OF m']] SetErrorResponse_ok [OF assms(3)] by metis
qed

section \<open>Crashes\<close>

text \<open>The access token server answers with strings where the core expects them.\<close>

definition ats_typed :: "'n core_env \<Rightarrow> bool" where
  "ats_typed env \<longleftrightarrow> (\<forall>q k. fst (unmarshal_map (fmtNum env) (ats env q))
     \<or> (let v = gget (snd (unmarshal_map (fmtNum env) (ats env q))) k in v = GoNull \<or> as_string v \<noteq> None))"

lemma verifyToken_total: "ats_typed env \<Longrightarrow> verifyToken env t a p v \<noteq> None"
proof -
  assume ty: "ats_typed env"
  obtain err m where u: "unmarshal_map (fmtNum env) (ats env (atsRequest t a p v)) = (err, m)" by fastforce
  with ty have s: "err \<or> gget m k = GoNull \<or> as_string (gget m k) \<noteq> None" for k
    unfolding ats_typed_def Let_def by (metis fst_conv snd_conv)
  show ?thesis
    using s [of "''validation''"] s [of "''handle''"] s [of "''gatingId''"]
    by (auto simp: verifyToken_def u string_if_set_def Let_def bind_eq_None_conv split: option.splits)
qed

lemma searchAndForward_total:
  assumes "ats_typed env" and "gget m ''action'' = GoStr action"
  shows "searchAndForward env m [p] tD sD e \<noteq> None"
proof -
  obtain found v where st: "searchTree env p True True 0 [] = (found, v)" by fastforce
  let ?w = "GetMaxValidation v (- 1)"
  have "checkToken env m (path_text found) ?w \<noteq> None"
    using verifyToken_total [OF assms(1)] assms(2)
    by (auto simp: checkToken_def split: option.splits)
  then obtain ec h g where "checkToken env m (path_text found) ?w = Some (ec, h, g)" by auto
  then show ?thesis by (simp add: searchAndForward_def st Let_def)
qed

lemma issueServiceRequest_total:
  assumes "ats_typed env" and "gget m ''action'' = GoStr action" and "gget m ''filter'' = GoNull"
    and "action \<notin> {''internal-killsubscriptions'', ''internal-cancelsubscription''}"
  shows "issueServiceRequest env m tD sD e = None \<longleftrightarrow> as_string (gget m ''path'') = None"
proof (cases "as_string (gget m ''path'')")
  case None
  then show ?thesis using assms(2,4) by (simp add: issueServiceRequest_def)
next
  case (Some p)
  then show ?thesis using assms(2-4) searchAndForward_total [OF assms(1,2), of p tD sD e]
    by (simp add: issueServiceRequest_def)
qed

text \<open>
  C8: Which requests stop the server. A decoded request without a filter makes \<open>serveRequest\<close>
  panic exactly when its action is there but is not a string, or when the request passes the
  textual checks for its action and its path is there but is not a string, or is missing in a
  get, set or subscribe request. All other requests are answered or forwarded.
\<close>

theorem request_crash_characterised:
  assumes "MapRequest (fmtNum env) request = (code, m)" and "ats_typed env" and "gget m ''filter'' = GoNull"
  shows "serveRequest env request tD sD e = None \<longleftrightarrow>
    code = 0 \<and> gget m ''action'' \<noteq> GoNull \<and>
    (\<not> is_text (gget m ''action'')
     \<or> (\<exists>action. gget m ''action'' = GoStr action \<and> validRequest request action
         \<and> (gget m ''path'' \<noteq> GoNull \<and> \<not> is_text (gget m ''path'')
            \<or> gget m ''path'' = GoNull \<and> action \<in> {''get'', ''set'', ''subscribe''})))"
  using assms(1)
proof (cases rule: serveRequest_cases [of env request code m tD sD e])
  case (reply i)
  then show ?thesis by (auto simp: is_text_iff)
next
  case (parsed action)
  have act: "action \<in> {''get'', ''set'', ''subscribe'', ''unsubscribe'', ''internal-killsubscriptions'',
      ''internal-cancelsubscription''}"
    using parsed(3) by (simp add: validRequest_def split: if_splits)
  have g: "gget (served_map m) ''action'' = GoStr action" "gget (served_map m) ''filter'' = GoNull"
    using parsed(2) assms(3) by (auto simp: served_map_def gget_gset split: gojson.splits)
  have p: "as_string (gget (served_map m) ''path'') = None \<longleftrightarrow> gget m ''path'' = GoNull"
    using parsed(5) by (auto simp: served_map_def gget_gset is_text_iff)
  have "serveParsed env request action (served_map m) tD sD e = None \<longleftrightarrow>
      action \<in> {''get'', ''set'', ''subscribe''} \<and> gget m ''path'' = GoNull"
  proof -
    have "issueServiceRequest env (served_map m) tD sD e \<noteq> None"
      if "action \<in> {''internal-killsubscriptions'', ''internal-cancelsubscription''}"
      using that g by (auto simp: issueServiceRequest_def)
    then show ?thesis
      unfolding p [symmetric] using act
      by (elim insertE emptyE) (simp_all add: serveParsed_def issueServiceRequest_total [OF assms(2) g] g)
  qed
  then show ?thesis using parsed by (auto simp: is_text_iff)
next
  case crash
  then show ?thesis by blast
qed

section \<open>A small server\<close>

text \<open>
  One leaf under read-write control with consent, no access token server to speak of, and a client
  that asks for the leaf.
\<close>

definition demo_lib :: "int vss_lib" where
  "demo_lib = \<lparr>VSSsearchNodes = (\<lambda>path deep leaf n ns. if path = ''Vehicle.Speed'' then ([(path, 2)], 12) else ([], 0)),
     VSSgetName = (\<lambda>n. ''Speed''), VSSgetType = (\<lambda>n. n), VSSgetDescr = (\<lambda>n. []), VSSgetDatatype = (\<lambda>n. ''float''),
     VSSgetChildren = (\<lambda>n. [])\<rparr>"

definition demo_env :: "int core_env" where
  "demo_env = \<lparr>vss = demo_lib, ats = (\<lambda>q. []), noScopeBody = (\<lambda>c. None), fmtNum = (\<lambda>t. Some t),
     mapOrder = (\<lambda>m. m), rfcTime = ''2020-05-01T15:34:35Z''\<rparr>"

definition demo_kvs :: gomap where
  "demo_kvs = [(''action'', GoStr ''get''), (''origin'', GoStr ''internal''), (''path'', GoStr ''Vehicle.Speed'')]"


definition demo_request :: string where
  "demo_request = AddRoutingForwardRequest (marshal (GoObj demo_kvs)) 1 0"

lemma demo_parse: "parse_json (marshal (GoObj demo_kvs)) = Some (GoObj demo_kvs, [])"
  by code_simp

lemma demo_decoded: "MapRequest (fmtNum demo_env) demo_request = (0, client_map (fmtNum demo_env) 1 0 demo_kvs)"
  by code_simp

lemma demo_valid: "validRequest demo_request ''get''"
  by code_simp

lemma demo_served:
  "serveRequest demo_env demo_request 1 0 initErrorResponseMap =
     Some (initErrorResponseMap, ToService 0 (FinalizeMessage (served_map (client_map (fmtNum demo_env) 1 0 demo_kvs))))"
  by code_simp


lemma client_request_decoded_witness:
  "\<exists>m. MapRequest (fmtNum demo_env) demo_request = (0, m) \<and> gget m ''origin'' = GoStr ''internal''"
proof -
  have "\<not> num_error (fmtNum demo_env) (GoObj demo_kvs)" "demo_kvs \<noteq> []" by code_simp+
  from client_request_decoded [OF demo_parse this(2,1), of 1 0] show ?thesis
    by (auto simp: demo_request_def demo_kvs_def)
qed

lemma request_access_is_maximum_witness:
  "snd (snd (searchLoop demo_env [''Vehicle.Mass'', ''Vehicle.Speed''] [] [] (- 1))) mod 10 = 2"
proof -
  have "\<forall>p \<in> set [''Vehicle.Mass'', ''Vehicle.Speed'']. access_value (path_access demo_env p)" by code_simp
  from request_access_is_maximum [OF _ this] show ?thesis
    by (simp add: path_access_def searchTree_def demo_env_def demo_lib_def)
qed

definition token_env :: "int core_env" where
  "token_env = demo_env\<lparr>ats := (\<lambda>q. marshal (GoObj [(''validation'', GoStr ''0'')]))\<rparr>"

definition token_kvs :: gomap where
  "token_kvs = [(''action'', GoStr ''get''), (''authorization'', GoStr ''t''), (''path'', GoStr ''Vehicle.Speed'')]"

definition token_map :: gomap where
  "token_map = client_map (fmtNum token_env) 1 0 token_kvs"

lemma token_served:
  "serveRequest token_env (AddRoutingForwardRequest (marshal (GoObj token_kvs)) 1 0) 1 0 initErrorResponseMap =
     Some (initErrorResponseMap, ToService 0 (FinalizeMessage (served_map token_map)))"
  by code_simp

lemma token_decoded:
  "MapRequest (fmtNum token_env) (AddRoutingForwardRequest (marshal (GoObj token_kvs)) 1 0) = (0, token_map)"
  by code_simp



lemma malformed_answer_goes_to_earlier_client_witness:
  "\<exists>e' answer trimmed. serveRequest demo_env ''get'' 1 0 (gset ''RouterId'' (GoStr (router_id 1 7)) initErrorResponseMap)
      = Some (e', ToTransport 1 answer) \<and> RemoveInternalData answer = Some (trimmed, 7)"
proof -
  have "error_map_ok (gset ''RouterId'' (GoStr (router_id 1 7)) initErrorResponseMap)"
    "decode_map (fmtNum demo_env) ''get'' = (True, [])" by code_simp+
  then show ?thesis
    using malformed_answer_goes_to_earlier_client
      [of "gset ''RouterId'' (GoStr (router_id 1 7)) initErrorResponseMap" 1 7 demo_env "''get''" 1 0]
    by (simp add: gget_gset)
qed

definition miss_kvs :: gomap where
  "miss_kvs = [(''action'', GoStr ''get''), (''path'', GoStr ''Vehicle.Mass'')]"

definition miss_map :: gomap where
  "miss_map = client_map (fmtNum demo_env) 1 5 miss_kvs"

lemma error_answer_returns_to_sender_witness:
  "\<exists>e' answer trimmed. serveRequest demo_env (AddRoutingForwardRequest (marshal (GoObj miss_kvs)) 1 5) 1 0 initErrorResponseMap
      = Some (e', ToTransport 1 answer) \<and> RemoveInternalData answer = Some (trimmed, 5)"
proof -
  let ?e = "SetErrorResponse (rfcTime demo_env) (served_map miss_map) initErrorResponseMap 6 []"
  have s: "serveRequest demo_env (AddRoutingForwardRequest (marshal (GoObj miss_kvs)) 1 5) 1 0 initErrorResponseMap
      = Some (?e, ToTransport 1 (FinalizeMessage ?e))"
    "MapRequest (fmtNum demo_env) (AddRoutingForwardRequest (marshal (GoObj miss_kvs)) 1 5) = (0, miss_map)"
    "gget miss_map ''RouterId'' = GoStr (router_id (int 1) (int 5))" "gget miss_map ''filter'' = GoNull"
    by code_simp+
  from error_answer_returns_to_sender [OF s(1,2) error_map_ok_init s(3) _ s(4)] s(1) show ?thesis by auto
qed

lemma request_crash_characterised_witness:
  "serveRequest demo_env (marshal (GoObj [(''action'', GoNum ''5'')])) 1 0 [] = None"
proof -
  have "unmarshal_map f [] = (True, [])" for f
    by (simp add: unmarshal_map_def parse_whole_def parse_json_def next_token_def skip_ws_def)
  then have t: "ats_typed demo_env" by (simp add: ats_typed_def demo_env_def)
  have m: "MapRequest (fmtNum demo_env) (marshal (GoObj [(''action'', GoNum ''5'')])) = (0, [(''action'', GoNum ''5'')])"
    by code_simp
  show ?thesis
    using request_crash_characterised [OF m t, of 1 0 "[]"] by (simp add: gget_def is_text_def)
qed

end
