(* ===== verification/Jwt.thy ===== *)
theory Jwt
  imports Server_Utils
begin

text \<open>
  JSON web tokens, \<open>JsonWebToken\<close> of \<open>utils/datatypes.go\<close>, with the symmetric signature the
  access token server uses. The keyed hash (\<open>GenerateHmac\<close> is \<open>crypto/hmac\<close> over SHA-256) is
  the argument \<open>hmac\<close>. Signatures with public keys are not modelled.
\<close>

section \<open>Base64\<close>

definition b64_char :: "nat \<Rightarrow> char" where
  "b64_char v =
     (if v < 26 then char_of (v + 65) else if v < 52 then char_of (v + 71)
      else if v < 62 then char_of (v - 4) else if v = 62 then CHR ''-'' else CHR ''_'')"

text \<open>\<open>base64.RawURLEncoding.EncodeToString\<close>.\<close>

fun b64_encode :: "string \<Rightarrow> string" where
  "b64_encode (x # y # z # s) =
     (let a = of_char x; b = of_char y; c = of_char z :: nat in
      b64_char (a div 4) # b64_char (a mod 4 * 16 + b div 16) # b64_char (b mod 16 * 4 + c div 64)
        # b64_char (c mod 64) # b64_encode s)"
| "b64_encode [x, y] =
     (let a = of_char x; b = of_char y :: nat in
      [b64_char (a div 4), b64_char (a mod 4 * 16 + b div 16), b64_char (b mod 16 * 4)])"
| "b64_encode [x] = (let a = of_char x :: nat in [b64_char (a div 4), b64_char (a mod 4 * 16)])"
| "b64_encode [] = []"

text \<open>The decoder with its error.\<close>

definition b64_decode_ok :: "string \<Rightarrow> bool" where
  "b64_decode_ok s =
     (let t = filter (\<lambda>c. c \<noteq> CHR 0x0A \<and> c \<noteq> CHR 0x0D) s
      in list_all (\<lambda>c. b64_value c \<noteq> None) t \<and> length t mod 4 \<noteq> 1)"

section \<open>Tokens\<close>

record JsonWebToken =
  Header :: string
  Payload :: string
  EncodedHeader :: string
  EncodedPayload :: string
  EncodedSignature :: string

definition emptyToken :: JsonWebToken where
  "emptyToken = \<lparr>Header = [], Payload = [], EncodedHeader = [], EncodedPayload = [], EncodedSignature = []\<rparr>"

definition JsonRecursiveMarshall :: "string \<Rightarrow> string \<Rightarrow> string \<Rightarrow> string" where
  "JsonRecursiveMarshall key value jplain =
     (if key = [] \<or> value = [] then jplain
      else
        (let value' = (if prefix [CHR 0x7B] value then value else dquoted value)
         in if jplain = [] then [CHR 0x7B] @ dquoted key @ '':'' @ value' @ [CHR 0x7D]
            else butlast jplain @ '','' @ dquoted key @ '':'' @ value' @ [CHR 0x7D]))"

definition SetHeader :: "string \<Rightarrow> JsonWebToken \<Rightarrow> JsonWebToken" where
  "SetHeader algorithm t =
     t\<lparr>Header := [CHR 0x7B] @ dquoted ''alg'' @ '':'' @ dquoted algorithm @ '','' @ dquoted ''typ'' @ '':''
        @ dquoted ''JWT'' @ [CHR 0x7D]\<rparr>"

definition AddClaim :: "string \<Rightarrow> string \<Rightarrow> JsonWebToken \<Rightarrow> JsonWebToken" where
  "AddClaim key value t = t\<lparr>Payload := JsonRecursiveMarshall key value (Payload t)\<rparr>"

definition Encode :: "JsonWebToken \<Rightarrow> JsonWebToken" where
  "Encode t = t\<lparr>EncodedHeader := b64_encode (Header t), EncodedPayload := b64_encode (Payload t)\<rparr>"

definition SymmSign :: "(string \<Rightarrow> string \<Rightarrow> string) \<Rightarrow> string \<Rightarrow> JsonWebToken \<Rightarrow> JsonWebToken" where
  "SymmSign hmac key t =
     (let t' = Encode t
      in t'\<lparr>EncodedSignature := b64_encode (hmac (EncodedHeader t' @ ''.'' @ EncodedPayload t') key)\<rparr>)"

definition GetFullToken :: "JsonWebToken \<Rightarrow> string" where
  "GetFullToken t = EncodedHeader t @ ''.'' @ EncodedPayload t @ ''.'' @ EncodedSignature t"

text \<open>\<open>strings.Split\<close> at a character.\<close>

fun split_at :: "char \<Rightarrow> string \<Rightarrow> string list" where
  "split_at c [] = [[]]"
| "split_at c (x # s) =
     (if x = c then [] # split_at c s
      else (case split_at c s of [] \<Rightarrow> [[x]] | p # ps \<Rightarrow> (x # p) # ps))"

text \<open>\<open>None\<close> is an error.\<close>

definition DecodeFromFull :: "string \<Rightarrow> JsonWebToken option" where
  "DecodeFromFull input =
     (case split_at (CHR ''.'') input of
        [h, p, s] \<Rightarrow>
          (if b64_decode_ok h \<and> b64_decode_ok p
           then Some \<lparr>Header = b64_decode h, Payload = b64_decode p, EncodedHeader = h,
                      EncodedPayload = p, EncodedSignature = s\<rparr>
           else None)
      | _ \<Rightarrow> None)"

text \<open>
  Whether \<open>VerifyTokenSignature\<close> returns no error. With a key that is a string, a header that
  does not name HS256 leads to the check for public keys, which has no case for a string.
\<close>

definition CheckSignature :: "(string \<Rightarrow> string \<Rightarrow> string) \<Rightarrow> JsonWebToken \<Rightarrow> string \<Rightarrow> bool" where
  "CheckSignature hmac t key =
     (contains (Header t) ''HS256''
      \<and> b64_encode (hmac (EncodedHeader t @ ''.'' @ EncodedPayload t) key) = EncodedSignature t)"

definition VerifyTokenSignature :: "(string \<Rightarrow> string \<Rightarrow> string) \<Rightarrow> string \<Rightarrow> string \<Rightarrow> bool" where
  "VerifyTokenSignature hmac accessToken key =
     (case DecodeFromFull accessToken of None \<Rightarrow> False | Some t \<Rightarrow> CheckSignature hmac t key)"

section \<open>What is encoded decodes\<close>

lemma b64_value_char: "v < 64 \<Longrightarrow> b64_value (b64_char v) = Some v"
  by (auto simp: b64_value_def b64_char_def of_char_of Let_def)

lemma b64_char_set: "v < 64 \<Longrightarrow> b64_char v \<noteq> CHR ''.'' \<and> b64_char v \<noteq> CHR 0x0A \<and> b64_char v \<noteq> CHR 0x0D"
proof -
  assume "v < 64"
  then have "b64_value (b64_char v) \<noteq> None" by (simp add: b64_value_char)
  moreover have "b64_value (CHR ''.'') = None" "b64_value (CHR 0x0A) = None" "b64_value (CHR 0x0D) = None"
    by (simp_all add: b64_value_def)
  ultimately show ?thesis by metis
qed

text \<open>The six-bit groups of a text.\<close>

fun sextets :: "nat list \<Rightarrow> nat list" where
  "sextets (a # b # c # s) = a div 4 # (a mod 4 * 16 + b div 16) # (b mod 16 * 4 + c div 64) # c mod 64 # sextets s"
| "sextets [a, b] = [a div 4, a mod 4 * 16 + b div 16, b mod 16 * 4]"
| "sextets [a] = [a div 4, a mod 4 * 16]"
| "sextets [] = []"

lemma b64_encode_sextets: "b64_encode s = map b64_char (sextets (map of_char s))"
  by (induction s rule: b64_encode.induct) (simp_all add: Let_def)

lemma sextets_lt: "\<forall>b \<in> set bs. b < 256 \<Longrightarrow> \<forall>v \<in> set (sextets bs). v < 64"
proof (induction bs rule: sextets.induct)
  case (1 a b c s)
  then have "a div 4 < 64" "a mod 4 * 16 + b div 16 < 64" "b mod 16 * 4 + c div 64 < 64" by auto
  with 1 show ?case by simp
next
  case (2 a b)
  then have "a div 4 < 64" "a mod 4 * 16 + b div 16 < 64" "b mod 16 * 4 < 64" by auto
  then show ?case by simp
next
  case (3 a)
  then have "a div 4 < 64" "a mod 4 * 16 < 64" by auto
  then show ?case by simp
qed simp

lemma sextets_length: "length (sextets bs) mod 4 \<noteq> 1"
  by (induction bs rule: sextets.induct) simp_all

lemma sextet_bytes:
  fixes a b c :: nat
  assumes "a < 256" "b < 256" "c < 256"
  shows "a div 4 * 4 + (a mod 4 * 16 + b div 16) div 16 = a"
    and "(a mod 4 * 16 + b div 16) mod 16 * 16 + (b mod 16 * 4 + c div 64) div 4 = b"
    and "(b mod 16 * 4 + c div 64) mod 4 * 64 + c mod 64 = c"
proof -
  have "b div 16 < 16" "c div 64 < 4" using assms by auto
  then have "(a mod 4 * 16 + b div 16) div 16 = a mod 4" "(a mod 4 * 16 + b div 16) mod 16 = b div 16"
    "(b mod 16 * 4 + c div 64) div 4 = b mod 16" "(b mod 16 * 4 + c div 64) mod 4 = c div 64"
    by simp_all
  then show "a div 4 * 4 + (a mod 4 * 16 + b div 16) div 16 = a"
    "(a mod 4 * 16 + b div 16) mod 16 * 16 + (b mod 16 * 4 + c div 64) div 4 = b"
    "(b mod 16 * 4 + c div 64) mod 4 * 64 + c mod 64 = c" by simp_all
qed

lemma b64_groups_sextets: "\<forall>b \<in> set bs. b < 256 \<Longrightarrow> b64_groups True (sextets bs) = map char_of bs"
proof (induction bs rule: sextets.induct)
  case (1 a b c s)
  then show ?case using sextet_bytes [of a b c] by simp
next
  case (2 a b)
  then show ?case using sextet_bytes [of a b 0] by simp
next
  case (3 a)
  then show ?case using sextet_bytes [of a 0 0] by simp
qed simp

lemma b64_plain: "x \<in> set (b64_encode s) \<Longrightarrow> x \<noteq> CHR ''.'' \<and> x \<noteq> CHR 0x0A \<and> x \<noteq> CHR 0x0D \<and> b64_value x \<noteq> None"
  using sextets_lt [of "map of_char s"] b64_char_set b64_value_char
  by (fastforce simp: b64_encode_sextets)

lemma b64_encode_chars:
  "filter (\<lambda>c. c \<noteq> CHR 0x0A \<and> c \<noteq> CHR 0x0D) (b64_encode s) = b64_encode s"
  "CHR ''.'' \<notin> set (b64_encode s)"
  "map b64_value (b64_encode s) = map Some (sextets (map of_char s))"
  using b64_plain sextets_lt [of "map of_char s"]
  by (auto simp: filter_id_conv b64_encode_sextets b64_value_char)

theorem b64_decode_encode: "b64_decode (b64_encode s) = s"
proof -
  have tw: "takeWhile (\<lambda>v. \<exists>y. v = Some y) (map Some vs) = map Some vs" for vs :: "nat list"
    by (induction vs) simp_all
  have "b64_decode (b64_encode s) = b64_groups True (sextets (map of_char s))"
    unfolding b64_decode_def b64_encode_chars Let_def
    by (simp add: tw b64_encode_sextets comp_def)
  also have "\<dots> = map char_of (map of_char s :: nat list)" by (rule b64_groups_sextets) simp
  finally show ?thesis by (simp add: comp_def)
qed

lemma b64_encode_ok: "b64_decode_ok (b64_encode s)"
  unfolding b64_decode_ok_def b64_encode_chars
  using b64_plain [of _ s] sextets_length [of "map of_char s"] by (auto simp: list_all_iff b64_encode_sextets)

lemma split_at_none: "c \<notin> set s \<Longrightarrow> split_at c s = [s]"
  by (induction s) auto

lemma split_at_append: "c \<notin> set s \<Longrightarrow> split_at c (s @ c # t) = s # split_at c t"
  by (induction s) auto

text \<open>Signing and taking apart again.\<close>

lemma DecodeFromFull_signed:
  "DecodeFromFull (GetFullToken (SymmSign hmac key t)) =
     Some \<lparr>Header = Header t, Payload = Payload t, EncodedHeader = b64_encode (Header t),
           EncodedPayload = b64_encode (Payload t),
           EncodedSignature = b64_encode (hmac (b64_encode (Header t) @ ''.'' @ b64_encode (Payload t)) key)\<rparr>"
  by (simp add: DecodeFromFull_def GetFullToken_def SymmSign_def Encode_def Let_def split_at_append
      split_at_none b64_encode_chars b64_encode_ok b64_decode_encode)

lemma VerifyTokenSignature_signed:
  "contains (Header t) ''HS256'' \<Longrightarrow> VerifyTokenSignature hmac (GetFullToken (SymmSign hmac key t)) key"
  by (simp add: VerifyTokenSignature_def DecodeFromFull_signed CheckSignature_def)

end
