(* ===== verification/Ats.thy ===== *)
theory Ats
  imports Jwt
begin

text \<open>
  The access token server, \<open>server/vissv2server/atServer/atServer.go\<close>: which tokens it hands
  out, what it asks the consent framework, and what it answers the server core about a token. A
  handler gives the new state and its answer; \<open>None\<close> is a run-time panic, which ends the whole
  server. The configuration holds what the code reads from files or calls in libraries: the
  purpose and scope lists, the keyed hash, the check of the signature of an access grant token
  against the key of its server, the tree search, and the decoding of an access token request,
  which goes through the proof-of-possession and key formats. Times are nanoseconds since 1970,
  and each handler is given the time at which it runs.
\<close>

section \<open>Data\<close>

text \<open>The roles of the user, the application and the device.\<close>

record ContextElement =
  Actor :: "string list list"

record AccessElement =
  AccessPath :: string
  Permission :: string

record PurposeElement =
  Short :: string
  Long :: string
  Context :: "ContextElement list"
  Access :: "AccessElement list"

record ScopeElement =
  ScopeContext :: "ContextElement list"
  NoAccess :: "string list"

text \<open>
  A decoded access token request: the grant token, the purpose, the proof of possession (empty when
  there is none) and the claims of the two tokens, a missing claim reading as the empty string.
\<close>

type_synonym claims = "(string \<times> string) list"

definition claim :: "claims \<Rightarrow> string \<Rightarrow> string" where
  "claim cs k = (case map_of cs k of None \<Rightarrow> [] | Some v \<Rightarrow> v)"

record AtGenPayload =
  AgToken :: string
  Purpose :: string
  Pop :: string
  AgtHeaderClaims :: claims
  AgtPayloadClaims :: claims
  PopPayloadClaims :: claims
  PopThumb :: string
  PopSignatureOk :: bool

definition emptyPayload :: AtGenPayload where
  "emptyPayload = \<lparr>AgToken = [], Purpose = [], Pop = [], AgtHeaderClaims = [], AgtPayloadClaims = [],
     PopPayloadClaims = [], PopThumb = [], PopSignatureOk = False\<rparr>"

record PendingListElem =
  PendingGatingId :: int
  Consent :: string
  AtGenData :: AtGenPayload
  AgtExpiryTime :: string

record ActiveListElem =
  ActiveGatingId :: int
  Atoken :: string
  AtokenHandle :: string
  AtExpiryTime :: string

record ats_conf =
  hmac :: "string \<Rightarrow> string \<Rightarrow> string"
  agtSignatureOk :: "AtGenPayload \<Rightarrow> bool"
  decodeAtGen :: "string \<Rightarrow> string + AtGenPayload"
  pList :: "PurposeElement list"
  sList :: "ScopeElement list"
  wildcardPaths :: "string \<Rightarrow> string list"
  accessValue :: "string \<Rightarrow> int"
  numFmt :: "string \<Rightarrow> string option"
  visitOrder :: "gomap \<Rightarrow> gomap"

record ats_state =
  pendingList :: "PendingListElem list"
  activeList :: "ActiveListElem list"
  GatingId :: int
  jtiCache :: "string list"
  ecfAvailable :: bool
  expiryTicker :: "int option"

definition LISTSIZE :: nat where
  "LISTSIZE = 100"

definition theAtSecret :: string where
  "theAtSecret = ''averysecretkeyvalue2''"

definition AT_DURATION :: int where
  "AT_DURATION = 1 * 60 * 60"

definition GAP :: int where
  "GAP = 3"

definition LIFETIME :: int where
  "LIFETIME = 5"

definition emptyPending :: PendingListElem where
  "emptyPending = \<lparr>PendingGatingId = - 1, Consent = [], AtGenData = emptyPayload, AgtExpiryTime = []\<rparr>"

definition emptyActive :: ActiveListElem where
  "emptyActive = \<lparr>ActiveGatingId = - 1, Atoken = [], AtokenHandle = [], AtExpiryTime = []\<rparr>"

text \<open>\<open>initLists\<close> and \<open>initGatingId\<close>; the argument is the random number of the latter.\<close>

definition initAts :: "int \<Rightarrow> ats_state" where
  "initAts r = \<lparr>pendingList = replicate LISTSIZE emptyPending, activeList = replicate LISTSIZE emptyActive,
     GatingId = 666 + r, jtiCache = [], ecfAvailable = False, expiryTicker = Some (24 * 3600 * 10 ^ 9)\<rparr>"

section \<open>Time\<close>

text \<open>\<open>time.Unix(s, 0)\<close>; the library counts seconds since the year 1 in 64 bits.\<close>

definition unixTime :: "int \<Rightarrow> int" where
  "unixTime s = (sint (word_of_int (s + 62135596800) :: 64 word) - 62135596800) * 10 ^ 9"

definition unixSeconds :: "int \<Rightarrow> int" where
  "unixSeconds now = now div 10 ^ 9"

section \<open>Purposes\<close>

definition getActorRole :: "nat \<Rightarrow> string \<Rightarrow> string option" where
  "getActorRole actorIndex context =
     (case index_of context ''+'' of
        None \<Rightarrow> if actorIndex = 0 \<or> actorIndex = 1 then None else Some context
      | Some delimiter1 \<Rightarrow>
          (if actorIndex = 0 then Some (take delimiter1 context)
           else (case index_of (drop (delimiter1 + 1) context) ''+'' of
                   None \<Rightarrow> if actorIndex = 1 then None else Some (drop (delimiter1 + 1) context)
                 | Some delimiter2 \<Rightarrow>
                     if actorIndex = 1 then Some (take delimiter2 (drop (delimiter1 + 1) context))
                     else Some (drop (delimiter1 + 1 + delimiter2 + 1) context))))"

definition actorValid :: "string \<Rightarrow> string list list \<Rightarrow> nat \<Rightarrow> bool option" where
  "actorValid context actors j =
     (if actors ! j = [] then Some False
      else map_option (\<lambda>r. r \<in> set (actors ! j)) (getActorRole j context))"

fun contextLoop :: "ContextElement list \<Rightarrow> string \<Rightarrow> bool option" where
  "contextLoop [] context = Some False"
| "contextLoop (ce # ces) context = do {
     u \<leftarrow> actorValid context (Actor ce) 0;
     a \<leftarrow> actorValid context (Actor ce) 1;
     d \<leftarrow> actorValid context (Actor ce) 2;
     if u \<and> a \<and> d then Some True else contextLoop ces context }"

definition checkAuthorization :: "PurposeElement \<Rightarrow> string \<Rightarrow> bool option" where
  "checkAuthorization pe context = contextLoop (Context pe) context"

definition matchingContext :: "ScopeElement \<Rightarrow> string \<Rightarrow> bool option" where
  "matchingContext se context = contextLoop (ScopeContext se) context"

fun validatePurpose :: "PurposeElement list \<Rightarrow> string \<Rightarrow> string \<Rightarrow> bool option" where
  "validatePurpose [] purpose context = Some False"
| "validatePurpose (pe # pes) purpose context =
     (if Short pe = purpose then do {
        ok \<leftarrow> checkAuthorization pe context;
        if ok then Some True else validatePurpose pes purpose context }
      else validatePurpose pes purpose context)"

fun accessLoop :: "AccessElement list \<Rightarrow> string \<Rightarrow> string \<Rightarrow> int option" where
  "accessLoop [] action path = None"
| "accessLoop (ae # aes) action path =
     (if AccessPath ae = path then Some (if action = ''set'' \<and> Permission ae = ''read-only'' then 61 else 0)
      else accessLoop aes action path)"

fun validatePurposeAndAccessPermission ::
  "PurposeElement list \<Rightarrow> string \<Rightarrow> string \<Rightarrow> string \<Rightarrow> int" where
  "validatePurposeAndAccessPermission [] purpose action path = 60"
| "validatePurposeAndAccessPermission (pe # pes) purpose action path =
     (if Short pe = purpose then
        (case accessLoop (Access pe) action path of
           Some code \<Rightarrow> code
         | None \<Rightarrow> validatePurposeAndAccessPermission pes purpose action path)
      else validatePurposeAndAccessPermission pes purpose action path)"

fun firstNonzero :: "int list \<Rightarrow> int" where
  "firstNonzero [] = 0"
| "firstNonzero (x # xs) = (if x \<noteq> 0 then x else firstNonzero xs)"

definition validateRequestAccess :: "ats_conf \<Rightarrow> string \<Rightarrow> string \<Rightarrow> string list \<Rightarrow> int" where
  "validateRequestAccess conf purpose action paths =
     firstNonzero (concat (map (\<lambda>p.
       map (validatePurposeAndAccessPermission (pList conf) purpose action)
         (if contains p ''*'' then wildcardPaths conf p else [p])) paths))"

fun checkifConsent :: "ats_conf \<Rightarrow> PurposeElement list \<Rightarrow> string \<Rightarrow> bool" where
  "checkifConsent conf [] purpose = False"
| "checkifConsent conf (pe # pes) purpose =
     (if Short pe = purpose \<and> list_ex (\<lambda>ae. accessValue conf (AccessPath ae) div 10 = 1) (Access pe) then True
      else checkifConsent conf pes purpose)"

section \<open>No-scope requests\<close>

definition synthesizeNoScope :: "ScopeElement \<Rightarrow> string option" where
  "synthesizeNoScope se =
     (if length (NoAccess se) = 1 then Some (dquoted (NoAccess se ! 0))
      else
        (let noScope = ''['' @ concat (map (\<lambda>p. dquoted p @ '', '') (NoAccess se))
         in if length noScope < 2 then None else Some (take (length noScope - 2) noScope @ '']'')))"

fun getNoAccessScope :: "ScopeElement list \<Rightarrow> string \<Rightarrow> string option" where
  "getNoAccessScope [] context = Some (dquoted [])"
| "getNoAccessScope (se # ses) context = do {
     m \<leftarrow> matchingContext se context;
     if m then synthesizeNoScope se else getNoAccessScope ses context }"

definition noScopeResponse :: "ats_conf \<Rightarrow> string \<Rightarrow> string option" where
  "noScopeResponse conf input =
     (case unmarshal_struct2 ''context'' ''context'' input of
        None \<Rightarrow> Some ([CHR 0x7B] @ dquoted ''no_access'' @ '':'' @ dquoted [] @ [CHR 0x7D])
      | Some (context, _) \<Rightarrow> do {
          res \<leftarrow> getNoAccessScope (sList conf) context;
          Some ([CHR 0x7B] @ dquoted ''no_access'' @ '':'' @ res @ [CHR 0x7D]) })"

section \<open>Token validation\<close>

record AtValidatePayload =
  VToken :: string
  VPaths :: "string list"
  VAction :: string
  VValidation :: string

definition extractAtValidatePayloadLevel2 :: "gojson list \<Rightarrow> string list" where
  "extractAtValidatePayloadLevel2 ps = map (\<lambda>v. case v of GoStr s \<Rightarrow> s | _ \<Rightarrow> []) ps"

text \<open>Any member that is an array gives the paths, whatever its name.\<close>

fun extractMember :: "AtValidatePayload \<Rightarrow> string \<times> gojson \<Rightarrow> AtValidatePayload" where
  "extractMember p (k, v) =
     (case v of
        GoArr vv \<Rightarrow> p\<lparr>VPaths := extractAtValidatePayloadLevel2 vv\<rparr>
      | GoStr s \<Rightarrow>
          if k = ''token'' then p\<lparr>VToken := s\<rparr>
          else if k = ''action'' then p\<lparr>VAction := s\<rparr>
          else if k = ''validation'' then p\<lparr>VValidation := s\<rparr>
          else if k = ''paths'' then p\<lparr>VPaths := [s]\<rparr>
          else p
      | _ \<Rightarrow> p)"

definition extractAtValidatePayloadLevel1 :: "gomap \<Rightarrow> AtValidatePayload" where
  "extractAtValidatePayloadLevel1 m =
     foldl extractMember \<lparr>VToken = [], VPaths = [], VAction = [], VValidation = []\<rparr> m"

definition getCompleteToken :: "ats_state \<Rightarrow> string \<Rightarrow> string" where
  "getCompleteToken st t =
     (case index_where (\<lambda>e. t = Atoken e \<or> t = AtokenHandle e) (activeList st) of
        None \<Rightarrow> [] | Some i \<Rightarrow> Atoken (activeList st ! i))"

definition getGatingIdAndTokenHandle :: "ats_state \<Rightarrow> string \<Rightarrow> string \<times> string" where
  "getGatingIdAndTokenHandle st t =
     (case index_where (\<lambda>e. t = Atoken e) (activeList st) of
        None \<Rightarrow> ([], [])
      | Some i \<Rightarrow> (show_int (ActiveGatingId (activeList st ! i)), AtokenHandle (activeList st ! i)))"

fun after_last :: "char \<Rightarrow> string \<Rightarrow> string option" where
  "after_last c [] = None"
| "after_last c (x # s) =
     (case after_last c s of Some t \<Rightarrow> Some t | None \<Rightarrow> if x = c then Some s else None)"

definition extractSignature :: "string \<Rightarrow> string" where
  "extractSignature t = (case after_last (CHR ''.'') t of None \<Rightarrow> [] | Some s \<Rightarrow> s)"

definition validateTokenExpiry :: "int \<Rightarrow> string \<Rightarrow> int option" where
  "validateTokenExpiry now t = do {
     iatStr \<leftarrow> ExtractFromToken t ''iat'';
     (case atoi iatStr of
        None \<Rightarrow> Some 10
      | Some iat \<Rightarrow>
          if now < unixTime iat then Some 11
          else do {
            expStr \<leftarrow> ExtractFromToken t ''exp'';
            (case atoi expStr of
               None \<Rightarrow> Some 15
             | Some expiry \<Rightarrow> Some (if unixTime expiry < now then 16 else 0)) }) }"

definition validation_answer :: "int \<Rightarrow> string" where
  "validation_answer code = [CHR 0x7B] @ dquoted ''validation'' @ '':'' @ dquoted (show_int code) @ [CHR 0x7D]"

definition tokenValidationResponse :: "ats_conf \<Rightarrow> int \<Rightarrow> ats_state \<Rightarrow> string \<Rightarrow> string option" where
  "tokenValidationResponse conf now st input =
     (let (err, inputMap) = unmarshal_map (numFmt conf) input in
      if err then Some (validation_answer 1)
      else
        (let p = extractAtValidatePayloadLevel1 (visitOrder conf inputMap);
             t = getCompleteToken st (VToken p)
         in if \<not> VerifyTokenSignature (hmac conf) t theAtSecret then Some (validation_answer 5)
            else do {
              purpose \<leftarrow> ExtractFromToken t ''scp'';
              (let res = validateRequestAccess conf purpose (VAction p) (VPaths p) in
               if res \<noteq> 0 then Some (validation_answer res)
               else do {
                 res2 \<leftarrow> validateTokenExpiry now t;
                 if res2 \<noteq> 0 then Some (validation_answer res2)
                 else
                   (let (gatingId, tokenHandle) = getGatingIdAndTokenHandle st t
                    in Some (if tokenHandle \<noteq> []
                       then [CHR 0x7B] @ dquoted ''validation'' @ '':'' @ dquoted ''0'' @ '', '' @ dquoted ''gatingId''
                         @ '':'' @ dquoted gatingId @ '', '' @ dquoted ''handle'' @ '':'' @ dquoted tokenHandle @ [CHR 0x7D]
                       else [CHR 0x7B] @ dquoted ''validation'' @ '':'' @ dquoted ''0'' @ '', '' @ dquoted ''gatingId''
                         @ '':'' @ dquoted gatingId @ [CHR 0x7D])) }) }))"

definition generateParentResponse :: "ats_conf \<Rightarrow> int \<Rightarrow> ats_state \<Rightarrow> string \<Rightarrow> string option" where
  "generateParentResponse conf now st input =
     (if contains input ''context'' then noScopeResponse conf input
      else tokenValidationResponse conf now st input)"

section \<open>The lists\<close>

text \<open>
  The expiry ticker is set to the earliest expiry in the lists, unless a time cannot be read, and
  stopped when there is none or it has passed.
\<close>

fun minExpiry :: "int \<times> bool \<Rightarrow> string list \<Rightarrow> (int \<times> bool) option" where
  "minExpiry acc [] = Some acc"
| "minExpiry (m, upd) (t # ts) =
     (case atoi t of
        None \<Rightarrow> None
      | Some v \<Rightarrow> minExpiry (if unixTime v < m then (unixTime v, True) else (m, upd)) ts)"

definition setExpiryTicker :: "int \<Rightarrow> ats_state \<Rightarrow> ats_state" where
  "setExpiryTicker now st =
     (let times = map AgtExpiryTime (filter (\<lambda>e. PendingGatingId e \<noteq> - 1) (pendingList st))
            @ map AtExpiryTime (filter (\<lambda>e. ActiveGatingId e \<noteq> - 1) (activeList st))
      in (case minExpiry (now + 10 * 8760 * 3600 * 10 ^ 9, False) times of
            None \<Rightarrow> st
          | Some (m, isUpdated) \<Rightarrow>
              st\<lparr>expiryTicker := (if 0 < m - now \<and> isUpdated then Some (m - now) else None)\<rparr>))"

definition writeToPendingList :: "int \<Rightarrow> int \<Rightarrow> AtGenPayload \<Rightarrow> ats_state \<Rightarrow> ats_state option" where
  "writeToPendingList now gatingId payload st =
     (case index_where (\<lambda>e. PendingGatingId e = - 1) (pendingList st) of
        None \<Rightarrow> Some st
      | Some i \<Rightarrow> do {
          expiry \<leftarrow> ExtractFromToken (AgToken payload) ''exp'';
          Some (setExpiryTicker now
            (st\<lparr>pendingList := (pendingList st)[i := (pendingList st ! i)
               \<lparr>PendingGatingId := gatingId, AtGenData := payload, AgtExpiryTime := expiry\<rparr>]\<rparr>)) })"

definition writeToActiveList :: "int \<Rightarrow> int \<Rightarrow> string \<Rightarrow> ats_state \<Rightarrow> ats_state option" where
  "writeToActiveList now gatingId aToken st =
     (case index_where (\<lambda>e. ActiveGatingId e = - 1) (activeList st) of
        None \<Rightarrow> Some st
      | Some i \<Rightarrow> do {
          expiry \<leftarrow> ExtractFromToken aToken ''exp'';
          Some (setExpiryTicker now
            (st\<lparr>activeList := (activeList st)[i :=
               \<lparr>ActiveGatingId = gatingId, Atoken = aToken, AtokenHandle = extractSignature aToken, AtExpiryTime = expiry\<rparr>]\<rparr>)) })"

definition removeFromPendingList :: "nat \<Rightarrow> ats_state \<Rightarrow> AtGenPayload \<times> ats_state" where
  "removeFromPendingList i st =
     (AtGenData (pendingList st ! i),
      st\<lparr>pendingList := (pendingList st)[i := (pendingList st ! i)\<lparr>PendingGatingId := - 1\<rparr>]\<rparr>)"

definition removeFromActiveList :: "nat \<Rightarrow> ats_state \<Rightarrow> ats_state" where
  "removeFromActiveList i st =
     st\<lparr>activeList := (activeList st)[i := (activeList st ! i)\<lparr>ActiveGatingId := - 1\<rparr>]\<rparr>"

text \<open>
  The first entry in use that has expired, or whose expiry cannot be read; \<open>Inl\<close> says that the
  loop ended with an unreadable time.
\<close>

fun expiredEntry :: "int \<Rightarrow> nat \<Rightarrow> (int \<times> string) list \<Rightarrow> unit + nat option" where
  "expiredEntry now i [] = Inr None"
| "expiredEntry now i ((gid, t) # es) =
     (if gid = - 1 then expiredEntry now (Suc i) es
      else (case atoi t of
              None \<Rightarrow> Inl ()
            | Some v \<Rightarrow> if unixTime v < now then Inr (Some i) else expiredEntry now (Suc i) es))"

definition purgeLists :: "int \<Rightarrow> ats_state \<Rightarrow> ats_state \<times> string" where
  "purgeLists now st =
     (case expiredEntry now 0 (map (\<lambda>e. (PendingGatingId e, AgtExpiryTime e)) (pendingList st)) of
        Inl _ \<Rightarrow> (st, [])
      | Inr (Some i) \<Rightarrow> (setExpiryTicker now (snd (removeFromPendingList i st)), [])
      | Inr None \<Rightarrow>
          (case expiredEntry now 0 (map (\<lambda>e. (ActiveGatingId e, AtExpiryTime e)) (activeList st)) of
             Inl _ \<Rightarrow> (st, [])
           | Inr (Some i) \<Rightarrow>
               (setExpiryTicker now (removeFromActiveList i st), show_int (ActiveGatingId (activeList st ! i)))
           | Inr None \<Rightarrow> (st, [])))"

section \<open>Access token requests\<close>

definition newGatingId :: "ats_state \<Rightarrow> int" where
  "newGatingId st = (GatingId st + 1) mod 9999"

text \<open>The cache of used proofs; its entries leave it after \<open>GAP + LIFETIME + 5\<close> seconds.\<close>

definition addCheckJti :: "string \<Rightarrow> string list \<Rightarrow> (string list \<times> bool)" where
  "addCheckJti jti cache = (if jti \<in> set cache then (cache, False) else (jti # cache, True))"

definition deleteJti :: "string \<Rightarrow> ats_state \<Rightarrow> ats_state" where
  "deleteJti jti st = st\<lparr>jtiCache := removeAll jti (jtiCache st)\<rparr>"

definition error_answer :: "string \<Rightarrow> string" where
  "error_answer msg = [CHR 0x7B] @ dquoted ''error'' @ '': '' @ dquoted msg @ [CHR 0x7D]"

definition CheckIat :: "int \<Rightarrow> AtGenPayload \<Rightarrow> bool" where
  "CheckIat now p =
     (case atoi (claim (PopPayloadClaims p) ''iat'') of
        None \<Rightarrow> False
      | Some iat \<Rightarrow>
          unixSeconds now < sint (word_of_int (iat + GAP + LIFETIME) :: 64 word)
          \<and> sint (word_of_int (iat - GAP) :: 64 word) < unixSeconds now)"

definition CheckThumb :: "string \<Rightarrow> AtGenPayload \<Rightarrow> bool" where
  "CheckThumb thumbprint p = (thumbprint \<noteq> [] \<and> thumbprint = PopThumb p)"

definition validatePop :: "int \<Rightarrow> AtGenPayload \<Rightarrow> string list \<Rightarrow> string list \<times> bool \<times> string" where
  "validatePop now p cache =
     (let (cache', fresh) = addCheckJti (claim (PopPayloadClaims p) ''jti'') cache in
      if \<not> fresh then (cache', False, error_answer ''Repeated JTI'')
      else if \<not> PopSignatureOk p then (cache', False, error_answer ''Cannot validate POP signature'')
      else if \<not> CheckIat now p then (cache', False, error_answer ''Cannot validate POP iat'')
      else if \<not> CheckThumb (claim (AgtPayloadClaims p) ''pub'') p
           then (cache', False, error_answer ''Keys in POP and AGToken are not matching'')
      else if claim (PopPayloadClaims p) ''aud'' \<noteq> ''vissv2/agts'' then (cache', False, error_answer ''Invalid aud'')
      else (cache', True, []))"

definition validateTokenTimestamps :: "int \<Rightarrow> int \<Rightarrow> int \<Rightarrow> bool" where
  "validateTokenTimestamps now iat expiry = (\<not> now < unixTime iat \<and> \<not> unixTime expiry < now)"

text \<open>Every vehicle identification is accepted, with or without one in the token.\<close>

definition checkVin :: "string \<Rightarrow> bool" where
  "checkVin vin = (if length vin = 0 then True else True)"

definition validateRequest ::
  "ats_conf \<Rightarrow> int \<Rightarrow> AtGenPayload \<Rightarrow> string list \<Rightarrow> (string list \<times> bool \<times> string) option" where
  "validateRequest conf now p cache =
     (if \<not> checkVin (claim (AgtHeaderClaims p) ''vin'')
      then Some (cache, False, error_answer ''Incorrect vehicle identifiction'')
      else if \<not> agtSignatureOk conf p then Some (cache, False, error_answer ''AG token signature validation failed'')
      else
        (case atoi (claim (AgtPayloadClaims p) ''iat'') of
           None \<Rightarrow> Some (cache, False, [CHR 0x7B] @ dquoted ''error'' @ '': AG token iat timestamp malformed''
                     @ [CHR 0x22, CHR 0x7D])
         | Some iat \<Rightarrow>
           (case atoi (claim (AgtPayloadClaims p) ''exp'') of
              None \<Rightarrow> Some (cache, False, error_answer ''AG token exp timestamp malformed'')
            | Some expiry \<Rightarrow>
              if \<not> validateTokenTimestamps now iat expiry
              then Some (cache, False, error_answer ''AG token timestamp validation failed'')
              else
                (let (cache', ok, msg) =
                       (if claim (AgtPayloadClaims p) ''pub'' \<noteq> [] then validatePop now p cache else (cache, True, []))
                 in if \<not> ok then Some (cache', False, msg)
                    else do {
                      authorized \<leftarrow> validatePurpose (pList conf) (Purpose p) (claim (AgtPayloadClaims p) ''clx'');
                      Some (if authorized then (cache', True, [])
                            else (cache', False, error_answer ''Purpose validation failed'')) }))))"

definition accessTokenClaims :: "int \<Rightarrow> string \<Rightarrow> AtGenPayload \<Rightarrow> JsonWebToken" where
  "accessTokenClaims now uuid p =
     (let iat = unixSeconds now in
      AddClaim ''jti'' uuid (AddClaim ''aud'' ''w3org/gen2''
        (AddClaim ''clx'' (claim (AgtPayloadClaims p) ''clx'') (AddClaim ''scp'' (Purpose p)
          (AddClaim ''exp'' (show_int (iat + AT_DURATION)) (AddClaim ''iat'' (show_int iat)
            (SetHeader ''HS256'' emptyToken)))))))"

definition generateAt :: "ats_conf \<Rightarrow> int \<Rightarrow> string \<Rightarrow> AtGenPayload \<Rightarrow> string" where
  "generateAt conf now uuid p = GetFullToken (SymmSign (hmac conf) theAtSecret (accessTokenClaims now uuid p))"

definition action_prefix :: "string \<Rightarrow> string" where
  "action_prefix action = [CHR 0x7B] @ dquoted ''action'' @ '': '' @ dquoted action @ '', ''"

text \<open>The message for the consent framework and the answer to the client.\<close>

definition consentAsk :: "AtGenPayload \<Rightarrow> string \<Rightarrow> int \<Rightarrow> string" where
  "consentAsk p signalAccess gatingId =
     action_prefix ''consent-ask'' @ dquoted ''user-roles'' @ '': '' @ dquoted (claim (AgtPayloadClaims p) ''clx'')
       @ '', '' @ dquoted ''purpose'' @ '': '' @ dquoted (Purpose p) @ '', '' @ dquoted ''signal_access'' @ '':''
       @ signalAccess @ '', '' @ dquoted ''messageId'' @ '': '' @ dquoted (show_int gatingId) @ [CHR 0x7D]"

fun getSignalAccess :: "PurposeElement list \<Rightarrow> string \<Rightarrow> string" where
  "getSignalAccess [] purpose = []"
| "getSignalAccess (pe # pes) purpose =
     (if Short pe = purpose
      then ''['' @ commas (map (\<lambda>ae. marshal (GoObj [(''Path'', GoStr (AccessPath ae)),
             (''Permission'', GoStr (Permission ae))])) (Access pe)) @ '']''
      else getSignalAccess pes purpose)"

definition atRequest_consent :: "int \<Rightarrow> string" where
  "atRequest_consent gatingId =
     action_prefix ''at-request'' @ dquoted ''sessionId'' @ '':'' @ dquoted (show_int gatingId) @ '', ''
       @ dquoted ''consent'' @ '':'' @ dquoted ''NOT_SET'' @ [CHR 0x7D]"

definition atRequest_token :: "string \<Rightarrow> string" where
  "atRequest_token aToken = action_prefix ''at-request'' @ dquoted ''aToken'' @ '':'' @ dquoted aToken @ [CHR 0x7D]"

definition accessTokenResponse ::
  "ats_conf \<Rightarrow> int \<Rightarrow> string \<Rightarrow> string \<Rightarrow> ats_state \<Rightarrow> (ats_state \<times> string \<times> string list) option" where
  "accessTokenResponse conf now uuid request st =
     (case decodeAtGen conf request of
        Inl errorAnswer \<Rightarrow> Some (st, errorAnswer, [])
      | Inr payload \<Rightarrow> do {
          (cache, valid, errResponse) \<leftarrow> validateRequest conf now payload (jtiCache st);
          (let st1 = st\<lparr>jtiCache := cache\<rparr>; gatingId = newGatingId st1 in
           if \<not> valid then Some (st1, errResponse, [])
           else if checkifConsent conf (pList conf) (Purpose payload) then
             (if ecfAvailable st1 then do {
                st2 \<leftarrow> writeToPendingList now gatingId payload st1;
                Some (st2, atRequest_consent gatingId,
                      [consentAsk payload (getSignalAccess (pList conf) (Purpose payload)) gatingId]) }
              else Some (st1, action_prefix ''at-request'' @ dquoted ''error'' @ '':''
                     @ dquoted ''consent framework not accessible'' @ [CHR 0x7D], []))
           else do {
             st2 \<leftarrow> writeToActiveList now gatingId (generateAt conf now uuid payload) st1;
             Some (st2, atRequest_token (generateAt conf now uuid payload), []) }) })"

section \<open>Consent\<close>

definition extractKeyValue :: "ats_conf \<Rightarrow> string \<Rightarrow> string \<Rightarrow> string option" where
  "extractKeyValue conf key input =
     (let (err, m) = unmarshal_map (numFmt conf) input
      in if err then Some [] else (case gget m key of GoStr s \<Rightarrow> Some s | _ \<Rightarrow> None))"

definition extractGatingId :: "ats_conf \<Rightarrow> string \<Rightarrow> int option" where
  "extractGatingId conf input = do {
     s \<leftarrow> extractKeyValue conf ''sessionId'' input;
     Some (case atoi s of None \<Rightarrow> - 1 | Some i \<Rightarrow> i) }"

definition inquiry_notset :: "int \<Rightarrow> string" where
  "inquiry_notset gatingId =
     action_prefix ''at-inquiry'' @ dquoted ''sessionId'' @ '':'' @ show_int gatingId @ [CHR 0x22] @ '', ''
       @ dquoted ''consent'' @ '':'' @ dquoted ''NOT_SET'' @ [CHR 0x7D]"

definition inquiry_token :: "string \<Rightarrow> string \<Rightarrow> string" where
  "inquiry_token aToken consent =
     action_prefix ''at-inquiry'' @ dquoted ''aToken'' @ '':'' @ dquoted aToken @ '', '' @ dquoted ''consent'' @ '':''
       @ dquoted consent @ [CHR 0x7D]"

definition consentInquiryResponse ::
  "ats_conf \<Rightarrow> int \<Rightarrow> string \<Rightarrow> string \<Rightarrow> ats_state \<Rightarrow> (ats_state \<times> string) option" where
  "consentInquiryResponse conf now uuid input st = do {
     gatingId \<leftarrow> extractGatingId conf input;
     (case index_where (\<lambda>e. PendingGatingId e = gatingId) (pendingList st) of
        None \<Rightarrow> Some (st, action_prefix ''at-inquiry'' @ dquoted ''error'' @ '':'' @ dquoted ''404 - Not-found'' @ [CHR 0x7D])
      | Some i \<Rightarrow>
        (let consent = Consent (pendingList st ! i) in
         if consent = ''NOT_SET'' then Some (st, inquiry_notset gatingId)
         else if consent = ''NO'' then
           Some (snd (removeFromPendingList i st),
                 action_prefix ''at-inquiry'' @ dquoted ''consent'' @ '':'' @ dquoted ''NO'' @ [CHR 0x7D])
         else
           (let (atGenData, st1) = removeFromPendingList i st; t = generateAt conf now uuid atGenData
            in do {
              st2 \<leftarrow> writeToActiveList now gatingId t st1;
              Some (st2, inquiry_token t (Consent (pendingList st2 ! i))) }))) }"

definition ecf_answer :: "string \<Rightarrow> string \<Rightarrow> string" where
  "ecf_answer action status = action_prefix action @ dquoted ''status'' @ '':'' @ dquoted status @ [CHR 0x7D]"

definition as_text :: "gojson \<Rightarrow> string option" where
  "as_text v = (case v of GoStr s \<Rightarrow> Some s | _ \<Rightarrow> None)"

definition consentReplyResponse :: "ats_conf \<Rightarrow> string \<Rightarrow> ats_state \<Rightarrow> (ats_state \<times> string) option" where
  "consentReplyResponse conf request st =
     (let (err, m) = unmarshal_map (numFmt conf) request in
      if err then Some (st, ecf_answer ''consent-reply'' ''401-Bad request'')
      else if gget m ''messageId'' = GoNull then Some (st, ecf_answer ''consent-reply'' ''404-Not found'')
      else do {
        s \<leftarrow> as_text (gget m ''messageId'');
        (case atoi s of
           None \<Rightarrow> Some (st, ecf_answer ''consent-reply'' ''401-Bad request'')
         | Some gatingId \<Rightarrow>
           (case index_where (\<lambda>e. PendingGatingId e = gatingId) (pendingList st) of
              None \<Rightarrow> Some (st, ecf_answer ''consent-reply'' ''404-Not found'')
            | Some i \<Rightarrow> do {
                c \<leftarrow> as_text (gget m ''consent'');
                Some (st\<lparr>pendingList := (pendingList st)[i := (pendingList st ! i)\<lparr>Consent := c\<rparr>]\<rparr>,
                      ecf_answer ''consent-reply'' ''200-OK'') })) })"

text \<open>The third component is the message on the channel that cancels subscriptions.\<close>

definition consentCancelResponse ::
  "ats_conf \<Rightarrow> string \<Rightarrow> ats_state \<Rightarrow> (ats_state \<times> string \<times> string list) option" where
  "consentCancelResponse conf request st =
     (let (err, m) = unmarshal_map (numFmt conf) request in
      if err then Some (st, ecf_answer ''consent-cancel'' ''401-Bad request'', [])
      else if gget m ''messageId'' = GoNull then Some (st, ecf_answer ''consent-cancel'' ''404-Not found'', [])
      else do {
        s \<leftarrow> as_text (gget m ''messageId'');
        (case atoi s of
           None \<Rightarrow> Some (st, ecf_answer ''consent-cancel'' ''401-Bad request'', [])
         | Some gatingId \<Rightarrow>
           (case index_where (\<lambda>e. PendingGatingId e = gatingId) (pendingList st) of
              Some i \<Rightarrow> Some (snd (removeFromPendingList i st), ecf_answer ''consent-cancel'' ''200-OK'', [])
            | None \<Rightarrow>
              (case index_where (\<lambda>e. ActiveGatingId e = gatingId) (activeList st) of
                 Some i \<Rightarrow> Some (removeFromActiveList i st, ecf_answer ''consent-cancel'' ''200-OK'', [s])
               | None \<Rightarrow> Some (st, ecf_answer ''consent-cancel'' ''404-Not found'', [])))) })"

section \<open>The server\<close>

text \<open>
  One round of the loop of \<open>AtServerInit\<close>: a request of a client, of the server core, a message
  of the consent framework, a tick, or the end of the life of a used proof. The output holds the
  answer, the messages for the consent framework and those that cancel subscriptions.
\<close>

datatype ats_event =
    FromClient string
  | FromCore string
  | FromEcf string
  | ExpiryTick
  | JtiTimeout string

record ats_output =
  Answer :: "string option"
  ToEcf :: "string list"
  Cancelled :: "string list"

definition unknown_action :: string where
  "unknown_action = [CHR 0x7B] @ dquoted ''action'' @ '':'' @ dquoted ''unknown'' @ '','' @ dquoted ''status''
     @ '':'' @ dquoted ''401-Bad request'' @ [CHR 0x7D]"

definition generateClientResponse ::
  "ats_conf \<Rightarrow> int \<Rightarrow> string \<Rightarrow> string \<Rightarrow> ats_state \<Rightarrow> (ats_state \<times> string \<times> string list) option" where
  "generateClientResponse conf now uuid input st =
     (if contains input ''at-request'' then accessTokenResponse conf now uuid input st
      else if contains input ''at-inquiry'' then
        map_option (\<lambda>(st', r). (st', r, [])) (consentInquiryResponse conf now uuid input st)
      else Some (st, unknown_action, []))"

definition generateEcfResponse ::
  "ats_conf \<Rightarrow> string \<Rightarrow> ats_state \<Rightarrow> (ats_state \<times> string \<times> string list) option" where
  "generateEcfResponse conf input st =
     (if contains input ''consent-reply'' then
        map_option (\<lambda>(st', r). (st', r, [])) (consentReplyResponse conf input st)
      else if contains input ''consent-cancel'' then consentCancelResponse conf input st
      else Some (st, unknown_action, []))"

fun ats_step :: "ats_conf \<Rightarrow> int \<Rightarrow> string \<Rightarrow> ats_event \<Rightarrow> ats_state \<Rightarrow> (ats_state \<times> ats_output) option" where
  "ats_step conf now uuid (FromClient request) st =
     map_option (\<lambda>(st', r, ecf). (st', \<lparr>Answer = Some r, ToEcf = ecf, Cancelled = []\<rparr>))
       (generateClientResponse conf now uuid request st)"
| "ats_step conf now uuid (FromCore request) st =
     map_option (\<lambda>r. (st, \<lparr>Answer = Some r, ToEcf = [], Cancelled = []\<rparr>))
       (generateParentResponse conf now st request)"
| "ats_step conf now uuid (FromEcf message) st =
     (if message = ''internal-ecfAvailable''
      then Some (st\<lparr>ecfAvailable := True\<rparr>, \<lparr>Answer = None, ToEcf = [], Cancelled = []\<rparr>)
      else if contains message ''status'' then Some (st, \<lparr>Answer = None, ToEcf = [], Cancelled = []\<rparr>)
      else map_option (\<lambda>(st', r, c). (st', \<lparr>Answer = None, ToEcf = [r], Cancelled = c\<rparr>))
             (generateEcfResponse conf message st))"
| "ats_step conf now uuid ExpiryTick st =
     (let (st', gatingId) = purgeLists now st
      in Some (st', \<lparr>Answer = None, ToEcf = [], Cancelled = (if gatingId \<noteq> [] then [gatingId] else [])\<rparr>))"
| "ats_step conf now uuid (JtiTimeout jti) st =
     Some (deleteJti jti st, \<lparr>Answer = None, ToEcf = [], Cancelled = []\<rparr>)"

end
