(* ===== verification/Ats_Props.thy ===== *)
theory Ats_Props
  imports Ats
begin

text \<open>
  What the access token server guarantees: the tokens it makes carry what it put into them, a
  proof of possession is good once, and access follows the purpose list; and where it does not
  keep what it is meant to: consent that is not awaited, session ids that are all the same, and
  consent that cannot be taken back.
\<close>

section \<open>Reading a claim out of a token\<close>

lemma index_of_hd:
  assumes "hd sub \<notin> set x" and "sub \<noteq> []"
  shows "index_of (x @ sub @ y) sub = Some (length x)"
  using assms(1)
proof (induction x)
  case Nil
  then show ?case using assms(2) by (cases sub) simp_all
next
  case (Cons a x)
  then have "\<not> prefix sub ((a # x) @ sub @ y)" using assms(2) by (cases sub) auto
  then show ?case using Cons by simp
qed

lemma index_of_comma: "CHR '','' \<notin> set x \<Longrightarrow> index_of (x @ CHR '','' # y) '','' = Some (length x)"
  using index_of_hd [of "'',''" x y] by simp

text \<open>A quoted claim that is followed by a comma.\<close>

lemma claim_value_quoted:
  assumes "CHR '','' \<notin> set v" and "v \<noteq> []"
  shows "claim_value (x @ k @ [CHR 0x22] @ '':'' @ [CHR 0x22] @ v @ [CHR 0x22] @ '','' @ y) k (length x) = Some v"
proof -
  let ?d = "x @ k @ [CHR 0x22] @ '':'' @ [CHR 0x22] @ v @ [CHR 0x22] @ '','' @ y"
  let ?s = "length x + length k + 2"
  have d: "drop ?s ?d = [CHR 0x22] @ v @ [CHR 0x22] @ '','' @ y" by simp
  have "index_of (drop ?s ?d) '','' = Some (length v + 2)"
    using index_of_comma [of "[CHR 0x22] @ v @ [CHR 0x22]" y] assms(1) unfolding d by simp
  moreover have "?d ! (length v + 2 + ?s - 1) = CHR 0x22"
  proof -
    have "?d ! (length v + 2 + ?s - 1) = (drop ?s ?d) ! (length v + 1)"
      by (subst nth_drop) (simp_all add: add.commute add.left_commute)
    then show ?thesis unfolding d by (simp add: nth_append)
  qed
  moreover have "?d ! ?s = CHR 0x22"
  proof -
    have "?d ! ?s = (drop ?s ?d) ! 0" by (subst nth_drop) simp_all
    then show ?thesis unfolding d by simp
  qed
  moreover have "slice ?d (?s + 1) (length v + 2 + ?s - 1) = Some v"
  proof -
    have "drop (?s + 1) ?d = drop 1 (drop ?s ?d)" by (simp only: drop_drop add.commute)
    then have "drop (?s + 1) ?d = v @ [CHR 0x22] @ '','' @ y" unfolding d by simp
    then show ?thesis unfolding slice_def by simp
  qed
  ultimately show ?thesis
    by (simp only: claim_value_def Let_def option.case if_True) simp
qed

text \<open>The payload of an access token.\<close>

definition token_payload :: "string \<Rightarrow> string \<Rightarrow> string \<Rightarrow> string \<Rightarrow> string" where
  "token_payload iat expiry purpose rest =
     [CHR 0x7B] @ dquoted ''iat'' @ '':'' @ dquoted iat @ '','' @ dquoted ''exp'' @ '':'' @ dquoted expiry @ '',''
       @ dquoted ''scp'' @ '':'' @ dquoted purpose @ '','' @ rest"

definition plain_claim :: "string \<Rightarrow> bool" where
  "plain_claim v \<longleftrightarrow> v \<noteq> [] \<and> CHR '','' \<notin> set v \<and> hd v \<noteq> CHR 0x7B"

lemma plain_claim_prefix: "plain_claim v \<Longrightarrow> \<not> prefix [CHR 0x7B] v"
  by (cases v) (auto simp: plain_claim_def)

lemma JsonRecursiveMarshall_first:
  "plain_claim v \<Longrightarrow> k \<noteq> [] \<Longrightarrow> JsonRecursiveMarshall k v [] = [CHR 0x7B] @ dquoted k @ '':'' @ dquoted v @ [CHR 0x7D]"
  by (simp add: JsonRecursiveMarshall_def plain_claim_prefix) (simp add: plain_claim_def)

lemma JsonRecursiveMarshall_next:
  "plain_claim v \<Longrightarrow> k \<noteq> [] \<Longrightarrow> JsonRecursiveMarshall k v (s @ [CHR 0x7D])
    = (s @ '','' @ dquoted k @ '':'' @ dquoted v) @ [CHR 0x7D]"
  by (simp add: JsonRecursiveMarshall_def plain_claim_prefix) (simp add: plain_claim_def)

lemma JsonRecursiveMarshall_more:
  "\<exists>t. JsonRecursiveMarshall k v (s @ [CHR 0x7D]) = s @ t @ [CHR 0x7D]
     \<and> (k \<noteq> [] \<and> v \<noteq> [] \<longrightarrow> (\<exists>u. t = CHR '','' # u))"
  by (auto simp: JsonRecursiveMarshall_def intro: exI [of _ "[]"])

lemma plain_claim_show_nat: "plain_claim (show_nat n)"
proof -
  have "CHR '','' \<notin> set (show_nat n)"
  proof
    assume "CHR '','' \<in> set (show_nat n)"
    from set_show_nat [OF this] obtain d where "d < 10" "CHR '','' = digit d" by blast
    then have "digit_value (CHR '','') = Some d" by simp
    then show False by (simp add: digit_value.simps)
  qed
  moreover have "hd (show_nat n) \<noteq> CHR 0x7B"
  proof
    assume eq: "hd (show_nat n) = CHR 0x7B"
    from show_nat_hd [of n] obtain d where "d < 10" "hd (show_nat n) = digit d" by blast
    then have "digit_value (CHR 0x7B) = Some d" using eq by simp
    then show False by (simp add: digit_value.simps)
  qed
  ultimately show ?thesis by (simp add: plain_claim_def)
qed

lemma token_payload_shape:
  assumes "plain_claim (Purpose p)" and "0 \<le> now"
  shows "\<exists>rest. Payload (accessTokenClaims now uuid p)
    = token_payload (show_int (unixSeconds now)) (show_int (unixSeconds now + AT_DURATION)) (Purpose p) rest"
proof -
  let ?iat = "unixSeconds now"
  have iat: "0 \<le> ?iat" using assms(2) by (simp add: unixSeconds_def)
  have pl: "plain_claim (show_int i)" if "0 \<le> i" for i
    using that plain_claim_show_nat by (simp add: show_int_def)
  have e: "0 \<le> ?iat + AT_DURATION" using iat by (simp add: AT_DURATION_def)
  let ?s = "[CHR 0x7B] @ dquoted ''iat'' @ '':'' @ dquoted (show_int ?iat) @ '','' @ dquoted ''exp'' @ '':''
    @ dquoted (show_int (?iat + AT_DURATION)) @ '','' @ dquoted ''scp'' @ '':'' @ dquoted (Purpose p)"
  have three: "JsonRecursiveMarshall ''scp'' (Purpose p) (JsonRecursiveMarshall ''exp'' (show_int (?iat + AT_DURATION))
      (JsonRecursiveMarshall ''iat'' (show_int ?iat) [])) = ?s @ [CHR 0x7D]"
    using JsonRecursiveMarshall_next [OF pl [OF e], of "''exp''"
        "[CHR 0x7B] @ dquoted ''iat'' @ '':'' @ dquoted (show_int ?iat)"]
      JsonRecursiveMarshall_next [OF assms(1), of "''scp''"
        "[CHR 0x7B] @ dquoted ''iat'' @ '':'' @ dquoted (show_int ?iat) @ '','' @ dquoted ''exp'' @ '':''
          @ dquoted (show_int (?iat + AT_DURATION))"]
    by (simp add: JsonRecursiveMarshall_first [OF pl [OF iat]])
  obtain t1 where t1: "JsonRecursiveMarshall ''clx'' (claim (AgtPayloadClaims p) ''clx'') (?s @ [CHR 0x7D])
      = ?s @ t1 @ [CHR 0x7D]" "t1 = [] \<or> (\<exists>u. t1 = CHR '','' # u)"
  proof (cases "claim (AgtPayloadClaims p) ''clx'' = []")
    case True
    then show ?thesis using that [of "[]"] by (simp add: JsonRecursiveMarshall_def)
  next
    case False
    then show ?thesis using that JsonRecursiveMarshall_more [of "''clx''" "claim (AgtPayloadClaims p) ''clx''" ?s] by auto
  qed
  obtain t2 where t2: "JsonRecursiveMarshall ''aud'' ''w3org/gen2'' ((?s @ t1) @ [CHR 0x7D]) = (?s @ t1) @ t2 @ [CHR 0x7D]"
    "\<exists>u. t2 = CHR '','' # u"
    using JsonRecursiveMarshall_more [of "''aud''" "''w3org/gen2''" "?s @ t1"] by auto
  obtain t3 where t3: "JsonRecursiveMarshall ''jti'' uuid ((?s @ t1 @ t2) @ [CHR 0x7D]) = (?s @ t1 @ t2) @ t3 @ [CHR 0x7D]"
    using JsonRecursiveMarshall_more [of "''jti''" uuid "?s @ t1 @ t2"] by blast
  have pay: "Payload (accessTokenClaims now uuid p) = ?s @ t1 @ t2 @ t3 @ [CHR 0x7D]"
    using three t1(1) t2(1) t3
    by (simp add: accessTokenClaims_def AddClaim_def SetHeader_def emptyToken_def Let_def)
  obtain u where "t1 @ t2 @ t3 @ [CHR 0x7D] = CHR '','' # u" using t1(2) t2(2) by auto
  then have "Payload (accessTokenClaims now uuid p)
      = token_payload (show_int ?iat) (show_int (?iat + AT_DURATION)) (Purpose p) u"
    using pay by (simp add: token_payload_def)
  then show ?thesis by blast
qed

lemma token_header_claims:
  "index_of (Header (accessTokenClaims now uuid p)) ''iat'' = None"
  "index_of (Header (accessTokenClaims now uuid p)) ''exp'' = None"
  "index_of (Header (accessTokenClaims now uuid p)) ''scp'' = None"
  "contains (Header (accessTokenClaims now uuid p)) ''HS256''"
proof -
  have h: "Header (accessTokenClaims now uuid p) = Header (SetHeader ''HS256'' emptyToken)"
    by (simp add: accessTokenClaims_def AddClaim_def Let_def)
  show "index_of (Header (accessTokenClaims now uuid p)) ''iat'' = None"
    "index_of (Header (accessTokenClaims now uuid p)) ''exp'' = None"
    "index_of (Header (accessTokenClaims now uuid p)) ''scp'' = None"
    "contains (Header (accessTokenClaims now uuid p)) ''HS256''"
    unfolding h by code_simp+
qed

lemma ExtractFromToken_payload:
  assumes "index_of (Header t) c = None" and "index_of (Payload t) c = Some i"
  shows "ExtractFromToken (GetFullToken (SymmSign mac key t)) c = claim_value (Payload t) c i"
proof -
  let ?h = "b64_encode (Header t)" and ?p = "b64_encode (Payload t)"
  have full: "GetFullToken (SymmSign mac key t) = ?h @ CHR ''.'' # ?p @ CHR ''.'' #
      b64_encode (mac (?h @ ''.'' @ ?p) key)"
    by (simp add: GetFullToken_def SymmSign_def Encode_def Let_def)
  have dot: "index_of (b64_encode s @ CHR ''.'' # r) ''.'' = Some (length (b64_encode s))" for s r
    using index_of_hd [of "''.''" "b64_encode s" r] b64_encode_chars(2) by simp
  show ?thesis
    unfolding ExtractFromToken_def full dot using assms by (simp add: dot b64_decode_encode)
qed

lemma digits_not: "d \<in> set (show_int i) \<Longrightarrow> 0 \<le> i \<Longrightarrow> digit_value d \<noteq> None"
  using set_show_nat [of d "nat i"] by (auto simp: show_int_def)

lemma letters_not_digits: "digit_value (CHR ''e'') = None" "digit_value (CHR ''s'') = None"
  by (simp_all add: digit_value.simps)

lemma token_payload_claims:
  assumes "plain_claim purpose" "0 \<le> i" "0 \<le> j"
  shows "\<exists>k. index_of (token_payload (show_int i) (show_int j) purpose rest) ''iat'' = Some k
      \<and> claim_value (token_payload (show_int i) (show_int j) purpose rest) ''iat'' k = Some (show_int i)"
    and "\<exists>k. index_of (token_payload (show_int i) (show_int j) purpose rest) ''exp'' = Some k
      \<and> claim_value (token_payload (show_int i) (show_int j) purpose rest) ''exp'' k = Some (show_int j)"
    and "\<exists>k. index_of (token_payload (show_int i) (show_int j) purpose rest) ''scp'' = Some k
      \<and> claim_value (token_payload (show_int i) (show_int j) purpose rest) ''scp'' k = Some purpose"
proof -
  let ?p = "token_payload (show_int i) (show_int j) purpose rest"
  have plain: "plain_claim (show_int n)" if "0 \<le> n" for n
    using that plain_claim_show_nat by (simp add: show_int_def)
  have v: "CHR '','' \<notin> set (show_int i)" "show_int i \<noteq> []" "CHR '','' \<notin> set (show_int j)" "show_int j \<noteq> []"
    "CHR '','' \<notin> set purpose" "purpose \<noteq> []"
    using plain [OF assms(2)] plain [OF assms(3)] assms(1) by (simp_all add: plain_claim_def)
  let ?x1 = "[CHR 0x7B, CHR 0x22]"
  let ?x2 = "[CHR 0x7B] @ dquoted ''iat'' @ '':'' @ dquoted (show_int i) @ '','' @ [CHR 0x22]"
  let ?x3 = "[CHR 0x7B] @ dquoted ''iat'' @ '':'' @ dquoted (show_int i) @ '','' @ dquoted ''exp'' @ '':''
    @ dquoted (show_int j) @ '','' @ [CHR 0x22]"
  have no: "CHR ''e'' \<notin> set (show_int n)" "CHR ''s'' \<notin> set (show_int n)" if "0 \<le> n" for n
    using digits_not [OF _ that] letters_not_digits by blast+
  have n2: "hd ''exp'' \<notin> set ?x2" using no [OF assms(2)] by (simp add: dquoted_def)
  have n3: "hd ''scp'' \<notin> set ?x3" using no [OF assms(2)] no [OF assms(3)] by (simp add: dquoted_def)
  show "\<exists>k. index_of ?p ''iat'' = Some k \<and> claim_value ?p ''iat'' k = Some (show_int i)"
  proof -
    obtain y where y: "?p = ?x1 @ ''iat'' @ [CHR 0x22] @ '':'' @ [CHR 0x22] @ show_int i @ [CHR 0x22] @ '','' @ y"
      by (simp add: token_payload_def dquoted_def)
    show ?thesis
      unfolding y using claim_value_quoted [OF v(1,2), of ?x1 "''iat''" y] index_of_hd [of "''iat''" ?x1] by auto
  qed
  show "\<exists>k. index_of ?p ''exp'' = Some k \<and> claim_value ?p ''exp'' k = Some (show_int j)"
  proof -
    obtain y where y: "?p = ?x2 @ ''exp'' @ [CHR 0x22] @ '':'' @ [CHR 0x22] @ show_int j @ [CHR 0x22] @ '','' @ y"
      by (simp add: token_payload_def dquoted_def)
    show ?thesis
      unfolding y using claim_value_quoted [OF v(3,4), of ?x2 "''exp''" y] index_of_hd [OF n2] by blast
  qed
  show "\<exists>k. index_of ?p ''scp'' = Some k \<and> claim_value ?p ''scp'' k = Some purpose"
  proof -
    obtain y where y: "?p = ?x3 @ ''scp'' @ [CHR 0x22] @ '':'' @ [CHR 0x22] @ purpose @ [CHR 0x22] @ '','' @ y"
      by (simp add: token_payload_def dquoted_def)
    show ?thesis
      unfolding y using claim_value_quoted [OF v(5,6), of ?x3 "''scp''" y] index_of_hd [OF n3] by blast
  qed
qed

lemma generated_token_claims:
  assumes "plain_claim (Purpose p)" and "0 \<le> now"
  shows "VerifyTokenSignature (hmac conf) (generateAt conf now uuid p) theAtSecret
    \<and> ExtractFromToken (generateAt conf now uuid p) ''iat'' = Some (show_int (unixSeconds now))
    \<and> ExtractFromToken (generateAt conf now uuid p) ''exp'' = Some (show_int (unixSeconds now + 3600))
    \<and> ExtractFromToken (generateAt conf now uuid p) ''scp'' = Some (Purpose p)"
proof -
  let ?i = "unixSeconds now"
  have i: "0 \<le> ?i" "0 \<le> ?i + AT_DURATION" using assms(2) by (simp_all add: unixSeconds_def AT_DURATION_def)
  obtain rest where pay: "Payload (accessTokenClaims now uuid p)
    = token_payload (show_int ?i) (show_int (?i + AT_DURATION)) (Purpose p) rest"
    using token_payload_shape [OF assms] by blast
  note claims = token_payload_claims [OF assms(1) i, of rest, folded pay]
  have ex: "ExtractFromToken (generateAt conf now uuid p) c = Some v"
    if "index_of (Header (accessTokenClaims now uuid p)) c = None"
      "\<exists>k. index_of (Payload (accessTokenClaims now uuid p)) c = Some k
        \<and> claim_value (Payload (accessTokenClaims now uuid p)) c k = Some v" for c v
    using that ExtractFromToken_payload unfolding generateAt_def by metis
  have "VerifyTokenSignature (hmac conf) (generateAt conf now uuid p) theAtSecret"
    unfolding generateAt_def by (rule VerifyTokenSignature_signed [OF token_header_claims(4)])
  moreover have "AT_DURATION = 3600" by (simp add: AT_DURATION_def)
  ultimately show ?thesis
    using ex [OF token_header_claims(1) claims(1)] ex [OF token_header_claims(2) claims(2)]
      ex [OF token_header_claims(3) claims(3)] by simp
qed

text \<open>
  C9: A token says what it was made for. An access token that the server makes at a time after
  1970, for a purpose without a comma that does not begin with a brace, passes the server's own
  signature check, and the textual extraction of claims gives back the time it was made, its end
  one hour later, and the purpose, whatever the other claims are.
\<close>

theorem generated_token_reads_back:
  assumes "plain_claim (Purpose p)" and "0 \<le> now"
  shows "VerifyTokenSignature (hmac conf) (generateAt conf now uuid p) theAtSecret
    \<and> ExtractFromToken (generateAt conf now uuid p) ''iat'' = Some (show_int (unixSeconds now))
    \<and> ExtractFromToken (generateAt conf now uuid p) ''exp'' = Some (show_int (unixSeconds now + 3600))
    \<and> ExtractFromToken (generateAt conf now uuid p) ''scp'' = Some (Purpose p)"
  by (rule generated_token_claims [OF assms])

section \<open>Proofs of possession\<close>

text \<open>
  A history of the cache of used proofs: each entry with the time it was added, and the proofs that
  were accepted with their times. Time only goes forward, and an entry leaves the cache no earlier
  than \<open>GAP + LIFETIME + 5\<close> seconds after it was added.
\<close>

inductive pop_history :: "int \<Rightarrow> (string \<times> int) list \<Rightarrow> (AtGenPayload \<times> int) list \<Rightarrow> bool" where
  start: "pop_history now [] []"
| wait: "pop_history now cache acc \<Longrightarrow> now \<le> now' \<Longrightarrow> pop_history now' cache acc"
| drop: "pop_history now cache acc \<Longrightarrow> (jti, t) \<in> set cache \<Longrightarrow> t + (GAP + LIFETIME + 5) * 10 ^ 9 \<le> now
    \<Longrightarrow> pop_history now (removeAll (jti, t) cache) acc"
| accept: "pop_history now cache acc \<Longrightarrow> validatePop now p (map fst cache) = (cache', True, msg)
    \<Longrightarrow> pop_history now ((claim (PopPayloadClaims p) ''jti'', now) # cache) ((p, now) # acc)"
| refuse: "pop_history now cache acc \<Longrightarrow> validatePop now p (map fst cache) = (cache', False, msg)
    \<Longrightarrow> cache' \<noteq> map fst cache
    \<Longrightarrow> pop_history now ((claim (PopPayloadClaims p) ''jti'', now) # cache) acc"

lemma validatePop_accepted:
  "validatePop now p cache = (cache', True, msg) \<Longrightarrow>
     claim (PopPayloadClaims p) ''jti'' \<notin> set cache \<and> CheckIat now p"
  by (auto simp: validatePop_def addCheckJti_def Let_def split: if_splits)

lemma pop_history_inv:
  "pop_history now cache acc \<Longrightarrow>
     (\<forall>(p, t) \<in> set acc. CheckIat t p \<and> t \<le> now
        \<and> ((claim (PopPayloadClaims p) ''jti'', t) \<in> set cache \<or> t + (GAP + LIFETIME + 5) * 10 ^ 9 \<le> now))
     \<and> (\<forall>(j, t) \<in> set cache. t \<le> now)"
proof (induction rule: pop_history.induct)
  case (accept now cache acc p cache' msg)
  then show ?case using validatePop_accepted [OF accept.hyps(2)] by fastforce
next
  case (wait now cache acc now')
  then show ?case by fastforce
qed fastforce+

text \<open>The window in which the issue time of a proof is accepted is shorter than that.\<close>

lemma CheckIat_window:
  assumes "CheckIat s p" and "CheckIat t q" and "claim (PopPayloadClaims p) ''iat'' = claim (PopPayloadClaims q) ''iat''"
    and "\<bar>case atoi (claim (PopPayloadClaims p) ''iat'') of None \<Rightarrow> 0 | Some i \<Rightarrow> i\<bar> < 2 ^ 62"
  shows "t < s + (GAP + LIFETIME + 5) * 10 ^ 9"
proof -
  obtain i where i: "atoi (claim (PopPayloadClaims p) ''iat'') = Some i" "\<bar>i\<bar> < 2 ^ 62"
    using assms(1,4) by (auto simp: CheckIat_def split: option.splits)
  have w: "sint (word_of_int x :: 64 word) = x" if "\<bar>x\<bar> < 2 ^ 63" for x
    using that by (simp add: signed_of_int signed_take_bit_int_eq_self)
  have "\<bar>i + GAP + LIFETIME\<bar> < 2 ^ 63" "\<bar>i - GAP\<bar> < 2 ^ 63" using i(2) by (simp_all add: GAP_def LIFETIME_def)
  note w1 = w [OF this(1)] w [OF this(2)]
  have "unixSeconds t < i + GAP + LIFETIME" "i - GAP < unixSeconds s"
    using assms(1,2) unfolding CheckIat_def assms(3) [symmetric] i(1) by (simp_all only: option.case w1)
  then have "t div 10 ^ 9 < s div 10 ^ 9 + 2 * GAP + LIFETIME" by (simp add: unixSeconds_def)
  then have "t div 1000000000 < s div 1000000000 + 11" by (simp add: GAP_def LIFETIME_def)
  then have "t < s + 13000000000" by linarith
  then show ?thesis by (simp add: GAP_def LIFETIME_def)
qed

text \<open>
  C11: A proof of possession is good once. In every history in which an entry of the cache of used
  proofs lives at least its GAP + LIFETIME + 5 seconds, two acceptances at different places never
  concern proofs with the same id and the same issue time: while the first is in the cache the
  second is refused, and when it has left the cache the issue time is too old.
\<close>

theorem proof_of_possession_not_replayed:
  assumes "pop_history now cache acc" and "acc = xs @ (q, t) # ys @ (p, s) # zs"
    and "claim (PopPayloadClaims p) ''jti'' = claim (PopPayloadClaims q) ''jti''"
    and "\<bar>case atoi (claim (PopPayloadClaims p) ''iat'') of None \<Rightarrow> 0 | Some i \<Rightarrow> i\<bar> < 2 ^ 62"
  shows "claim (PopPayloadClaims p) ''iat'' \<noteq> claim (PopPayloadClaims q) ''iat''"
  using assms(1,2)
proof (induction arbitrary: xs rule: pop_history.induct)
  case (accept now cache acc r cache' msg)
  show ?case
  proof (cases xs)
    case Nil
    then have r: "q = r" "t = now" "acc = ys @ (p, s) # zs" using accept.prems by simp_all
    note ok = validatePop_accepted [OF accept.hyps(2)]
    have "CheckIat s p" "(claim (PopPayloadClaims p) ''jti'', s) \<in> set cache
        \<or> s + (GAP + LIFETIME + 5) * 10 ^ 9 \<le> now"
      using pop_history_inv [OF accept.hyps(1)] r(3) by auto
    moreover have "(claim (PopPayloadClaims p) ''jti'', s) \<notin> set cache"
      using ok assms(3) r(1) by force
    ultimately show ?thesis
      using CheckIat_window [of s p now r] ok assms(4) r(1) by auto
  next
    case (Cons x xs')
    then show ?thesis using accept by simp
  qed
qed simp_all

section \<open>Access\<close>

lemma accessLoop_spec:
  assumes "distinct (map AccessPath aes)"
  shows "accessLoop aes action path = Some 0 \<longleftrightarrow>
    (\<exists>ae \<in> set aes. AccessPath ae = path \<and> (action = ''set'' \<longrightarrow> Permission ae \<noteq> ''read-only''))"
  using assms
proof (induction aes)
  case (Cons a aes)
  then have "AccessPath a \<notin> AccessPath ` set aes" by simp
  then have "\<forall>ae \<in> set aes. AccessPath ae \<noteq> AccessPath a" by (metis imageI)
  with Cons show ?case by auto
qed simp

lemma accessLoop_None: "accessLoop aes action path = None \<longleftrightarrow> path \<notin> AccessPath ` set aes"
  by (induction aes) auto

definition permitted :: "PurposeElement list \<Rightarrow> string \<Rightarrow> string \<Rightarrow> string \<Rightarrow> bool" where
  "permitted pl purpose action path \<longleftrightarrow>
     (\<exists>pe \<in> set pl. Short pe = purpose \<and> (\<exists>ae \<in> set (Access pe). AccessPath ae = path
        \<and> (action = ''set'' \<longrightarrow> Permission ae \<noteq> ''read-only'')))"

lemma validatePurposeAndAccessPermission_spec:
  assumes "distinct (map AccessPath (concat (map Access (filter (\<lambda>pe. Short pe = purpose) pl))))"
  shows "validatePurposeAndAccessPermission pl purpose action path = 0 \<longleftrightarrow> permitted pl purpose action path"
  using assms
proof (induction pl)
  case (Cons pe pl)
  show ?case
  proof (cases "Short pe = purpose")
    case True
    then have d: "distinct (map AccessPath (Access pe))" using Cons.prems by simp
    have disj: "AccessPath ` set (Access pe) \<inter> AccessPath ` set (concat (map Access (filter (\<lambda>pe. Short pe = purpose) pl))) = {}"
      using Cons.prems True by simp
    show ?thesis
    proof (cases "accessLoop (Access pe) action path")
      case None
      then have "path \<notin> AccessPath ` set (Access pe)" by (simp add: accessLoop_None)
      then show ?thesis using Cons None True by (auto simp: permitted_def)
    next
      case (Some code)
      then have mem: "path \<in> AccessPath ` set (Access pe)" using accessLoop_None [of "Access pe"] by (metis option.distinct(1))
      have "\<not> permitted pl purpose action path"
        using mem disj by (force simp: permitted_def)
      then show ?thesis using Some True accessLoop_spec [OF d, of action path] by (auto simp: permitted_def)
    qed
  next
    case False
    then show ?thesis using Cons by (auto simp: permitted_def)
  qed
qed (simp add: permitted_def)

lemma firstNonzero_iff: "firstNonzero xs = 0 \<longleftrightarrow> (\<forall>x \<in> set xs. x = 0)"
  by (induction xs) auto

text \<open>
  C10: Access follows the purpose list. When no path is listed twice for a purpose, the server lets
  a request through exactly when the purpose of its token lists every path of the request, or for
  a path with a wildcard every leaf it stands for, and for a set request not as read-only.
\<close>

theorem access_follows_purpose_list:
  assumes "distinct (map AccessPath (concat (map Access (filter (\<lambda>pe. Short pe = purpose) (pList conf)))))"
  shows "validateRequestAccess conf purpose action paths = 0 \<longleftrightarrow>
    (\<forall>p \<in> set paths. if contains p ''*'' then \<forall>w \<in> set (wildcardPaths conf p). permitted (pList conf) purpose action w
       else permitted (pList conf) purpose action p)"
  unfolding validateRequestAccess_def firstNonzero_iff
  using validatePurposeAndAccessPermission_spec [OF assms] by (auto split: if_splits)

section \<open>The lists over time\<close>

lemma setExpiryTicker_fields [simp]:
  "pendingList (setExpiryTicker now st) = pendingList st"
  "activeList (setExpiryTicker now st) = activeList st"
  "GatingId (setExpiryTicker now st) = GatingId st"
  "jtiCache (setExpiryTicker now st) = jtiCache st"
  "ecfAvailable (setExpiryTicker now st) = ecfAvailable st"
  by (simp_all add: setExpiryTicker_def Let_def split: option.splits)

text \<open>
  The shape of the state: both lists keep their length, and every entry is free or carries the one
  session id that the server ever gives out.
\<close>

definition ats_inv :: "int \<Rightarrow> ats_state \<Rightarrow> bool" where
  "ats_inv g st \<longleftrightarrow> newGatingId st = g \<and> length (pendingList st) = LISTSIZE \<and> length (activeList st) = LISTSIZE
     \<and> (\<forall>e \<in> set (pendingList st). PendingGatingId e \<in> {- 1, g})
     \<and> (\<forall>e \<in> set (activeList st). ActiveGatingId e \<in> {- 1, g})"

lemma newGatingId_fields: "GatingId st = GatingId st' \<Longrightarrow> newGatingId st = newGatingId st'"
  by (simp add: newGatingId_def)

lemma ats_inv_init: "ats_inv ((667 + r) mod 9999) (initAts r)"
  by (auto simp: ats_inv_def initAts_def newGatingId_def LISTSIZE_def emptyPending_def emptyActive_def add.commute)

lemma ats_inv_ticker [simp]: "ats_inv g (setExpiryTicker now st) = ats_inv g st"
  by (simp add: ats_inv_def newGatingId_def)

lemma set_list_update_subset: "\<forall>e \<in> set xs. P e \<Longrightarrow> P y \<Longrightarrow> \<forall>e \<in> set (xs[i := y]). P e"
  using set_update_subset_insert [of xs i y] by blast

lemma ats_inv_pending: "ats_inv g st \<Longrightarrow> PendingGatingId e \<in> {- 1, g} \<Longrightarrow> ats_inv g (st\<lparr>pendingList := (pendingList st)[i := e]\<rparr>)"
  unfolding ats_inv_def using set_list_update_subset [of "pendingList st" "\<lambda>e. PendingGatingId e \<in> {- 1, g}" e i]
  by (simp add: newGatingId_def)

lemma ats_inv_active: "ats_inv g st \<Longrightarrow> ActiveGatingId e \<in> {- 1, g} \<Longrightarrow> ats_inv g (st\<lparr>activeList := (activeList st)[i := e]\<rparr>)"
  unfolding ats_inv_def using set_list_update_subset [of "activeList st" "\<lambda>e. ActiveGatingId e \<in> {- 1, g}" e i]
  by (simp add: newGatingId_def)

lemma ats_inv_writeToPendingList:
  "writeToPendingList now g p st = Some st' \<Longrightarrow> ats_inv g st \<Longrightarrow> ats_inv g st'"
  by (auto simp: writeToPendingList_def bind_eq_Some_conv intro!: ats_inv_pending split: option.splits)

lemma ats_inv_writeToActiveList:
  "writeToActiveList now k t st = Some st' \<Longrightarrow> k \<in> {- 1, g} \<Longrightarrow> ats_inv g st \<Longrightarrow> ats_inv g st'"
  by (auto simp: writeToActiveList_def bind_eq_Some_conv intro!: ats_inv_active split: option.splits)

lemma ats_inv_removeFromPendingList: "ats_inv g st \<Longrightarrow> ats_inv g (snd (removeFromPendingList i st))"
  by (simp add: removeFromPendingList_def ats_inv_pending)

lemma ats_inv_removeFromActiveList: "ats_inv g st \<Longrightarrow> ats_inv g (removeFromActiveList i st)"
  by (simp add: removeFromActiveList_def ats_inv_active)

lemma ats_inv_jti: "ats_inv g (st\<lparr>jtiCache := c\<rparr>) = ats_inv g st"
  by (simp add: ats_inv_def newGatingId_def)

lemma ats_inv_new: "ats_inv g st \<Longrightarrow> newGatingId st = g"
  by (simp add: ats_inv_def)

lemma ats_inv_accessTokenResponse:
  assumes "accessTokenResponse conf now uuid request st = Some (st', r, m)" and "ats_inv g st"
  shows "ats_inv g st'"
proof (cases "decodeAtGen conf request")
  case (Inr p)
  with assms(1) obtain cache valid err where v: "validateRequest conf now p (jtiCache st) = Some (cache, valid, err)"
    by (auto simp: accessTokenResponse_def bind_eq_Some_conv)
  have i1: "ats_inv g (st\<lparr>jtiCache := cache\<rparr>)" using assms(2) by (simp add: ats_inv_jti)
  note g = ats_inv_new [OF i1]
  show ?thesis
    using assms(1) Inr v i1 ats_inv_writeToPendingList [OF _ i1] ats_inv_writeToActiveList [OF _ _ i1]
    by (auto simp: accessTokenResponse_def g Let_def bind_eq_Some_conv split: if_splits)
qed (use assms in \<open>simp add: accessTokenResponse_def\<close>)

lemma ats_inv_pending_id: "ats_inv g st \<Longrightarrow> index_where (\<lambda>e. PendingGatingId e = k) (pendingList st) = Some i \<Longrightarrow> k \<in> {- 1, g}"
proof -
  assume inv: "ats_inv g st" and ix: "index_where (\<lambda>e. PendingGatingId e = k) (pendingList st) = Some i"
  from index_where_Some [OF ix] have "i < length (pendingList st)" "PendingGatingId (pendingList st ! i) = k" by auto
  then show ?thesis using inv nth_mem unfolding ats_inv_def by blast
qed

lemma ats_inv_consentInquiryResponse:
  assumes "consentInquiryResponse conf now uuid input st = Some (st', r)" and "ats_inv g st"
  shows "ats_inv g st'"
proof -
  from assms(1) obtain k where k: "extractGatingId conf input = Some k"
    by (auto simp: consentInquiryResponse_def bind_eq_Some_conv)
  show ?thesis
  proof (cases "index_where (\<lambda>e. PendingGatingId e = k) (pendingList st)")
    case (Some i)
    note id = ats_inv_pending_id [OF assms(2) Some]
    obtain d st1 where rm: "removeFromPendingList i st = (d, st1)" by fastforce
    have i1: "ats_inv g st1" using ats_inv_removeFromPendingList [OF assms(2), of i] rm by simp
    show ?thesis
      using assms k Some rm i1 ats_inv_writeToActiveList [OF _ id i1]
      by (auto simp: consentInquiryResponse_def Let_def bind_eq_Some_conv split: if_splits)
  qed (use assms k in \<open>auto simp: consentInquiryResponse_def\<close>)
qed

lemma ats_inv_consentReplyResponse:
  assumes "consentReplyResponse conf request st = Some (st', r)" and "ats_inv g st"
  shows "ats_inv g st'"
proof -
  have keep: "ats_inv g (st\<lparr>pendingList := (pendingList st)[i := (pendingList st ! i)\<lparr>Consent := c\<rparr>]\<rparr>)"
    if "index_where P (pendingList st) = Some i" for P i c
  proof (rule ats_inv_pending [OF assms(2)])
    have "i < length (pendingList st)" using index_where_Some [OF that] by simp
    then show "PendingGatingId ((pendingList st ! i)\<lparr>Consent := c\<rparr>) \<in> {- 1, g}"
      using assms(2) nth_mem unfolding ats_inv_def by simp
  qed
  obtain err m where u: "unmarshal_map (numFmt conf) request = (err, m)" by fastforce
  show ?thesis
  proof (cases "err \<or> gget m ''messageId'' = GoNull")
    case True
    then show ?thesis using assms u by (auto simp: consentReplyResponse_def split: if_splits)
  next
    case False
    then obtain s where s: "as_text (gget m ''messageId'') = Some s"
      using assms(1) u by (auto simp: consentReplyResponse_def bind_eq_Some_conv)
    show ?thesis
    proof (cases "atoi s")
      case (Some k)
      show ?thesis
        using assms False u s Some keep
        by (cases "index_where (\<lambda>e. PendingGatingId e = k) (pendingList st)")
          (auto simp: consentReplyResponse_def bind_eq_Some_conv)
    qed (use assms False u s in \<open>auto simp: consentReplyResponse_def\<close>)
  qed
qed

lemma consentCancelResponse_cases:
  assumes "consentCancelResponse conf request st = Some (st', r, c)"
  obtains "st' = st" | i where "st' = snd (removeFromPendingList i st)"
  | i where "st' = removeFromActiveList i st"
proof -
  obtain err m where u: "unmarshal_map (numFmt conf) request = (err, m)" by fastforce
  show thesis
  proof (cases "err \<or> gget m ''messageId'' = GoNull")
    case True
    then show thesis using assms u that(1) by (auto simp: consentCancelResponse_def split: if_splits)
  next
    case False
    then obtain s where s: "as_text (gget m ''messageId'') = Some s"
      using assms u by (auto simp: consentCancelResponse_def bind_eq_Some_conv)
    show thesis
    proof (cases "atoi s")
      case (Some k)
      show thesis
        using assms False u s Some that
        by (cases "index_where (\<lambda>e. PendingGatingId e = k) (pendingList st)";
            cases "index_where (\<lambda>e. ActiveGatingId e = k) (activeList st)")
          (auto simp: consentCancelResponse_def)
    qed (use assms False u s that(1) in \<open>auto simp: consentCancelResponse_def\<close>)
  qed
qed

lemma ats_inv_consentCancelResponse:
  assumes "consentCancelResponse conf request st = Some (st', r, c)" and "ats_inv g st"
  shows "ats_inv g st'"
  using assms(1)
  by (cases rule: consentCancelResponse_cases)
    (simp_all add: assms(2) ats_inv_removeFromPendingList ats_inv_removeFromActiveList)

lemma ats_inv_purgeLists: "ats_inv g st \<Longrightarrow> ats_inv g (fst (purgeLists now st))"
  using ats_inv_removeFromPendingList [of g st] ats_inv_removeFromActiveList [of g st]
  by (auto simp: purgeLists_def split: sum.splits option.splits)

lemma ats_inv_step:
  assumes "ats_step conf now uuid ev st = Some (st', out)" and "ats_inv g st"
  shows "ats_inv g st'"
proof (cases ev)
  case (FromClient q)
  then show ?thesis
    using assms ats_inv_accessTokenResponse ats_inv_consentInquiryResponse
    by (auto simp: generateClientResponse_def split: if_splits)
next
  case (FromEcf q)
  have "ats_inv g (st\<lparr>ecfAvailable := True\<rparr>)" using assms(2) by (simp add: ats_inv_def newGatingId_def)
  then show ?thesis
    using FromEcf assms ats_inv_consentReplyResponse ats_inv_consentCancelResponse
    by (auto simp: generateEcfResponse_def split: if_splits)
next
  case ExpiryTick
  then show ?thesis using assms ats_inv_purgeLists [OF assms(2), of now] by (auto split: prod.splits)
next
  case (JtiTimeout j)
  then show ?thesis using assms by (auto simp: deleteJti_def ats_inv_jti)
qed (use assms in auto)

fun ats_run :: "ats_conf \<Rightarrow> (int \<times> string \<times> ats_event) list \<Rightarrow> ats_state \<Rightarrow> ats_state option" where
  "ats_run conf [] st = Some st"
| "ats_run conf ((now, uuid, ev) # evs) st = do {
     (st', out) \<leftarrow> ats_step conf now uuid ev st;
     ats_run conf evs st' }"

lemma ats_inv_run: "ats_run conf evs st = Some st' \<Longrightarrow> ats_inv g st \<Longrightarrow> ats_inv g st'"
proof (induction evs arbitrary: st)
  case (Cons e evs)
  obtain now uuid ev where e: "e = (now, uuid, ev)" by (cases e)
  from Cons.prems(1) obtain st1 out where "ats_step conf now uuid ev st = Some (st1, out)"
    "ats_run conf evs st1 = Some st'" by (auto simp: e bind_eq_Some_conv)
  then show ?case using Cons.IH ats_inv_step Cons.prems(2) by blast
qed simp

text \<open>
  C12: All sessions have the same id. Whatever the server has been through since it started with
  the random number \<open>r\<close>, the id it gives to the next session is the same, its two lists have 100
  entries each, and every entry is free or carries this one id.
\<close>

theorem session_id_never_changes:
  assumes "ats_run conf evs (initAts r) = Some st"
  shows "newGatingId st = (667 + r) mod 9999 \<and> length (pendingList st) = 100 \<and> length (activeList st) = 100
    \<and> (\<forall>e \<in> set (pendingList st). PendingGatingId e = - 1 \<or> PendingGatingId e = (667 + r) mod 9999)
    \<and> (\<forall>e \<in> set (activeList st). ActiveGatingId e = - 1 \<or> ActiveGatingId e = (667 + r) mod 9999)"
  using ats_inv_run [OF assms ats_inv_init] by (auto simp: ats_inv_def LISTSIZE_def)

section \<open>Consent\<close>

lemma writeToActiveList_generated:
  assumes "plain_claim (Purpose p)" and "0 \<le> now"
  shows "writeToActiveList now k (generateAt conf now uuid p) st \<noteq> None"
  using generated_token_claims [OF assms, of conf uuid]
  by (auto simp: writeToActiveList_def bind_eq_None_conv split: option.splits)

text \<open>
  C13: Consent is not awaited. Let a valid request for a purpose that requires consent come in while
  the consent framework is there, no other session is pending, and the entry it gets is one that
  has never held an answer. The client is told a session id and the consent framework is asked.
  If the client then inquires with this id, before any answer of the framework, it is given an
  access token for its purpose.
\<close>

theorem consent_not_awaited:
  assumes "decodeAtGen conf request = Inr p" and "validateRequest conf now p (jtiCache st) = Some (cache, True, msg)"
    and "checkifConsent conf (pList conf) (Purpose p)" and "ecfAvailable st"
    and "plain_claim (Purpose p)" and "0 \<le> now'" and "ExtractFromToken (AgToken p) ''exp'' \<noteq> None"
    and "index_where (\<lambda>e. PendingGatingId e = - 1) (pendingList st) = Some i"
    and "Consent (pendingList st ! i) = []" and "\<forall>e \<in> set (pendingList st). PendingGatingId e \<noteq> newGatingId st"
    and "extractGatingId conf input = Some (newGatingId st)"
  shows "\<exists>st1 asks st2 token.
    accessTokenResponse conf now uuid request st = Some (st1, atRequest_consent (newGatingId st), asks)
    \<and> consentInquiryResponse conf now' uuid' input st1 = Some (st2, inquiry_token token [])
    \<and> VerifyTokenSignature (hmac conf) token theAtSecret
    \<and> ExtractFromToken token ''scp'' = Some (Purpose p)"
proof -
  let ?g = "newGatingId st"
  obtain expiry where ex: "ExtractFromToken (AgToken p) ''exp'' = Some expiry" using assms(7) by blast
  define e where "e = (pendingList st ! i)\<lparr>PendingGatingId := ?g, AtGenData := p, AgtExpiryTime := expiry\<rparr>"
  define st1 where "st1 = setExpiryTicker now (st\<lparr>jtiCache := cache, pendingList := (pendingList st)[i := e]\<rparr>)"
  have i: "i < length (pendingList st)" using index_where_Some [OF assms(8)] by blast
  have g: "newGatingId (st\<lparr>jtiCache := cache\<rparr>) = ?g" by (simp add: newGatingId_def)
  have w: "writeToPendingList now ?g p (st\<lparr>jtiCache := cache\<rparr>) = Some st1"
    using assms(8) ex by (simp add: writeToPendingList_def st1_def e_def)
  have req: "accessTokenResponse conf now uuid request st
    = Some (st1, atRequest_consent ?g, [consentAsk p (getSignalAccess (pList conf) (Purpose p)) ?g])"
    using assms(1-4) w by (simp add: accessTokenResponse_def g Let_def)
  have pl: "pendingList st1 = (pendingList st)[i := e]" by (simp add: st1_def)
  have ix: "index_where (\<lambda>e. PendingGatingId e = ?g) (pendingList st1) = Some i"
  proof (rule index_where_first)
    show "i < length (pendingList st1)" "PendingGatingId (pendingList st1 ! i) = ?g"
      using i by (simp_all add: pl e_def)
    show "PendingGatingId (pendingList st1 ! j) \<noteq> ?g" if "j < i" for j
      using that i assms(10) by (simp add: pl)
  qed
  have c: "Consent (pendingList st1 ! i) = []" "AtGenData (pendingList st1 ! i) = p"
    using assms(9) i by (simp_all add: pl e_def)
  let ?t = "generateAt conf now' uuid' p"
  obtain st2 where st2: "writeToActiveList now' ?g ?t (snd (removeFromPendingList i st1)) = Some st2"
    using writeToActiveList_generated [OF assms(5,6)] by (metis not_None_eq)
  have "pendingList st2 = pendingList (snd (removeFromPendingList i st1))"
    using st2 by (auto simp: writeToActiveList_def bind_eq_Some_conv split: option.splits)
  then have "Consent (pendingList st2 ! i) = []"
    using c(1) i by (simp add: removeFromPendingList_def pl)
  then have "consentInquiryResponse conf now' uuid' input st1 = Some (st2, inquiry_token ?t [])"
    using assms(11) ix c st2 by (simp add: consentInquiryResponse_def removeFromPendingList_def Let_def)
  then show ?thesis
    using req generated_token_claims [OF assms(5,6), of conf uuid'] by blast
qed

text \<open>What the lists know about tokens, without the session ids.\<close>

definition known_tokens :: "ats_state \<Rightarrow> (string \<times> string) list" where
  "known_tokens st = map (\<lambda>e. (Atoken e, AtokenHandle e)) (activeList st)"

lemma getCompleteToken_known:
  "getCompleteToken st t = (case index_where (\<lambda>(a, h). t = a \<or> t = h) (known_tokens st) of
     None \<Rightarrow> [] | Some i \<Rightarrow> fst (known_tokens st ! i))"
proof -
  have "index_where (\<lambda>(a, h). t = a \<or> t = h) (known_tokens st)
      = index_where (\<lambda>e. t = Atoken e \<or> t = AtokenHandle e) (activeList st)"
    by (simp add: known_tokens_def index_where_map comp_def)
  then show ?thesis
    using index_where_Some by (fastforce simp: getCompleteToken_def known_tokens_def split: option.splits)
qed

lemma map_update_same: "(map f xs)[i := f (xs ! i)] = map f xs"
  by (cases "i < length xs") (simp_all add: list_update_same_conv list_update_beyond)

lemma known_tokens_remove: "known_tokens (removeFromActiveList i st) = known_tokens st"
  using map_update_same [of "\<lambda>e. (Atoken e, AtokenHandle e)" "activeList st" i]
  by (simp add: known_tokens_def removeFromActiveList_def map_update)

lemma known_tokens_cancel:
  assumes "consentCancelResponse conf request st = Some (st', r, c)"
  shows "known_tokens st' = known_tokens st"
  using assms
  by (cases rule: consentCancelResponse_cases)
    (simp_all add: known_tokens_remove, simp add: known_tokens_def removeFromPendingList_def)

text \<open>The answer depends on nothing else, but for the session id in a positive answer.\<close>

definition token_answer :: "ats_state \<Rightarrow> string \<Rightarrow> string" where
  "token_answer st t =
     (let (gatingId, tokenHandle) = getGatingIdAndTokenHandle st t
      in if tokenHandle \<noteq> []
         then [CHR 0x7B] @ dquoted ''validation'' @ '':'' @ dquoted ''0'' @ '', '' @ dquoted ''gatingId''
           @ '':'' @ dquoted gatingId @ '', '' @ dquoted ''handle'' @ '':'' @ dquoted tokenHandle @ [CHR 0x7D]
         else [CHR 0x7B] @ dquoted ''validation'' @ '':'' @ dquoted ''0'' @ '', '' @ dquoted ''gatingId''
           @ '':'' @ dquoted gatingId @ [CHR 0x7D])"

definition token_verdict :: "ats_conf \<Rightarrow> int \<Rightarrow> (string \<Rightarrow> string) \<Rightarrow> string \<Rightarrow> (string + string) option" where
  "token_verdict conf now lookup_token input =
     (let (err, inputMap) = unmarshal_map (numFmt conf) input in
      if err then Some (Inl (validation_answer 1))
      else
        (let p = extractAtValidatePayloadLevel1 (visitOrder conf inputMap);
             t = lookup_token (VToken p)
         in if \<not> VerifyTokenSignature (hmac conf) t theAtSecret then Some (Inl (validation_answer 5))
            else do {
              purpose \<leftarrow> ExtractFromToken t ''scp'';
              (let res = validateRequestAccess conf purpose (VAction p) (VPaths p) in
               if res \<noteq> 0 then Some (Inl (validation_answer res))
               else do {
                 res2 \<leftarrow> validateTokenExpiry now t;
                 Some (if res2 \<noteq> 0 then Inl (validation_answer res2) else Inr t) }) }))"

lemma tokenValidationResponse_verdict:
  "tokenValidationResponse conf now st input =
     map_option (case_sum id (token_answer st)) (token_verdict conf now (getCompleteToken st) input)"
  unfolding tokenValidationResponse_def token_verdict_def token_answer_def Let_def
  by (simp split: prod.splits Option.bind_splits)

lemma token_answer_prefix: "prefix ([CHR 0x7B] @ dquoted ''validation'' @ '':'' @ dquoted ''0'') (token_answer st t)"
  by (simp add: token_answer_def split: prod.splits)

lemma tokenValidationResponse_known:
  assumes "known_tokens st' = known_tokens st" and "tokenValidationResponse conf now st input = Some a"
  shows "\<exists>a'. tokenValidationResponse conf now st' input = Some a'
    \<and> (a' = a \<or> prefix ([CHR 0x7B] @ dquoted ''validation'' @ '':'' @ dquoted ''0'') a')"
proof -
  have t: "getCompleteToken st' = getCompleteToken st"
    by (intro ext) (simp only: getCompleteToken_known assms(1))
  obtain v where v: "token_verdict conf now (getCompleteToken st) input = Some v" "a = case_sum id (token_answer st) v"
    using assms(2) unfolding tokenValidationResponse_verdict by blast
  show ?thesis
    unfolding tokenValidationResponse_verdict t v(2) v(1)
    using token_answer_prefix by (cases v) (simp_all del: append.simps)
qed

text \<open>
  Consent cannot be taken back. If the server core is told that a token gives access, it is told
  so again after the consent framework has cancelled a session, whichever one that was: the entry
  is marked free, but the token in it is still found.
\<close>

theorem cancelled_token_still_accepted:
  assumes "consentCancelResponse conf request st = Some (st', r, c)"
    and "tokenValidationResponse conf now st input = Some a"
    and "prefix ([CHR 0x7B] @ dquoted ''validation'' @ '':'' @ dquoted ''0'') a"
  shows "\<exists>a'. tokenValidationResponse conf now st' input = Some a'
    \<and> prefix ([CHR 0x7B] @ dquoted ''validation'' @ '':'' @ dquoted ''0'') a'"
  using tokenValidationResponse_known [OF known_tokens_cancel [OF assms(1)] assms(2)] assms(3) by blast
section \<open>A small configuration\<close>

text \<open>
  One purpose, whose one signal a driver may read; whether the signal requires consent is an
  argument. The grant token of the sample request ends at a hundred seconds.
\<close>

definition sample_purpose :: PurposeElement where
  "sample_purpose = \<lparr>Short = ''fuel'', Long = [],
     Context = [\<lparr>Actor = [[''Driver''], [''App''], [''Car'']]\<rparr>],
     Access = [\<lparr>AccessPath = ''Speed'', Permission = ''read-only''\<rparr>]\<rparr>"

definition sample_request :: AtGenPayload where
  "sample_request = \<lparr>AgToken = b64_encode ''{}'' @ ''.'' @ b64_encode [CHR 0x7B, CHR 0x22, CHR ''e'', CHR ''x'',
       CHR ''p'', CHR 0x22, CHR '':'', CHR ''9'', CHR ''9'', CHR 0x7D] @ ''.s'', Purpose = ''fuel'', Pop = [],
     AgtHeaderClaims = [], AgtPayloadClaims = [(''iat'', ''1''), (''exp'', ''99''), (''clx'', ''Driver+App+Car'')],
     PopPayloadClaims = [(''jti'', ''a''), (''iat'', ''50''), (''aud'', ''vissv2/agts'')], PopThumb = ''t'', PopSignatureOk = True\<rparr>"

definition sample_conf :: "bool \<Rightarrow> ats_conf" where
  "sample_conf consent = \<lparr>hmac = (\<lambda>m k. take 4 m), agtSignatureOk = (\<lambda>p. True), decodeAtGen = (\<lambda>s. Inr sample_request),
     pList = [sample_purpose], sList = [], wildcardPaths = (\<lambda>p. []), accessValue = (\<lambda>p. if consent then 11 else 1),
     numFmt = (\<lambda>s. None), visitOrder = id\<rparr>"

theorem generated_token_reads_back_witness:
  "ExtractFromToken (generateAt (sample_conf False) 7000000000 ''u'' sample_request) ''exp'' = Some ''3607''"
proof -
  have "plain_claim (Purpose sample_request)" "show_int (unixSeconds 7000000000 + 3600) = ''3607''" by code_simp+
  then show ?thesis using generated_token_reads_back [of sample_request 7000000000 "sample_conf False" "''u''"] by simp
qed

theorem access_follows_purpose_list_witness:
  "validateRequestAccess (sample_conf False) ''fuel'' ''get'' [''Speed''] = 0
   \<and> validateRequestAccess (sample_conf False) ''fuel'' ''set'' [''Speed''] \<noteq> 0"
  using access_follows_purpose_list [of "''fuel''" "sample_conf False" "''get''" "[''Speed'']"]
    access_follows_purpose_list [of "''fuel''" "sample_conf False" "''set''" "[''Speed'']"]
  by (simp add: sample_conf_def sample_purpose_def permitted_def contains_def)

definition sample_pop :: "string \<Rightarrow> AtGenPayload" where
  "sample_pop iat = sample_request\<lparr>AgtPayloadClaims := [(''pub'', ''t'')],
     PopPayloadClaims := [(''jti'', ''a''), (''iat'', iat), (''aud'', ''vissv2/agts'')]\<rparr>"

lemma sample_pop_accepted:
  "validatePop 50000000000 (sample_pop ''50'') (map fst []) = ([''a''], True, [])"
  "validatePop 70000000000 (sample_pop ''70'') (map fst []) = ([''a''], True, [])"
  by code_simp+

lemma sample_pop_history:
  "pop_history 70000000000 [(''a'', 70000000000)] [(sample_pop ''70'', 70000000000), (sample_pop ''50'', 50000000000)]"
proof -
  have jti: "claim (PopPayloadClaims (sample_pop i)) ''jti'' = ''a''" for i by (simp add: sample_pop_def claim_def)
  have "pop_history 50000000000 [(''a'', 50000000000)] [(sample_pop ''50'', 50000000000)]"
    using pop_history.accept [OF pop_history.start sample_pop_accepted(1)] unfolding jti .
  then have "pop_history 70000000000 [(''a'', 50000000000)] [(sample_pop ''50'', 50000000000)]"
    by (rule pop_history.wait) simp
  then have "pop_history 70000000000 (removeAll (''a'', 50000000000) [(''a'', 50000000000)]) [(sample_pop ''50'', 50000000000)]"
    by (rule pop_history.drop) (simp_all add: GAP_def LIFETIME_def)
  then have "pop_history 70000000000 [] [(sample_pop ''50'', 50000000000)]" by simp
  then show ?thesis using pop_history.accept [OF _ sample_pop_accepted(2)] unfolding jti by blast
qed

theorem proof_of_possession_not_replayed_witness:
  "claim (PopPayloadClaims (sample_pop ''50'')) ''iat'' \<noteq> claim (PopPayloadClaims (sample_pop ''70'')) ''iat''"
proof -
  have j: "claim (PopPayloadClaims (sample_pop ''50'')) ''jti'' = claim (PopPayloadClaims (sample_pop ''70'')) ''jti''"
    "\<bar>case atoi (claim (PopPayloadClaims (sample_pop ''50'')) ''iat'') of None \<Rightarrow> 0 | Some i \<Rightarrow> i\<bar> < 2 ^ 62"
    by code_simp+
  show ?thesis
    using proof_of_possession_not_replayed [OF sample_pop_history _ j, of "[]" 70000000000 "[]" 50000000000 "[]"] by simp
qed

lemma sample_valid: "validateRequest (sample_conf True) 50000000000 sample_request (jtiCache (initAts 1)) = Some ([], True, [])"
  by code_simp

lemma sample_expiry: "ExtractFromToken (AgToken sample_request) ''exp'' = Some ''99''"
  by code_simp

definition sample_start :: ats_state where
  "sample_start = (initAts 1)\<lparr>ecfAvailable := True\<rparr>"

definition sample_inquiry :: string where
  "sample_inquiry = FinalizeMessage [(''action'', GoStr ''at-inquiry''), (''sessionId'', GoStr ''668'')]"

theorem consent_not_awaited_witness:
  "\<exists>st1 asks st2 token.
    accessTokenResponse (sample_conf True) 50000000000 ''u'' ''at-request'' sample_start
      = Some (st1, atRequest_consent (newGatingId sample_start), asks)
    \<and> consentInquiryResponse (sample_conf True) 51000000000 ''v'' sample_inquiry st1 = Some (st2, inquiry_token token [])
    \<and> VerifyTokenSignature (hmac (sample_conf True)) token theAtSecret
    \<and> ExtractFromToken token ''scp'' = Some (Purpose sample_request)"
proof (rule consent_not_awaited)
  show "decodeAtGen (sample_conf True) ''at-request'' = Inr sample_request" by (simp add: sample_conf_def)
  show "validateRequest (sample_conf True) 50000000000 sample_request (jtiCache sample_start) = Some ([], True, [])"
    using sample_valid by (simp add: sample_start_def)
  show "checkifConsent (sample_conf True) (pList (sample_conf True)) (Purpose sample_request)"
    "plain_claim (Purpose sample_request)" by code_simp+
  show "ExtractFromToken (AgToken sample_request) ''exp'' \<noteq> None" by (simp add: sample_expiry)
  show "index_where (\<lambda>e. PendingGatingId e = - 1) (pendingList sample_start) = Some 0"
    "Consent (pendingList sample_start ! 0) = []"
    "\<forall>e \<in> set (pendingList sample_start). PendingGatingId e \<noteq> newGatingId sample_start" by code_simp+
  show "extractGatingId (sample_conf True) sample_inquiry = Some (newGatingId sample_start)" by code_simp
qed (simp_all add: sample_start_def)

theorem session_id_never_changes_witness:
  "\<exists>st. ats_run (sample_conf True) [(50000000000, ''u'', FromEcf ''internal-ecfAvailable''),
       (51000000000, ''v'', FromClient ''at-request'')] (initAts 1) = Some st \<and> newGatingId st = 668"
proof -
  have v: "validateRequest (sample_conf True) 51000000000 sample_request [] = Some ([], True, [])"
    "checkifConsent (sample_conf True) (pList (sample_conf True)) (Purpose sample_request)"
    "contains ''at-request'' ''at-request''" by code_simp+
  have d: "decodeAtGen (sample_conf True) ''at-request'' = Inr sample_request" by (simp add: sample_conf_def)
  have s: "jtiCache sample_start = []" "ecfAvailable sample_start" by (simp_all add: sample_start_def initAts_def)
  have "accessTokenResponse (sample_conf True) 51000000000 ''v'' ''at-request'' sample_start \<noteq> None"
    using v(1,2) d s sample_expiry
    by (auto simp: accessTokenResponse_def writeToPendingList_def Let_def split: option.splits)
  then obtain st' r c where
    a: "accessTokenResponse (sample_conf True) 51000000000 ''v'' ''at-request'' sample_start = Some (st', r, c)" by auto
  have run: "ats_run (sample_conf True) [(50000000000, ''u'', FromEcf ''internal-ecfAvailable''),
       (51000000000, ''v'', FromClient ''at-request'')] (initAts 1) = Some st'"
    using a v(3) by (simp add: sample_start_def generateClientResponse_def)
  then have "newGatingId st' = (667 + 1) mod 9999" using session_id_never_changes by blast
  then show ?thesis using run by simp
qed

text \<open>A server that has issued one token, and the session that the framework cancels.\<close>

definition sample_token :: string where
  "sample_token = generateAt (sample_conf False) 50000000000 ''u'' sample_request"

definition sample_issued :: ats_state where
  "sample_issued = \<lparr>pendingList = [], activeList = [\<lparr>ActiveGatingId = 668, Atoken = sample_token,
     AtokenHandle = ''ZXlKaA'', AtExpiryTime = ''3650''\<rparr>], GatingId = 667, jtiCache = [], ecfAvailable = True,
     expiryTicker = None\<rparr>"

definition sample_validation :: string where
  "sample_validation = FinalizeMessage [(''token'', GoStr ''ZXlKaA''), (''paths'', GoStr ''Speed''),
     (''action'', GoStr ''get''), (''validation'', GoStr ''2'')]"

definition sample_cancel :: string where
  "sample_cancel = FinalizeMessage [(''action'', GoStr ''consent-cancel''), (''messageId'', GoStr ''668'')]"

lemma sample_token_found: "getCompleteToken sample_issued ''ZXlKaA'' = sample_token"
  by (simp add: sample_issued_def getCompleteToken_def)

lemma sample_payload:
  "\<exists>m. unmarshal_map (numFmt (sample_conf False)) sample_validation = (False, m)
    \<and> extractAtValidatePayloadLevel1 (visitOrder (sample_conf False) m)
      = \<lparr>VToken = ''ZXlKaA'', VPaths = [''Speed''], VAction = ''get'', VValidation = ''2''\<rparr>"
proof -
  have "unmarshal_map (numFmt (sample_conf False)) sample_validation
    = (False, [(''action'', GoStr ''get''), (''paths'', GoStr ''Speed''), (''token'', GoStr ''ZXlKaA''), (''validation'', GoStr ''2'')])"
    by code_simp
  then show ?thesis by (simp add: sample_conf_def extractAtValidatePayloadLevel1_def)
qed

lemma sample_accepted:
  "tokenValidationResponse (sample_conf False) 60000000000 sample_issued sample_validation
     = Some (token_answer sample_issued sample_token)"
proof -
  obtain m where m: "unmarshal_map (numFmt (sample_conf False)) sample_validation = (False, m)"
    "extractAtValidatePayloadLevel1 (visitOrder (sample_conf False) m)
      = \<lparr>VToken = ''ZXlKaA'', VPaths = [''Speed''], VAction = ''get'', VValidation = ''2''\<rparr>"
    using sample_payload by blast
  have "plain_claim (Purpose sample_request)" by code_simp
  note g = generated_token_claims [OF this, of 50000000000 "sample_conf False" "''u''", folded sample_token_def]
  have n: "Purpose sample_request = ''fuel''" "show_int (unixSeconds 50000000000) = ''50''"
    "show_int (unixSeconds 50000000000 + 3600) = ''3650''" "atoi ''50'' = Some 50" "atoi ''3650'' = Some 3650"
    "unixTime 50 = 50000000000" "unixTime 3650 = 3650000000000"
    "validateRequestAccess (sample_conf False) ''fuel'' ''get'' [''Speed''] = 0" by code_simp+
  have "validateTokenExpiry 60000000000 sample_token = Some 0"
    using g by (simp add: validateTokenExpiry_def n)
  then show ?thesis
    using g by (simp add: tokenValidationResponse_verdict token_verdict_def m sample_token_found n)
qed

lemma sample_cancelled:
  "consentCancelResponse (sample_conf False) sample_cancel sample_issued
     = Some (removeFromActiveList 0 sample_issued, ecf_answer ''consent-cancel'' ''200-OK'', [''668''])"
proof -
  have "unmarshal_map (numFmt (sample_conf False)) sample_cancel
    = (False, [(''action'', GoStr ''consent-cancel''), (''messageId'', GoStr ''668'')])" "atoi ''668'' = Some 668"
    by code_simp+
  then show ?thesis by (simp add: consentCancelResponse_def gget_def as_text_def sample_issued_def)
qed

theorem cancelled_token_still_accepted_witness:
  "\<exists>a'. tokenValidationResponse (sample_conf False) 60000000000 (removeFromActiveList 0 sample_issued) sample_validation = Some a'
    \<and> prefix ([CHR 0x7B] @ dquoted ''validation'' @ '':'' @ dquoted ''0'') a'"
  by (rule cancelled_token_still_accepted [OF sample_cancelled sample_accepted token_answer_prefix])

end
