(* ===== verification/Svc_Data.thy ===== *)
theory Svc_Data
  imports Server_Core
begin

text \<open>
  The service manager, \<open>server/vissv2server/serviceMgr/serviceMgr.go\<close>: data points, the
  conditions of range and change subscriptions, and the data that an answer carries. The state
  storage behind its client libraries, the arithmetic of 32-bit floats and the clock are fields
  of the environment; \<open>None\<close> is a run-time panic.
\<close>

section \<open>The environment\<close>

text \<open>
  \<open>dbGet\<close> is the answer of the database for a path, as a data point; \<open>dbWrite\<close> says whether a write
  succeeds. \<open>historyAnswer\<close> is the answer on the channel of the history server.
\<close>

datatype state_write =
    SqlUpdate string string string
  | FeederData string
  | IotInsert string string

record svc_env =
  stateDbType :: string
  dbGet :: "string \<Rightarrow> string"
  dbWrite :: "state_write \<Rightarrow> bool"
  historySupport :: bool
  historyAnswer :: "string \<Rightarrow> string"
  rfcNow :: string
  numText :: "string \<Rightarrow> string option"
  visit :: "gomap \<Rightarrow> gomap"
  parse32 :: "string \<Rightarrow> 32 word option"
  sub32 :: "32 word \<Rightarrow> 32 word \<Rightarrow> 32 word"
  eq32 :: "32 word \<Rightarrow> 32 word \<Rightarrow> bool"
  less32 :: "32 word \<Rightarrow> 32 word \<Rightarrow> bool"

section \<open>Data points\<close>

definition data_point :: "string \<Rightarrow> string \<Rightarrow> string" where
  "data_point value ts =
     CHR 0x7B # dquoted ''value'' @ '':'' @ dquoted value @ '', '' @ dquoted ''ts'' @ '':'' @ dquoted ts @ [CHR 0x7D]"

definition getVehicleData :: "svc_env \<Rightarrow> int \<Rightarrow> string \<Rightarrow> string" where
  "getVehicleData env dummyValue path =
     (if stateDbType env = ''sqlite'' \<or> stateDbType env = ''redis'' \<or> stateDbType env = ''apache-iotdb''
      then dbGet env path
      else if stateDbType env = ''none'' then data_point (show_int dummyValue) (rfcNow env)
      else [])"

text \<open>The write and the time stamp it returns, empty when it failed.\<close>

definition setVehicleData :: "svc_env \<Rightarrow> string \<Rightarrow> string \<Rightarrow> (state_write option \<times> string) option" where
  "setVehicleData env path value =
     (let ts = rfcNow env;
          outcome = (\<lambda>w. (Some w, if dbWrite env w then ts else []))
      in if stateDbType env = ''sqlite'' then
           map_option (\<lambda>p. outcome (SqlUpdate value ts p))
             (if length path = 0 then None else slice path 1 (length path - 1))
         else if stateDbType env = ''redis'' then
           Some (outcome (FeederData (CHR 0x7B # dquoted ''path'' @ '':'' @ dquoted path @ '', '' @ dquoted ''dp''
             @ '':'' @ data_point value ts @ [CHR 0x7D])))
         else if stateDbType env = ''apache-iotdb'' then Some (outcome (IotInsert path value))
         else Some (None, []))"

definition unpackDataPoint :: "string \<Rightarrow> string \<times> string" where
  "unpackDataPoint dp = (case unmarshal_struct2 ''value'' ''ts'' dp of None \<Rightarrow> ([], []) | Some r \<Rightarrow> r)"

definition getDPValue :: "string \<Rightarrow> string" where
  "getDPValue dp = fst (unpackDataPoint dp)"

definition getDPTs :: "string \<Rightarrow> string" where
  "getDPTs dp = snd (unpackDataPoint dp)"

section \<open>Conditions\<close>

text \<open>The subtraction of 64-bit integers wraps around.\<close>

definition wrap64 :: "int \<Rightarrow> int" where
  "wrap64 i = sint (word_of_int i :: 64 word)"

definition compare_texts :: "string \<Rightarrow> string \<Rightarrow> string \<Rightarrow> bool \<times> bool" where
  "compare_texts logicOp latestValue currentValue =
     (if logicOp = ''eq'' then (currentValue = latestValue, True)
      else if logicOp = ''ne'' then (currentValue \<noteq> latestValue, True)
      else if logicOp = ''gt'' then (latestValue = ''false'' \<and> currentValue \<noteq> latestValue, True)
      else if logicOp = ''lt'' then (latestValue = ''true'' \<and> currentValue \<noteq> latestValue, True)
      else (False, False))"

text \<open>The six comparisons of numbers, from equality and order.\<close>

definition compare_numbers :: "('v \<Rightarrow> 'v \<Rightarrow> bool) \<Rightarrow> ('v \<Rightarrow> 'v \<Rightarrow> bool) \<Rightarrow> string \<Rightarrow> 'v \<Rightarrow> 'v \<Rightarrow> bool" where
  "compare_numbers eq lt logicOp v latVal =
     (if logicOp = ''eq'' then eq v latVal
      else if logicOp = ''ne'' then \<not> eq v latVal
      else if logicOp = ''gt'' then lt latVal v
      else if logicOp = ''gte'' then lt latVal v \<or> eq v latVal
      else if logicOp = ''lt'' then lt v latVal
      else if logicOp = ''lte'' then lt v latVal \<or> eq v latVal
      else False)"

definition compareValues :: "svc_env \<Rightarrow> string \<Rightarrow> string \<Rightarrow> string \<Rightarrow> string \<Rightarrow> bool \<times> bool" where
  "compareValues env logicOp latestValue currentValue diff =
     (let latestValueType = AnalyzeValueType (parse32 env) latestValue in
      if latestValueType \<noteq> AnalyzeValueType (parse32 env) currentValue then (False, False)
      else if latestValueType = 0 \<or> latestValueType = 2 then
        (if diff \<noteq> ''0'' then (False, False) else compare_texts logicOp latestValue currentValue)
      else if latestValueType = 1 then
        (case (atoi currentValue, atoi latestValue, atoi diff) of
           (Some curVal, Some latVal, Some diffVal) \<Rightarrow>
             (compare_numbers (=) (<) logicOp (wrap64 (curVal - diffVal)) latVal, False)
         | _ \<Rightarrow> (False, False))
      else if latestValueType = 3 then
        (case (parse32 env currentValue, parse32 env latestValue, parse32 env diff) of
           (Some curVal, Some latVal, Some diffVal) \<Rightarrow>
             (compare_numbers (eq32 env) (less32 env) logicOp (sub32 env curVal diffVal) latVal, False)
         | _ \<Rightarrow> (False, False))
      else (False, False))"

definition unmarshal_structs2 :: "string \<Rightarrow> string \<Rightarrow> string \<Rightarrow> (string \<times> string) list option" where
  "unmarshal_structs2 f g s =
     (case parse_whole s of
        Some (GoArr vs) \<Rightarrow> all_some (map (struct2 f g) vs)
      | Some GoNull \<Rightarrow> Some []
      | _ \<Rightarrow> None)"

definition evaluateRangeFilter :: "svc_env \<Rightarrow> string \<Rightarrow> string \<Rightarrow> bool" where
  "evaluateRangeFilter env opValue currentValue =
     (case (if contains opValue ''['' then unmarshal_structs2 ''logic-op'' ''boundary'' opValue
            else map_option (\<lambda>r. [r]) (unmarshal_struct2 ''logic-op'' ''boundary'' opValue)) of
        None \<Rightarrow> False
      | Some rangeFilter \<Rightarrow>
          list_all (\<lambda>(logicOp, boundary). fst (compareValues env logicOp boundary currentValue ''0'')) rangeFilter)"

definition evaluateChangeFilter :: "svc_env \<Rightarrow> string \<Rightarrow> string \<Rightarrow> string \<Rightarrow> string \<Rightarrow> bool \<times> bool \<times> string" where
  "evaluateChangeFilter env opValue latestValue currentValue currentDataPoint =
     (case unmarshal_struct2 ''logic-op'' ''diff'' opValue of
        None \<Rightarrow> (False, False, [])
      | Some (logicOp, diff) \<Rightarrow>
          (let (val1, val2) = compareValues env logicOp latestValue currentValue diff
           in (val1, val2, currentDataPoint)))"

text \<open>The first range or change filter decides; \<open>vd\<close> reads the current data point of a path.\<close>

fun checkRangeChangeFilter ::
  "svc_env \<Rightarrow> (string \<Rightarrow> string) \<Rightarrow> FilterObject list \<Rightarrow> string \<Rightarrow> string \<Rightarrow> bool \<times> bool \<times> string" where
  "checkRangeChangeFilter env vd [] latestDataPoint path = (False, False, [])"
| "checkRangeChangeFilter env vd (f # fs) latestDataPoint path =
     (if Type f = ''paths'' \<or> Type f = ''timebased'' \<or> Type f = ''curvelog''
      then checkRangeChangeFilter env vd fs latestDataPoint path
      else if Type f = ''range'' then
        (evaluateRangeFilter env (Parameter f) (getDPValue (vd path)), False, vd path)
      else if Type f = ''change'' then
        evaluateChangeFilter env (Parameter f) (getDPValue latestDataPoint) (getDPValue (vd path)) (vd path)
      else checkRangeChangeFilter env vd fs latestDataPoint path)"

section \<open>Filters and paths of a request\<close>

definition getOpType :: "FilterObject list \<Rightarrow> string \<Rightarrow> bool" where
  "getOpType filterList opType = list_ex (\<lambda>f. Type f = opType) filterList"

text \<open>A struct with one string field.\<close>

definition unmarshal_struct1 :: "string \<Rightarrow> string \<Rightarrow> string option" where
  "unmarshal_struct1 f s = map_option fst (unmarshal_struct2 f f s)"

definition getIntervalPeriod :: "string \<Rightarrow> int" where
  "getIntervalPeriod opValue =
     (case unmarshal_struct1 ''period'' opValue of
        None \<Rightarrow> - 1
      | Some s \<Rightarrow> (case atoi s of None \<Rightarrow> - 1 | Some period \<Rightarrow> period))"

text \<open>\<open>None\<close> is Go's \<open>nil\<close> here.\<close>

definition unpackPaths :: "string \<Rightarrow> string list option" where
  "unpackPaths paths = (if contains paths ''['' then unmarshal_strings paths else Some [paths])"

definition addPackage :: "string \<Rightarrow> string \<Rightarrow> string \<Rightarrow> string option" where
  "addPackage incompleteMessage packName packValue =
     (if incompleteMessage = [] then None
      else Some (butlast incompleteMessage @ '', '' @ dquoted packName @ '':'' @ packValue @ [CHR 0x7D]))"

section \<open>The data of an answer\<close>

definition getSampleRate :: "string \<Rightarrow> string" where
  "getSampleRate path = ''X Hz''"

definition getAvailability :: "string \<Rightarrow> string" where
  "getAvailability path = ''available''"

definition getValidation :: "string \<Rightarrow> string" where
  "getValidation path = ''read-write''"

definition getMetadataDomainDp :: "svc_env \<Rightarrow> string \<Rightarrow> string \<Rightarrow> string" where
  "getMetadataDomainDp env domain path =
     (let value = (if domain = ''samplerate'' then getSampleRate path
                   else if domain = ''availability'' then getAvailability path
                   else if domain = ''validate'' then getValidation path
                   else ''Unknown domain'')
      in CHR 0x7B # dquoted ''value'' @ '':'' @ dquoted value @ '','' @ dquoted ''ts'' @ '':''
           @ dquoted (rfcNow env) @ [CHR 0x7D])"

text \<open>Where the data come from: the first filter for the history or for metadata decides.\<close>

datatype data_source = Current | History string | Domain string

fun dataSource :: "FilterObject list \<Rightarrow> data_source" where
  "dataSource [] = Current"
| "dataSource (f # fs) =
     (if Type f = ''history'' then History (Parameter f)
      else if Type f = ''dynamic-metadata'' then Domain (Parameter f)
      else dataSource fs)"

definition historyRequest :: "string \<Rightarrow> string \<Rightarrow> string" where
  "historyRequest path period =
     CHR 0x7B # dquoted ''path'' @ '':'' @ dquoted path @ '', '' @ dquoted ''period'' @ '':'' @ dquoted period @ [CHR 0x7D]"

definition path_data :: "string \<Rightarrow> string \<Rightarrow> string" where
  "path_data path dp = CHR 0x7B # dquoted ''path'' @ '':'' @ dquoted path @ '', '' @ dquoted ''dp'' @ '':'' @ dp @ [CHR 0x7D]"

fun sourceData :: "svc_env \<Rightarrow> (string \<Rightarrow> string) \<Rightarrow> data_source \<Rightarrow> string \<Rightarrow> string" where
  "sourceData env vd Current path = vd path"
| "sourceData env vd (Domain domain) path = getMetadataDomainDp env domain path"
| "sourceData env vd (History period) path = historyAnswer env (historyRequest path period)"

fun is_history :: "data_source \<Rightarrow> bool" where
  "is_history (History period) = True"
| "is_history _ = False"

text \<open>The text before its end; an empty array of paths is sliced below its start.\<close>

definition getDataPack :: "svc_env \<Rightarrow> (string \<Rightarrow> string) \<Rightarrow> string list \<Rightarrow> FilterObject list \<Rightarrow> string option" where
  "getDataPack env vd pathArray filterList =
     (let src = dataSource filterList in
      if is_history src \<and> \<not> historySupport env then Some []
      else if is_history src \<and> list_ex (\<lambda>p. sourceData env vd src p = []) pathArray then Some []
      else
        (let entries = concat (map (\<lambda>p. path_data p (sourceData env vd src p) @ '', '') pathArray);
             dataPack = (if 1 < length pathArray then ''['' else []) @ entries
         in if length dataPack < 2 then None
            else Some (take (length dataPack - 2) dataPack @ (if 1 < length pathArray then '']'' else []))))"

end
