(* ===== verification/Svc_Subs.thy ===== *)
theory Svc_Subs
  imports Svc_Data
begin

text \<open>
  The service manager's subscriptions: tickers, the list of subscriptions, and the loop of
  \<open>ServiceMgrInit\<close>, one step per request of the server core, tick of a subscription, message of a
  curve logging thread, or tick of the loop itself. A handler panics (\<open>None\<close>), or gives the new
  state with the answers it sends on the data channel and the notifications on the other. The
  request that removes all subscriptions of a client has a loop of its own, which may not end.
\<close>

section \<open>Tickers\<close>

text \<open>
  \<open>tickerIndexList\<close> says which id holds which ticker, 0 being free. A ticker is its period in
  nanoseconds and whether it runs; stopping does not clear it.
\<close>

definition MAXTICKERS :: nat where
  "MAXTICKERS = 255"

record SubscriptionState =
  SubscriptionId :: int
  SubscriptionThreads :: int
  RouterId :: string
  Path :: "string list"
  FilterList :: "FilterObject list"
  LatestDataPoint :: string
  SubGatingId :: string

definition initialErrorMap :: gomap where
  "initialErrorMap =
     [(''RouterId'', GoStr ''0?0''), (''action'', GoStr ''unknown''), (''requestId'', GoStr ''XX''),
      (''error'', GoStr (CHR 0x7B # dquoted ''number'' @ '':AA, '' @ dquoted ''reason'' @ '': '' @ dquoted ''BB''
         @ '', '' @ dquoted ''message'' @ '': '' @ dquoted ''CC'' @ [CHR 0x7D])),
      (''ts'', GoStr ''yy'')]"

record svc_state =
  subscriptionId :: int
  subscriptionList :: "SubscriptionState list"
  tickerIndexList :: "int list"
  subscriptionTicker :: "(int \<times> bool) option list"
  errorResponseMap :: gomap
  dummyValue :: int
  closeClSubId :: int

definition initService :: svc_state where
  "initService = \<lparr>subscriptionId = 1, subscriptionList = [], tickerIndexList = replicate MAXTICKERS 0,
     subscriptionTicker = replicate MAXTICKERS None, errorResponseMap = initialErrorMap, dummyValue = 0,
     closeClSubId = - 1\<rparr>"

definition allocateTicker :: "int \<Rightarrow> int list \<Rightarrow> (nat \<times> int list) option" where
  "allocateTicker sid tickers =
     map_option (\<lambda>i. (i, tickers[i := sid])) (index_where (\<lambda>t. t = 0) tickers)"

definition deallocateTicker :: "int \<Rightarrow> int list \<Rightarrow> (nat \<times> int list) option" where
  "deallocateTicker sid tickers =
     map_option (\<lambda>i. (i, tickers[i := 0])) (index_where (\<lambda>t. t = sid) tickers)"

text \<open>
  \<open>time.NewTicker\<close> panics on a period that is not positive; milliseconds become nanoseconds in 64
  bits.
\<close>

definition activateInterval :: "int \<Rightarrow> int \<Rightarrow> svc_state \<Rightarrow> svc_state option" where
  "activateInterval sid interval st =
     (case allocateTicker sid (tickerIndexList st) of
        None \<Rightarrow> Some st
      | Some (index, tickers) \<Rightarrow>
          (let period = wrap64 (interval * 1000000)
           in if period \<le> 0 then None
              else Some (st\<lparr>tickerIndexList := tickers,
                     subscriptionTicker := (subscriptionTicker st)[index := Some (period, True)]\<rparr>)))"

text \<open>Without a ticker the index is -1; a ticker that was never made is \<open>nil\<close>.\<close>

definition deactivateInterval :: "int \<Rightarrow> svc_state \<Rightarrow> svc_state option" where
  "deactivateInterval sid st =
     (case deallocateTicker sid (tickerIndexList st) of
        None \<Rightarrow> None
      | Some (index, tickers) \<Rightarrow>
          (case subscriptionTicker st ! index of
             None \<Rightarrow> None
           | Some (period, running) \<Rightarrow>
               Some (st\<lparr>tickerIndexList := tickers,
                 subscriptionTicker := (subscriptionTicker st)[index := Some (period, False)]\<rparr>)))"

section \<open>The list of subscriptions\<close>

definition getSubcriptionStateIndex :: "int \<Rightarrow> SubscriptionState list \<Rightarrow> nat option" where
  "getSubcriptionStateIndex sid subs = index_where (\<lambda>s. SubscriptionId s = sid) subs"

definition setSubscriptionListThreads :: "SubscriptionState list \<Rightarrow> int \<Rightarrow> int \<Rightarrow> SubscriptionState list option" where
  "setSubscriptionListThreads subs numofThreads sid =
     map_option (\<lambda>i. subs[i := (subs ! i)\<lparr>SubscriptionThreads := numofThreads\<rparr>])
       (getSubcriptionStateIndex sid subs)"

definition removeFromsubscriptionList :: "SubscriptionState list \<Rightarrow> nat \<Rightarrow> SubscriptionState list" where
  "removeFromsubscriptionList subs index = butlast (subs[index := last subs])"

text \<open>The status is -1 when there is no such subscription.\<close>

definition deactivateSubscription :: "string \<Rightarrow> svc_state \<Rightarrow> (int \<times> svc_state) option" where
  "deactivateSubscription sidText st =
     (case getSubcriptionStateIndex (atoi_value sidText) (subscriptionList st) of
        None \<Rightarrow> Some (- 1, st)
      | Some index \<Rightarrow>
          (let sub = subscriptionList st ! index in do {
             st1 \<leftarrow> (if getOpType (FilterList sub) ''timebased'' then deactivateInterval (SubscriptionId sub) st
                    else if getOpType (FilterList sub) ''curvelog'' then Some (st\<lparr>closeClSubId := SubscriptionId sub\<rparr>)
                    else Some st);
             Some (1, if getOpType (FilterList sub) ''curvelog'' then st1
                      else st1\<lparr>subscriptionList := removeFromsubscriptionList (subscriptionList st1) index\<rparr>) }))"

definition getSubscriptionData :: "SubscriptionState list \<Rightarrow> string \<Rightarrow> string \<times> string" where
  "getSubscriptionData subs gid =
     (case index_where (\<lambda>s. SubGatingId s = gid) subs of
        None \<Rightarrow> ([], [])
      | Some i \<Rightarrow> (RouterId (subs ! i), show_int (SubscriptionId (subs ! i))))"

definition scanAndRemoveListItem :: "string \<Rightarrow> svc_state \<Rightarrow> (bool \<times> svc_state) option" where
  "scanAndRemoveListItem rid st =
     (case index_where (\<lambda>s. RouterId s = rid) (subscriptionList st) of
        None \<Rightarrow> Some (False, st)
      | Some i \<Rightarrow> do {
          (status, st') \<leftarrow> deactivateSubscription (show_int (SubscriptionId (subscriptionList st ! i))) st;
          Some (True, st') })"

text \<open>
  The loop that removes all subscriptions of a client: \<open>None\<close> when it does not end, \<open>Some None\<close>
  when it panics.
\<close>

partial_function (option) killLoop :: "string \<Rightarrow> svc_state \<Rightarrow> svc_state option option" where
  "killLoop rid st =
     (case scanAndRemoveListItem rid st of
        None \<Rightarrow> Some None
      | Some (isRemoved, st') \<Rightarrow> if isRemoved then killLoop rid st' else Some (Some st'))"

declare killLoop.simps [code]

text \<open>
  The first filter for an interval or for curve logging is started. A curve logging thread runs on
  its own; what it sends is an input of the machine.
\<close>

fun activateIfIntervalOrCL :: "FilterObject list \<Rightarrow> int \<Rightarrow> svc_state \<Rightarrow> svc_state option" where
  "activateIfIntervalOrCL [] sid st = Some st"
| "activateIfIntervalOrCL (f # fs) sid st =
     (if Type f = ''timebased'' then
        (if 0 < getIntervalPeriod (Parameter f) then activateInterval sid (getIntervalPeriod (Parameter f)) st
         else Some st)
      else if Type f = ''curvelog'' then Some st
      else activateIfIntervalOrCL fs sid st)"

section \<open>Requests\<close>

datatype 'a go_run = Diverges | Panics | Returned 'a

definition of_option :: "'a option \<Rightarrow> 'a go_run" where
  "of_option r = (case r of None \<Rightarrow> Panics | Some x \<Rightarrow> Returned x)"

text \<open>What a step sends: answers on the data channel, notifications, and writes to the storage.\<close>

record svc_output =
  Answers :: "string list"
  Notifications :: "string list"
  Writes :: "state_write list"

definition answer :: "string list \<Rightarrow> svc_output" where
  "answer as = \<lparr>Answers = as, Notifications = [], Writes = []\<rparr>"

definition svc_error :: "svc_env \<Rightarrow> gomap \<Rightarrow> nat \<Rightarrow> string \<Rightarrow> svc_state \<Rightarrow> svc_state \<times> string" where
  "svc_error env requestMap index alt st =
     (let m = SetErrorResponse (rfcNow env) requestMap (errorResponseMap st) index alt
      in (st\<lparr>errorResponseMap := m\<rparr>, FinalizeMessage m))"

definition error_only :: "svc_env \<Rightarrow> gomap \<Rightarrow> nat \<Rightarrow> svc_state \<Rightarrow> svc_state \<times> svc_output" where
  "error_only env requestMap index st =
     (let (st', m) = svc_error env requestMap index [] st in (st', answer [m]))"

definition initialResponse :: "svc_env \<Rightarrow> gomap \<Rightarrow> gomap" where
  "initialResponse env requestMap =
     (let m = gset ''ts'' (GoStr (rfcNow env)) (gset ''requestId'' (gget requestMap ''requestId'')
                (gset ''action'' (gget requestMap ''action'') (gset ''RouterId'' (gget requestMap ''RouterId'') [])))
      in if gget requestMap ''handle'' \<noteq> GoNull then gset ''authorization'' (gget requestMap ''handle'') m else m)"

definition serve_set :: "svc_env \<Rightarrow> gomap \<Rightarrow> svc_state \<Rightarrow> (svc_state \<times> svc_output) option" where
  "serve_set env requestMap st = do {
     path \<leftarrow> as_string (gget requestMap ''path'');
     if contains path ''['' then Some (error_only env requestMap 1 st)
     else do {
       value \<leftarrow> as_string (gget requestMap ''value'');
       (w, ts) \<leftarrow> setVehicleData env path value;
       (let (st', out) = (if ts = [] then error_only env requestMap 7 st
                          else (st, answer [FinalizeMessage (gset ''ts'' (GoStr ts) (initialResponse env requestMap))]))
        in Some (st', out\<lparr>Writes := (case w of None \<Rightarrow> [] | Some x \<Rightarrow> [x])\<rparr>)) } }"

definition metadataPack :: string where
  "metadataPack = CHR 0x7B # dquoted ''filter'' @ '':['' @ commas (map dquoted [''paths'', ''timebased'', ''change'',
       ''range'', ''curvelog'', ''history'', ''dynamic-metadata'', ''static-metadata'']) @ ''],'' @ dquoted ''access_ctrl''
     @ '':['' @ commas (map dquoted [''short_term'', ''long_term'', ''signalset_claim'']) @ ''],''
     @ dquoted ''transport_protocol'' @ '':['' @ commas (map dquoted [''https'', ''wss'', ''mqtts'']) @ '']'' @ [CHR 0x7D]"

definition has_filter :: "gomap \<Rightarrow> bool" where
  "has_filter requestMap = (gget requestMap ''filter'' \<noteq> GoNull \<and> gget requestMap ''filter'' \<noteq> GoStr [])"

definition serve_get :: "svc_env \<Rightarrow> gomap \<Rightarrow> svc_state \<Rightarrow> (svc_state \<times> svc_output) option" where
  "serve_get env requestMap st = do {
     path \<leftarrow> as_string (gget requestMap ''path'');
     (case unpackPaths path of
        None \<Rightarrow> Some (error_only env requestMap 1 st)
      | Some pathArray \<Rightarrow>
        (let filterList = (if has_filter requestMap then UnpackFilter (visit env) (gget requestMap ''filter'') else [])
         in if has_filter requestMap \<and> filterList = [] then Some (error_only env requestMap 0 st)
            else if has_filter requestMap \<and> Type (hd filterList) = ''dynamic-metadata''
                    \<and> Parameter (hd filterList) = ''server_capabilities'' then do {
              m \<leftarrow> addPackage (FinalizeMessage (initialResponse env requestMap)) ''metadata'' metadataPack;
              Some (st, answer [m]) }
            else do {
              dataPack \<leftarrow> getDataPack env (getVehicleData env (dummyValue st)) pathArray filterList;
              if dataPack = [] then Some (error_only env requestMap 6 st)
              else do {
                m \<leftarrow> addPackage (FinalizeMessage (initialResponse env requestMap)) ''data'' dataPack;
                Some (st, answer [m]) } })) }"

text \<open>An empty list of filters is answered with an error, and the subscription is made all the same.\<close>

definition serve_subscribe :: "svc_env \<Rightarrow> gomap \<Rightarrow> svc_state \<Rightarrow> (svc_state \<times> svc_output) option" where
  "serve_subscribe env requestMap st = do {
     rid \<leftarrow> as_string (gget requestMap ''RouterId'');
     path \<leftarrow> as_string (gget requestMap ''path'');
     (let paths = (case unpackPaths path of None \<Rightarrow> [] | Some ps \<Rightarrow> ps) in
      if \<not> has_filter requestMap then Some (error_only env requestMap 0 st)
      else
        (let filters = UnpackFilter (visit env) (gget requestMap ''filter'');
             (st1, errs) = (if filters = [] then (let (s, m) = svc_error env requestMap 1 [] st in (s, [m])) else (st, []));
             sid = subscriptionId st
         in do {
           gid \<leftarrow> string_if_set requestMap ''gatingId'';
           first \<leftarrow> index_at paths 0;
           (let sub = \<lparr>SubscriptionId = sid, SubscriptionThreads = 0, RouterId = rid, Path = paths,
                  FilterList = filters, LatestDataPoint = getVehicleData env (dummyValue st) first, SubGatingId = gid\<rparr>
            in do {
              st2 \<leftarrow> activateIfIntervalOrCL filters sid (st1\<lparr>subscriptionList := subscriptionList st1 @ [sub]\<rparr>);
              Some (st2\<lparr>subscriptionId := sid + 1\<rparr>,
                answer (errs @ [FinalizeMessage
                  (gset ''subscriptionId'' (GoStr (show_int sid)) (initialResponse env requestMap))])) }) })) }"

definition serve_unsubscribe :: "svc_env \<Rightarrow> gomap \<Rightarrow> svc_state \<Rightarrow> (svc_state \<times> svc_output) option" where
  "serve_unsubscribe env requestMap st =
     (case gget requestMap ''subscriptionId'' of
        GoStr sid \<Rightarrow> do {
          (status, st') \<leftarrow> deactivateSubscription sid st;
          if status \<noteq> - 1 then
            Some (st', answer [FinalizeMessage (gset ''subscriptionId'' (GoStr sid) (initialResponse env requestMap))])
          else Some (error_only env requestMap 1 st') }
      | _ \<Rightarrow> Some (error_only env requestMap 1 st))"

definition serve_cancel :: "svc_env \<Rightarrow> gomap \<Rightarrow> svc_state \<Rightarrow> (svc_state \<times> svc_output) option" where
  "serve_cancel env requestMap st = do {
     gid \<leftarrow> as_string (gget requestMap ''gatingId'');
     (let (rid, sid) = getSubscriptionData (subscriptionList st) gid in
      if rid = [] then Some (st, answer [])
      else
        (let requestMap' = gset ''subscriptionId'' (GoStr sid) (gset ''requestId'' GoNull
               (gset ''action'' (GoStr ''subscription'') (gset ''RouterId'' (GoStr rid) requestMap)));
             (st1, m) = svc_error env requestMap' 2 ''Token expired or consent cancelled.'' st
         in do {
           (removed, st2) \<leftarrow> scanAndRemoveListItem rid st1;
           Some (st2, answer [m]) })) }"

definition serve_kill :: "gomap \<Rightarrow> svc_state \<Rightarrow> (svc_state \<times> svc_output) go_run" where
  "serve_kill requestMap st =
     (case as_string (gget requestMap ''RouterId'') of
        None \<Rightarrow> Panics
      | Some rid \<Rightarrow>
        (case killLoop rid st of
           None \<Rightarrow> Diverges
         | Some None \<Rightarrow> Panics
         | Some (Some st') \<Rightarrow> Returned (st', answer [])))"

definition serve_message :: "svc_env \<Rightarrow> string \<Rightarrow> svc_state \<Rightarrow> (svc_state \<times> svc_output) go_run" where
  "serve_message env request st =
     (let requestMap = snd (MapRequest (numText env) request); action = gget requestMap ''action'' in
      if action = GoStr ''set'' then of_option (serve_set env requestMap st)
      else if action = GoStr ''get'' then of_option (serve_get env requestMap st)
      else if action = GoStr ''subscribe'' then of_option (serve_subscribe env requestMap st)
      else if action = GoStr ''unsubscribe'' then of_option (serve_unsubscribe env requestMap st)
      else if action = GoStr ''internal-killsubscriptions'' then serve_kill requestMap st
      else if action = GoStr ''internal-cancelsubscription'' then of_option (serve_cancel env requestMap st)
      else Returned (error_only env requestMap 1 st))"

section \<open>Notifications\<close>

definition notification :: "svc_env \<Rightarrow> SubscriptionState \<Rightarrow> string \<Rightarrow> string option" where
  "notification env sub dataPack =
     addPackage (FinalizeMessage [(''action'', GoStr ''subscription''), (''ts'', GoStr (rfcNow env)),
       (''subscriptionId'', GoStr (show_int (SubscriptionId sub))), (''RouterId'', GoStr (RouterId sub))])
       ''data'' dataPack"

definition notify :: "string list \<Rightarrow> svc_output" where
  "notify ms = \<lparr>Answers = [], Notifications = ms, Writes = []\<rparr>"

text \<open>The tick of an interval: a subscription that is gone has the index -1.\<close>

definition serve_interval :: "svc_env \<Rightarrow> int \<Rightarrow> svc_state \<Rightarrow> (svc_state \<times> svc_output) option" where
  "serve_interval env sid st = do {
     i \<leftarrow> getSubcriptionStateIndex sid (subscriptionList st);
     (let sub = subscriptionList st ! i in do {
        dataPack \<leftarrow> getDataPack env (getVehicleData env (dummyValue st)) (Path sub) [];
        m \<leftarrow> notification env sub dataPack;
        Some (st, notify [m]) }) }"

text \<open>A message of a curve logging thread; after a removal the index is used on the shorter list.\<close>

definition serve_curvelog :: "svc_env \<Rightarrow> int \<Rightarrow> string \<Rightarrow> svc_state \<Rightarrow> (svc_state \<times> svc_output) option" where
  "serve_curvelog env sid dataPack st = do {
     i \<leftarrow> getSubcriptionStateIndex sid (subscriptionList st);
     (let subs1 = (subscriptionList st)[i := (subscriptionList st ! i)
            \<lparr>SubscriptionThreads := SubscriptionThreads (subscriptionList st ! i) - 1\<rparr>];
          st1 = (if sid = closeClSubId st \<and> SubscriptionThreads (subs1 ! i) = 0
                 then st\<lparr>subscriptionList := removeFromsubscriptionList subs1 i, closeClSubId := - 1\<rparr>
                 else st\<lparr>subscriptionList := subs1\<rparr>)
      in do {
        sub \<leftarrow> index_at (subscriptionList st1) i;
        m \<leftarrow> notification env sub dataPack;
        Some (st1, notify [m]) }) }"

text \<open>One subscription of the loop over range and change subscriptions.\<close>

definition serve_triggered ::
  "svc_env \<Rightarrow> (string \<Rightarrow> string) \<Rightarrow> SubscriptionState \<Rightarrow> (SubscriptionState \<times> string list) option" where
  "serve_triggered env vd sub = do {
     path \<leftarrow> index_at (Path sub) 0;
     (let (doTrigger, updateLatest, dp) = checkRangeChangeFilter env vd (FilterList sub) (LatestDataPoint sub) path;
          sub1 = (if updateLatest then sub\<lparr>LatestDataPoint := dp\<rparr> else sub)
      in if doTrigger then do {
           dataPack \<leftarrow> getDataPack env vd (Path sub) [];
           m \<leftarrow> notification env sub1 dataPack;
           Some (sub1\<lparr>LatestDataPoint := dp\<rparr>, [m]) }
         else Some (sub1, [])) }"

fun triggerLoop ::
  "svc_env \<Rightarrow> (string \<Rightarrow> string) \<Rightarrow> SubscriptionState list \<Rightarrow> (SubscriptionState list \<times> string list) option" where
  "triggerLoop env vd [] = Some ([], [])"
| "triggerLoop env vd (sub # subs) = do {
     (sub', ms) \<leftarrow> serve_triggered env vd sub;
     (subs', ms') \<leftarrow> triggerLoop env vd subs;
     Some (sub' # subs', ms @ ms') }"

section \<open>The loop\<close>

text \<open>
  The inputs of the loop. The channel on which a curve logging server would report its number of
  threads is never made, so nothing arrives on it.
\<close>

datatype svc_event =
    Request string
  | IntervalTick int
  | CurveLog int string
  | SubscriptTick
  | DummyTick

definition svc_step :: "svc_env \<Rightarrow> svc_event \<Rightarrow> svc_state \<Rightarrow> (svc_state \<times> svc_output) go_run" where
  "svc_step env ev st =
     (case ev of
        Request r \<Rightarrow> serve_message env r st
      | IntervalTick sid \<Rightarrow> of_option (serve_interval env sid st)
      | CurveLog sid dataPack \<Rightarrow> of_option (serve_curvelog env sid dataPack st)
      | SubscriptTick \<Rightarrow>
          of_option (do {
            (subs, ms) \<leftarrow> triggerLoop env (getVehicleData env (dummyValue st)) (subscriptionList st);
            Some (st\<lparr>subscriptionList := subs\<rparr>, notify ms) })
      | DummyTick \<Rightarrow>
          Returned (st\<lparr>dummyValue := (if 999 < dummyValue st + 1 then 0 else dummyValue st + 1)\<rparr>, notify []))"

text \<open>A run of the loop, with the environment at each step, and what it sends.\<close>

inductive svc_run :: "(svc_env \<times> svc_event) list \<Rightarrow> svc_state \<Rightarrow> bool" where
  start: "svc_run [] initService"
| step: "svc_run evs st \<Longrightarrow> svc_step env ev st = Returned (st', out) \<Longrightarrow> svc_run (evs @ [(env, ev)]) st'"

end
