(* ===== verification/Svc_Props.thy ===== *)
theory Svc_Props
  imports Svc_Subs Go_Json_Props "HOL-Library.Multiset"
begin

text \<open>
  What holds of the service manager in all its reachable states, which subscriptions end and which
  do not, and how many answers a request gets.
\<close>

section \<open>Reachable states\<close>

inductive svc_reach :: "svc_state \<Rightarrow> svc_state \<Rightarrow> bool" for s where
  here: "svc_reach s s"
| onward: "svc_reach s t \<Longrightarrow> svc_step env ev t = Returned (u, out) \<Longrightarrow> svc_reach s u"

text \<open>What no step changes of a subscription.\<close>

definition sub_view :: "SubscriptionState \<Rightarrow> int \<times> string \<times> string list \<times> FilterObject list \<times> string" where
  "sub_view s = (SubscriptionId s, RouterId s, Path s, FilterList s, SubGatingId s)"

text \<open>
  Ids are unique and below the next one. Every ticker in use runs and belongs to one subscription
  with a timebased filter, and a subscription has at most one. No number of threads is positive,
  because the curve logging servers cannot report theirs.
\<close>

definition ticker_inv :: "svc_state \<Rightarrow> bool" where
  "ticker_inv st \<longleftrightarrow>
     length (tickerIndexList st) = MAXTICKERS \<and> length (subscriptionTicker st) = MAXTICKERS
     \<and> (\<forall>i < MAXTICKERS. tickerIndexList st ! i \<noteq> 0 \<longrightarrow>
          (\<exists>p > 0. subscriptionTicker st ! i = Some (p, True))
          \<and> (\<exists>s \<in> set (subscriptionList st). SubscriptionId s = tickerIndexList st ! i
               \<and> getOpType (FilterList s) ''timebased''))
     \<and> (\<forall>i < MAXTICKERS. \<forall>j < MAXTICKERS. tickerIndexList st ! i = tickerIndexList st ! j
          \<longrightarrow> tickerIndexList st ! i \<noteq> 0 \<longrightarrow> i = j)"

definition svc_inv :: "svc_state \<Rightarrow> bool" where
  "svc_inv st \<longleftrightarrow>
     1 \<le> subscriptionId st \<and> distinct (map SubscriptionId (subscriptionList st))
     \<and> (\<forall>s \<in> set (subscriptionList st). 1 \<le> SubscriptionId s \<and> SubscriptionId s < subscriptionId st
          \<and> Path s \<noteq> [] \<and> SubscriptionThreads s \<le> 0)
     \<and> ticker_inv st"

lemma svc_inv_irrelevant [simp]:
  "svc_inv (st\<lparr>errorResponseMap := m\<rparr>) = svc_inv st" "svc_inv (st\<lparr>dummyValue := d\<rparr>) = svc_inv st"
  "svc_inv (st\<lparr>closeClSubId := c\<rparr>) = svc_inv st"
  by (simp_all add: svc_inv_def ticker_inv_def)

lemma svc_inv_init: "svc_inv initService"
  by (simp add: svc_inv_def ticker_inv_def initService_def)

section \<open>Removal\<close>

lemma remove_perm:
  assumes "i < length subs"
  shows "mset (subs ! i # removeFromsubscriptionList subs i) = mset subs"
proof -
  from assms have ne: "subs \<noteq> []" by auto
  then obtain ys y where y: "subs = ys @ [y]" by (metis append_butlast_last_id)
  show ?thesis
  proof (cases "i < length ys")
    case True
    then have "removeFromsubscriptionList subs i = ys[i := y]"
      by (simp add: removeFromsubscriptionList_def y list_update_append butlast_append)
    moreover have "mset (ys[i := y]) = add_mset y (mset ys - {#ys ! i#})" using True by (simp add: mset_update)
    moreover have "ys ! i \<in># mset ys" using True by simp
    ultimately show ?thesis using True by (simp add: y nth_append)
  next
    case False
    then have "i = length ys" using assms y by simp
    then show ?thesis by (simp add: removeFromsubscriptionList_def y list_update_append)
  qed
qed

lemma remove_set:
  "i < length subs \<Longrightarrow> set subs = insert (subs ! i) (set (removeFromsubscriptionList subs i))"
  using remove_perm [of i subs] by (metis list.set(2) mset_eq_setD)

lemma remove_distinct:
  assumes "i < length subs" and "distinct (map f subs)"
  shows "distinct (map f (removeFromsubscriptionList subs i))
    \<and> f (subs ! i) \<notin> f ` set (removeFromsubscriptionList subs i)"
proof -
  have "mset (map f (subs ! i # removeFromsubscriptionList subs i)) = mset (map f subs)"
    using remove_perm [OF assms(1)] by (metis mset_map)
  then have "distinct (map f (subs ! i # removeFromsubscriptionList subs i))"
    using assms(2) by (metis mset_eq_imp_distinct_iff)
  then show ?thesis by simp
qed

text \<open>A subscription without a ticker can go.\<close>

lemma svc_inv_remove:
  assumes inv: "svc_inv st" and i: "i < length (subscriptionList st)"
    and free: "SubscriptionId (subscriptionList st ! i) \<notin> set (tickerIndexList st)"
  shows "svc_inv (st\<lparr>subscriptionList := removeFromsubscriptionList (subscriptionList st) i\<rparr>)"
proof -
  let ?l = "subscriptionList st" and ?r = "removeFromsubscriptionList (subscriptionList st) i"
  have set_eq: "set ?l = insert (?l ! i) (set ?r)" by (rule remove_set [OF i])
  have d: "distinct (map SubscriptionId ?r)"
    using remove_distinct [OF i, of SubscriptionId] inv unfolding svc_inv_def by blast
  have "\<exists>s \<in> set ?r. SubscriptionId s = tickerIndexList st ! j \<and> getOpType (FilterList s) ''timebased''"
    if j: "j < MAXTICKERS" "tickerIndexList st ! j \<noteq> 0" for j
  proof -
    obtain s where s: "s \<in> set ?l" "SubscriptionId s = tickerIndexList st ! j" "getOpType (FilterList s) ''timebased''"
      using inv j by (auto simp: svc_inv_def ticker_inv_def)
    moreover have "s \<noteq> ?l ! i"
      using free j s(2) inv by (metis nth_mem svc_inv_def ticker_inv_def)
    ultimately show ?thesis using set_eq by blast
  qed
  then show ?thesis
    using inv d set_eq unfolding svc_inv_def ticker_inv_def by simp
qed

lemma deactivateInterval_inv:
  assumes "deactivateInterval sid st = Some st'" and inv: "svc_inv st" and sid: "sid \<noteq> 0"
  shows "svc_inv st' \<and> sid \<notin> set (tickerIndexList st') \<and> subscriptionList st' = subscriptionList st
    \<and> subscriptionId st' = subscriptionId st \<and> closeClSubId st' = closeClSubId st"
proof -
  from assms(1) obtain k p r where k: "index_where (\<lambda>t. t = sid) (tickerIndexList st) = Some k"
    and st': "st' = st\<lparr>tickerIndexList := (tickerIndexList st)[k := 0],
      subscriptionTicker := (subscriptionTicker st)[k := Some (p, False)]\<rparr>"
    by (auto simp: deactivateInterval_def deallocateTicker_def split: option.splits)
  have kl: "k < MAXTICKERS" "tickerIndexList st ! k = sid"
    using index_where_Some [OF k] inv by (auto simp: svc_inv_def ticker_inv_def)
  have ti: "ticker_inv st" using inv by (simp add: svc_inv_def)
  then have len: "length (tickerIndexList st) = MAXTICKERS" and uniq: "\<And>i j. i < MAXTICKERS \<Longrightarrow> j < MAXTICKERS
      \<Longrightarrow> tickerIndexList st ! i = tickerIndexList st ! j \<Longrightarrow> tickerIndexList st ! i \<noteq> 0 \<Longrightarrow> i = j"
    by (auto simp: ticker_inv_def)
  have "ticker_inv st'"
    using ti kl unfolding ticker_inv_def st' by (auto simp: nth_list_update)
  moreover have "sid \<notin> set (tickerIndexList st')"
  proof
    assume "sid \<in> set (tickerIndexList st')"
    then obtain j where j: "j < MAXTICKERS" "(tickerIndexList st)[k := 0] ! j = sid"
      by (auto simp: st' in_set_conv_nth len)
    then show False using uniq [of j k] kl sid len by (auto simp: nth_list_update split: if_splits)
  qed
  ultimately show ?thesis using inv by (simp add: svc_inv_def st')
qed

lemma deactivateSubscription_inv:
  assumes "deactivateSubscription s st = Some (r, st')" and inv: "svc_inv st"
  shows "svc_inv st'"
proof (cases "getSubcriptionStateIndex (atoi_value s) (subscriptionList st)")
  case None
  then show ?thesis using assms by (simp add: deactivateSubscription_def)
next
  case (Some i)
  let ?sub = "subscriptionList st ! i"
  have i: "i < length (subscriptionList st)"
    using Some index_where_Some unfolding getSubcriptionStateIndex_def by blast
  have sid: "SubscriptionId ?sub \<noteq> 0" using inv nth_mem [OF i] unfolding svc_inv_def by fastforce
  show ?thesis
  proof (cases "getOpType (FilterList ?sub) ''timebased''")
    case True
    then obtain st1 where st1: "deactivateInterval (SubscriptionId ?sub) st = Some st1"
      and st': "st' = (if getOpType (FilterList ?sub) ''curvelog'' then st1
        else st1\<lparr>subscriptionList := removeFromsubscriptionList (subscriptionList st1) i\<rparr>)"
      using assms(1) Some by (auto simp: deactivateSubscription_def Let_def bind_eq_Some_conv split: if_splits)
    note d = deactivateInterval_inv [OF st1 inv sid]
    show ?thesis using d svc_inv_remove [of st1 i] i by (auto simp: st')
  next
    case False
    have "SubscriptionId ?sub \<notin> set (tickerIndexList st)"
    proof
      assume "SubscriptionId ?sub \<in> set (tickerIndexList st)"
      then obtain s where s: "s \<in> set (subscriptionList st)" "SubscriptionId s = SubscriptionId ?sub"
        "getOpType (FilterList s) ''timebased''"
        using inv sid by (metis in_set_conv_nth svc_inv_def ticker_inv_def)
      then have "s = ?sub" using inv i by (metis distinct_map inj_on_def nth_mem svc_inv_def)
      then show False using False s by simp
    qed
    then show ?thesis
      using assms(1) Some False svc_inv_remove [OF inv i] inv
      by (auto simp: deactivateSubscription_def Let_def split: if_splits)
  qed
qed

lemma scanAndRemove_inv: "scanAndRemoveListItem rid st = Some (b, st') \<Longrightarrow> svc_inv st \<Longrightarrow> svc_inv st'"
  using deactivateSubscription_inv
  by (auto simp: scanAndRemoveListItem_def bind_eq_Some_conv split: option.splits)


section \<open>Steps that keep the list\<close>

lemma svc_inv_views:
  assumes "svc_inv st" and "map sub_view subs = map sub_view (subscriptionList st)"
    and "\<And>s. s \<in> set subs \<Longrightarrow> SubscriptionThreads s \<le> 0"
  shows "svc_inv (st\<lparr>subscriptionList := subs\<rparr>)"
proof -
  have ids: "map SubscriptionId subs = map SubscriptionId (subscriptionList st)"
    using arg_cong [OF assms(2), of "map fst"] by (simp add: sub_view_def comp_def)
  have view: "\<exists>s' \<in> set ys. sub_view s' = sub_view s" if "s \<in> set xs" "map sub_view xs = map sub_view ys" for s xs ys
    using that by (metis (no_types, lifting) imageE image_eqI list.set_map)
  have old: "\<exists>s' \<in> set (subscriptionList st). SubscriptionId s' = SubscriptionId s \<and> Path s' = Path s"
    if "s \<in> set subs" for s using view [OF that assms(2)] by (auto simp: sub_view_def)
  have new: "\<exists>s' \<in> set subs. SubscriptionId s' = SubscriptionId s \<and> FilterList s' = FilterList s"
    if "s \<in> set (subscriptionList st)" for s using view [OF that assms(2) [symmetric]] by (auto simp: sub_view_def)
  have t: "ticker_inv (st\<lparr>subscriptionList := subs\<rparr>)"
    using assms(1) new unfolding svc_inv_def ticker_inv_def by (simp, metis)
  have "1 \<le> SubscriptionId s \<and> SubscriptionId s < subscriptionId st \<and> Path s \<noteq> []" if "s \<in> set subs" for s
    using old [OF that] assms(1) unfolding svc_inv_def by metis
  then show ?thesis using assms(1,3) ids t by (simp add: svc_inv_def)
qed

lemma serve_triggered_view:
  assumes "serve_triggered env vd sub = Some (sub', ms)"
  shows "sub_view sub' = sub_view sub \<and> SubscriptionThreads sub' = SubscriptionThreads sub"
proof -
  obtain path where p: "index_at (Path sub) 0 = Some path"
    using assms by (auto simp: serve_triggered_def bind_eq_Some_conv)
  obtain t u dp where c: "checkRangeChangeFilter env vd (FilterList sub) (LatestDataPoint sub) path = (t, u, dp)"
    by (metis prod_cases3)
  show ?thesis
    using assms by (cases t; cases u) (auto simp: serve_triggered_def p c bind_eq_Some_conv sub_view_def Let_def)
qed

lemma triggerLoop_views:
  "triggerLoop env vd subs = Some (subs', ms) \<Longrightarrow>
     map sub_view subs' = map sub_view subs \<and> map SubscriptionThreads subs' = map SubscriptionThreads subs"
proof (induction subs arbitrary: subs' ms)
  case (Cons s subs)
  then obtain s1 m1 t m2 where "serve_triggered env vd s = Some (s1, m1)" "triggerLoop env vd subs = Some (t, m2)"
    "subs' = s1 # t" by (auto simp: bind_eq_Some_conv)
  then show ?case using Cons.IH serve_triggered_view by simp
qed simp

lemma map_threads_le: "map SubscriptionThreads xs = map SubscriptionThreads ys \<Longrightarrow>
    (\<And>s. s \<in> set ys \<Longrightarrow> SubscriptionThreads s \<le> (0 :: int)) \<Longrightarrow> s \<in> set xs \<Longrightarrow> SubscriptionThreads s \<le> 0"
  by (metis (no_types, lifting) imageE image_eqI list.set_map)

lemma trigger_inv:
  assumes "triggerLoop env vd (subscriptionList st) = Some (subs, ms)" and "svc_inv st"
  shows "svc_inv (st\<lparr>subscriptionList := subs\<rparr>)"
  using triggerLoop_views [OF assms(1)] assms(2) map_threads_le [of subs "subscriptionList st"]
  by (intro svc_inv_views) (auto simp: svc_inv_def)

text \<open>The number of threads goes down from zero, so no curve logging subscription is removed.\<close>

lemma serve_curvelog_list:
  assumes "serve_curvelog env sid d st = Some (st', out)" and "svc_inv st"
  shows "\<exists>i. i < length (subscriptionList st) \<and> st' = st\<lparr>subscriptionList := (subscriptionList st)[i := (subscriptionList st ! i)
            \<lparr>SubscriptionThreads := SubscriptionThreads (subscriptionList st ! i) - 1\<rparr>]\<rparr>"
proof -
  from assms(1) obtain i where i: "getSubcriptionStateIndex sid (subscriptionList st) = Some i"
    by (auto simp: serve_curvelog_def bind_eq_Some_conv)
  then have il: "i < length (subscriptionList st)" using index_where_Some unfolding getSubcriptionStateIndex_def by blast
  then have "SubscriptionThreads (subscriptionList st ! i) \<le> 0" using assms(2) nth_mem [OF il] unfolding svc_inv_def by blast
  then have "SubscriptionThreads (subscriptionList st ! i) - 1 \<noteq> 0" by simp
  then show ?thesis using assms(1) i il by (auto simp: serve_curvelog_def Let_def bind_eq_Some_conv)
qed

lemma curvelog_views:
  "i < length subs \<Longrightarrow> map sub_view (subs[i := (subs ! i)\<lparr>SubscriptionThreads := n\<rparr>]) = map sub_view subs"
  by (rule nth_equalityI) (auto simp: nth_list_update sub_view_def)

lemma serve_curvelog_inv:
  assumes "serve_curvelog env sid d st = Some (st', out)" and "svc_inv st"
  shows "svc_inv st'"
proof -
  obtain i where i: "i < length (subscriptionList st)" "st' = st\<lparr>subscriptionList := (subscriptionList st)[i := (subscriptionList st ! i)
            \<lparr>SubscriptionThreads := SubscriptionThreads (subscriptionList st ! i) - 1\<rparr>]\<rparr>"
    using serve_curvelog_list [OF assms] by blast
  have le: "SubscriptionThreads s \<le> 0" if "s \<in> set (subscriptionList st)" for s
    using assms(2) that unfolding svc_inv_def by blast
  show ?thesis
    unfolding i(2)
  proof (rule svc_inv_views [OF assms(2) curvelog_views [OF i(1)]])
    fix s assume "s \<in> set ((subscriptionList st)[i := (subscriptionList st ! i)
      \<lparr>SubscriptionThreads := SubscriptionThreads (subscriptionList st ! i) - 1\<rparr>])"
    then show "SubscriptionThreads s \<le> 0"
      using le le [OF nth_mem [OF i(1)]] by (auto dest!: set_update_subset_insert [THEN subsetD])
  qed
qed

section \<open>New subscriptions\<close>

lemma svc_inv_append:
  assumes inv: "svc_inv st" and "SubscriptionId sub = subscriptionId st" and "Path sub \<noteq> []"
    and "SubscriptionThreads sub = 0"
  shows "svc_inv (st\<lparr>subscriptionList := subscriptionList st @ [sub], subscriptionId := subscriptionId st + 1\<rparr>)"
  using assms unfolding svc_inv_def ticker_inv_def by (auto simp: image_iff)

lemma activateInterval_keeps:
  "activateInterval sid n st = Some st' \<Longrightarrow> subscriptionList st' = subscriptionList st
     \<and> subscriptionId st' = subscriptionId st \<and> closeClSubId st' = closeClSubId st"
  by (auto simp: activateInterval_def Let_def split: option.splits if_splits)

lemma activateInterval_inv:
  assumes "activateInterval sid n st = Some st'" and inv: "svc_inv st" and "sid \<noteq> 0"
    and "\<exists>s \<in> set (subscriptionList st). SubscriptionId s = sid \<and> getOpType (FilterList s) ''timebased''"
    and "sid \<notin> set (tickerIndexList st)"
  shows "svc_inv st'"
proof (cases "index_where (\<lambda>t. t = 0) (tickerIndexList st)")
  case None
  then show ?thesis using assms(1,2) by (simp add: activateInterval_def allocateTicker_def)
next
  case (Some k)
  then have st': "0 < wrap64 (n * 1000000)" "st' = st\<lparr>tickerIndexList := (tickerIndexList st)[k := sid],
      subscriptionTicker := (subscriptionTicker st)[k := Some (wrap64 (n * 1000000), True)]\<rparr>"
    using assms(1) by (auto simp: activateInterval_def allocateTicker_def Let_def split: if_splits)
  have ti: "ticker_inv st" using inv by (simp add: svc_inv_def)
  then have k: "k < MAXTICKERS" using index_where_Some [OF Some] by (simp add: ticker_inv_def)
  have no: "tickerIndexList st ! j \<noteq> sid" if "j < MAXTICKERS" for j
    using assms(5) that ti by (metis nth_mem ticker_inv_def)
  have "ticker_inv st'"
    using ti k no no [symmetric] assms(3,4) st'(1) unfolding ticker_inv_def st'(2) by (auto simp: nth_list_update)
  then show ?thesis using inv by (simp add: svc_inv_def st'(2))
qed

lemma activate_inv:
  assumes "activateIfIntervalOrCL fs sid st = Some st'" and "svc_inv st" and "sid \<noteq> 0"
    and "\<exists>s \<in> set (subscriptionList st). SubscriptionId s = sid \<and> (\<forall>f \<in> set fs. f \<in> set (FilterList s))"
    and "sid \<notin> set (tickerIndexList st)"
  shows "svc_inv st'"
  using assms
proof (induction fs)
  case (Cons f fs)
  show ?case
  proof (cases "Type f = ''timebased''")
    case True
    then have "\<exists>s \<in> set (subscriptionList st). SubscriptionId s = sid \<and> getOpType (FilterList s) ''timebased''"
      using Cons.prems(4) by (auto simp: getOpType_def list_ex_iff)
    then show ?thesis using Cons.prems True activateInterval_inv by (auto split: if_splits)
  next
    case False
    then show ?thesis using Cons by (auto split: if_splits)
  qed
qed simp

lemma activate_keeps:
  "activateIfIntervalOrCL fs sid st = Some st' \<Longrightarrow> subscriptionList st' = subscriptionList st
     \<and> subscriptionId st' = subscriptionId st \<and> closeClSubId st' = closeClSubId st"
  by (induction fs) (auto simp: activateInterval_keeps split: if_splits)

lemma activate_next_id:
  "activateIfIntervalOrCL fs sid (st\<lparr>subscriptionId := n\<rparr>)
     = map_option (\<lambda>s. s\<lparr>subscriptionId := n\<rparr>) (activateIfIntervalOrCL fs sid st)"
  by (induction fs) (auto simp: activateInterval_def Let_def split: option.splits)

lemma next_id_fresh: "svc_inv st \<Longrightarrow> subscriptionId st \<notin> set (tickerIndexList st)"
proof
  assume inv: "svc_inv st" and mem: "subscriptionId st \<in> set (tickerIndexList st)"
  then have "subscriptionId st \<noteq> 0" by (simp add: svc_inv_def)
  with inv mem obtain s where "s \<in> set (subscriptionList st)" "SubscriptionId s = subscriptionId st"
    by (metis in_set_conv_nth svc_inv_def ticker_inv_def)
  then show False using inv unfolding svc_inv_def by fastforce
qed

text \<open>What a subscribe request does when it does not panic.\<close>

definition new_subscription :: "svc_env \<Rightarrow> gomap \<Rightarrow> svc_state \<Rightarrow> string \<Rightarrow> string list \<Rightarrow> string \<Rightarrow> SubscriptionState" where
  "new_subscription env requestMap st rid paths gid =
     \<lparr>SubscriptionId = subscriptionId st, SubscriptionThreads = 0, RouterId = rid, Path = paths,
       FilterList = UnpackFilter (visit env) (gget requestMap ''filter''),
       LatestDataPoint = getVehicleData env (dummyValue st) (hd paths), SubGatingId = gid\<rparr>"

lemma serve_subscribe_cases:
  assumes "serve_subscribe env m st = Some (st', out)"
  obtains (refused) "\<not> has_filter m" "(st', out) = error_only env m 0 st"
  | (made) rid paths gid em st2 where "has_filter m" "gget m ''RouterId'' = GoStr rid" "paths \<noteq> []"
      "activateIfIntervalOrCL (UnpackFilter (visit env) (gget m ''filter'')) (subscriptionId st)
         (st\<lparr>errorResponseMap := em, subscriptionList := subscriptionList st @ [new_subscription env m st rid paths gid]\<rparr>)
         = Some st2"
      "st' = st2\<lparr>subscriptionId := subscriptionId st + 1\<rparr>" "Notifications out = []"
      "length (Answers out) = (if UnpackFilter (visit env) (gget m ''filter'') = [] then 2 else 1)"
      "last (Answers out) = FinalizeMessage (gset ''subscriptionId'' (GoStr (show_int (subscriptionId st))) (initialResponse env m))"
proof (cases "has_filter m")
  case False
  then show ?thesis
    using assms refused by (auto simp: serve_subscribe_def bind_eq_Some_conv Let_def split: option.splits)
next
  case True
  let ?f = "UnpackFilter (visit env) (gget m ''filter'')"
  define em where "em = (if ?f = [] then errorResponseMap (fst (svc_error env m 1 [] st)) else errorResponseMap st)"
  obtain rid path where r: "as_string (gget m ''RouterId'') = Some rid" "as_string (gget m ''path'') = Some path"
    using assms by (auto simp: serve_subscribe_def bind_eq_Some_conv)
  define paths where "paths = (case unpackPaths path of None \<Rightarrow> [] | Some ps \<Rightarrow> ps)"
  obtain gid first where g: "string_if_set m ''gatingId'' = Some gid" "index_at paths 0 = Some first"
    using assms True r by (auto simp: serve_subscribe_def bind_eq_Some_conv Let_def paths_def split: prod.splits if_splits)
  then have ne: "paths \<noteq> []" "first = hd paths" by (auto simp: index_at_def hd_conv_nth split: if_splits)
  let ?st = "st\<lparr>errorResponseMap := em, subscriptionList := subscriptionList st @ [new_subscription env m st rid paths gid]\<rparr>"
  obtain st2 where st2: "activateIfIntervalOrCL ?f (subscriptionId st) ?st = Some st2"
    "st' = st2\<lparr>subscriptionId := subscriptionId st + 1\<rparr>"
    "out = answer ((if ?f = [] then [snd (svc_error env m 1 [] st)] else []) @ [FinalizeMessage
        (gset ''subscriptionId'' (GoStr (show_int (subscriptionId st))) (initialResponse env m))])"
    using assms True r g ne
    by (auto simp: serve_subscribe_def bind_eq_Some_conv Let_def paths_def [symmetric] new_subscription_def em_def
        svc_error_def split: if_splits)
  show ?thesis
    using made [OF True _ ne(1) st2(1,2)] r(1) st2(3) by (cases "gget m ''RouterId''") (simp_all add: answer_def)
qed

lemma serve_subscribe_inv:
  assumes "serve_subscribe env m st = Some (st', out)" and inv: "svc_inv st"
  shows "svc_inv st'"
  using assms(1)
proof (cases rule: serve_subscribe_cases)
  case refused
  then show ?thesis using inv by (simp add: error_only_def svc_error_def Let_def)
next
  case (made rid paths gid em st2)
  let ?sub = "new_subscription env m st rid paths gid"
  let ?st = "st\<lparr>errorResponseMap := em, subscriptionList := subscriptionList st @ [?sub]\<rparr>"
  have "svc_inv (st\<lparr>errorResponseMap := em\<rparr>\<lparr>subscriptionList := subscriptionList (st\<lparr>errorResponseMap := em\<rparr>) @ [?sub],
      subscriptionId := subscriptionId (st\<lparr>errorResponseMap := em\<rparr>) + 1\<rparr>)"
    by (rule svc_inv_append) (use inv made(3) in \<open>simp_all add: new_subscription_def\<close>)
  then have i1: "svc_inv (?st\<lparr>subscriptionId := subscriptionId st + 1\<rparr>)" by simp
  have a: "activateIfIntervalOrCL (FilterList ?sub) (subscriptionId st) (?st\<lparr>subscriptionId := subscriptionId st + 1\<rparr>)
      = Some st'"
    using made(4,5) unfolding activate_next_id by (simp add: new_subscription_def)
  show ?thesis
    by (rule activate_inv [OF a i1])
      (use inv next_id_fresh [OF inv] in \<open>auto simp: svc_inv_def new_subscription_def\<close>)
qed

section \<open>Every step keeps the invariant\<close>

lemma error_only_inv [simp]: "svc_inv (fst (error_only env m i st)) = svc_inv st"
  by (simp add: error_only_def svc_error_def Let_def)

lemma serve_set_inv:
  "serve_set env m st = Some (st', out) \<Longrightarrow> svc_inv st' = svc_inv st
     \<and> subscriptionList st' = subscriptionList st"
  by (auto simp: serve_set_def bind_eq_Some_conv error_only_def svc_error_def Let_def split: if_splits prod.splits)

lemma get_shape:
  "(if A then Some E0 else if B then Option.bind X (\<lambda>m. Some (s, answer [m]))
    else Option.bind Y (\<lambda>d. if d = [] then Some E6 else Option.bind (Z d) (\<lambda>m. Some (s, answer [m])))) = Some r
   \<Longrightarrow> r = E0 \<or> r = E6 \<or> (\<exists>m. r = (s, answer [m]))"
  by (auto simp: bind_eq_Some_conv split: if_splits)

lemma serve_get_cases:
  assumes "serve_get env m st = Some r"
  shows "(\<exists>i. r = error_only env m i st) \<or> (\<exists>a. r = (st, answer [a]))"
proof -
  obtain path where p: "as_string (gget m ''path'') = Some path"
    using assms by (cases "as_string (gget m ''path'')") (simp_all add: serve_get_def)
  show ?thesis
  proof (cases "unpackPaths path")
    case None
    then show ?thesis using assms p by (auto simp: serve_get_def)
  next
    case (Some ps)
    show ?thesis
      using get_shape [OF assms [unfolded serve_get_def p bind.bind_lunit Some option.case Let_def]] by blast
  qed
qed

lemma serve_get_inv:
  assumes "serve_get env m st = Some (st', out)"
  shows "svc_inv st' = svc_inv st \<and> subscriptionList st' = subscriptionList st"
  using serve_get_cases [OF assms]
  by (elim disjE exE) (simp_all add: error_only_def svc_error_def Let_def)

lemma serve_unsubscribe_inv:
  "serve_unsubscribe env m st = Some (st', out) \<Longrightarrow> svc_inv st \<Longrightarrow> svc_inv st'"
  using deactivateSubscription_inv
  by (auto simp: serve_unsubscribe_def bind_eq_Some_conv error_only_def svc_error_def Let_def split: gojson.splits if_splits)

lemma serve_cancel_inv:
  assumes "serve_cancel env m st = Some (st', out)" and "svc_inv st"
  shows "svc_inv st'"
proof -
  obtain g where g: "as_string (gget m ''gatingId'') = Some g"
    using assms(1) by (cases "as_string (gget m ''gatingId'')") (simp_all add: serve_cancel_def)
  obtain rid sid where d: "getSubscriptionData (subscriptionList st) g = (rid, sid)" by fastforce
  show ?thesis
  proof (cases "rid = []")
    case True
    then show ?thesis using assms g d by (simp add: serve_cancel_def)
  next
    case False
    then obtain em b where "scanAndRemoveListItem rid (st\<lparr>errorResponseMap := em\<rparr>) = Some (b, st')"
      using assms(1) g d by (auto simp: serve_cancel_def svc_error_def Let_def bind_eq_Some_conv)
    then show ?thesis using scanAndRemove_inv assms(2) by fastforce
  qed
qed

lemma killLoop_inv:
  assumes "killLoop rid st = Some r"
  shows "svc_inv st \<longrightarrow> (\<forall>st'. r = Some st' \<longrightarrow> svc_inv st')"
proof (rule killLoop.raw_induct [where P = "\<lambda>rid st r. svc_inv st \<longrightarrow> (\<forall>st'. r = Some st' \<longrightarrow> svc_inv st')", OF _ assms])
  fix loop rid st r
  assume ih: "\<And>rid st r. loop rid st = Some r \<Longrightarrow> svc_inv st \<longrightarrow> (\<forall>st'. r = Some st' \<longrightarrow> svc_inv st')"
    and l: "(case scanAndRemoveListItem rid st of None \<Rightarrow> Some None
      | Some (isRemoved, st') \<Rightarrow> if isRemoved then loop rid st' else Some (Some st')) = Some r"
  show "svc_inv st \<longrightarrow> (\<forall>st'. r = Some st' \<longrightarrow> svc_inv st')"
  proof (cases "scanAndRemoveListItem rid st")
    case (Some x)
    obtain b st1 where x: "x = (b, st1)" by fastforce
    have i: "svc_inv st \<Longrightarrow> svc_inv st1" using scanAndRemove_inv Some x by blast
    show ?thesis
    proof (cases b)
      case True
      then have "loop rid st1 = Some r" using l Some x by simp
      then show ?thesis using ih i by blast
    next
      case False
      then have "r = Some st1" using l Some x by simp
      then show ?thesis using i by blast
    qed
  next
    case None
    then have "r = None" using l by simp
    then show ?thesis by blast
  qed
qed

lemma of_option_Returned: "of_option r = Returned x \<longleftrightarrow> r = Some x"
  by (auto simp: of_option_def split: option.splits)

lemma seven_branches:
  "(if A1 then x1 else if A2 then x2 else if A3 then x3 else if A4 then x4 else if A5 then x5 else if A6 then x6 else x7) = y
   \<Longrightarrow> A1 \<and> x1 = y \<or> A2 \<and> x2 = y \<or> A3 \<and> x3 = y \<or> A4 \<and> x4 = y \<or> A5 \<and> x5 = y \<or> A6 \<and> x6 = y \<or> x7 = y"
  by (simp split: if_splits)

lemma serve_message_cases:
  assumes "serve_message env r st = Returned y"
  defines "m \<equiv> snd (MapRequest (numText env) r)"
  obtains (set_request) "serve_set env m st = Some y"
  | (get_request) "serve_get env m st = Some y"
  | (subscribe_request) "gget m ''action'' = GoStr ''subscribe''" "serve_subscribe env m st = Some y"
  | (unsubscribe_request) "serve_unsubscribe env m st = Some y"
  | (kill_request) "gget m ''action'' = GoStr ''internal-killsubscriptions''" "serve_kill m st = Returned y"
  | (cancel_request) "gget m ''action'' = GoStr ''internal-cancelsubscription''" "serve_cancel env m st = Some y"
  | (other_request) "error_only env m 1 st = y"
  using seven_branches [OF assms(1) [unfolded serve_message_def Let_def]]
  unfolding of_option_Returned m_def go_run.inject by blast

lemma serve_message_inv:
  assumes "serve_message env r st = Returned (st', out)" and "svc_inv st"
  shows "svc_inv st'"
  using assms(1)
proof (cases rule: serve_message_cases)
  case set_request
  then show ?thesis using assms(2) serve_set_inv by simp
next
  case get_request
  then show ?thesis using assms(2) serve_get_inv by simp
next
  case subscribe_request
  then show ?thesis using assms(2) serve_subscribe_inv by simp
next
  case unsubscribe_request
  then show ?thesis using assms(2) serve_unsubscribe_inv by simp
next
  case kill_request
  then show ?thesis using assms(2) killLoop_inv by (force simp: serve_kill_def split: option.splits)
next
  case cancel_request
  then show ?thesis using assms(2) serve_cancel_inv by simp
next
  case other_request
  then show ?thesis using assms(2) by (metis error_only_inv fst_conv)
qed

lemma svc_step_inv:
  assumes "svc_step env ev st = Returned (st', out)" and "svc_inv st"
  shows "svc_inv st'"
proof (cases ev)
  case (CurveLog sid d)
  then show ?thesis using assms serve_curvelog_inv by (simp add: svc_step_def of_option_Returned)
next
  case SubscriptTick
  then show ?thesis using assms trigger_inv by (auto simp: svc_step_def of_option_Returned bind_eq_Some_conv)
next
  case (IntervalTick sid)
  then show ?thesis
    using assms by (auto simp: svc_step_def of_option_Returned bind_eq_Some_conv serve_interval_def Let_def)
qed (use assms serve_message_inv in \<open>auto simp: svc_step_def\<close>)

lemma svc_reach_inv: "svc_reach s st \<Longrightarrow> svc_inv s \<Longrightarrow> svc_inv st"
  by (induction rule: svc_reach.induct) (blast intro: svc_step_inv)+

end
