(* ===== verification/Svc_Claims.thy ===== *)
theory Svc_Claims
  imports Svc_Props
begin

text \<open>
  The properties of the service manager's loop: which subscriptions end, what a request is answered,
  and where the loop panics or does not return.
\<close>

section \<open>Ending one subscription\<close>

lemma atoi_value_Some: "atoi s = Some n \<Longrightarrow> atoi_value s = n"
  by (simp add: atoi_value_def)

lemma atoi_value_show_int: "0 \<le> n \<Longrightarrow> n < 2 ^ 63 \<Longrightarrow> atoi_value (show_int n) = n"
  by (intro atoi_value_Some atoi_show_int) simp

lemma state_index_nth:
  assumes "distinct (map SubscriptionId subs)" and "i < length subs"
  shows "getSubcriptionStateIndex (SubscriptionId (subs ! i)) subs = Some i"
  unfolding getSubcriptionStateIndex_def
proof (rule index_where_first)
  fix j assume j: "j < i"
  then show "SubscriptionId (subs ! j) \<noteq> SubscriptionId (subs ! i)"
    using nth_eq_iff_index_eq [OF assms(1), of j i] assms(2) by simp
qed (use assms(2) in simp_all)

lemma svc_inv_ids:
  "svc_inv st \<Longrightarrow> i < length (subscriptionList st) \<Longrightarrow> 1 \<le> SubscriptionId (subscriptionList st ! i)
     \<and> SubscriptionId (subscriptionList st ! i) < subscriptionId st"
  using nth_mem unfolding svc_inv_def by blast

lemma deactivateInterval_known:
  assumes "svc_inv st" and "sid \<noteq> 0" and "sid \<in> set (tickerIndexList st)"
  shows "deactivateInterval sid st \<noteq> None"
proof -
  have "index_where (\<lambda>t. t = sid) (tickerIndexList st) \<noteq> None"
    using assms(3) by (simp add: index_where_None)
  then obtain k where k: "index_where (\<lambda>t. t = sid) (tickerIndexList st) = Some k" by blast
  then have "k < MAXTICKERS" "tickerIndexList st ! k = sid"
    using index_where_Some [OF k] assms(1) by (auto simp: svc_inv_def ticker_inv_def)
  then obtain p where "subscriptionTicker st ! k = Some (p, True)"
    using assms(1,2) by (auto simp: svc_inv_def ticker_inv_def)
  then show ?thesis using k by (simp add: deactivateInterval_def deallocateTicker_def)
qed

text \<open>A subscription that is not for curve logging, with its ticker if it has an interval, ends.\<close>

lemma deactivate_ends:
  assumes inv: "svc_inv st" and i: "i < length (subscriptionList st)"
    and t: "atoi_value t = SubscriptionId (subscriptionList st ! i)"
    and cl: "\<not> getOpType (FilterList (subscriptionList st ! i)) ''curvelog''"
    and tb: "getOpType (FilterList (subscriptionList st ! i)) ''timebased''
      \<longrightarrow> SubscriptionId (subscriptionList st ! i) \<in> set (tickerIndexList st)"
  obtains st' where "deactivateSubscription t st = Some (1, st')"
    "subscriptionList st' = removeFromsubscriptionList (subscriptionList st) i"
    "subscriptionId st' = subscriptionId st"
    "\<And>x. x \<noteq> SubscriptionId (subscriptionList st ! i) \<Longrightarrow> x \<noteq> 0 \<Longrightarrow>
       x \<in> set (tickerIndexList st) \<Longrightarrow> x \<in> set (tickerIndexList st')"
proof -
  let ?sub = "subscriptionList st ! i"
  have ix: "getSubcriptionStateIndex (atoi_value t) (subscriptionList st) = Some i"
    using state_index_nth i inv by (simp add: t svc_inv_def)
  have n0: "SubscriptionId ?sub \<noteq> 0" using svc_inv_ids [OF inv i] by linarith
  show ?thesis
  proof (cases "getOpType (FilterList ?sub) ''timebased''")
    case False
    show ?thesis
      by (rule that [of "st\<lparr>subscriptionList := removeFromsubscriptionList (subscriptionList st) i\<rparr>"])
        (use False cl ix in \<open>simp_all add: deactivateSubscription_def Let_def\<close>)
  next
    case True
    then obtain st1 where st1: "deactivateInterval (SubscriptionId ?sub) st = Some st1"
      using deactivateInterval_known [OF inv n0] tb by blast
    note d = deactivateInterval_inv [OF st1 inv n0]
    have keep: "x \<in> set (tickerIndexList st1)"
      if x: "x \<noteq> SubscriptionId ?sub" "x \<noteq> 0" "x \<in> set (tickerIndexList st)" for x
    proof -
      obtain k where k: "index_where (\<lambda>t. t = SubscriptionId ?sub) (tickerIndexList st) = Some k"
        and e: "tickerIndexList st1 = (tickerIndexList st)[k := 0]"
        using st1 by (auto simp: deactivateInterval_def deallocateTicker_def split: option.splits)
      obtain j where j: "j < length (tickerIndexList st)" "tickerIndexList st ! j = x"
        using x(3) by (metis in_set_conv_nth)
      have "j \<noteq> k" using index_where_Some [OF k] j x(1) by auto
      then have "tickerIndexList st1 ! j = x" using j e by simp
      then show ?thesis using j(1) e by (metis length_list_update nth_mem)
    qed
    show ?thesis
      by (rule that [of "st1\<lparr>subscriptionList := removeFromsubscriptionList (subscriptionList st1) i\<rparr>"])
        (use True cl ix st1 d keep in \<open>simp_all add: deactivateSubscription_def Let_def\<close>)
  qed
qed

text \<open>Ending a subscription adds none, and never takes one for curve logging away.\<close>

lemma deactivate_list:
  assumes "deactivateSubscription t st = Some (r, st')" and inv: "svc_inv st"
  shows "set (subscriptionList st') \<subseteq> set (subscriptionList st) \<and> subscriptionId st' = subscriptionId st
    \<and> (\<forall>s \<in> set (subscriptionList st). getOpType (FilterList s) ''curvelog'' \<longrightarrow> s \<in> set (subscriptionList st'))"
proof (cases "getSubcriptionStateIndex (atoi_value t) (subscriptionList st)")
  case None
  then show ?thesis using assms by (simp add: deactivateSubscription_def)
next
  case (Some i)
  let ?sub = "subscriptionList st ! i"
  have il: "i < length (subscriptionList st)"
    using index_where_Some [OF Some [unfolded getSubcriptionStateIndex_def]] by blast
  have n0: "SubscriptionId ?sub \<noteq> 0" using svc_inv_ids [OF inv il] by linarith
  define act where "act = (if getOpType (FilterList ?sub) ''timebased'' then deactivateInterval (SubscriptionId ?sub) st
      else if getOpType (FilterList ?sub) ''curvelog'' then Some (st\<lparr>closeClSubId := SubscriptionId ?sub\<rparr>) else Some st)"
  have "Option.bind act (\<lambda>st1. Some (1, if getOpType (FilterList ?sub) ''curvelog'' then st1
      else st1\<lparr>subscriptionList := removeFromsubscriptionList (subscriptionList st1) i\<rparr>)) = Some (r, st')"
    using assms(1) Some unfolding deactivateSubscription_def act_def Let_def by simp
  then obtain st1 where a: "act = Some st1" and st': "st' = (if getOpType (FilterList ?sub) ''curvelog'' then st1
      else st1\<lparr>subscriptionList := removeFromsubscriptionList (subscriptionList st1) i\<rparr>)"
    by (auto simp: bind_eq_Some_conv)
  have st1: "subscriptionList st1 = subscriptionList st" "subscriptionId st1 = subscriptionId st"
    using a deactivateInterval_inv [OF _ inv n0] unfolding act_def by (auto split: if_splits)
  show ?thesis
    using remove_set [OF il] st1 st' by auto
qed

lemma scanAndRemove_list:
  "scanAndRemoveListItem rid st = Some (b, st') \<Longrightarrow> svc_inv st \<Longrightarrow>
     set (subscriptionList st') \<subseteq> set (subscriptionList st) \<and> subscriptionId st' = subscriptionId st
     \<and> (\<forall>s \<in> set (subscriptionList st). getOpType (FilterList s) ''curvelog'' \<longrightarrow> s \<in> set (subscriptionList st'))"
  using deactivate_list by (force simp: scanAndRemoveListItem_def bind_eq_Some_conv split: option.splits)

section \<open>Curve logging subscriptions stay\<close>

definition is_curvelog :: "SubscriptionState \<Rightarrow> bool" where
  "is_curvelog s = getOpType (FilterList s) ''curvelog''"

text \<open>Every curve logging subscription of one state is, in all that a step keeps, also in the other.\<close>

definition keeps_curvelogs :: "svc_state \<Rightarrow> svc_state \<Rightarrow> bool" where
  "keeps_curvelogs st st' \<longleftrightarrow> (\<forall>s \<in> set (subscriptionList st). is_curvelog s \<longrightarrow>
     (\<exists>s' \<in> set (subscriptionList st'). sub_view s' = sub_view s))"

lemma is_curvelog_view: "sub_view s' = sub_view s \<Longrightarrow> is_curvelog s' = is_curvelog s"
  by (simp add: sub_view_def is_curvelog_def)

lemma keeps_refl: "subscriptionList st' = subscriptionList st \<Longrightarrow> keeps_curvelogs st st'"
  by (auto simp: keeps_curvelogs_def)

lemma keeps_trans: "keeps_curvelogs a b \<Longrightarrow> keeps_curvelogs b c \<Longrightarrow> keeps_curvelogs a c"
  unfolding keeps_curvelogs_def by (metis is_curvelog_view)

lemma keeps_views: "map sub_view (subscriptionList st') = map sub_view (subscriptionList st) \<Longrightarrow> keeps_curvelogs st st'"
  unfolding keeps_curvelogs_def by (metis (no_types, lifting) imageE image_eqI list.set_map)

lemma keeps_append: "subscriptionList st' = subscriptionList st @ subs \<Longrightarrow> keeps_curvelogs st st'"
  by (auto simp: keeps_curvelogs_def)

lemma keeps_deactivate: "deactivateSubscription t st = Some (r, st') \<Longrightarrow> svc_inv st \<Longrightarrow> keeps_curvelogs st st'"
  using deactivate_list unfolding keeps_curvelogs_def is_curvelog_def by metis

lemma keeps_scan: "scanAndRemoveListItem rid st = Some (b, st') \<Longrightarrow> svc_inv st \<Longrightarrow> keeps_curvelogs st st'"
  using scanAndRemove_list unfolding keeps_curvelogs_def is_curvelog_def by metis

lemma keeps_error [simp]: "keeps_curvelogs st (fst (error_only env m i st))"
  by (rule keeps_refl) (simp add: error_only_def svc_error_def Let_def)

lemma keeps_kill:
  assumes "killLoop rid st = Some r"
  shows "svc_inv st \<longrightarrow> (\<forall>st'. r = Some st' \<longrightarrow> keeps_curvelogs st st')"
proof (rule killLoop.raw_induct [where P = "\<lambda>rid st r. svc_inv st \<longrightarrow> (\<forall>st'. r = Some st' \<longrightarrow> keeps_curvelogs st st')", OF _ assms])
  fix loop rid st r
  assume ih: "\<And>rid st r. loop rid st = Some r \<Longrightarrow> svc_inv st \<longrightarrow> (\<forall>st'. r = Some st' \<longrightarrow> keeps_curvelogs st st')"
    and l: "(case scanAndRemoveListItem rid st of None \<Rightarrow> Some None
      | Some (isRemoved, st') \<Rightarrow> if isRemoved then loop rid st' else Some (Some st')) = Some r"
  show "svc_inv st \<longrightarrow> (\<forall>st'. r = Some st' \<longrightarrow> keeps_curvelogs st st')"
  proof (cases "scanAndRemoveListItem rid st")
    case (Some x)
    obtain b st1 where x: "x = (b, st1)" by fastforce
    have i: "svc_inv st \<Longrightarrow> svc_inv st1 \<and> keeps_curvelogs st st1" using scanAndRemove_inv keeps_scan Some x by blast
    show ?thesis
    proof (cases b)
      case True
      then have "loop rid st1 = Some r" using l Some x by simp
      then show ?thesis using ih i keeps_trans by blast
    next
      case False
      then have "r = Some st1" using l Some x by simp
      then show ?thesis using i by blast
    qed
  next
    case None
    then have "r = None" using l by simp
    then show ?thesis by blast
  qed
qed

lemma keeps_cancel:
  assumes "serve_cancel env m st = Some (st', out)" and "svc_inv st"
  shows "keeps_curvelogs st st'"
proof -
  obtain g where g: "as_string (gget m ''gatingId'') = Some g"
    using assms(1) by (cases "as_string (gget m ''gatingId'')") (simp_all add: serve_cancel_def)
  obtain rid sid where d: "getSubscriptionData (subscriptionList st) g = (rid, sid)" by fastforce
  show ?thesis
  proof (cases "rid = []")
    case True
    then show ?thesis using assms g d by (simp add: serve_cancel_def keeps_refl)
  next
    case False
    then obtain em b where s: "scanAndRemoveListItem rid (st\<lparr>errorResponseMap := em\<rparr>) = Some (b, st')"
      using assms(1) g d by (auto simp: serve_cancel_def svc_error_def Let_def bind_eq_Some_conv)
    have "keeps_curvelogs st (st\<lparr>errorResponseMap := em\<rparr>)" by (rule keeps_refl) simp
    then show ?thesis using keeps_trans keeps_scan [OF s] assms(2) by simp
  qed
qed

lemma keeps_message:
  assumes "serve_message env r st = Returned (st', out)" and "svc_inv st"
  shows "keeps_curvelogs st st'"
  using assms(1)
proof (cases rule: serve_message_cases)
  case subscribe_request
  from subscribe_request(2) show ?thesis
  proof (cases rule: serve_subscribe_cases)
    case refused
    then show ?thesis by (metis fst_conv keeps_error)
  next
    case (made rid paths gid em st2)
    then show ?thesis using activate_keeps [OF made(4)] by (intro keeps_append) simp
  qed
next
  case unsubscribe_request
  then show ?thesis
    using assms(2) keeps_deactivate keeps_trans [OF keeps_deactivate keeps_error]
    by (auto simp: serve_unsubscribe_def bind_eq_Some_conv split: gojson.splits if_splits) (metis fst_conv keeps_error)+
next
  case kill_request
  then show ?thesis using assms(2) keeps_kill by (force simp: serve_kill_def split: option.splits)
next
  case other_request
  then show ?thesis by (metis fst_conv keeps_error)
qed (use assms(2) serve_set_inv serve_get_inv keeps_refl keeps_cancel in \<open>metis+\<close>)

lemma keeps_step:
  assumes "svc_step env ev st = Returned (st', out)" and "svc_inv st"
  shows "keeps_curvelogs st st'"
proof (cases ev)
  case (CurveLog sid d)
  then have "serve_curvelog env sid d st = Some (st', out)"
    using assms(1) by (simp add: svc_step_def of_option_Returned)
  from serve_curvelog_list [OF this assms(2)] obtain i where "i < length (subscriptionList st)" "st' = st\<lparr>subscriptionList := (subscriptionList st)[i :=
      (subscriptionList st ! i)\<lparr>SubscriptionThreads := SubscriptionThreads (subscriptionList st ! i) - 1\<rparr>]\<rparr>"
    by blast
  then show ?thesis by (intro keeps_views) (simp add: curvelog_views)
next
  case SubscriptTick
  then show ?thesis
    using assms triggerLoop_views by (intro keeps_views) (force simp: svc_step_def of_option_Returned bind_eq_Some_conv)
next
  case (IntervalTick sid)
  then show ?thesis
    using assms by (intro keeps_refl) (auto simp: svc_step_def of_option_Returned bind_eq_Some_conv serve_interval_def Let_def)
qed (use assms keeps_message in \<open>auto simp: svc_step_def keeps_refl\<close>)


section \<open>A client that goes\<close>

text \<open>The first subscription of the client is the one that a round of the loop ends.\<close>

lemma scan_first:
  assumes inv: "svc_inv st" and b: "subscriptionId st < 2 ^ 63"
    and i: "index_where (\<lambda>s. RouterId s = rid) (subscriptionList st) = Some i"
  shows "scanAndRemoveListItem rid st =
      map_option (\<lambda>(r, st'). (True, st')) (deactivateSubscription (show_int (SubscriptionId (subscriptionList st ! i))) st)"
    and "atoi_value (show_int (SubscriptionId (subscriptionList st ! i))) = SubscriptionId (subscriptionList st ! i)"
proof -
  show "scanAndRemoveListItem rid st =
      map_option (\<lambda>(r, st'). (True, st')) (deactivateSubscription (show_int (SubscriptionId (subscriptionList st ! i))) st)"
    using i by (cases "deactivateSubscription (show_int (SubscriptionId (subscriptionList st ! i))) st")
      (auto simp: scanAndRemoveListItem_def)
  have "i < length (subscriptionList st)" using index_where_Some [OF i] by blast
  then show "atoi_value (show_int (SubscriptionId (subscriptionList st ! i))) = SubscriptionId (subscriptionList st ! i)"
    using svc_inv_ids [OF inv] b by (intro atoi_value_show_int) fastforce+
qed

lemma kill_diverges:
  assumes "killLoop rid st = Some r"
  shows "svc_inv st \<longrightarrow> subscriptionId st < 2 ^ 63 \<longrightarrow> (\<forall>s \<in> set (subscriptionList st). RouterId s = rid
      \<longrightarrow> \<not> getOpType (FilterList s) ''timebased'') \<longrightarrow> (\<forall>s \<in> set (subscriptionList st). RouterId s = rid \<longrightarrow> \<not> is_curvelog s)"
proof (rule killLoop.raw_induct [where P = "\<lambda>rid st r. svc_inv st \<longrightarrow> subscriptionId st < 2 ^ 63 \<longrightarrow>
    (\<forall>s \<in> set (subscriptionList st). RouterId s = rid \<longrightarrow> \<not> getOpType (FilterList s) ''timebased'')
    \<longrightarrow> (\<forall>s \<in> set (subscriptionList st). RouterId s = rid \<longrightarrow> \<not> is_curvelog s)", OF _ assms], intro impI)
  fix loop rid st r
  assume ih: "\<And>rid st r. loop rid st = Some r \<Longrightarrow> svc_inv st \<longrightarrow> subscriptionId st < 2 ^ 63 \<longrightarrow>
      (\<forall>s \<in> set (subscriptionList st). RouterId s = rid \<longrightarrow> \<not> getOpType (FilterList s) ''timebased'')
      \<longrightarrow> (\<forall>s \<in> set (subscriptionList st). RouterId s = rid \<longrightarrow> \<not> is_curvelog s)"
    and l: "(case scanAndRemoveListItem rid st of None \<Rightarrow> Some None
      | Some (isRemoved, st') \<Rightarrow> if isRemoved then loop rid st' else Some (Some st')) = Some r"
    and inv: "svc_inv st" and b: "subscriptionId st < 2 ^ 63"
    and tb: "\<forall>s \<in> set (subscriptionList st). RouterId s = rid \<longrightarrow> \<not> getOpType (FilterList s) ''timebased''"
  show "\<forall>s \<in> set (subscriptionList st). RouterId s = rid \<longrightarrow> \<not> is_curvelog s"
  proof (cases "index_where (\<lambda>s. RouterId s = rid) (subscriptionList st)")
    case None
    then show ?thesis by (simp add: index_where_None)
  next
    case (Some i)
    note f = scan_first [OF inv b Some]
    have i: "i < length (subscriptionList st)" "RouterId (subscriptionList st ! i) = rid"
      using index_where_Some [OF Some] by auto
    then have n: "\<not> getOpType (FilterList (subscriptionList st ! i)) ''timebased''" using tb by simp
    have "getSubcriptionStateIndex (SubscriptionId (subscriptionList st ! i)) (subscriptionList st) = Some i"
      using state_index_nth i(1) inv by (simp add: svc_inv_def)
    then have "deactivateSubscription (show_int (SubscriptionId (subscriptionList st ! i))) st \<noteq> None"
      using n f(2) by (simp add: deactivateSubscription_def Let_def)
    then obtain x where sc: "scanAndRemoveListItem rid st = Some (True, x)" using f(1) by auto
    note k = scanAndRemove_list [OF sc inv]
    have tb': "\<forall>s \<in> set (subscriptionList x). RouterId s = rid \<longrightarrow> \<not> getOpType (FilterList s) ''timebased''"
      using k tb by blast
    have "\<forall>s \<in> set (subscriptionList x). RouterId s = rid \<longrightarrow> \<not> is_curvelog s"
      using ih [of rid x r] l sc tb' scanAndRemove_inv [OF sc inv] k b by simp
    then show ?thesis using k unfolding is_curvelog_def by blast
  qed
qed

lemma kill_returns:
  assumes "svc_inv st" and "subscriptionId st < 2 ^ 63"
    and "\<forall>s \<in> set (subscriptionList st). RouterId s = rid \<longrightarrow> \<not> getOpType (FilterList s) ''curvelog''
      \<and> (getOpType (FilterList s) ''timebased'' \<longrightarrow> SubscriptionId s \<in> set (tickerIndexList st))"
  shows "\<exists>st'. killLoop rid st = Some (Some st')
    \<and> mset (subscriptionList st') = mset (filter (\<lambda>s. RouterId s \<noteq> rid) (subscriptionList st))"
  using assms
proof (induction "length (subscriptionList st)" arbitrary: st rule: less_induct)
  case less
  note inv = less.prems(1) and b = less.prems(2) and ok = less.prems(3)
  show ?case
  proof (cases "index_where (\<lambda>s. RouterId s = rid) (subscriptionList st)")
    case None
    then have "scanAndRemoveListItem rid st = Some (False, st)" by (simp add: scanAndRemoveListItem_def)
    then have "killLoop rid st = Some (Some st)" by (subst killLoop.simps) simp
    moreover have "filter (\<lambda>s. RouterId s \<noteq> rid) (subscriptionList st) = subscriptionList st"
      using None by (simp add: index_where_None filter_id_conv)
    ultimately show ?thesis by auto
  next
    case (Some i)
    let ?l = "subscriptionList st" and ?r = "removeFromsubscriptionList (subscriptionList st) i"
    note f = scan_first [OF inv b Some]
    have i: "i < length ?l" "RouterId (?l ! i) = rid" using index_where_Some [OF Some] by auto
    obtain st1 where st1: "deactivateSubscription (show_int (SubscriptionId (?l ! i))) st = Some (1, st1)"
      "subscriptionList st1 = ?r" "subscriptionId st1 = subscriptionId st"
      and keep: "\<And>x. x \<noteq> SubscriptionId (?l ! i) \<Longrightarrow> x \<noteq> 0 \<Longrightarrow> x \<in> set (tickerIndexList st) \<Longrightarrow> x \<in> set (tickerIndexList st1)"
      using deactivate_ends [OF inv i(1) f(2)] ok nth_mem [OF i(1)] i(2) by blast
    have sc: "scanAndRemoveListItem rid st = Some (True, st1)" using f(1) st1(1) by simp
    have inv1: "svc_inv st1" using scanAndRemove_inv [OF sc inv] .
    have perm: "mset ?l = add_mset (?l ! i) (mset ?r)" using remove_perm [OF i(1)] by simp
    have len: "length ?l = Suc (length ?r)" using arg_cong [OF perm, of size] by simp
    have "\<not> getOpType (FilterList s) ''curvelog'' \<and> (getOpType (FilterList s) ''timebased'' \<longrightarrow> SubscriptionId s \<in> set (tickerIndexList st1))"
      if s: "s \<in> set ?r" "RouterId s = rid" for s
    proof -
      have l: "s \<in> set ?l" using remove_set [OF i(1)] s(1) by blast
      have "SubscriptionId (?l ! i) \<notin> SubscriptionId ` set ?r"
        using remove_distinct [OF i(1), of SubscriptionId] inv unfolding svc_inv_def by blast
      then have "SubscriptionId s \<noteq> SubscriptionId (?l ! i)" using s(1) by (metis imageI)
      moreover have "1 \<le> SubscriptionId s" using inv l unfolding svc_inv_def by blast
      ultimately show ?thesis using ok l s(2) keep by force
    qed
    then obtain st' where k: "killLoop rid st1 = Some (Some st')"
      "mset (subscriptionList st') = mset (filter (\<lambda>s. RouterId s \<noteq> rid) ?r)"
      using less.hyps [of st1] st1(2,3) inv1 b len by auto
    have "killLoop rid st = Some (Some st')" using sc k(1) by (subst killLoop.simps) simp
    moreover have "mset (filter (\<lambda>s. RouterId s \<noteq> rid) ?l) = mset (filter (\<lambda>s. RouterId s \<noteq> rid) ?r)"
      using i(2) by (simp add: perm mset_filter)
    ultimately show ?thesis using k(2) by auto
  qed
qed


section \<open>Answers\<close>

text \<open>
  One answer, but for three kinds of requests: none to the request that removes a client's
  subscriptions and to a cancellation that finds no subscription, two to a subscription whose
  filter is not an object or a non-empty array.
\<close>

definition expected_answers :: "svc_env \<Rightarrow> gomap \<Rightarrow> svc_state \<Rightarrow> nat" where
  "expected_answers env m st =
     (if gget m ''action'' = GoStr ''internal-killsubscriptions'' then 0
      else if gget m ''action'' = GoStr ''internal-cancelsubscription'' then
        (case gget m ''gatingId'' of
           GoStr gid \<Rightarrow> if fst (getSubscriptionData (subscriptionList st) gid) = [] then 0 else 1
         | _ \<Rightarrow> 1)
      else if gget m ''action'' = GoStr ''subscribe'' \<and> has_filter m
              \<and> UnpackFilter (visit env) (gget m ''filter'') = [] then 2
      else 1)"

lemma error_only_answers [simp]: "length (Answers (snd (error_only env m i st))) = 1"
  by (simp add: error_only_def svc_error_def answer_def Let_def)

lemma answer_answers [simp]: "Answers (answer as) = as" "Notifications (answer as) = []"
  by (simp_all add: answer_def)

lemma serve_set_answers:
  "serve_set env m st = Some (st', out) \<Longrightarrow> length (Answers out) = 1"
  by (auto simp: serve_set_def bind_eq_Some_conv error_only_def svc_error_def Let_def split: if_splits prod.splits)

lemma serve_get_answers:
  assumes "serve_get env m st = Some (st', out)" shows "length (Answers out) = 1"
  using serve_get_cases [OF assms] by (metis answer_answers(1) error_only_answers length_Cons list.size(3) One_nat_def snd_conv)

lemma serve_unsubscribe_answers:
  "serve_unsubscribe env m st = Some (st', out) \<Longrightarrow> length (Answers out) = 1"
  by (auto simp: serve_unsubscribe_def bind_eq_Some_conv error_only_def svc_error_def Let_def split: gojson.splits if_splits)

lemma serve_kill_answers: "serve_kill m st = Returned (st', out) \<Longrightarrow> Answers out = []"
  by (auto simp: serve_kill_def split: option.splits)

lemma serve_cancel_answers:
  assumes "serve_cancel env m st = Some (st', out)"
  obtains gid where "gget m ''gatingId'' = GoStr gid"
    "length (Answers out) = (if fst (getSubscriptionData (subscriptionList st) gid) = [] then 0 else 1)"
proof -
  obtain g where g: "gget m ''gatingId'' = GoStr g"
    using assms by (cases "gget m ''gatingId''") (simp_all add: serve_cancel_def)
  obtain rid sid where d: "getSubscriptionData (subscriptionList st) g = (rid, sid)" by fastforce
  show ?thesis
    by (rule that [OF g])
      (use assms g d in \<open>auto simp: serve_cancel_def svc_error_def Let_def bind_eq_Some_conv split: if_splits\<close>)
qed

lemma request_answers:
  assumes "svc_step env (Request r) st = Returned (st', out)"
  shows "length (Answers out) = expected_answers env (snd (MapRequest (numText env) r)) st"
proof -
  let ?m = "snd (MapRequest (numText env) r)"
  have msg: "serve_message env r st = Returned (st', out)" using assms by (simp add: svc_step_def)
  consider (set) "gget ?m ''action'' = GoStr ''set''" "serve_set env ?m st = Some (st', out)"
    | (get) "gget ?m ''action'' = GoStr ''get''" "serve_get env ?m st = Some (st', out)"
    | (subscribe) "gget ?m ''action'' = GoStr ''subscribe''" "serve_subscribe env ?m st = Some (st', out)"
    | (unsubscribe) "gget ?m ''action'' = GoStr ''unsubscribe''" "serve_unsubscribe env ?m st = Some (st', out)"
    | (kill) "gget ?m ''action'' = GoStr ''internal-killsubscriptions''" "serve_kill ?m st = Returned (st', out)"
    | (cancel) "gget ?m ''action'' = GoStr ''internal-cancelsubscription''" "serve_cancel env ?m st = Some (st', out)"
    | (other) "gget ?m ''action'' \<notin> GoStr ` {''subscribe'', ''internal-killsubscriptions'', ''internal-cancelsubscription''}"
        "error_only env ?m 1 st = (st', out)"
    using msg by (auto simp: serve_message_def Let_def of_option_Returned split: if_splits)
  then show ?thesis
  proof cases
    case subscribe
    from subscribe(2) show ?thesis
    proof (cases rule: serve_subscribe_cases)
      case refused
      then have "length (Answers out) = 1" by (metis error_only_answers snd_conv)
      then show ?thesis using subscribe(1) refused(1) by (simp add: expected_answers_def)
    next
      case made
      then show ?thesis using subscribe(1) by (simp add: expected_answers_def)
    qed
  next
    case kill
    then show ?thesis using serve_kill_answers by (simp add: expected_answers_def)
  next
    case cancel
    from serve_cancel_answers [OF cancel(2)] obtain gid where "gget ?m ''gatingId'' = GoStr gid"
      "length (Answers out) = (if fst (getSubscriptionData (subscriptionList st) gid) = [] then 0 else 1)" .
    then show ?thesis using cancel(1) by (simp add: expected_answers_def)
  next
    case other
    then have "length (Answers out) = 1" by (metis error_only_answers snd_conv)
    then show ?thesis using other(1) by (auto simp: expected_answers_def)
  qed (simp_all add: expected_answers_def serve_set_answers serve_get_answers serve_unsubscribe_answers)
qed

text \<open>
  C18: How many answers a request gets. In any state, a request that neither panics nor runs on is
  answered exactly once, except that the removal of a client's subscriptions and a cancellation that
  finds no subscription are not answered, and a subscription with an empty list of filters is
  answered twice, with an error and with the id of the subscription that is made all the same.
\<close>

theorem answers_per_request:
  assumes "svc_step env (Request r) st = Returned (st', out)"
  shows "length (Answers out) = expected_answers env (snd (MapRequest (numText env) r)) st"
  by (rule request_answers [OF assms])

section \<open>Intervals\<close>


section \<open>Cancellation\<close>

text \<open>
  A cancellation can end the wrong subscription. Let the subscription that a cancelled token
  belongs to be preceded on the list by another one of the same client, with neither an interval
  nor curve logging, that does not belong to the token. The client is told that the cancelled one
  has ended, but the other one is removed, and the cancelled one stays on the list.
\<close>

theorem cancel_ends_another:
  assumes "svc_reach initService st" and "subscriptionId st < 2 ^ 63"
    and "index_where (\<lambda>s. SubGatingId s = gid) (subscriptionList st) = Some k"
    and "index_where (\<lambda>s. RouterId s = RouterId (subscriptionList st ! k)) (subscriptionList st) = Some i" and "i < k"
    and "\<not> getOpType (FilterList (subscriptionList st ! i)) ''timebased''"
    and "\<not> getOpType (FilterList (subscriptionList st ! i)) ''curvelog''"
    and "RouterId (subscriptionList st ! k) \<noteq> []" and "gget m ''gatingId'' = GoStr gid"
  shows "\<exists>st' em. serve_cancel env m st = Some (st', answer [FinalizeMessage em])
    \<and> gget em ''subscriptionId'' = GoStr (show_int (SubscriptionId (subscriptionList st ! k)))
    \<and> subscriptionList st ! k \<in> set (subscriptionList st')
    \<and> mset (subscriptionList st) = add_mset (subscriptionList st ! i) (mset (subscriptionList st'))"
proof -
  let ?l = "subscriptionList st"
  have inv: "svc_inv st" by (rule svc_reach_inv [OF assms(1) svc_inv_init])
  have kl: "k < length ?l" "i < length ?l" using index_where_Some [OF assms(3)] index_where_Some [OF assms(4)] by auto
  have d: "getSubscriptionData ?l gid = (RouterId (?l ! k), show_int (SubscriptionId (?l ! k)))"
    using assms(3) by (simp add: getSubscriptionData_def)
  define req where "req = gset ''subscriptionId'' (GoStr (show_int (SubscriptionId (?l ! k)))) (gset ''requestId'' GoNull
      (gset ''action'' (GoStr ''subscription'') (gset ''RouterId'' (GoStr (RouterId (?l ! k))) m)))"
  define em where "em = SetErrorResponse (rfcNow env) req (errorResponseMap st) 2 ''Token expired or consent cancelled.''"
  let ?st = "st\<lparr>errorResponseMap := em\<rparr>"
  have "svc_inv ?st" using inv by simp
  moreover have "atoi_value (show_int (SubscriptionId (subscriptionList ?st ! i))) = SubscriptionId (subscriptionList ?st ! i)"
    using scan_first(2) [OF inv assms(2,4)] by simp
  ultimately obtain st1 where st1: "deactivateSubscription (show_int (SubscriptionId (?l ! i))) ?st = Some (1, st1)"
    "subscriptionList st1 = removeFromsubscriptionList ?l i"
    using deactivate_ends [of ?st i "show_int (SubscriptionId (?l ! i))"] kl(2) assms(6,7) by auto
  have "scanAndRemoveListItem (RouterId (?l ! k)) ?st = Some (True, st1)"
    using assms(4) st1(1) by (simp add: scanAndRemoveListItem_def)
  then have "serve_cancel env m st = Some (st1, answer [FinalizeMessage em])"
    using assms(8,9) d by (simp add: serve_cancel_def svc_error_def Let_def req_def em_def)
  moreover have "gget em ''subscriptionId'' = GoStr (show_int (SubscriptionId (?l ! k)))"
    by (simp add: em_def SetErrorResponse_def req_def copy_if_set_def Let_def gget_gset gget_gdelete)
  moreover have perm: "mset ?l = add_mset (?l ! i) (mset (subscriptionList st1))"
    using remove_perm [OF kl(2)] st1(2) by simp
  moreover have "?l ! k \<in> set (subscriptionList st1)"
  proof -
    have "SubscriptionId (?l ! k) \<noteq> SubscriptionId (?l ! i)"
      using nth_eq_iff_index_eq [of "map SubscriptionId ?l" k i] inv kl assms(5) by (simp add: svc_inv_def)
    then have "?l ! k \<noteq> ?l ! i" by metis
    moreover have "?l ! k \<in># mset ?l" using kl by simp
    ultimately show ?thesis using perm by simp
  qed
  ultimately show ?thesis by blast
qed

end
