(* ===== verification/Svc_Channel.thy ===== *)
theory Svc_Channel
  imports Svc_Claims
begin

text \<open>
  The two threads of the service manager and the unbuffered channels between them. The thread
  \<open>initDataServer\<close> takes a request of the server core, hands it to the loop of \<open>ServiceMgrInit\<close>,
  waits for one answer unless the text mentions the removal of subscriptions, and passes answers
  and notifications on. A send and its receive are one step, so a thread that sends stays where it
  is until the other one receives.
\<close>

section \<open>The machine\<close>

datatype reader_state = RIdle | RForward string | RAwait | RReply string

datatype server_state = SLoop | SAnswer "string list" | SNotify "string list"

record svc_conf =
  reader :: reader_state
  server :: server_state
  service :: svc_state
  handed :: nat

definition awaited :: "string \<Rightarrow> nat" where
  "awaited r = (if contains r ''internal-killsubscriptions'' then 0 else 1)"

definition sending :: "string list \<Rightarrow> server_state" where
  "sending as = (if as = [] then SLoop else SAnswer as)"

definition notifying :: "string list \<Rightarrow> server_state" where
  "notifying ns = (if ns = [] then SLoop else SNotify ns)"

definition hand_over :: "svc_conf \<Rightarrow> string \<Rightarrow> svc_state \<Rightarrow> string list \<Rightarrow> svc_conf" where
  "hand_over c r st' as = c\<lparr>reader := (if awaited r = 0 then RIdle else RAwait), server := sending as,
     service := st', handed := Suc (handed c)\<rparr>"

inductive conf_step :: "svc_conf \<Rightarrow> svc_conf \<Rightarrow> bool" where
  request: "reader c = RIdle \<Longrightarrow> conf_step c (c\<lparr>reader := RForward r\<rparr>)"
| hand: "reader c = RForward r \<Longrightarrow> server c = SLoop \<Longrightarrow> svc_step env (Request r) (service c) = Returned (st', out)
    \<Longrightarrow> conf_step c (hand_over c r st' (Answers out))"
| answered: "reader c = RAwait \<Longrightarrow> server c = SAnswer (a # as) \<Longrightarrow> conf_step c (c\<lparr>reader := RReply a, server := sending as\<rparr>)"
| replied: "reader c = RReply a \<Longrightarrow> conf_step c (c\<lparr>reader := RIdle\<rparr>)"
| event: "server c = SLoop \<Longrightarrow> (\<And>r. ev \<noteq> Request r) \<Longrightarrow> svc_step env ev (service c) = Returned (st', out)
    \<Longrightarrow> conf_step c (c\<lparr>server := notifying (Notifications out), service := st'\<rparr>)"
| notified: "reader c = RIdle \<Longrightarrow> server c = SNotify (n # ns) \<Longrightarrow> conf_step c (c\<lparr>reader := RReply n, server := notifying ns\<rparr>)"

inductive conf_run :: "svc_conf \<Rightarrow> svc_conf \<Rightarrow> bool" for c where
  stay: "conf_run c c"
| go: "conf_run c d \<Longrightarrow> conf_step d e \<Longrightarrow> conf_run c e"

inductive_cases conf_stepE: "conf_step c d"

section \<open>Too few and too many answers\<close>

text \<open>The reader waits for an answer that does not come, or an answer waits that nobody reads.\<close>

definition blocked :: "nat \<Rightarrow> svc_conf \<Rightarrow> bool" where
  "blocked n c \<longleftrightarrow> handed c = n \<and>
     (reader c = RAwait \<and> (\<forall>as. server c \<noteq> SAnswer as)
      \<or> reader c = RAwait \<and> (\<exists>a b as. server c = SAnswer (a # b # as))
      \<or> reader c \<noteq> RAwait \<and> (\<exists>a as. server c = SAnswer (a # as)))"

lemma conf_blocked_step: "conf_step c d \<Longrightarrow> blocked n c \<Longrightarrow> blocked n d"
  by (erule conf_stepE) (auto simp: blocked_def sending_def notifying_def hand_over_def)

lemma conf_blocked_run: "conf_run c d \<Longrightarrow> blocked n c \<Longrightarrow> blocked n d"
  by (induction rule: conf_run.induct) (blast intro: conf_blocked_step)+

lemma hand_over_blocked: "length as \<noteq> awaited r \<Longrightarrow> blocked (Suc (handed c)) (hand_over c r st' as)"
proof (cases as rule: remdups_adj.cases)
  case 1
  then show "length as \<noteq> awaited r \<Longrightarrow> ?thesis" by (simp add: blocked_def hand_over_def sending_def)
qed (auto simp: blocked_def hand_over_def sending_def awaited_def split: if_splits)

text \<open>
  C14: One answer too many or too few, and the service is gone. If a request is handed to the loop
  that is answered as often as the data server waits for, both threads can go on to where they
  were before it. If not, no later request ever reaches the loop: a subscription with an
  empty list of filters, a cancellation for a token that no subscription belongs to, and any other
  request that mentions the removal of subscriptions somewhere in its text are enough.
\<close>

theorem wrong_answers_stop_service:
  assumes "reader c = RForward r" and "server c = SLoop"
    and "svc_step env (Request r) (service c) = Returned (st', out)"
  shows "conf_step c (hand_over c r st' (Answers out))
    \<and> (if expected_answers env (snd (MapRequest (numText env) r)) (service c) = awaited r
        then \<exists>d. conf_run (hand_over c r st' (Answers out)) d \<and> reader d = RIdle \<and> server d = SLoop
        else \<forall>d. conf_run (hand_over c r st' (Answers out)) d \<longrightarrow> handed d = Suc (handed c))"
proof -
  let ?h = "hand_over c r st' (Answers out)"
  have n: "length (Answers out) = expected_answers env (snd (MapRequest (numText env) r)) (service c)"
    by (rule request_answers [OF assms(3)])
  have "\<exists>d. conf_run ?h d \<and> reader d = RIdle \<and> server d = SLoop" if eq: "length (Answers out) = awaited r"
  proof (cases "awaited r = 0")
    case True
    then have "reader ?h = RIdle \<and> server ?h = SLoop" using eq by (simp add: hand_over_def sending_def)
    then show ?thesis using conf_run.stay by blast
  next
    case False
    then obtain a where a: "Answers out = [a]" "awaited r = 1"
      using eq by (cases "Answers out") (auto simp: awaited_def split: if_splits)
    have h: "reader ?h = RAwait" "server ?h = SAnswer [a]" using a by (simp_all add: hand_over_def sending_def)
    let ?d = "?h\<lparr>reader := RReply a, server := sending []\<rparr>"
    have "conf_run ?h (?d\<lparr>reader := RIdle\<rparr>)"
      by (rule conf_run.go [OF conf_run.go [OF conf_run.stay conf_step.answered [OF h]] conf_step.replied]) simp
    moreover have "reader (?d\<lparr>reader := RIdle\<rparr>) = RIdle" "server (?d\<lparr>reader := RIdle\<rparr>) = SLoop"
      by (simp_all add: sending_def)
    ultimately show ?thesis by blast
  qed
  moreover have "handed d = Suc (handed c)" if "length (Answers out) \<noteq> awaited r" "conf_run ?h d" for d
    using conf_blocked_run [OF that(2) hand_over_blocked [OF that(1)]] by (simp add: blocked_def)
  ultimately show ?thesis using conf_step.hand [OF assms] n by simp
qed

section \<open>A small run\<close>

text \<open>
  The storage is the counter; a client subscribes to one signal with an interval, then one without a
  filter that can be read, then with curve logging.
\<close>

definition sample_svc :: svc_env where
  "sample_svc = \<lparr>stateDbType = ''none'', dbGet = (\<lambda>p. []), dbWrite = (\<lambda>w. True), historySupport = False,
     historyAnswer = (\<lambda>r. []), rfcNow = ''now'', numText = Some, visit = id, parse32 = (\<lambda>s. None),
     sub32 = (\<lambda>a b. a), eq32 = (=), less32 = (\<lambda>a b. False)\<rparr>"

definition sample_subscribe :: "gojson \<Rightarrow> string \<Rightarrow> string" where
  "sample_subscribe f gid = FinalizeMessage [(''action'', GoStr ''subscribe''), (''RouterId'', GoStr ''1?0''),
     (''path'', GoStr ''Speed''), (''filter'', f), (''gatingId'', GoStr gid)]"

definition sample_filter :: "string \<Rightarrow> (string \<times> string) list \<Rightarrow> gojson" where
  "sample_filter t ps = GoObj [(''parameter'', GoObj (map (\<lambda>(k, v). (k, GoStr v)) ps)), (''type'', GoStr t)]"

definition sample_members :: "gojson \<Rightarrow> string \<Rightarrow> gomap" where
  "sample_members f gid = [(''RouterId'', GoStr ''1?0''), (''action'', GoStr ''subscribe''), (''filter'', f),
     (''gatingId'', GoStr gid), (''path'', GoStr ''Speed'')]"

lemma sample_read_curvelog:
  "snd (MapRequest Some (sample_subscribe (sample_filter ''curvelog'' [(''maxerr'', ''0'')]) ''7''))
     = sample_members (sample_filter ''curvelog'' [(''maxerr'', ''0'')]) ''7''"
  by code_simp

lemma sample_read_timebased:
  "snd (MapRequest Some (sample_subscribe (sample_filter ''timebased'' [(''period'', ''0'')]) ''7''))
     = sample_members (sample_filter ''timebased'' [(''period'', ''0'')]) ''7''"
  by code_simp

lemma sample_read_change7:
  "snd (MapRequest Some (sample_subscribe (sample_filter ''change'' []) ''7''))
     = sample_members (sample_filter ''change'' []) ''7''"
  by code_simp

lemma sample_read_change8:
  "snd (MapRequest Some (sample_subscribe (sample_filter ''change'' []) ''8''))
     = sample_members (sample_filter ''change'' []) ''8''"
  by code_simp

lemma sample_read_empty:
  "snd (MapRequest Some (sample_subscribe (GoArr []) ''7''))
     = sample_members (GoArr []) ''7''"
  by code_simp

definition sample_sub :: "int \<Rightarrow> string \<Rightarrow> string \<Rightarrow> string \<Rightarrow> SubscriptionState" where
  "sample_sub sid t ps gid = \<lparr>SubscriptionId = sid, SubscriptionThreads = 0, RouterId = ''1?0'', Path = [''Speed''],
     FilterList = [\<lparr>Type = t, Parameter = ps\<rparr>], LatestDataPoint = data_point ''0'' ''now'', SubGatingId = gid\<rparr>"

lemma sample_unpack:
  "UnpackFilter id (sample_filter ''curvelog'' [(''maxerr'', ''0'')])
     = [\<lparr>Type = ''curvelog'', Parameter = marshal (GoObj [(''maxerr'', GoStr ''0'')])\<rparr>]"
  "UnpackFilter id (sample_filter ''timebased'' [(''period'', ''0'')])
     = [\<lparr>Type = ''timebased'', Parameter = marshal (GoObj [(''period'', GoStr ''0'')])\<rparr>]"
  "UnpackFilter id (sample_filter ''change'' []) = [\<lparr>Type = ''change'', Parameter = marshal (GoObj [])\<rparr>]"
  "UnpackFilter id (GoArr []) = []"
  by code_simp+

lemma sample_serve:
  assumes "dummyValue st = 0"
    and "UnpackFilter id f = [\<lparr>Type = t, Parameter = ps\<rparr>]"
    and "activateIfIntervalOrCL [\<lparr>Type = t, Parameter = ps\<rparr>] (subscriptionId st)
      (st\<lparr>subscriptionList := subscriptionList st @ [sample_sub (subscriptionId st) t ps gid]\<rparr>) = Some st2"
    and "f \<noteq> GoNull" "f \<noteq> GoStr []"
    and "snd (MapRequest Some (sample_subscribe f gid)) = sample_members f gid"
  shows "\<exists>out. svc_step sample_svc (Request (sample_subscribe f gid)) st
     = Returned (st2\<lparr>subscriptionId := subscriptionId st + 1\<rparr>, out)"
proof -
  have e: "numText sample_svc = Some" "visit sample_svc = id" by (simp_all add: sample_svc_def)
  have g: "gget (sample_members f gid) ''action'' = GoStr ''subscribe''" "gget (sample_members f gid) ''RouterId'' = GoStr ''1?0''"
    "gget (sample_members f gid) ''path'' = GoStr ''Speed''" "gget (sample_members f gid) ''filter'' = f"
    "gget (sample_members f gid) ''gatingId'' = GoStr gid" by (simp_all add: sample_members_def gget_def)
  have u: "unpackPaths ''Speed'' = Some [''Speed'']" "show_int 0 = ''0''" by code_simp+
  have v: "getVehicleData sample_svc 0 ''Speed'' = data_point ''0'' ''now''"
    using u(2) by (simp add: getVehicleData_def sample_svc_def)
  show ?thesis
    using assms(1-5)
    by (simp add: svc_step_def serve_message_def assms(6) e g u v serve_subscribe_def has_filter_def string_if_set_def
        sample_sub_def Let_def of_option_def del: activateIfIntervalOrCL.simps)
qed

definition sample_state :: "string \<Rightarrow> string \<Rightarrow> string \<Rightarrow> svc_state" where
  "sample_state t ps gid = initService\<lparr>subscriptionList := [sample_sub 1 t ps gid], subscriptionId := 2\<rparr>"

lemma sample_reach:
  assumes "UnpackFilter id f = [\<lparr>Type = t, Parameter = ps\<rparr>]"
    and "t = ''timebased'' \<longrightarrow> getIntervalPeriod ps \<le> 0" and "f \<noteq> GoNull" "f \<noteq> GoStr []"
    and "snd (MapRequest Some (sample_subscribe f gid)) = sample_members f gid"
  shows "\<exists>out. svc_step sample_svc (Request (sample_subscribe f gid)) initService = Returned (sample_state t ps gid, out)"
    and "svc_reach initService (sample_state t ps gid)"
proof -
  have "dummyValue initService = 0" "subscriptionId initService = 1" "subscriptionList initService = []"
    by (simp_all add: initService_def)
  then show st: "\<exists>out. svc_step sample_svc (Request (sample_subscribe f gid)) initService = Returned (sample_state t ps gid, out)"
    using sample_serve [of initService f t ps gid "initService\<lparr>subscriptionList := [sample_sub 1 t ps gid]\<rparr>"] assms
    by (auto simp: sample_state_def)
  then show "svc_reach initService (sample_state t ps gid)"
    using svc_reach.onward [OF svc_reach.here] by blast
qed

definition curvelog_state :: svc_state where
  "curvelog_state = sample_state ''curvelog'' (marshal (GoObj [(''maxerr'', GoStr ''0'')])) ''7''"

lemma curvelog_reach: "svc_reach initService curvelog_state"
  unfolding curvelog_state_def
  by (rule sample_reach(2) [OF sample_unpack(1) _ _ _ sample_read_curvelog]) (simp_all add: sample_filter_def)

lemma curvelog_later:
  "\<exists>st'. svc_reach curvelog_state st' \<and> length (subscriptionList st') = 2"
proof -
  have f: "sample_filter ''change'' [] \<noteq> GoNull" "sample_filter ''change'' [] \<noteq> GoStr []" by (simp_all add: sample_filter_def)
  let ?st2 = "curvelog_state\<lparr>subscriptionList := subscriptionList curvelog_state @ [sample_sub 2 ''change'' (marshal (GoObj [])) ''8'']\<rparr>"
  have "\<exists>out. svc_step sample_svc (Request (sample_subscribe (sample_filter ''change'' []) ''8'')) curvelog_state
      = Returned (?st2\<lparr>subscriptionId := 3\<rparr>, out)"
    using sample_serve [OF _ sample_unpack(3) _ f sample_read_change8, of curvelog_state ?st2]
    by (simp add: curvelog_state_def sample_state_def initService_def del: marshal.simps)
  then have "svc_reach curvelog_state (?st2\<lparr>subscriptionId := 3\<rparr>)" using svc_reach.onward [OF svc_reach.here] by blast
  moreover have "length (subscriptionList (?st2\<lparr>subscriptionId := 3\<rparr>)) = 2" by (simp add: curvelog_state_def sample_state_def)
  ultimately show ?thesis by blast
qed



theorem answers_per_request_witness:
  "\<exists>st' out. svc_step sample_svc (Request (sample_subscribe (sample_filter ''curvelog'' [(''maxerr'', ''0'')]) ''7'')) initService
     = Returned (st', out) \<and> length (Answers out) = 1"
proof -
  let ?f = "sample_filter ''curvelog'' [(''maxerr'', ''0'')]"
  obtain out where o: "svc_step sample_svc (Request (sample_subscribe ?f ''7'')) initService = Returned (curvelog_state, out)"
    using sample_reach(1) [OF sample_unpack(1) _ _ _ sample_read_curvelog] unfolding curvelog_state_def
    by (fastforce simp: sample_filter_def)
  have e: "numText sample_svc = Some" "visit sample_svc = id" by (simp_all add: sample_svc_def)
  have "length (Answers out) = expected_answers sample_svc (sample_members ?f ''7'') initService"
    using answers_per_request [OF o] unfolding e sample_read_curvelog .
  also have "\<dots> = 1"
    using sample_unpack(1) by (simp add: expected_answers_def e sample_members_def gget_def)
  finally show ?thesis using o by blast
qed


definition two_state :: svc_state where
  "two_state = initService\<lparr>subscriptionList := [sample_sub 1 ''change'' (marshal (GoObj [])) ''8'',
     sample_sub 2 ''change'' (marshal (GoObj [])) ''7''], subscriptionId := 3\<rparr>"

lemma two_reach: "svc_reach initService two_state"
proof -
  let ?ps = "marshal (GoObj [])" and ?f = "sample_filter ''change'' []"
  have f: "?f \<noteq> GoNull" "?f \<noteq> GoStr []" by (simp_all add: sample_filter_def)
  have r: "svc_reach initService (sample_state ''change'' ?ps ''8'')"
    by (rule sample_reach(2) [OF sample_unpack(3) _ f sample_read_change8]) simp
  have "\<exists>out. svc_step sample_svc (Request (sample_subscribe ?f ''7'')) (sample_state ''change'' ?ps ''8'') = Returned (two_state, out)"
    using sample_serve [OF _ sample_unpack(3) _ f sample_read_change7, of "sample_state ''change'' ?ps ''8''"]
    by (simp add: sample_state_def two_state_def initService_def del: marshal.simps)
  then show ?thesis using svc_reach.onward [OF r] by blast
qed

theorem cancel_ends_another_witness:
  "\<exists>st' em. serve_cancel sample_svc [(''gatingId'', GoStr ''7'')] two_state = Some (st', answer [FinalizeMessage em])
     \<and> gget em ''subscriptionId'' = GoStr (show_int 2)
     \<and> sample_sub 2 ''change'' (marshal (GoObj [])) ''7'' \<in> set (subscriptionList st')"
  using cancel_ends_another [OF two_reach, of "''7''" 1 0 "[(''gatingId'', GoStr ''7'')]" sample_svc]
  by (auto simp: two_state_def sample_sub_def getOpType_def gget_def simp del: marshal.simps)

text \<open>A subscription with an empty array for its filter.\<close>

lemma sample_empty:
  "\<exists>st' out. svc_step sample_svc (Request (sample_subscribe (GoArr []) ''7'')) initService = Returned (st', out)"
proof -
  have e: "numText sample_svc = Some" "visit sample_svc = id" by (simp_all add: sample_svc_def)
  let ?m = "sample_members (GoArr []) ''7''"
  have g: "gget ?m ''action'' = GoStr ''subscribe''" "gget ?m ''RouterId'' = GoStr ''1?0''"
    "gget ?m ''path'' = GoStr ''Speed''" "gget ?m ''filter'' = GoArr []"
    "gget ?m ''gatingId'' = GoStr ''7''" by (simp_all add: sample_members_def gget_def)
  have u: "unpackPaths ''Speed'' = Some [''Speed'']" by code_simp
  show ?thesis
    by (simp add: svc_step_def serve_message_def sample_read_empty e g u sample_unpack(4) serve_subscribe_def
        has_filter_def string_if_set_def svc_error_def Let_def of_option_def)
qed

theorem wrong_answers_stop_service_witness:
  "\<exists>c. \<forall>d. conf_run c d \<longrightarrow> handed d = 1"
proof -
  let ?r = "sample_subscribe (GoArr []) ''7''"
  let ?c = "\<lparr>reader = RForward ?r, server = SLoop, service = initService, handed = 0\<rparr>"
  obtain st' out where o: "svc_step sample_svc (Request ?r) (service ?c) = Returned (st', out)"
    using sample_empty by auto
  have e: "numText sample_svc = Some" "visit sample_svc = id" by (simp_all add: sample_svc_def)
  have "expected_answers sample_svc (snd (MapRequest (numText sample_svc) ?r)) (service ?c) = 2"
    unfolding e sample_read_empty
    using sample_unpack(4) by (simp add: expected_answers_def e sample_members_def gget_def has_filter_def)
  moreover have "awaited ?r \<noteq> 2" by (simp add: awaited_def)
  ultimately have "\<forall>d. conf_run (hand_over ?c ?r st' (Answers out)) d \<longrightarrow> handed d = Suc (handed ?c)"
    using wrong_answers_stop_service [OF _ _ o] by simp
  then show ?thesis by (intro exI [of _ "hand_over ?c ?r st' (Answers out)"]) simp
qed

end
