(* ===== verification/Svc_History.thy ===== *)
theory Svc_History
  imports Svc_Subs "HOL-Library.Signed_Division"
begin

text \<open>
  The history server of \<open>serviceMgr.go\<close>: the buffers of captured data points, their control
  messages, and the answers to requests for the past. The tickers share their table of ids with the
  subscriptions. The parsing of times is a field of the environment; \<open>None\<close> is a panic.
\<close>

section \<open>State\<close>

text \<open>
  \<open>isoTime\<close> reads a time stamp, \<open>isoFields\<close> the day, hour, minute and second of one, both failing on
  anything else; times are nanoseconds since the zero time of the library, which a failed parse
  gives.
\<close>

record hist_env =
  hNum :: "string \<Rightarrow> string option"
  hData :: "string \<Rightarrow> string"
  isoTime :: "string \<Rightarrow> int option"
  isoFields :: "string \<Rightarrow> (int \<times> int \<times> int \<times> int) option"
  utcNow :: int

record HistoryList =
  HPath :: string
  Frequency :: int
  BufSize :: int
  Status :: int
  BufIndex :: nat
  Buffer :: "string list"

record hist_state =
  historyList :: "HistoryList list"
  listExists :: bool
  hTickerIndexList :: "int list"
  historyTicker :: "(int \<times> bool) option list"

text \<open>The argument is the decoded list of leaf paths.\<close>

definition createHistoryList :: "string list option \<Rightarrow> bool \<times> HistoryList list" where
  "createHistoryList leafPaths =
     (case leafPaths of
        None \<Rightarrow> (False, [])
      | Some ps \<Rightarrow> (True, map (\<lambda>p. \<lparr>HPath = p, Frequency = 0, BufSize = 0, Status = 0, BufIndex = 0, Buffer = []\<rparr>) ps))"

definition getHistoryListIndex :: "string \<Rightarrow> HistoryList list \<Rightarrow> nat option" where
  "getHistoryListIndex path hs = index_where (\<lambda>h. HPath h = path) hs"

section \<open>Tickers\<close>

definition activateHistory :: "nat \<Rightarrow> int \<Rightarrow> hist_state \<Rightarrow> hist_state option" where
  "activateHistory signalId frequency st =
     (case allocateTicker (int signalId) (hTickerIndexList st) of
        None \<Rightarrow> Some st
      | Some (index, tickers) \<Rightarrow>
          if frequency = 0 then None
          else
            (let period = wrap64 ((3600000 sdiv frequency) * 1000000)
             in if period \<le> 0 then None
                else Some (st\<lparr>hTickerIndexList := tickers,
                       historyTicker := (historyTicker st)[index := Some (period, True)]\<rparr>)))"

definition deactivateHistory :: "nat \<Rightarrow> hist_state \<Rightarrow> hist_state option" where
  "deactivateHistory signalId st =
     (case deallocateTicker (int signalId) (hTickerIndexList st) of
        None \<Rightarrow> None
      | Some (index, tickers) \<Rightarrow>
          (case historyTicker st ! index of
             None \<Rightarrow> None
           | Some (period, running) \<Rightarrow>
               Some (st\<lparr>hTickerIndexList := tickers,
                 historyTicker := (historyTicker st)[index := Some (period, False)]\<rparr>)))"

section \<open>Control messages\<close>

definition set_history :: "nat \<Rightarrow> (HistoryList \<Rightarrow> HistoryList) \<Rightarrow> hist_state \<Rightarrow> hist_state" where
  "set_history i f st = st\<lparr>historyList := (historyList st)[i := f (historyList st ! i)]\<rparr>"

text \<open>A path that is not on the list has the index -1; a negative size cannot be allocated.\<close>

definition history_create :: "gomap \<Rightarrow> nat option \<Rightarrow> hist_state \<Rightarrow> (hist_state \<times> string) option" where
  "history_create m index st =
     (if gget m ''buf-size'' = GoNull then Some (st, ''400 Bad Request'')
      else do {
        s \<leftarrow> as_string (gget m ''buf-size'');
        (case atoi s of
           None \<Rightarrow> Some (st, ''400 Bad Request'')
         | Some bufSize \<Rightarrow> do {
             i \<leftarrow> index;
             if bufSize < 0 then None
             else Some (set_history i (\<lambda>h. h\<lparr>BufSize := bufSize, Buffer := replicate (nat bufSize) []\<rparr>) st, ''200 OK'') }) })"

definition history_start :: "gomap \<Rightarrow> nat option \<Rightarrow> hist_state \<Rightarrow> (hist_state \<times> string) option" where
  "history_start m index st =
     (if gget m ''frequency'' = GoNull then Some (st, ''400 Bad Request'')
      else do {
        s \<leftarrow> as_string (gget m ''frequency'');
        (case atoi s of
           None \<Rightarrow> Some (st, ''400 Bad Request'')
         | Some freq \<Rightarrow> do {
             i \<leftarrow> index;
             st' \<leftarrow> activateHistory i freq (set_history i (\<lambda>h. h\<lparr>Frequency := freq, Status := 1\<rparr>) st);
             Some (st', ''200 OK'') }) })"

definition processHistoryCtrl :: "hist_env \<Rightarrow> string \<Rightarrow> hist_state \<Rightarrow> (hist_state \<times> string) option" where
  "processHistoryCtrl env req st =
     (let m = snd (MapRequest (hNum env) req) in
      if \<not> listExists st then Some (st, ''500 Internal Server Error'')
      else if gget m ''action'' = GoNull \<or> gget m ''path'' = GoNull then Some (st, ''400 Bad Request'')
      else do {
        path \<leftarrow> as_string (gget m ''path'');
        action \<leftarrow> as_string (gget m ''action'');
        (let index = getHistoryListIndex path (historyList st) in
         if action = ''create'' then history_create m index st
         else if action = ''start'' then history_start m index st
         else if action = ''stop'' then do {
           i \<leftarrow> index;
           st' \<leftarrow> deactivateHistory i (set_history i (\<lambda>h. h\<lparr>Status := 0\<rparr>) st);
           Some (st', ''200 OK'') }
         else if action = ''delete'' then do {
           i \<leftarrow> index;
           if Status (historyList st ! i) \<noteq> 0 then Some (st, ''409 Conflict'')
           else Some (set_history i (\<lambda>h. h\<lparr>Frequency := 0, BufSize := 0, BufIndex := 0, Buffer := []\<rparr>) st, ''200 OK'') }
         else Some (st, ''400 Bad Request'')) })"

section \<open>Capture\<close>

definition capture :: "string \<Rightarrow> HistoryList \<Rightarrow> HistoryList option" where
  "capture dp h =
     (case (if 0 < BufIndex h then map_option getDPTs (index_at (Buffer h) (BufIndex h - 1)) else Some []) of
        None \<Rightarrow> None
      | Some latestTs \<Rightarrow>
          if getDPTs dp \<noteq> latestTs \<and> int (BufIndex h) < BufSize h - 1 then
            (if BufIndex h < length (Buffer h)
             then Some (h\<lparr>Buffer := (Buffer h)[BufIndex h := dp], BufIndex := Suc (BufIndex h)\<rparr>) else None)
          else Some h)"

definition captureHistoryValue :: "hist_env \<Rightarrow> nat \<Rightarrow> hist_state \<Rightarrow> hist_state option" where
  "captureHistoryValue env signalId st =
     (case index_at (historyList st) signalId of
        None \<Rightarrow> None
      | Some h \<Rightarrow>
          map_option (\<lambda>h'. st\<lparr>historyList := (historyList st)[signalId := h']\<rparr>) (capture (hData env (HPath h)) h))"

section \<open>Requests for the past\<close>

text \<open>The start of the period, from the day, hour, minute and second of its text.\<close>

definition period_start :: "hist_env \<Rightarrow> string \<Rightarrow> int" where
  "period_start env period =
     (let (d, h, mi, s) = (case isoFields env period of None \<Rightarrow> (1, 0, 0, 0) | Some f \<Rightarrow> f)
      in utcNow env - ((24 * d + h) * 3600 + mi * 60 + s) * 10 ^ 9)"

definition stored_time :: "hist_env \<Rightarrow> string \<Rightarrow> int" where
  "stored_time env dp = (case isoTime env (getDPTs dp) of None \<Rightarrow> 0 | Some t \<Rightarrow> t)"

text \<open>From the first element on, up to one that is too old.\<close>

definition history_matches :: "hist_env \<Rightarrow> int \<Rightarrow> HistoryList \<Rightarrow> nat" where
  "history_matches env oldTs h = length (takeWhile (\<lambda>dp. \<not> stored_time env dp < oldTs) (take (BufIndex h) (Buffer h)))"

definition historicDataPack :: "HistoryList \<Rightarrow> nat \<Rightarrow> string" where
  "historicDataPack h matches =
     (let dp = (if 1 < matches then ''['' else []) @ concat (map (\<lambda>d. data_point (getDPValue d) (getDPTs d) @ '', '') (take matches (Buffer h)));
          dp1 = (if 0 < matches then take (length dp - 2) dp else dp)
      in if 1 < matches then dp1 @ '']'' else dp1)"

definition processHistoryGet :: "hist_env \<Rightarrow> string \<Rightarrow> hist_state \<Rightarrow> string option" where
  "processHistoryGet env request st =
     (let m = snd (MapRequest (hNum env) request) in do {
        path \<leftarrow> as_string (gget m ''path'');
        period \<leftarrow> as_string (gget m ''period'');
        i \<leftarrow> getHistoryListIndex path (historyList st);
        (let h = historyList st ! i; oldTs = period_start env period in
         if length (Buffer h) < BufIndex h \<and> list_all (\<lambda>dp. \<not> stored_time env dp < oldTs) (Buffer h) then None
         else Some (historicDataPack h (history_matches env oldTs h))) })"

text \<open>One round of the loop of \<open>historyServer\<close>, with the answer when there is one.\<close>

datatype hist_event = HCapture nat | HControl string | HGet string

definition historyServer_step :: "hist_env \<Rightarrow> hist_event \<Rightarrow> hist_state \<Rightarrow> (hist_state \<times> string option) option" where
  "historyServer_step env ev st =
     (case ev of
        HCapture signalId \<Rightarrow> map_option (\<lambda>st'. (st', None)) (captureHistoryValue env signalId st)
      | HControl req \<Rightarrow> map_option (\<lambda>(st', a). (st', Some a)) (processHistoryCtrl env req st)
      | HGet req \<Rightarrow>
          if listExists st then map_option (\<lambda>a. (st, Some a)) (processHistoryGet env req st) else Some (st, Some []))"

section \<open>What is captured\<close>

text \<open>The data points in order, without those whose time stamp is that of the one before.\<close>

fun new_points :: "string \<Rightarrow> string list \<Rightarrow> string list" where
  "new_points latest [] = []"
| "new_points latest (dp # dps) =
     (if getDPTs dp = latest then new_points latest dps else dp # new_points (getDPTs dp) dps)"

fun captures :: "string list \<Rightarrow> HistoryList \<Rightarrow> HistoryList option" where
  "captures [] h = Some h"
| "captures (dp # dps) h = do { h' \<leftarrow> capture dp h; captures dps h' }"

definition contents :: "HistoryList \<Rightarrow> string list" where
  "contents h = take (BufIndex h) (Buffer h)"

lemma captures_reference:
  assumes "length (Buffer h) = nat (BufSize h)" and "BufIndex h \<le> nat (BufSize h - 1)" and "0 \<le> BufSize h"
  shows "\<exists>h'. captures dps h = Some h' \<and> length (Buffer h') = nat (BufSize h)
    \<and> contents h' = contents h @ take (nat (BufSize h - 1) - BufIndex h)
        (new_points (if BufIndex h = 0 then [] else getDPTs (Buffer h ! (BufIndex h - 1))) dps)"
  using assms
proof (induction dps arbitrary: h)
  case (Cons dp dps)
  let ?latest = "if BufIndex h = 0 then [] else getDPTs (Buffer h ! (BufIndex h - 1))"
  have l: "(if 0 < BufIndex h then map_option getDPTs (index_at (Buffer h) (BufIndex h - 1)) else Some []) = Some ?latest"
    using Cons.prems by (auto simp: index_at_def)
  show ?case
  proof (cases "getDPTs dp \<noteq> ?latest \<and> int (BufIndex h) < BufSize h - 1")
    case True
    let ?h = "h\<lparr>Buffer := (Buffer h)[BufIndex h := dp], BufIndex := Suc (BufIndex h)\<rparr>"
    have lt: "BufIndex h < length (Buffer h)" using True Cons.prems by linarith
    then have c: "capture dp h = Some ?h" using True by (simp add: capture_def l)
    have suc: "Suc (BufIndex h) \<le> nat (BufSize h - 1)" using True by linarith
    have con: "contents ?h = contents h @ [dp]"
      using lt by (simp add: contents_def take_Suc_conv_app_nth)
    obtain h' where h': "captures dps ?h = Some h'" "length (Buffer h') = nat (BufSize h)"
      "contents h' = contents ?h @ take (nat (BufSize h - 1) - Suc (BufIndex h)) (new_points (getDPTs dp) dps)"
      using Cons.IH [of ?h] Cons.prems True lt suc by auto
    have "nat (BufSize h - 1) - BufIndex h = Suc (nat (BufSize h - 1) - Suc (BufIndex h))" using True by linarith
    then show ?thesis using c h' con True by simp
  next
    case False
    then have c: "capture dp h = Some h" by (auto simp: capture_def l)
    have "take (nat (BufSize h - 1) - BufIndex h) (new_points ?latest (dp # dps))
        = take (nat (BufSize h - 1) - BufIndex h) (new_points ?latest dps)"
    proof (cases "getDPTs dp = ?latest")
      case False': False
      then have "nat (BufSize h - 1) - BufIndex h = 0" using False by linarith
      then show ?thesis by simp
    qed simp
    then show ?thesis using Cons.IH [OF Cons.prems] c by simp
  qed
qed (simp add: contents_def)

text \<open>
  C26: What the history records. After a buffer of any size has been created for a signal without
  one, capturing never panics, and the buffer holds the captured data points in order, without
  repetitions of a time stamp, as far as one less than its size goes: the last place stays empty.
\<close>

theorem history_capture_reference:
  assumes "BufIndex h = 0" and "0 \<le> n"
  shows "\<exists>h'. captures dps (h\<lparr>BufSize := n, Buffer := replicate (nat n) []\<rparr>) = Some h'
    \<and> contents h' = take (nat (n - 1)) (new_points [] dps)"
  using captures_reference [of "h\<lparr>BufSize := n, Buffer := replicate (nat n) []\<rparr>" dps] assms
  by (auto simp: contents_def)

theorem history_capture_reference_witness:
  "\<exists>h'. captures [data_point ''1'' ''a'', data_point ''2'' ''a'', data_point ''3'' ''b'', data_point ''4'' ''c'']
      \<lparr>HPath = ''Vehicle.Speed'', Frequency = 0, BufSize = 3, Status = 0, BufIndex = 0, Buffer = replicate 3 []\<rparr> = Some h'
    \<and> contents h' = take 2 (new_points [] [data_point ''1'' ''a'', data_point ''2'' ''a'', data_point ''3'' ''b'', data_point ''4'' ''c''])"
  using history_capture_reference [of "\<lparr>HPath = ''Vehicle.Speed'', Frequency = 0, BufSize = 0, Status = 0, BufIndex = 0, Buffer = []\<rparr>" 3
      "[data_point ''1'' ''a'', data_point ''2'' ''a'', data_point ''3'' ''b'', data_point ''4'' ''c'']"]
  by simp

lemma matches_of_sorted:
  assumes "sorted (map (stored_time env) (contents h))"
  shows "history_matches env oldTs h =
    (if contents h \<noteq> [] \<and> stored_time env (hd (contents h)) < oldTs then 0 else length (contents h))"
proof (cases "contents h")
  case (Cons dp dps)
  show ?thesis
  proof (cases "stored_time env dp < oldTs")
    case True
    then show ?thesis using Cons by (simp add: history_matches_def contents_def [symmetric])
  next
    case False
    then have "\<forall>d \<in> set (contents h). \<not> stored_time env d < oldTs" using assms Cons by auto
    then show ?thesis using Cons False by (simp add: history_matches_def contents_def [symmetric] takeWhile_eq_all_conv [THEN iffD2])
  qed
qed (simp add: history_matches_def contents_def [symmetric])

text \<open>
  C27: The history of a period is all or nothing. A request for the past of a signal whose
  recorded data points are in the order of their times is answered with all of them when the oldest
  is within the period, and with no data at all when it is not, however many of the others are.
\<close>

theorem history_all_or_nothing:
  assumes "gget (snd (MapRequest (hNum env) request)) ''path'' = GoStr path"
    and "gget (snd (MapRequest (hNum env) request)) ''period'' = GoStr period"
    and "getHistoryListIndex path (historyList st) = Some i" and "h = historyList st ! i"
    and "listExists st" and "BufIndex h \<le> length (Buffer h)"
    and "sorted (map (stored_time env) (contents h))"
  shows "historyServer_step env (HGet request) st = Some (st, Some
    (if contents h \<noteq> [] \<and> stored_time env (hd (contents h)) < period_start env period then []
     else historicDataPack h (BufIndex h)))"
  using assms matches_of_sorted [OF assms(7)]
  by (auto simp: historyServer_step_def processHistoryGet_def Let_def historicDataPack_def contents_def min_def)

text \<open>
  Creating a smaller buffer over a recorded one. The request is answered as successful, and
  the next data point captured for the signal ends the server: the count of recorded data points is
  still that of the old buffer, beyond the end of the new one.
\<close>

theorem smaller_buffer_panics:
  assumes "gget (snd (MapRequest (hNum env) request)) ''action'' = GoStr ''create''"
    and "gget (snd (MapRequest (hNum env) request)) ''path'' = GoStr path"
    and "gget (snd (MapRequest (hNum env) request)) ''buf-size'' = GoStr bufsz" and "atoi bufsz = Some n"
    and "getHistoryListIndex path (historyList st) = Some i" and "listExists st"
    and "0 \<le> n" and "nat n < BufIndex (historyList st ! i)"
  shows "\<exists>st'. historyServer_step env (HControl request) st = Some (st', Some ''200 OK'')
    \<and> historyServer_step env (HCapture i) st' = None"
proof -
  have "i < length (historyList st)"
    using assms(5) by (auto simp: getHistoryListIndex_def dest: index_where_Some)
  moreover have "\<not> BufIndex (historyList st ! i) - Suc 0 < nat n" using assms(8) by linarith
  ultimately show ?thesis
    using assms by (simp add: historyServer_step_def processHistoryCtrl_def Let_def history_create_def set_history_def
        captureHistoryValue_def capture_def index_at_def)
qed

section \<open>Witnesses\<close>

definition sample_hist :: "int \<Rightarrow> hist_env" where
  "sample_hist now = \<lparr>hNum = Some, hData = (\<lambda>_. data_point ''1'' ''a''),
     isoTime = (\<lambda>ts. if ts = ''a'' then Some 10 else if ts = ''b'' then Some 20 else None),
     isoFields = (\<lambda>ts. if ts = ''P'' then Some (0, 0, 0, 0) else None), utcNow = now\<rparr>"

definition sample_history :: hist_state where
  "sample_history = \<lparr>historyList = [\<lparr>HPath = ''Speed'', Frequency = 0, BufSize = 3, Status = 1, BufIndex = 2,
       Buffer = [data_point ''1'' ''a'', data_point ''2'' ''b'', []]\<rparr>],
     listExists = True, hTickerIndexList = replicate 255 0, historyTicker = replicate 255 None\<rparr>"

definition sample_get :: string where
  "sample_get = marshal (GoObj [(''path'', GoStr ''Speed''), (''period'', GoStr ''P'')])"

definition sample_create :: string where
  "sample_create = marshal (GoObj [(''action'', GoStr ''create''), (''buf-size'', GoStr ''1''), (''path'', GoStr ''Speed'')])"

lemma sample_get_read: "snd (MapRequest Some sample_get) = [(''path'', GoStr ''Speed''), (''period'', GoStr ''P'')]"
  by code_simp

lemma sample_create_read: "snd (MapRequest Some sample_create)
    = [(''action'', GoStr ''create''), (''buf-size'', GoStr ''1''), (''path'', GoStr ''Speed'')]"
  by code_simp

lemma sample_times: "getDPTs (data_point ''1'' ''a'') = ''a''" "getDPTs (data_point ''2'' ''b'') = ''b''" "atoi ''1'' = Some 1"
  by code_simp+

theorem history_all_or_nothing_witness:
  "historyServer_step (sample_hist 15) (HGet sample_get) sample_history = Some (sample_history, Some [])"
  using history_all_or_nothing [of "sample_hist 15" sample_get "''Speed''" "''P''" sample_history 0
      "historyList sample_history ! 0"]
  by (simp add: sample_hist_def sample_history_def sample_get_read gget_def getHistoryListIndex_def
      contents_def stored_time_def sample_times period_start_def numeral_2_eq_2)

theorem smaller_buffer_panics_witness:
  "\<exists>st'. historyServer_step (sample_hist 15) (HControl sample_create) sample_history = Some (st', Some ''200 OK'')
    \<and> historyServer_step (sample_hist 15) (HCapture 0) st' = None"
  using smaller_buffer_panics [of "sample_hist 15" sample_create "''Speed''" "''1''" 1 sample_history 0]
  by (simp add: sample_hist_def sample_history_def sample_create_read gget_def getHistoryListIndex_def
      sample_times)

end
