(* ===== verification/Svc_Ring.thy ===== *)
theory Svc_Ring
  imports Svc_Data "HOL-Library.Signed_Division"
begin

text \<open>
  The ring buffers of \<open>curvelog.go\<close>, which hold the latest data points of a signal, and the
  numbers that are made of them. \<open>None\<close> is a run-time panic. The ring refines the log of all
  data points written to it, as far back as it reaches.
\<close>

section \<open>Ring buffers\<close>

record RingElement =
  ElemValue :: string
  Timestamp :: string

record RingBuffer =
  bufSize :: int
  RingElem :: "RingElement list"
  Head :: int
  Tail :: int

definition createRingBuffer :: "int \<Rightarrow> RingBuffer option" where
  "createRingBuffer n =
     (if n < 0 then None
      else Some \<lparr>bufSize = n, RingElem = replicate (nat n) \<lparr>ElemValue = [], Timestamp = []\<rparr>, Head = 0, Tail = 0\<rparr>)"

definition setRingTail :: "RingBuffer \<Rightarrow> int \<Rightarrow> RingBuffer" where
  "setRingTail r newTail = r\<lparr>Tail := Head r - (newTail + 1)\<rparr>"

definition writeRing :: "RingBuffer \<Rightarrow> string \<Rightarrow> string \<Rightarrow> RingBuffer option" where
  "writeRing r v ts =
     (if 0 \<le> Head r \<and> nat (Head r) < length (RingElem r)
      then Some (r\<lparr>RingElem := (RingElem r)[nat (Head r) := \<lparr>ElemValue = v, Timestamp = ts\<rparr>],
                   Head := (if Head r + 1 = bufSize r then 0 else Head r + 1)\<rparr>)
      else None)"

definition ring_index :: "RingBuffer \<Rightarrow> int \<Rightarrow> int" where
  "ring_index r headOffset =
     (if Head r - (headOffset + 1) < 0 then Head r - (headOffset + 1) + bufSize r else Head r - (headOffset + 1))"

definition readRing :: "RingBuffer \<Rightarrow> int \<Rightarrow> (string \<times> string) option" where
  "readRing r headOffset =
     (let currentHead = ring_index r headOffset
      in if 0 \<le> currentHead \<and> nat currentHead < length (RingElem r)
         then Some (ElemValue (RingElem r ! nat currentHead), Timestamp (RingElem r ! nat currentHead)) else None)"

definition getNumOfPopulatedRingElements :: "RingBuffer \<Rightarrow> int" where
  "getNumOfPopulatedRingElements r = (if Head r < Tail r then Head r + bufSize r else Head r) - Tail r"

section \<open>The log\<close>

fun writes :: "(string \<times> string) list \<Rightarrow> RingBuffer \<Rightarrow> RingBuffer option" where
  "writes [] r = Some r"
| "writes (p # ps) r = do { r' \<leftarrow> writeRing r (fst p) (snd p); writes ps r' }"

text \<open>The ring holds the end of the log \<open>ws\<close>, which lists the latest first.\<close>

definition ring_holds :: "RingBuffer \<Rightarrow> (string \<times> string) list \<Rightarrow> bool" where
  "ring_holds r ws \<longleftrightarrow> 0 < bufSize r \<and> length (RingElem r) = nat (bufSize r) \<and> 0 \<le> Head r \<and> Head r < bufSize r
     \<and> (\<forall>k. int k < bufSize r \<and> k < length ws \<longrightarrow> readRing r (int k) = Some (ws ! k))"

lemma ring_created: "0 < n \<Longrightarrow> \<exists>r. createRingBuffer n = Some r \<and> ring_holds r [] \<and> bufSize r = n \<and> Head r = 0 \<and> Tail r = 0"
  by (simp add: createRingBuffer_def ring_holds_def)

lemma ring_tail: "ring_holds r ws \<Longrightarrow> ring_holds (setRingTail r sel) ws"
proof -
  have "readRing (setRingTail r sel) k = readRing r k" for k
    by (simp add: setRingTail_def readRing_def ring_index_def Let_def)
  then show "ring_holds r ws \<Longrightarrow> ?thesis" by (simp add: ring_holds_def) (simp add: setRingTail_def)
qed

lemma ring_write:
  assumes "ring_holds r ws"
  shows "\<exists>r'. writeRing r v ts = Some r' \<and> ring_holds r' ((v, ts) # ws) \<and> bufSize r' = bufSize r
    \<and> Tail r' = Tail r \<and> Head r' = (if Head r + 1 = bufSize r then 0 else Head r + 1)"
proof -
  let ?n = "bufSize r" and ?h = "Head r"
  let ?r = "r\<lparr>RingElem := (RingElem r)[nat ?h := \<lparr>ElemValue = v, Timestamp = ts\<rparr>],
                   Head := (if ?h + 1 = ?n then 0 else ?h + 1)\<rparr>"
  have h: "0 < ?n" "length (RingElem r) = nat ?n" "0 \<le> ?h" "?h < ?n"
    and k: "\<And>k. int k < ?n \<Longrightarrow> k < length ws \<Longrightarrow> readRing r (int k) = Some (ws ! k)"
    using assms by (auto simp: ring_holds_def)
  have "readRing ?r (int i) = Some (((v, ts) # ws) ! i)" if "int i < ?n" "i < length ((v, ts) # ws)" for i
  proof (cases i)
    case 0
    then have "ring_index ?r (int i) = ?h" using h by (simp add: ring_index_def)
    then show ?thesis using h 0 by (simp add: readRing_def nat_less_eq_zless)
  next
    case (Suc j)
    have ix: "ring_index ?r (int i) = ring_index r (int j)" using h that Suc by (simp add: ring_index_def)
    have "0 \<le> ring_index r (int j)" "ring_index r (int j) \<noteq> ?h" using h that Suc by (auto simp: ring_index_def)
    then have "readRing ?r (int i) = readRing r (int j)"
      using h(3) by (simp add: readRing_def ix Let_def nth_list_update eq_nat_nat_iff)
    then show ?thesis using k [of j] that Suc by simp
  qed
  then have "ring_holds ?r ((v, ts) # ws)" using h by (auto simp: ring_holds_def)
  moreover have "writeRing r v ts = Some ?r" using h by (simp add: writeRing_def nat_less_eq_zless)
  ultimately show ?thesis by simp
qed

text \<open>The place of the head after further writes, fewer than the size of the ring.\<close>

lemma ring_writes:
  assumes "ring_holds r ws" and "int (length ps) < bufSize r"
  shows "\<exists>r'. writes ps r = Some r' \<and> ring_holds r' (rev ps @ ws) \<and> bufSize r' = bufSize r \<and> Tail r' = Tail r
    \<and> Head r' = (if Head r + int (length ps) < bufSize r then Head r + int (length ps)
                 else Head r + int (length ps) - bufSize r)"
  using assms
proof (induction ps arbitrary: r ws)
  case (Cons p ps)
  obtain r1 where r1: "writeRing r (fst p) (snd p) = Some r1" "ring_holds r1 (p # ws)" "bufSize r1 = bufSize r"
    "Tail r1 = Tail r" "Head r1 = (if Head r + 1 = bufSize r then 0 else Head r + 1)"
    using ring_write [OF Cons.prems(1), of "fst p" "snd p"] by auto
  obtain r2 where r2: "writes ps r1 = Some r2" "ring_holds r2 (rev ps @ p # ws)" "bufSize r2 = bufSize r1"
    "Tail r2 = Tail r1" "Head r2 = (if Head r1 + int (length ps) < bufSize r1 then Head r1 + int (length ps)
                 else Head r1 + int (length ps) - bufSize r1)"
    using Cons.IH [OF r1(2)] Cons.prems(2) r1(3) by auto
  have "0 \<le> Head r" "Head r < bufSize r" using Cons.prems(1) by (auto simp: ring_holds_def)
  then show ?case using r1 r2 Cons.prems(2) by auto
qed (simp add: ring_holds_def)

lemma ring_writes_all:
  assumes "ring_holds r ws"
  shows "\<exists>r'. writes ps r = Some r' \<and> ring_holds r' (rev ps @ ws) \<and> bufSize r' = bufSize r"
  using assms
proof (induction ps arbitrary: r ws)
  case (Cons p ps)
  obtain r1 where r1: "writeRing r (fst p) (snd p) = Some r1" "ring_holds r1 (p # ws)" "bufSize r1 = bufSize r"
    using ring_write [OF Cons.prems, of "fst p" "snd p"] by auto
  then show ?case using Cons.IH [OF r1(2)] by auto
qed simp

lemma populated_after:
  assumes "ring_holds r ws" and "- 1 \<le> sel" and "int (length ps) + sel + 1 < bufSize r"
  shows "\<exists>r'. writes ps (setRingTail r sel) = Some r' \<and> ring_holds r' (rev ps @ ws)
    \<and> getNumOfPopulatedRingElements r' = int (length ps) + sel + 1"
proof -
  let ?r = "setRingTail r sel"
  have b: "bufSize ?r = bufSize r" "Head ?r = Head r" "Tail ?r = Head r - (sel + 1)" by (simp_all add: setRingTail_def)
  have h: "0 \<le> Head r" "Head r < bufSize r" using assms(1) by (auto simp: ring_holds_def)
  obtain r' where r': "writes ps ?r = Some r'" "ring_holds r' (rev ps @ ws)" "bufSize r' = bufSize r"
    "Tail r' = Head r - (sel + 1)"
    "Head r' = (if Head r + int (length ps) < bufSize r then Head r + int (length ps)
                 else Head r + int (length ps) - bufSize r)"
    using ring_writes [OF ring_tail [OF assms(1)], of ps sel] assms(2,3) b by auto
  have "getNumOfPopulatedRingElements r' = int (length ps) + sel + 1"
    using h assms(2,3) unfolding getNumOfPopulatedRingElements_def r' by (simp split: if_split)
  then show ?thesis using r' by blast
qed

section \<open>The count\<close>

text \<open>The tail is \<open>c\<close> elements behind the head, on either side of the end of the ring.\<close>

definition ring_count :: "RingBuffer \<Rightarrow> int \<Rightarrow> bool" where
  "ring_count r c \<longleftrightarrow> 0 \<le> c \<and> c < bufSize r \<and> Tail r < bufSize r
     \<and> (Tail r = Head r - c \<or> Tail r = Head r - c + bufSize r)"

lemma ring_count_populated: "ring_count r c \<Longrightarrow> getNumOfPopulatedRingElements r = c"
  by (auto simp: ring_count_def getNumOfPopulatedRingElements_def)

lemma ring_count_tail:
  "ring_holds r ws \<Longrightarrow> 0 \<le> sel \<Longrightarrow> sel + 1 < bufSize r \<Longrightarrow> ring_count (setRingTail r sel) (sel + 1)"
  by (simp add: ring_count_def setRingTail_def ring_holds_def)

lemma ring_count_write:
  assumes "ring_holds r ws" and "ring_count r c" and "c + 1 < bufSize r"
  shows "\<exists>r'. writeRing r v ts = Some r' \<and> ring_holds r' ((v, ts) # ws) \<and> bufSize r' = bufSize r \<and> ring_count r' (c + 1)"
proof -
  obtain r' where r': "writeRing r v ts = Some r'" "ring_holds r' ((v, ts) # ws)" "bufSize r' = bufSize r"
    "Tail r' = Tail r" "Head r' = (if Head r + 1 = bufSize r then 0 else Head r + 1)"
    using ring_write [OF assms(1), of v ts] by blast
  have "ring_count r' (c + 1)" using r'(3-5) assms(2,3) by (auto simp: ring_count_def)
  then show ?thesis using r' by blast
qed

text \<open>
  C21: The ring refines the log of a signal. After any number of data points written to a new ring,
  the data point read at an offset is the one written that many writes before the last, as far as
  the ring reaches; and after the tail is set to a selected offset, the count of populated
  elements is exact, the selected data point included, while it stays below the size of the ring,
  however often the head or the tail wraps around.
\<close>

theorem ring_refines_log:
  assumes "0 < n"
  shows "\<exists>r0 r. createRingBuffer n = Some r0 \<and> writes ps r0 = Some r
    \<and> (\<forall>k. int k < n \<and> k < length ps \<longrightarrow> readRing r (int k) = Some (rev ps ! k))
    \<and> (\<forall>sel qs. - 1 \<le> sel \<and> int (length qs) + sel + 1 < n \<longrightarrow>
        (\<exists>r'. writes qs (setRingTail r sel) = Some r' \<and> getNumOfPopulatedRingElements r' = int (length qs) + sel + 1))"
proof -
  obtain r0 where r0: "createRingBuffer n = Some r0" "ring_holds r0 []" "bufSize r0 = n" using ring_created [OF assms] by auto
  obtain r where r: "writes ps r0 = Some r" "ring_holds r (rev ps)" "bufSize r = n"
    using ring_writes_all [OF r0(2), of ps] r0(3) by auto
  have "\<forall>k. int k < n \<and> k < length ps \<longrightarrow> readRing r (int k) = Some (rev ps ! k)"
    using r(2,3) by (simp add: ring_holds_def)
  moreover have "\<exists>r'. writes qs (setRingTail r sel) = Some r' \<and> getNumOfPopulatedRingElements r' = int (length qs) + sel + 1"
    if "- 1 \<le> sel \<and> int (length qs) + sel + 1 < n" for sel qs
    using populated_after [OF r(2), of sel qs] that r(3) by auto
  ultimately show ?thesis using r0(1) r(1) by blast
qed

theorem ring_refines_log_witness:
  "\<exists>r0 r. createRingBuffer 3 = Some r0
    \<and> writes [(''1'', ''a''), (''2'', ''b''), (''3'', ''c''), (''4'', ''d'')] r0 = Some r
    \<and> readRing r 1 = Some (''3'', ''c'')
    \<and> (\<exists>r'. writes [(''5'', ''e'')] (setRingTail r 0) = Some r' \<and> getNumOfPopulatedRingElements r' = 2)"
proof -
  let ?ps = "[(''1'', ''a''), (''2'', ''b''), (''3'', ''c''), (''4'', ''d'')]"
  obtain r0 r where r: "createRingBuffer 3 = Some r0" "writes ?ps r0 = Some r"
    "\<And>k. int k < 3 \<Longrightarrow> k < length ?ps \<Longrightarrow> readRing r (int k) = Some (rev ?ps ! k)"
    "\<And>sel qs. - 1 \<le> sel \<Longrightarrow> int (length qs) + sel + 1 < 3 \<Longrightarrow>
        \<exists>r'. writes qs (setRingTail r sel) = Some r' \<and> getNumOfPopulatedRingElements r' = int (length qs) + sel + 1"
    using ring_refines_log [of 3 ?ps] by auto
  have "readRing r 1 = Some (''3'', ''c'')" using r(3) [of 1] by simp
  moreover have "\<exists>r'. writes [(''5'', ''e'')] (setRingTail r 0) = Some r' \<and> getNumOfPopulatedRingElements r' = 2"
    using r(4) [of 0 "[(''5'', ''e'')]"] by simp
  ultimately show ?thesis using r(1,2) by blast
qed

end
