(* ===== verification/Svc_Reduce.thy ===== *)
theory Svc_Reduce
  imports Svc_Ring Svc_Subs
begin

text \<open>
  The reduction of a curve in \<open>curvelog.go\<close>: which data points of a buffer are kept so that the
  others lie on the lines between them up to the allowed error. The arithmetic is that of 64-bit
  floats, whose rounding is a parameter.
\<close>

section \<open>Floats\<close>

text \<open>
  The sign of an infinity is positive for \<open>True\<close>. The two zeros are one: the code divides by
  differences only, and the difference of equal floats is the positive zero.
\<close>

datatype float64 = Fin real | Infinite bool | NaN

type_synonym rounding = "real \<Rightarrow> float64"

fun fneg :: "float64 \<Rightarrow> float64" where
  "fneg (Fin x) = Fin (- x)"
| "fneg (Infinite s) = Infinite (\<not> s)"
| "fneg NaN = NaN"

fun fadd :: "rounding \<Rightarrow> float64 \<Rightarrow> float64 \<Rightarrow> float64" where
  "fadd rnd (Fin x) (Fin y) = rnd (x + y)"
| "fadd rnd NaN b = NaN"
| "fadd rnd a NaN = NaN"
| "fadd rnd (Infinite s) (Infinite t) = (if s = t then Infinite s else NaN)"
| "fadd rnd (Infinite s) (Fin y) = Infinite s"
| "fadd rnd (Fin x) (Infinite t) = Infinite t"

definition fsub :: "rounding \<Rightarrow> float64 \<Rightarrow> float64 \<Rightarrow> float64" where
  "fsub rnd a b = fadd rnd a (fneg b)"

fun fmul :: "rounding \<Rightarrow> float64 \<Rightarrow> float64 \<Rightarrow> float64" where
  "fmul rnd (Fin x) (Fin y) = rnd (x * y)"
| "fmul rnd NaN b = NaN"
| "fmul rnd a NaN = NaN"
| "fmul rnd (Infinite s) (Infinite t) = Infinite (s = t)"
| "fmul rnd (Infinite s) (Fin y) = (if y = 0 then NaN else Infinite (s = (0 < y)))"
| "fmul rnd (Fin x) (Infinite t) = (if x = 0 then NaN else Infinite (t = (0 < x)))"

fun fdiv :: "rounding \<Rightarrow> float64 \<Rightarrow> float64 \<Rightarrow> float64" where
  "fdiv rnd (Fin x) (Fin y) = (if y = 0 then if x = 0 then NaN else Infinite (0 < x) else rnd (x / y))"
| "fdiv rnd NaN b = NaN"
| "fdiv rnd a NaN = NaN"
| "fdiv rnd (Infinite s) (Infinite t) = NaN"
| "fdiv rnd (Infinite s) (Fin y) = Infinite (s = (0 \<le> y))"
| "fdiv rnd (Fin x) (Infinite t) = Fin 0"

fun fless :: "float64 \<Rightarrow> float64 \<Rightarrow> bool" where
  "fless (Fin x) (Fin y) = (x < y)"
| "fless NaN b = False"
| "fless a NaN = False"
| "fless (Infinite s) (Infinite t) = (\<not> s \<and> t)"
| "fless (Infinite s) (Fin y) = (\<not> s)"
| "fless (Fin x) (Infinite t) = t"

definition fabs :: "float64 \<Rightarrow> float64" where
  "fabs a = (if fless a (Fin 0) then fneg a else a)"

lemma fless_trans: "fless a b \<Longrightarrow> fless b c \<Longrightarrow> fless a c"
  by (cases a; cases b; cases c) auto

lemma fless_irrefl [simp]: "\<not> fless a a"
  by (cases a) auto

lemma fless_NaN [simp]: "\<not> fless a NaN"
  by (cases a) auto

lemma fless_linear: "fless l e \<Longrightarrow> m \<noteq> NaN \<Longrightarrow> \<not> fless m e \<Longrightarrow> fless l m"
  by (cases l; cases m; cases e) (auto split: if_splits)

section \<open>The largest error and the split\<close>

definition max_error :: "(nat \<Rightarrow> float64) \<Rightarrow> nat \<Rightarrow> nat \<Rightarrow> float64 \<times> nat" where
  "max_error e firstIndex lastIndex =
     foldl (\<lambda>acc i. if fless (fst acc) (e i) then (e i, i) else acc) (Fin 0, firstIndex) [firstIndex..<Suc lastIndex]"

text \<open>
  The recursion that the three reductions share; it is \<open>None\<close> when it does not end. The code's
  \<open>nil\<close> is the empty list.
\<close>

partial_function (option) reduce_by ::
  "(nat \<Rightarrow> nat \<Rightarrow> nat \<Rightarrow> float64) \<Rightarrow> float64 \<Rightarrow> nat \<Rightarrow> nat \<Rightarrow> nat list option" where
  "reduce_by err limit firstIndex lastIndex =
     (if lastIndex \<le> Suc firstIndex then Some []
      else if fless limit (fst (max_error (err firstIndex lastIndex) firstIndex lastIndex)) then
        Option.bind (reduce_by err limit firstIndex (snd (max_error (err firstIndex lastIndex) firstIndex lastIndex))) (\<lambda>savedIndex1.
        Option.bind (reduce_by err limit (snd (max_error (err firstIndex lastIndex) firstIndex lastIndex)) lastIndex) (\<lambda>savedIndex2.
        Some (savedIndex1 @ savedIndex2 @ [snd (max_error (err firstIndex lastIndex) firstIndex lastIndex)])))
      else Some [])"

lemma max_error_upto:
  assumes "r = foldl (\<lambda>acc i. if fless (fst acc) (e i) then (e i, i) else acc) (Fin 0, k) xs"
  shows "(\<forall>i \<in> set xs. \<not> fless (fst r) (e i)) \<and> \<not> fless (fst r) (Fin 0)
    \<and> (r = (Fin 0, k) \<or> snd r \<in> set xs \<and> fst r = e (snd r)) \<and> fst r \<noteq> NaN"
  using assms
proof (induction xs arbitrary: r rule: rev_induct)
  case (snoc x xs)
  let ?a = "foldl (\<lambda>acc i. if fless (fst acc) (e i) then (e i, i) else acc) (Fin 0, k) xs"
  have r: "r = (if fless (fst ?a) (e x) then (e x, x) else ?a)" using snoc.prems by simp
  show ?case
  proof (cases "fless (fst ?a) (e x)")
    case True
    then show ?thesis using snoc.IH [OF refl] r by (auto dest: fless_trans)
  next
    case False
    then show ?thesis using snoc.IH [OF refl] r by auto
  qed
qed simp

lemma max_error_cases:
  assumes "firstIndex \<le> lastIndex" and "max_error e firstIndex lastIndex = (m, ix)"
  shows "\<And>i. firstIndex \<le> i \<Longrightarrow> i \<le> lastIndex \<Longrightarrow> \<not> fless m (e i)"
    and "\<not> fless m (Fin 0)" and "m = Fin 0 \<and> ix = firstIndex \<or> m = e ix"
    and "firstIndex \<le> ix \<and> ix \<le> lastIndex" and "m \<noteq> NaN"
proof -
  have "(\<forall>i \<in> set [firstIndex..<Suc lastIndex]. \<not> fless m (e i)) \<and> \<not> fless m (Fin 0)
    \<and> ((m, ix) = (Fin 0, firstIndex) \<or> ix \<in> set [firstIndex..<Suc lastIndex] \<and> m = e ix) \<and> m \<noteq> NaN"
    using max_error_upto [of "(m, ix)" e firstIndex "[firstIndex..<Suc lastIndex]"] assms(2)
    by (simp add: max_error_def del: upt_Suc)
  then show "\<And>i. firstIndex \<le> i \<Longrightarrow> i \<le> lastIndex \<Longrightarrow> \<not> fless m (e i)"
    and "\<not> fless m (Fin 0)" and "m = Fin 0 \<and> ix = firstIndex \<or> m = e ix"
    and "firstIndex \<le> ix \<and> ix \<le> lastIndex" and "m \<noteq> NaN" using assms(1) by (auto simp del: upt_Suc)
qed

text \<open>A split at an end of the range is the same problem again.\<close>

lemma reduce_by_stuck:
  assumes "Suc firstIndex < lastIndex" and "max_error (err firstIndex lastIndex) firstIndex lastIndex = (m, ix)"
    and "fless limit m" and "ix = firstIndex \<or> ix = lastIndex"
  shows "reduce_by err limit firstIndex lastIndex = None"
proof (rule ccontr)
  assume "reduce_by err limit firstIndex lastIndex \<noteq> None"
  then obtain ks where ks: "reduce_by err limit firstIndex lastIndex = Some ks" by auto
  then have "Option.bind (reduce_by err limit firstIndex ix) (\<lambda>a.
      Option.bind (reduce_by err limit ix lastIndex) (\<lambda>b. Some (a @ b @ [ix]))) = Some ks"
    using assms(1-3) reduce_by.simps [of err limit firstIndex lastIndex] by simp
  then show False using ks assms(4) by (auto simp: bind_eq_Some_conv)
qed

text \<open>Whatever the errors are, what a recursion that ends returns lies inside the range.\<close>

lemma reduce_by_inside:
  "reduce_by err limit a b = Some ks \<Longrightarrow> set ks \<subseteq> {a<..<b}"
proof (induction "b - a" arbitrary: a b ks rule: less_induct)
  case less
  obtain m ix where mx: "max_error (err a b) a b = (m, ix)" by (cases "max_error (err a b) a b")
  show ?case
  proof (cases "b \<le> Suc a \<or> \<not> fless limit m")
    case True
    then have "reduce_by err limit a b = Some []" using mx by (subst reduce_by.simps) auto
    then show ?thesis using less.prems by simp
  next
    case False
    then have ab: "Suc a < b" "fless limit m" by auto
    then have "ix \<noteq> a" "ix \<noteq> b" using reduce_by_stuck [where err = err, OF ab(1) mx ab(2)] less.prems by auto
    moreover have "a \<le> ix \<and> ix \<le> b" using max_error_cases(4) [OF _ mx] ab(1) by simp
    ultimately have ix: "a < ix" "ix < b" by auto
    obtain k1 k2 where k: "reduce_by err limit a ix = Some k1" "reduce_by err limit ix b = Some k2" "ks = k1 @ k2 @ [ix]"
      using less.prems ab mx by (subst (asm) reduce_by.simps) (auto simp: bind_eq_Some_conv)
    have "set k1 \<subseteq> {a<..<ix}" by (rule less.hyps [OF diff_less_mono [OF ix(2) less_imp_le [OF ix(1)]] k(1)])
    moreover have "set k2 \<subseteq> {ix<..<b}" by (rule less.hyps [OF diff_less_mono2 [OF ix(1) less_trans [OF ix]] k(2)])
    ultimately show ?thesis using k(3) ix by fastforce
  qed
qed

section \<open>Errors within the limit at the ends\<close>

text \<open>Every line between neighbours that are kept is within the limit of all it passes over.\<close>

definition lines_within :: "(nat \<Rightarrow> nat \<Rightarrow> nat \<Rightarrow> float64) \<Rightarrow> float64 \<Rightarrow> nat \<Rightarrow> nat \<Rightarrow> nat set \<Rightarrow> bool" where
  "lines_within err limit a b K \<longleftrightarrow> (\<forall>c \<in> insert a (insert b K). \<forall>d \<in> insert a (insert b K). \<forall>i.
     c < i \<and> i < d \<and> (\<forall>k \<in> K. \<not> (c < k \<and> k < d)) \<longrightarrow> \<not> fless limit (err c d i))"

text \<open>What makes the split progress: at the ends of every line the error is within the limit.\<close>

locale curve_reduction =
  fixes err :: "nat \<Rightarrow> nat \<Rightarrow> nat \<Rightarrow> float64" and limit :: float64 and bound :: nat
  assumes limit_zero: "\<not> fless limit (Fin 0)"
    and at_first: "a < b \<Longrightarrow> b \<le> bound \<Longrightarrow> \<not> fless limit (err a b a)"
    and at_last: "a < b \<Longrightarrow> b \<le> bound \<Longrightarrow> \<not> fless limit (err a b b)"
begin

lemma split_inside:
  assumes "Suc a < b" "b \<le> bound" and "max_error (err a b) a b = (m, ix)" and "fless limit m"
  shows "a < ix \<and> ix < b"
proof -
  have c: "m = Fin 0 \<and> ix = a \<or> m = err a b ix" "a \<le> ix \<and> ix \<le> b"
    using max_error_cases(3,4) [OF _ assms(3)] assms(1) by auto
  have "m \<noteq> Fin 0" using assms(4) limit_zero by auto
  then have m: "m = err a b ix" using c(1) by blast
  then have "ix \<noteq> a" using at_first [of a b] assms by auto
  moreover have "ix \<noteq> b" using m at_last [of a b] assms by auto
  ultimately show ?thesis using c(2) by linarith
qed

lemma within_split:
  assumes "lines_within err limit a x K1" and "lines_within err limit x b K2" and "a < x" "x < b" "K1 \<subseteq> {a<..<x}" "K2 \<subseteq> {x<..<b}"
  shows "lines_within err limit a b (K1 \<union> K2 \<union> {x})"
  unfolding lines_within_def
proof (intro ballI allI impI)
  fix c d i
  assume c: "c \<in> insert a (insert b (K1 \<union> K2 \<union> {x}))" and d: "d \<in> insert a (insert b (K1 \<union> K2 \<union> {x}))"
    and i: "c < i \<and> i < d \<and> (\<forall>k \<in> K1 \<union> K2 \<union> {x}. \<not> (c < k \<and> k < d))"
  have "d \<le> x \<or> x \<le> c" using i by force
  then show "\<not> fless limit (err c d i)"
  proof
    assume dx: "d \<le> x"
    then have "c < x" using i by linarith
    then have "c \<in> insert a (insert x K1)" "d \<in> insert a (insert x K1)" using c d dx assms(3-6) by auto
    then show ?thesis using assms(1) i unfolding lines_within_def by blast
  next
    assume xc: "x \<le> c"
    then have "x < d" using i by linarith
    then have "c \<in> insert x (insert b K2)" "d \<in> insert x (insert b K2)" using c d xc assms(3-6) by auto
    then show ?thesis using assms(2) i unfolding lines_within_def by blast
  qed
qed

lemma reduces:
  assumes "a \<le> b" and "b \<le> bound"
  shows "\<exists>ks. reduce_by err limit a b = Some ks \<and> distinct ks \<and> set ks \<subseteq> {a<..<b} \<and> lines_within err limit a b (set ks)"
  using assms
proof (induction "b - a" arbitrary: a b rule: less_induct)
  case less
  obtain m ix where mx: "max_error (err a b) a b = (m, ix)" by (cases "max_error (err a b) a b")
  show ?case
  proof (cases "b \<le> Suc a \<or> \<not> fless limit m")
    case True
    then have "reduce_by err limit a b = Some []" using mx by (subst reduce_by.simps) auto
    moreover have "\<not> fless limit (err a b i)" if "a < i" "i < b" for i
      using True that max_error_cases(1,5) [OF less.prems(1) mx] fless_linear [of limit "err a b i" m] by auto
    then have "lines_within err limit a b {}" using less.prems(1) by (auto simp: lines_within_def)
    ultimately show ?thesis by auto
  next
    case False
    then have ix: "a < ix" "ix < b" using split_inside [OF _ less.prems(2) mx] by auto
    obtain k1 where k1: "reduce_by err limit a ix = Some k1" "distinct k1" "set k1 \<subseteq> {a<..<ix}" "lines_within err limit a ix (set k1)"
      using less.hyps [OF diff_less_mono [OF ix(2) less_imp_le [OF ix(1)]]] ix less.prems by auto
    obtain k2 where k2: "reduce_by err limit ix b = Some k2" "distinct k2" "set k2 \<subseteq> {ix<..<b}" "lines_within err limit ix b (set k2)"
      using less.hyps [OF diff_less_mono2 [OF ix(1) less_trans [OF ix]]] ix less.prems by auto
    have "reduce_by err limit a b = Some (k1 @ k2 @ [ix])"
      using False mx k1(1) k2(1) by (subst reduce_by.simps) simp
    moreover have "distinct (k1 @ k2 @ [ix])" using k1(2,3) k2(2,3) by fastforce
    moreover have "set (k1 @ k2 @ [ix]) \<subseteq> {a<..<b}" using k1(3) k2(3) ix by fastforce
    moreover have "lines_within err limit a b (set (k1 @ k2 @ [ix]))"
      using within_split [OF k1(4) k2(4) ix k1(3) k2(3)] by (simp add: Un_assoc)
    ultimately show ?thesis by blast
  qed
qed

end

section \<open>The reductions of one, two and three signals\<close>

record CLBufElement =
  CLValue :: float64
  CLTimestamp :: float64

definition linear_slope :: "rounding \<Rightarrow> CLBufElement list \<Rightarrow> nat \<Rightarrow> nat \<Rightarrow> float64" where
  "linear_slope rnd clBuffer firstIndex lastIndex =
     fdiv rnd (fsub rnd (CLValue (clBuffer ! lastIndex)) (CLValue (clBuffer ! firstIndex)))
       (fsub rnd (CLTimestamp (clBuffer ! lastIndex)) (CLTimestamp (clBuffer ! firstIndex)))"

definition line_error :: "rounding \<Rightarrow> CLBufElement list \<Rightarrow> nat \<Rightarrow> nat \<Rightarrow> nat \<Rightarrow> float64" where
  "line_error rnd clBuffer firstIndex lastIndex i =
     fsub rnd (CLValue (clBuffer ! i))
       (fadd rnd (CLValue (clBuffer ! firstIndex))
         (fmul rnd (linear_slope rnd clBuffer firstIndex lastIndex)
           (fsub rnd (CLTimestamp (clBuffer ! i)) (CLTimestamp (clBuffer ! firstIndex)))))"

definition squared_error :: "rounding \<Rightarrow> CLBufElement list \<Rightarrow> nat \<Rightarrow> nat \<Rightarrow> nat \<Rightarrow> float64" where
  "squared_error rnd clBuffer firstIndex lastIndex i =
     fmul rnd (line_error rnd clBuffer firstIndex lastIndex i) (line_error rnd clBuffer firstIndex lastIndex i)"

text \<open>A buffer that could not be transformed is the empty list, and reading it is a panic.\<close>

definition run_reduction :: "CLBufElement list list \<Rightarrow> nat \<Rightarrow> nat \<Rightarrow> nat list option \<Rightarrow> nat list go_run" where
  "run_reduction buffers firstIndex lastIndex r =
     (if lastIndex \<le> Suc firstIndex then Returned []
      else if list_ex (\<lambda>b. length b \<le> lastIndex) buffers then Panics
      else case r of None \<Rightarrow> Diverges | Some ks \<Rightarrow> Returned ks)"

definition clReduction1Dim :: "rounding \<Rightarrow> CLBufElement list \<Rightarrow> nat \<Rightarrow> nat \<Rightarrow> float64 \<Rightarrow> nat list go_run" where
  "clReduction1Dim rnd clBuffer firstIndex lastIndex maxError =
     run_reduction [clBuffer] firstIndex lastIndex
       (reduce_by (\<lambda>a b i. fabs (line_error rnd clBuffer a b i)) maxError firstIndex lastIndex)"

definition clReduction2Dim ::
  "rounding \<Rightarrow> CLBufElement list \<Rightarrow> CLBufElement list \<Rightarrow> nat \<Rightarrow> nat \<Rightarrow> float64 \<Rightarrow> nat list go_run" where
  "clReduction2Dim rnd clBuffer1 clBuffer2 firstIndex lastIndex maxError =
     run_reduction [clBuffer1, clBuffer2] firstIndex lastIndex
       (reduce_by (\<lambda>a b i. fadd rnd (squared_error rnd clBuffer1 a b i) (squared_error rnd clBuffer2 a b i))
         (fmul rnd maxError maxError) firstIndex lastIndex)"

definition clReduction3Dim ::
  "rounding \<Rightarrow> CLBufElement list \<Rightarrow> CLBufElement list \<Rightarrow> CLBufElement list \<Rightarrow> nat \<Rightarrow> nat \<Rightarrow> float64 \<Rightarrow> nat list go_run" where
  "clReduction3Dim rnd clBuffer1 clBuffer2 clBuffer3 firstIndex lastIndex maxError =
     run_reduction [clBuffer1, clBuffer2, clBuffer3] firstIndex lastIndex
       (reduce_by (\<lambda>a b i. fadd rnd (fadd rnd (squared_error rnd clBuffer1 a b i) (squared_error rnd clBuffer2 a b i))
            (squared_error rnd clBuffer3 a b i))
         (fmul rnd maxError maxError) firstIndex lastIndex)"

lemma clReduction1Dim_inside:
  "clReduction1Dim rnd clBuffer 0 l maxError = Returned ks \<Longrightarrow> set ks \<subseteq> {0<..<l}"
  by (auto simp: clReduction1Dim_def run_reduction_def dest!: reduce_by_inside split: if_splits option.splits)

lemma clReduction1Dim_no_panic:
  "l < length clBuffer \<or> l \<le> 1 \<Longrightarrow> clReduction1Dim rnd clBuffer 0 l maxError \<noteq> Panics"
  by (auto simp: clReduction1Dim_def run_reduction_def split: option.splits)

section \<open>Exact arithmetic\<close>

text \<open>A buffer of exact values at different times.\<close>

definition exact_buffer :: "(nat \<Rightarrow> real) \<Rightarrow> (nat \<Rightarrow> real) \<Rightarrow> nat \<Rightarrow> CLBufElement list" where
  "exact_buffer v t n = map (\<lambda>i. \<lparr>CLValue = Fin (v i), CLTimestamp = Fin (t i)\<rparr>) [0..<n]"

definition exact_error :: "(nat \<Rightarrow> real) \<Rightarrow> (nat \<Rightarrow> real) \<Rightarrow> nat \<Rightarrow> nat \<Rightarrow> nat \<Rightarrow> real" where
  "exact_error v t a b i = v i - (v a + (v b - v a) / (t b - t a) * (t i - t a))"

lemma length_exact_buffer [simp]: "length (exact_buffer v t n) = n"
  by (simp add: exact_buffer_def)

lemma line_error_exact:
  assumes "a < n" "b < n" "i < n" "t a \<noteq> t b"
  shows "line_error Fin (exact_buffer v t n) a b i = Fin (exact_error v t a b i)"
  using assms by (simp add: line_error_def linear_slope_def exact_buffer_def fsub_def exact_error_def)

lemma exact_error_ends [simp]:
  "exact_error v t a b a = 0" "t a \<noteq> t b \<Longrightarrow> exact_error v t a b b = 0"
  by (simp_all add: exact_error_def)

lemma squared_error_exact:
  assumes "a < n" "b < n" "i < n" "t a \<noteq> t b"
  shows "squared_error Fin (exact_buffer v t n) a b i = Fin ((exact_error v t a b i)\<^sup>2)"
  using assms by (simp add: squared_error_def line_error_exact power2_eq_square)

lemma fabs_Fin [simp]: "fabs (Fin x) = Fin \<bar>x\<bar>"
  by (simp add: fabs_def)

text \<open>The last index of a buffer whose times are all different.\<close>

definition last_of :: "(nat \<Rightarrow> real) \<Rightarrow> nat \<Rightarrow> nat" where
  "last_of t n = (if inj_on t {..<n} then n - 1 else 0)"

lemma last_of_times:
  assumes "a < b" "b \<le> last_of t n"
  shows "a < n" "b < n" "t a \<noteq> t b"
proof -
  have inj: "inj_on t {..<n}" and b: "b \<le> n - 1" using assms by (auto simp: last_of_def split: if_splits)
  then show an: "a < n" and bn: "b < n" using assms(1) by linarith+
  show "t a \<noteq> t b"
  proof
    assume "t a = t b"
    then have "a = b" using inj an bn by (auto dest: inj_onD)
    then show False using assms(1) by simp
  qed
qed

lemma ends_exact:
  assumes "a < b" "b \<le> last_of t n"
  shows "line_error Fin (exact_buffer v t n) a b a = Fin 0" "line_error Fin (exact_buffer v t n) a b b = Fin 0"
    "squared_error Fin (exact_buffer v t n) a b a = Fin 0" "squared_error Fin (exact_buffer v t n) a b b = Fin 0"
  using last_of_times [OF assms] by (simp_all add: line_error_exact squared_error_exact)

interpretation curve1: curve_reduction
    "\<lambda>a b i. fabs (line_error Fin (exact_buffer v t n) a b i)" "Fin \<bar>e\<bar>" "last_of t n" for v t n e
  by unfold_locales (simp_all add: ends_exact)

interpretation curve2: curve_reduction
    "\<lambda>a b i. fadd Fin (squared_error Fin (exact_buffer v t n) a b i) (squared_error Fin (exact_buffer w t n) a b i)"
    "Fin (e * e)" "last_of t n" for v w t n e
  by unfold_locales (simp_all add: ends_exact not_less)

interpretation curve3: curve_reduction
    "\<lambda>a b i. fadd Fin (fadd Fin (squared_error Fin (exact_buffer v t n) a b i) (squared_error Fin (exact_buffer w t n) a b i))
       (squared_error Fin (exact_buffer u t n) a b i)"
    "Fin (e * e)" "last_of t n" for v w u t n e
  by unfold_locales (simp_all add: ends_exact not_less)

lemma no_room: "set ks \<subseteq> {0<..<n - Suc 0} \<Longrightarrow> n \<le> 2 \<longrightarrow> ks = []"
  by (cases ks) auto

text \<open>The neighbours among the kept indexes and the ends of the buffer.\<close>

definition neighbours :: "nat \<Rightarrow> nat list \<Rightarrow> nat \<Rightarrow> nat \<Rightarrow> bool" where
  "neighbours n ks c d \<longleftrightarrow> c < d \<and> c \<in> insert 0 (set ks) \<and> d \<in> insert (n - 1) (set ks)
     \<and> (\<forall>k \<in> set ks. \<not> (c < k \<and> k < d))"

lemma lines_between:
  assumes "lines_within err limit 0 (n - 1) (set ks)" and "neighbours n ks c d" and "c < i" "i < d"
  shows "\<not> fless limit (err c d i)"
  using assms unfolding lines_within_def neighbours_def by blast

lemma last_of_inj: "inj_on t {..<n} \<Longrightarrow> last_of t n = n - 1"
  by (simp add: last_of_def)

lemma kept_range: "neighbours n ks c d \<Longrightarrow> set ks \<subseteq> {0<..<n - 1} \<Longrightarrow> 2 < n \<Longrightarrow> c < n \<and> d < n"
  by (auto simp: neighbours_def)

lemma run_reduction_returns:
  "list_all (\<lambda>b. length b = n) buffers \<Longrightarrow> n \<le> 2 \<longrightarrow> ks = [] \<Longrightarrow>
    run_reduction buffers 0 (n - Suc 0) (Some ks) = Returned ks"
  by (auto simp: run_reduction_def list_all_iff list_ex_iff)



lemma reduction3_within_error:
  assumes "inj_on t {..<n}"
  shows "\<exists>ks. clReduction3Dim Fin (exact_buffer v t n) (exact_buffer w t n) (exact_buffer u t n) 0 (n - 1) (Fin e) = Returned ks
    \<and> distinct ks \<and> set ks \<subseteq> {0<..<n - 1}
    \<and> (\<forall>c d i. neighbours n ks c d \<and> c < i \<and> i < d \<longrightarrow>
        (exact_error v t c d i)\<^sup>2 + (exact_error w t c d i)\<^sup>2 + (exact_error u t c d i)\<^sup>2 \<le> e\<^sup>2)"
proof -
  let ?err = "\<lambda>a b i. fadd Fin (fadd Fin (squared_error Fin (exact_buffer v t n) a b i) (squared_error Fin (exact_buffer w t n) a b i))
       (squared_error Fin (exact_buffer u t n) a b i)"
  obtain ks where ks: "reduce_by ?err (Fin (e * e)) 0 (n - 1) = Some ks" "distinct ks" "set ks \<subseteq> {0<..<n - 1}"
    "lines_within ?err (Fin (e * e)) 0 (n - 1) (set ks)"
    using curve3.reduces [of 0 "n - 1" t n v w u e] assms by (auto simp: last_of_inj)
  have "n \<le> 2 \<longrightarrow> ks = []" using no_room ks(3) by simp
  then have "clReduction3Dim Fin (exact_buffer v t n) (exact_buffer w t n) (exact_buffer u t n) 0 (n - 1) (Fin e) = Returned ks"
    using ks(1) by (simp add: clReduction3Dim_def run_reduction_returns)
  moreover have "(exact_error v t c d i)\<^sup>2 + (exact_error w t c d i)\<^sup>2 + (exact_error u t c d i)\<^sup>2 \<le> e\<^sup>2"
    if "neighbours n ks c d" "c < i" "i < d" for c d i
  proof -
    have "2 < n" using that ks(3) by (auto simp: neighbours_def)
    then have r: "c < n" "d < n" "i < n" using kept_range [OF that(1) ks(3)] that by auto
    moreover have "t c \<noteq> t d" using assms(1) r that inj_onD [of t "{..<n}" c d] by auto
    ultimately show ?thesis
      using lines_between [OF ks(4) that] by (simp add: squared_error_exact not_less power2_eq_square)
  qed
  ultimately show ?thesis using ks(2,3) by blast
qed

section \<open>Recursions that do not end\<close>

lemma fold_no_error:
  "(\<And>i. i \<in> set xs \<Longrightarrow> \<not> fless (fst s) (e i)) \<Longrightarrow>
    foldl (\<lambda>acc i. if fless (fst acc) (e i) then (e i, i) else acc) s xs = s"
  by (induction xs) auto

lemma negative_limit_stuck:
  assumes "2 \<le> lastIndex" and "limit < 0" and "\<And>i. i \<le> lastIndex \<Longrightarrow> err 0 lastIndex i = Fin 0"
  shows "reduce_by err (Fin limit) 0 lastIndex = None"
proof (rule reduce_by_stuck)
  show "max_error (err 0 lastIndex) 0 lastIndex = (Fin 0, 0)"
    unfolding max_error_def by (rule fold_no_error) (use assms(3) in \<open>auto simp del: upt_Suc\<close>)
qed (use assms in auto)

end
