(* ===== verification/Svc_Curve.thy ===== *)
theory Svc_Curve
  imports Svc_Reduce
begin

text \<open>
  Curve logging, \<open>curvelog.go\<close>: the analysis of a full buffer, the check of the last data
  point between two buffers, the rounds of a capture of one and of two signals, and the choice of the
  signals that are captured together.
\<close>

section \<open>The environment\<close>

text \<open>\<open>isoNanos\<close> reads a time stamp as nanoseconds; it fails on anything else.\<close>

record curve_env =
  curveNum :: "string \<Rightarrow> string option"
  parse64 :: "string \<Rightarrow> float64 option"
  isoNanos :: "string \<Rightarrow> int option"
  round64 :: rounding

text \<open>\<open>Sub\<close> saturates, and \<open>Seconds\<close> adds the whole seconds and the rest.\<close>

definition seconds :: "rounding \<Rightarrow> int \<Rightarrow> float64" where
  "seconds rnd d =
     (let dur = max (- (2 ^ 63)) (min (2 ^ 63 - 1) d)
      in fadd rnd (rnd (real_of_int (dur sdiv 10 ^ 9))) (fdiv rnd (rnd (real_of_int (dur smod 10 ^ 9))) (Fin (10 ^ 9))))"

definition transformDataPoint :: "curve_env \<Rightarrow> RingBuffer \<Rightarrow> int \<Rightarrow> int \<Rightarrow> (CLBufElement \<times> bool) option" where
  "transformDataPoint env r index tsBase =
     map_option (\<lambda>(val, ts).
         (case parse64 env val of
            None \<Rightarrow> (\<lparr>CLValue = Fin 0, CLTimestamp = Fin 0\<rparr>, False)
          | Some v \<Rightarrow>
              (case isoNanos env ts of
                 None \<Rightarrow> (\<lparr>CLValue = v, CLTimestamp = Fin 0\<rparr>, False)
               | Some t \<Rightarrow> (\<lparr>CLValue = v, CLTimestamp = seconds (round64 env) (t - tsBase)\<rparr>, True))))
       (readRing r index)"

text \<open>The elements from an index on; the code's \<open>nil\<close> is the empty list.\<close>

fun transform_from :: "curve_env \<Rightarrow> RingBuffer \<Rightarrow> int \<Rightarrow> nat list \<Rightarrow> CLBufElement list option option" where
  "transform_from env r tsBase [] = Some (Some [])"
| "transform_from env r tsBase (i # is) =
     (case transformDataPoint env r (int i) tsBase of
        None \<Rightarrow> None
      | Some (e, status) \<Rightarrow>
          if status then map_option (map_option ((#) e)) (transform_from env r tsBase is) else Some None)"

definition transformDataPoints :: "curve_env \<Rightarrow> RingBuffer \<Rightarrow> int \<Rightarrow> CLBufElement list option" where
  "transformDataPoints env r n = do {
     (v, tsBaseStr) \<leftarrow> readRing r (n - 1);
     es \<leftarrow> transform_from env r (case isoNanos env tsBaseStr of None \<Rightarrow> 0 | Some t \<Rightarrow> t) [0..<nat n];
     Some (case es of None \<Rightarrow> [] | Some l \<Rightarrow> l) }"

section \<open>The analysis of a buffer\<close>

definition element_text :: "string \<times> string \<Rightarrow> string" where
  "element_text p =
     CHR 0x7B # dquoted ''value'' @ '':'' @ dquoted (fst p) @ '','' @ dquoted ''ts'' @ '':'' @ dquoted (snd p) @ [CHR 0x7D]"

definition packed_elements :: "(string \<times> string) list \<Rightarrow> string" where
  "packed_elements ps =
     (if 1 < length ps then ''['' else []) @ butlast (concat (map (\<lambda>p. element_text p @ '','') ps))
       @ (if 1 < length ps then '']'' else [])"

definition read_elements :: "RingBuffer \<Rightarrow> nat list \<Rightarrow> (string \<times> string) list option" where
  "read_elements r ks = all_some (map (\<lambda>k. readRing r (int k)) ks)"

text \<open>The kept indexes in descending order, which is the order of capture.\<close>

definition clAnalyze1dim :: "curve_env \<Rightarrow> RingBuffer \<Rightarrow> int \<Rightarrow> float64 \<Rightarrow> (string \<times> int \<times> int) go_run" where
  "clAnalyze1dim env r n maxError =
     (case transformDataPoints env r n of
        None \<Rightarrow> Panics
      | Some clBuffer \<Rightarrow>
          (case clReduction1Dim (round64 env) clBuffer 0 (nat (n - 1)) maxError of
             Diverges \<Rightarrow> Diverges
           | Panics \<Rightarrow> Panics
           | Returned [] \<Rightarrow> of_option (map_option (\<lambda>p. (element_text p, 0, 0)) (readRing r 0))
           | Returned saved \<Rightarrow>
               (let ks = rev (sort saved) in
                of_option (map_option (\<lambda>ps. (packed_elements ps, int (last ks), int (hd ks))) (read_elements r ks)))))"

definition clAnalyze2dim ::
  "curve_env \<Rightarrow> RingBuffer \<Rightarrow> RingBuffer \<Rightarrow> int \<Rightarrow> float64 \<Rightarrow> (string \<times> string \<times> int) go_run" where
  "clAnalyze2dim env r1 r2 n maxError =
     (case (transformDataPoints env r1 n, transformDataPoints env r2 n) of
        (Some clBuffer1, Some clBuffer2) \<Rightarrow>
          (case clReduction2Dim (round64 env) clBuffer1 clBuffer2 0 (nat (n - 1)) maxError of
             Diverges \<Rightarrow> Diverges
           | Panics \<Rightarrow> Panics
           | Returned [] \<Rightarrow> of_option (do {
               p1 \<leftarrow> readRing r1 0;
               p2 \<leftarrow> readRing r2 0;
               Some (element_text p1, element_text p2, 0) })
           | Returned saved \<Rightarrow>
               (let ks = rev (sort saved) in of_option (do {
                  ps1 \<leftarrow> read_elements r1 ks;
                  ps2 \<leftarrow> read_elements r2 ks;
                  Some (packed_elements ps1, packed_elements ps2, int (last ks)) })))
      | _ \<Rightarrow> Panics)"

section \<open>The data point between two buffers\<close>

record PostProcessBufElement1dim =
  PData :: CLBufElement
  PDp :: string
  PType :: int

type_synonym post_proc = "PostProcessBufElement1dim list"

definition writePostProcElement1dim :: "curve_env \<Rightarrow> int \<Rightarrow> RingBuffer \<Rightarrow> int \<Rightarrow> post_proc \<Rightarrow> nat \<Rightarrow> post_proc option" where
  "writePostProcElement1dim env now r selected pp pos = do {
     p \<leftarrow> readRing r selected;
     (d, status) \<leftarrow> transformDataPoint env r selected now;
     Some (pp[pos := \<lparr>PData = d, PDp = element_text p, PType = selected\<rparr>]) }"

definition movePostProcElement1dim :: "post_proc \<Rightarrow> nat \<Rightarrow> nat \<Rightarrow> post_proc" where
  "movePostProcElement1dim pp source dest = pp[dest := pp ! source]"

definition set_type :: "nat \<Rightarrow> int \<Rightarrow> post_proc \<Rightarrow> post_proc" where
  "set_type pos t pp = pp[pos := (pp ! pos)\<lparr>PType := t\<rparr>]"

definition saveNonPdrDp :: "rounding \<Rightarrow> post_proc \<Rightarrow> float64 \<Rightarrow> bool" where
  "saveNonPdrDp rnd pp maxError =
     (let t = (\<lambda>i. CLTimestamp (PData (pp ! i))); v = (\<lambda>i. CLValue (PData (pp ! i)));
          fraction = fdiv rnd (fsub rnd (t 1) (t 0)) (fsub rnd (t 2) (t 0));
          interpolated = fadd rnd (v 0) (fmul rnd (fsub rnd (v 2) (v 0)) fraction)
      in fless maxError (fabs (fsub rnd (v 1) interpolated)))"

text \<open>\<open>now\<close> and \<open>later\<close> are the clock at the first and at the second element written.\<close>

definition postProcess1dim ::
  "curve_env \<Rightarrow> int \<Rightarrow> int \<Rightarrow> RingBuffer \<Rightarrow> int \<Rightarrow> int \<Rightarrow> post_proc \<Rightarrow> float64 \<Rightarrow> (string \<times> post_proc) option" where
  "postProcess1dim env now later r firstSelected lastSelected pp maxError =
     (if PType (pp ! 0) = - 1 then
        map_option (Pair []) (writePostProcElement1dim env now r lastSelected pp 0)
      else if PType (pp ! 1) = - 1 then
        map_option (Pair []) (writePostProcElement1dim env now r lastSelected pp (if firstSelected = 0 then 1 else 0))
      else do {
        pp2 \<leftarrow> writePostProcElement1dim env now r firstSelected pp 2;
        pp3 \<leftarrow> (if firstSelected = 0
                then Some (set_type 2 (- 1) (movePostProcElement1dim (movePostProcElement1dim pp2 1 0) 2 1))
                else map_option (\<lambda>q. set_type 2 (- 1) (set_type 1 (- 1) q))
                       (writePostProcElement1dim env later r lastSelected pp2 0));
        Some (if saveNonPdrDp (round64 env) pp2 maxError
              then PDp (pp3 ! (if firstSelected = 0 then 0 else 1)) else [], pp3) })"

section \<open>The rounds of a capture\<close>

text \<open>\<open>Decode\<close> into a map that is not empty: its members are added, \<open>null\<close> removes the map.\<close>

definition decode_into :: "curve_env \<Rightarrow> string \<Rightarrow> gomap \<Rightarrow> gomap" where
  "decode_into env dp m =
     (case parse_json dp of
        Some (GoNull, _) \<Rightarrow> []
      | _ \<Rightarrow> foldl (\<lambda>acc (k, v). gset k v acc) m (snd (decode_map (curveNum env) dp)))"

definition curve_pack :: "string \<Rightarrow> string \<Rightarrow> string" where
  "curve_pack path data =
     CHR 0x7B # dquoted ''path'' @ '':'' @ dquoted path @ '','' @ dquoted ''data'' @ '':'' @ data @ [CHR 0x7D]"

definition returnSingleDp :: "string \<Rightarrow> string \<Rightarrow> string" where
  "returnSingleDp path dp = curve_pack path dp"

definition returnSingleDp2 :: "string \<Rightarrow> string \<Rightarrow> string \<Rightarrow> string \<Rightarrow> string" where
  "returnSingleDp2 path1 path2 dp1 dp2 = ''['' @ curve_pack path1 dp1 @ '','' @ curve_pack path2 dp2 @ '']''"

record capture1 =
  ringBuffer :: RingBuffer
  latestMap :: gomap
  PostProc :: post_proc

definition start_capture1 :: "int \<Rightarrow> capture1 option" where
  "start_capture1 n =
     map_option (\<lambda>r. \<lparr>ringBuffer = r, latestMap = [],
         PostProc = replicate 3 \<lparr>PData = \<lparr>CLValue = Fin 0, CLTimestamp = Fin 0\<rparr>, PDp = [], PType = 0\<rparr>\<rparr>)
       (createRingBuffer (n + 1))"

text \<open>The data point read is written when its time stamp is not that of the latest in the ring.\<close>

definition record_point :: "gomap \<Rightarrow> RingBuffer \<Rightarrow> RingBuffer option" where
  "record_point m r = do {
     (v, ts) \<leftarrow> readRing r 0;
     newTs \<leftarrow> as_string (gget m ''ts'');
     if ts = newTs then Some r
     else do { val \<leftarrow> as_string (gget m ''value''); writeRing r val newTs } }"

text \<open>
  One round of \<open>clCapture1dim\<close> with the data point read in it: the state for the next one and
  the packages sent. The last round, \<open>closing\<close>, is followed by a single data point.
\<close>

definition capture1_round ::
  "curve_env \<Rightarrow> int \<Rightarrow> int \<Rightarrow> string \<Rightarrow> int \<Rightarrow> float64 \<Rightarrow> bool \<Rightarrow> string \<Rightarrow> capture1 \<Rightarrow> (capture1 \<times> string list) go_run" where
  "capture1_round env now later path n maxError closing dp st =
     (let m = decode_into env dp (latestMap st) in
      case record_point m (ringBuffer st) of
        None \<Rightarrow> Panics
      | Some r \<Rightarrow>
          (let current = getNumOfPopulatedRingElements r; st1 = st\<lparr>ringBuffer := r, latestMap := m\<rparr> in
           if current \<noteq> n \<and> \<not> closing then Returned (st1, [])
           else case clAnalyze1dim env r current maxError of
               Diverges \<Rightarrow> Diverges
             | Panics \<Rightarrow> Panics
             | Returned (data, lastSelected, firstSelected) \<Rightarrow>
                 of_option (map_option (\<lambda>(extraData, pp).
                     (st1\<lparr>ringBuffer := setRingTail r lastSelected, PostProc := pp\<rparr>,
                      (if extraData \<noteq> [] then [curve_pack path extraData] else [])
                      @ (if 0 < lastSelected then [curve_pack path data] else [])))
                   (postProcess1dim env now later r firstSelected lastSelected (PostProc st) maxError))))"

record capture2 =
  ringBuffer1 :: RingBuffer
  ringBuffer2 :: RingBuffer
  latestMap1 :: gomap
  latestMap2 :: gomap
  updatedTail :: int

definition start_capture2 :: "int \<Rightarrow> capture2 option" where
  "start_capture2 n =
     map_option (\<lambda>r. \<lparr>ringBuffer1 = r, ringBuffer2 = r, latestMap1 = [], latestMap2 = [], updatedTail = 0\<rparr>)
       (createRingBuffer (n + 1))"

text \<open>The values are read only when all three comparisons of time stamps succeed.\<close>

definition record_points :: "gomap \<Rightarrow> gomap \<Rightarrow> RingBuffer \<Rightarrow> RingBuffer \<Rightarrow> (RingBuffer \<times> RingBuffer) option" where
  "record_points m1 m2 r1 r2 = do {
     (v1, ts1) \<leftarrow> readRing r1 0;
     (v2, ts2) \<leftarrow> readRing r2 0;
     new1 \<leftarrow> as_string (gget m1 ''ts'');
     if ts1 = new1 then Some (r1, r2)
     else do {
       new2 \<leftarrow> as_string (gget m2 ''ts'');
       if ts2 = new2 \<or> new1 \<noteq> new2 then Some (r1, r2)
       else do {
         val1 \<leftarrow> as_string (gget m1 ''value'');
         w1 \<leftarrow> writeRing r1 val1 new1;
         val2 \<leftarrow> as_string (gget m2 ''value'');
         w2 \<leftarrow> writeRing r2 val2 new2;
         Some (w1, w2) } } }"

text \<open>
  The tail that the analysis returns is bound to a variable of the block; the variable of the
  function, which decides on the last data point, keeps its value.
\<close>

definition capture2_round ::
  "curve_env \<Rightarrow> string \<Rightarrow> string \<Rightarrow> int \<Rightarrow> float64 \<Rightarrow> bool \<Rightarrow> string \<Rightarrow> string \<Rightarrow> capture2 \<Rightarrow> (capture2 \<times> string list) go_run" where
  "capture2_round env path1 path2 n maxError closing dp1 dp2 st =
     (let m1 = decode_into env dp1 (latestMap1 st); m2 = decode_into env dp2 (latestMap2 st) in
      case record_points m1 m2 (ringBuffer1 st) (ringBuffer2 st) of
        None \<Rightarrow> Panics
      | Some (r1, r2) \<Rightarrow>
          (let current = getNumOfPopulatedRingElements r1;
               st1 = st\<lparr>ringBuffer1 := r1, ringBuffer2 := r2, latestMap1 := m1, latestMap2 := m2\<rparr> in
           if current \<noteq> n \<and> \<not> closing then Returned (st1, [])
           else case clAnalyze2dim env r1 r2 current maxError of
               Diverges \<Rightarrow> Diverges
             | Panics \<Rightarrow> Panics
             | Returned (data1, data2, newTail) \<Rightarrow>
                 Returned (st1\<lparr>ringBuffer1 := setRingTail r1 newTail, ringBuffer2 := setRingTail r2 newTail\<rparr>,
                   [''['' @ curve_pack path1 data1 @ '','' @ curve_pack path2 data2 @ '']''])))"

definition capture2_end :: "string \<Rightarrow> string \<Rightarrow> string \<Rightarrow> string \<Rightarrow> capture2 \<Rightarrow> string list" where
  "capture2_end path1 path2 dp1 dp2 st =
     (if 0 < updatedTail st then [returnSingleDp2 path1 path2 dp1 dp2] else [])"

section \<open>Signals that are captured together\<close>

record PathDimElem =
  Dim :: int
  Id :: int
  Populated :: bool

definition is2dim :: "string \<Rightarrow> int \<Rightarrow> (string \<times> string) list \<Rightarrow> bool" where
  "is2dim path index dim2List =
     (if index = 1 then list_ex (\<lambda>(p1, p2). p1 = path) dim2List
      else if index = 2 then list_ex (\<lambda>(p1, p2). p2 = path) dim2List else False)"

definition is3dim :: "string \<Rightarrow> int \<Rightarrow> (string \<times> string \<times> string) list \<Rightarrow> bool" where
  "is3dim path index dim3List =
     (if index = 1 then list_ex (\<lambda>(p1, p2, p3). p1 = path) dim3List
      else if index = 2 then list_ex (\<lambda>(p1, p2, p3). p2 = path) dim3List
      else if index = 3 then list_ex (\<lambda>(p1, p2, p3). p3 = path) dim3List else False)"

record analysis =
  pathDimList :: "PathDimElem list"
  dim2Id :: int
  dim3Id :: int

definition set_dims :: "int \<Rightarrow> int \<Rightarrow> nat list \<Rightarrow> PathDimElem list \<Rightarrow> PathDimElem list" where
  "set_dims d k is l = foldl (\<lambda>l i. l[i := (l ! i)\<lparr>Dim := d, Id := k\<rparr>]) l is"

text \<open>
  The inner loops: the second of two signals is the first one that fits; the third of three has to
  be the one right after the second, as both branches of the innermost loop leave it.
\<close>

fun find_second :: "string list \<Rightarrow> (string \<times> string) list \<Rightarrow> nat \<Rightarrow> nat list \<Rightarrow> analysis \<Rightarrow> analysis" where
  "find_second paths dim2List i [] a = a"
| "find_second paths dim2List i (j # js) a =
     (if is2dim (paths ! j) 2 dim2List
      then a\<lparr>pathDimList := set_dims 2 (dim2Id a) [i, j] (pathDimList a), dim2Id := dim2Id a + 1\<rparr>
      else find_second paths dim2List i js a)"

fun find_third :: "string list \<Rightarrow> (string \<times> string \<times> string) list \<Rightarrow> nat \<Rightarrow> nat list \<Rightarrow> analysis \<Rightarrow> analysis" where
  "find_third paths dim3List i [] a = a"
| "find_third paths dim3List i (j # js) a =
     (if is3dim (paths ! j) 2 dim3List \<and> j + 1 < length paths
      then (if is3dim (paths ! (j + 1)) 3 dim3List
            then a\<lparr>pathDimList := set_dims 3 (dim3Id a) [i, j, j + 1] (pathDimList a), dim3Id := dim3Id a + 1\<rparr>
            else a\<lparr>pathDimList := set_dims 2 (dim2Id a) [i, j] (pathDimList a), dim2Id := dim2Id a + 1\<rparr>)
      else find_third paths dim3List i js a)"

type_synonym dimension_lists = "(string \<times> string) list \<times> (string \<times> string \<times> string) list"

text \<open>The lists are \<open>None\<close> when their file could not be read: a panic at the first path.\<close>

definition analyzeSignalDimensions :: "string list \<Rightarrow> dimension_lists option \<Rightarrow> PathDimElem list option" where
  "analyzeSignalDimensions paths dims =
     (let start = \<lparr>pathDimList = replicate (length paths) \<lparr>Dim = 1, Id = - 1, Populated = False\<rparr>, dim2Id = 0, dim3Id = 0\<rparr>
      in case dims of
        None \<Rightarrow> if paths = [] then Some [] else None
      | Some (dim2List, dim3List) \<Rightarrow>
          Some (pathDimList (foldl (\<lambda>a i.
              if is2dim (paths ! i) 1 dim2List then find_second paths dim2List i [Suc i..<length paths] a
              else if is3dim (paths ! i) 1 dim3List then find_third paths dim3List i [Suc i..<length paths] a
              else a) start [0..<length paths])))"

record dim_lists =
  dim1s :: "string list"
  dim2s :: "(string \<times> string) list"
  dim3s :: "(string \<times> string \<times> string) list"
  dimElems :: "PathDimElem list"

definition populate_pair :: "string list \<Rightarrow> nat \<Rightarrow> dim_lists \<Rightarrow> nat \<Rightarrow> dim_lists" where
  "populate_pair paths i d j =
     (if Dim (dimElems d ! j) = 2 \<and> Id (dimElems d ! j) = Id (dimElems d ! i)
      then d\<lparr>dim2s := dim2s d @ [(paths ! i, paths ! j)],
             dimElems := (dimElems d)[j := (dimElems d ! j)\<lparr>Populated := True\<rparr>]\<rparr> else d)"

text \<open>The id of the second signal is compared with itself.\<close>

definition populate_triple :: "string list \<Rightarrow> nat \<Rightarrow> nat \<Rightarrow> dim_lists \<Rightarrow> nat \<Rightarrow> dim_lists" where
  "populate_triple paths i j d k =
     (if Dim (dimElems d ! k) = 3 \<and> Id (dimElems d ! k) = Id (dimElems d ! i)
      then d\<lparr>dim3s := dim3s d @ [(paths ! i, paths ! j, paths ! k)],
             dimElems := (dimElems d)[j := (dimElems d ! j)\<lparr>Populated := True\<rparr>, k := (dimElems d ! k)\<lparr>Populated := True\<rparr>]\<rparr>
      else d)"

definition populate_step :: "string list \<Rightarrow> dim_lists \<Rightarrow> nat \<Rightarrow> dim_lists" where
  "populate_step paths d i =
     (if Dim (dimElems d ! i) = 1 then d\<lparr>dim1s := dim1s d @ [paths ! i]\<rparr>
      else if Dim (dimElems d ! i) = 2 \<and> \<not> Populated (dimElems d ! i)
           then foldl (populate_pair paths i) d [Suc i..<length paths]
      else if Dim (dimElems d ! i) = 3 \<and> \<not> Populated (dimElems d ! i)
           then foldl (\<lambda>d j. if Dim (dimElems d ! j) = 3 \<and> Id (dimElems d ! j) = Id (dimElems d ! j)
                             then foldl (populate_triple paths i j) d [Suc j..<length paths] else d)
                  d [Suc i..<length paths]
      else d)"

text \<open>The third list is built, and \<open>nil\<close> is returned in its place.\<close>

definition populateDimLists ::
  "dimension_lists option \<Rightarrow> string list \<Rightarrow> (string list \<times> (string \<times> string) list \<times> (string \<times> string \<times> string) list) option" where
  "populateDimLists dims paths =
     map_option (\<lambda>l.
         let d = foldl (populate_step paths) \<lparr>dim1s = [], dim2s = [], dim3s = [], dimElems = l\<rparr> [0..<length paths]
         in (dim1s d, dim2s d, []))
       (analyzeSignalDimensions paths dims)"

section \<open>The start of the captures\<close>

definition MAXCLSESSIONS :: nat where
  "MAXCLSESSIONS = 100"

definition MAXCLBUFSIZE :: int where
  "MAXCLBUFSIZE = 240"

text \<open>The captures started from a list, and the number of sessions after it.\<close>

fun start_sessions :: "'a list \<Rightarrow> nat \<Rightarrow> 'a list \<times> nat" where
  "start_sessions [] sessions = ([], sessions)"
| "start_sessions (x # xs) sessions =
     (if MAXCLSESSIONS < sessions then ([], sessions)
      else (let (started, s) = start_sessions xs (Suc sessions) in (x # started, s)))"

record curve_start =
  started1 :: "string list"
  started2 :: "(string \<times> string) list"
  started3 :: "(string \<times> string \<times> string) list"
  numOfClSessions :: nat
  threads :: nat

definition getCurveLoggingParams :: "curve_env \<Rightarrow> string \<Rightarrow> float64 \<times> int" where
  "getCurveLoggingParams env opValue =
     (case unmarshal_struct2 ''maxerr'' ''bufsize'' opValue of
        None \<Rightarrow> (Fin 0, 0)
      | Some (maxErr, size_text) \<Rightarrow>
          (case atoi size_text of
             None \<Rightarrow> (Fin 0, atoi_value size_text)
           | Some n \<Rightarrow> (case parse64 env maxErr of None \<Rightarrow> Fin 0 | Some e \<Rightarrow> e, n)))"

definition curve_params :: "curve_env \<Rightarrow> string \<Rightarrow> float64 \<times> int" where
  "curve_params env opValue =
     (let (maxError, n) = getCurveLoggingParams env opValue in (maxError, if MAXCLBUFSIZE < n then MAXCLBUFSIZE else n))"

text \<open>The number of threads counts the lists, not the captures started.\<close>

definition curveLoggingServer :: "dimension_lists option \<Rightarrow> string list \<Rightarrow> nat \<Rightarrow> curve_start option" where
  "curveLoggingServer dims paths sessions =
     map_option (\<lambda>(dim1List, dim2List, dim3List).
         let (a, s1) = start_sessions dim1List sessions;
             (b, s2) = start_sessions dim2List s1;
             (c, s3) = start_sessions dim3List s2
         in \<lparr>started1 = a, started2 = b, started3 = c, numOfClSessions = s3,
             threads = length dim1List + length dim2List + length dim3List\<rparr>)
       (populateDimLists dims paths)"

end
