(* ===== verification/Svc_Curve_Props.thy ===== *)
theory Svc_Curve_Props
  imports Svc_Curve
begin

text \<open>
  What holds of curve logging: the analysis of a constant signal, the signals that are captured
  together, and the number of captures in the life of the server.
\<close>

section \<open>A constant signal\<close>

lemma seconds_exact:
  assumes "- (2 ^ 63) \<le> d" "d < 2 ^ 63"
  shows "seconds Fin d = Fin (real_of_int d / 10 ^ 9)"
proof -
  have "max (- (2 ^ 63)) (min (2 ^ 63 - 1) d) = d" using assms by linarith
  moreover have "real_of_int (d sdiv 10 ^ 9) + real_of_int (d smod 10 ^ 9) / 10 ^ 9 = real_of_int d / 10 ^ 9"
  proof -
    have "real_of_int d = real_of_int (d sdiv 10 ^ 9 * 10 ^ 9 + d smod 10 ^ 9)" by (simp only: sdiv_mult_smod_eq)
    then show ?thesis by (simp add: field_simps)
  qed
  ultimately show ?thesis by (simp add: seconds_def)
qed

text \<open>The latest elements of a ring: values that read as \<open>v\<close>, at times that can be read.\<close>

definition constant_signal :: "curve_env \<Rightarrow> RingBuffer \<Rightarrow> int \<Rightarrow> real \<Rightarrow> (nat \<Rightarrow> int) \<Rightarrow> bool" where
  "constant_signal env r n v t \<longleftrightarrow> (\<forall>k. int k < n \<longrightarrow>
     (\<exists>val ts. readRing r (int k) = Some (val, ts) \<and> parse64 env val = Some (Fin v) \<and> isoNanos env ts = Some (t k)))"

lemma transform_constant:
  assumes "constant_signal env r n v t" and "\<forall>k \<in> set ks. int k < n"
  shows "transform_from env r base ks
    = Some (Some (map (\<lambda>k. \<lparr>CLValue = Fin v, CLTimestamp = seconds (round64 env) (t k - base)\<rparr>) ks))"
  using assms(2)
proof (induction ks)
  case (Cons k ks)
  obtain val ts where "readRing r (int k) = Some (val, ts)" "parse64 env val = Some (Fin v)" "isoNanos env ts = Some (t k)"
    using assms(1) Cons.prems by (auto simp: constant_signal_def)
  then show ?case using Cons by (simp add: transformDataPoint_def)
qed simp

lemma transform_constant_points:
  assumes "constant_signal env r n v t" and "0 < n"
  shows "transformDataPoints env r n
    = Some (map (\<lambda>k. \<lparr>CLValue = Fin v, CLTimestamp = seconds (round64 env) (t k - t (nat (n - 1)))\<rparr>) [0..<nat n])"
proof -
  obtain val ts where "readRing r (n - 1) = Some (val, ts)" "isoNanos env ts = Some (t (nat (n - 1)))"
    using assms(1) [unfolded constant_signal_def, rule_format, of "nat (n - 1)"] assms(2) by auto
  moreover have "\<forall>k \<in> set [0..<nat n]. int k < n" by auto
  ultimately show ?thesis using transform_constant [OF assms(1)] by (simp add: transformDataPoints_def)
qed

text \<open>
  C22: A constant signal. In exact arithmetic, when a full buffer of three data points or more
  holds one value at readable times, the analysis answers with the latest data point and selects
  none, whatever the allowed error, as long as it is not negative; with a negative one, which a
  client can ask for, the recursion never ends.
\<close>

theorem constant_signal_analysis:
  assumes "round64 env = Fin" and "constant_signal env r n v t" and "3 \<le> n"
    and "t (nat (n - 1)) < t 0" and "\<forall>k. int k < n \<longrightarrow> \<bar>t k - t (nat (n - 1))\<bar> < 2 ^ 63"
    and "readRing r 0 = Some p"
  shows "clAnalyze1dim env r n (Fin e) = (if e < 0 then Diverges else Returned (element_text p, 0, 0))"
proof -
  let ?m = "nat (n - 1)" and ?x = "\<lambda>k. real_of_int (t k - t (nat (n - 1))) / 10 ^ 9"
  let ?buf = "exact_buffer (\<lambda>_. v) ?x (nat n)"
  have "seconds Fin (t k - t ?m) = Fin (?x k)" if "k < nat n" for k
  proof (rule seconds_exact)
    have "\<bar>t k - t ?m\<bar> < 2 ^ 63" using assms(5) that by auto
    then show "- (2 ^ 63) \<le> t k - t ?m" "t k - t ?m < 2 ^ 63" by linarith+
  qed
  then have b: "transformDataPoints env r n = Some ?buf"
    using transform_constant_points [OF assms(2)] assms(1,3) by (auto simp: exact_buffer_def)
  have m: "2 \<le> ?m" "?m < nat n" using assms(3) by auto
  have dt: "?x 0 \<noteq> ?x ?m" using assms(4) by simp
  let ?err = "\<lambda>a b i. fabs (line_error Fin ?buf a b i)"
  have z: "?err 0 ?m i = Fin 0" if "i \<le> ?m" for i
    using that m dt by (simp add: line_error_exact exact_error_def)
  have "reduce_by ?err (Fin e) 0 ?m = (if e < 0 then None else Some [])"
  proof (cases "e < 0")
    case True
    then show ?thesis using negative_limit_stuck [where err = ?err, OF m(1) True z] by simp
  next
    case False
    have "max_error (?err 0 ?m) 0 ?m = (Fin 0, 0)"
      unfolding max_error_def by (rule fold_no_error) (use z in \<open>auto simp del: upt_Suc\<close>)
    then show ?thesis using False by (subst reduce_by.simps) simp
  qed
  then have "clReduction1Dim Fin ?buf 0 ?m (Fin e) = (if e < 0 then Diverges else Returned [])"
    using m by (simp add: clReduction1Dim_def run_reduction_def)
  then show ?thesis using b assms(1,6) by (simp add: clAnalyze1dim_def of_option_def)
qed

definition parked :: curve_env where
  "parked = \<lparr>curveNum = Some, parse64 = (\<lambda>s. if s = ''0'' then Some (Fin 0) else None),
     isoNanos = (\<lambda>s. if s = ''a'' then Some 0 else if s = ''b'' then Some 1 else if s = ''c'' then Some 2 else None),
     round64 = Fin\<rparr>"

definition parked_ring :: RingBuffer where
  "parked_ring = \<lparr>bufSize = 4, RingElem = map (\<lambda>ts. \<lparr>ElemValue = ''0'', Timestamp = ts\<rparr>) [''a'', ''b'', ''c'', []], Head = 3, Tail = 0\<rparr>"

lemma parked_constant: "constant_signal parked parked_ring 3 0 (\<lambda>k. if k = 0 then 2 else if k = 1 then 1 else 0)"
proof -
  have "k = 0 \<or> k = 1 \<or> k = 2" if "int k < 3" for k using that by linarith
  then show ?thesis
    by (fastforce simp: constant_signal_def parked_def parked_ring_def readRing_def ring_index_def)
qed

theorem constant_signal_analysis_witness: "clAnalyze1dim parked parked_ring 3 (Fin (- 1)) = Diverges"
  using constant_signal_analysis [OF _ parked_constant, of "(''0'', ''c'')" "- 1"]
  by (simp add: parked_def parked_ring_def readRing_def ring_index_def)

section \<open>Three signals\<close>

definition same_dims :: "PathDimElem list \<Rightarrow> PathDimElem list \<Rightarrow> bool" where
  "same_dims l l' \<longleftrightarrow> length l' = length l \<and> (\<forall>i < length l. Dim (l' ! i) = Dim (l ! i))"

text \<open>The paths on the lists have the dimension of their list.\<close>

definition lists_fit :: "string list \<Rightarrow> PathDimElem list \<Rightarrow> dim_lists \<Rightarrow> bool" where
  "lists_fit paths l d \<longleftrightarrow> same_dims l (dimElems d)
     \<and> (\<forall>p \<in> set (dim1s d). \<exists>i < length l. p = paths ! i \<and> Dim (l ! i) = 1)
     \<and> (\<forall>(p, q) \<in> set (dim2s d). (\<exists>i < length l. p = paths ! i \<and> Dim (l ! i) = 2)
          \<and> (\<exists>j < length l. q = paths ! j \<and> Dim (l ! j) = 2))"

lemma foldl_inv: "P s \<Longrightarrow> (\<And>s x. P s \<Longrightarrow> x \<in> set xs \<Longrightarrow> P (f s x)) \<Longrightarrow> P (foldl f s xs)"
  by (induction xs arbitrary: s) auto

lemma dim_update [simp]: "Dim y = Dim (xs ! k) \<Longrightarrow> Dim (xs[k := y] ! i) = Dim (xs ! i)"
  by (cases "k < length xs") (auto simp: nth_list_update list_update_beyond)

lemma populate_pair_fits:
  assumes "lists_fit paths l d" and "i < length l" "Dim (l ! i) = 2" "j < length l"
  shows "lists_fit paths l (populate_pair paths i d j)"
  using assms unfolding lists_fit_def same_dims_def populate_pair_def
  by auto

lemma populate_triple_fits:
  assumes "lists_fit paths l d"
  shows "lists_fit paths l (populate_triple paths i j d k)"
  using assms unfolding lists_fit_def same_dims_def populate_triple_def
  by auto

lemma populate_step_fits:
  assumes "lists_fit paths l d" and "i < length l" and "length l = length paths"
  shows "lists_fit paths l (populate_step paths d i)"
proof -
  have dim: "Dim (dimElems d ! i) = Dim (l ! i)" using assms(1,2) by (simp add: lists_fit_def same_dims_def)
  consider "Dim (l ! i) = 1" | "Dim (l ! i) = 2 \<and> \<not> Populated (dimElems d ! i)"
    | "Dim (l ! i) = 3 \<and> \<not> Populated (dimElems d ! i)" | "populate_step paths d i = d"
    using dim unfolding populate_step_def by presburger
  then show ?thesis
  proof cases
    case 1
    then show ?thesis using assms(1,2) dim by (auto simp: populate_step_def lists_fit_def)
  next
    case 2
    then have "lists_fit paths l (foldl (populate_pair paths i) d [Suc i..<length paths])"
      by (intro foldl_inv [where P = "lists_fit paths l"] populate_pair_fits) (use assms in auto)
    then show ?thesis using 2 dim by (simp add: populate_step_def)
  next
    case 3
    have "lists_fit paths l (foldl (\<lambda>d j. if Dim (dimElems d ! j) = 3 \<and> Id (dimElems d ! j) = Id (dimElems d ! j)
          then foldl (populate_triple paths i j) d [Suc j..<length paths] else d) d [Suc i..<length paths])"
      by (intro foldl_inv [where P = "lists_fit paths l"])
        (auto intro!: assms(1) foldl_inv [where P = "lists_fit paths l"] populate_triple_fits)
    then show ?thesis using 3 dim by (simp add: populate_step_def)
  qed (use assms in simp)
qed

lemma length_set_dims [simp]: "length (set_dims d k is l) = length l"
  unfolding set_dims_def by (induction "is" arbitrary: l) auto

lemma length_find_second [simp]: "length (pathDimList (find_second paths dim2List i js a)) = length (pathDimList a)"
  by (induction js arbitrary: a) auto

lemma length_find_third [simp]: "length (pathDimList (find_third paths dim3List i js a)) = length (pathDimList a)"
  by (induction js arbitrary: a) auto

lemma length_analyze:
  assumes "analyzeSignalDimensions paths dims = Some l"
  shows "length l = length paths"
proof (cases dims)
  case (Some p)
  obtain d2 d3 where "p = (d2, d3)" by (cases p)
  moreover have "length (pathDimList (foldl (\<lambda>a i.
              if is2dim (paths ! i) 1 d2 then find_second paths d2 i [Suc i..<length paths] a
              else if is3dim (paths ! i) 1 d3 then find_third paths d3 i [Suc i..<length paths] a
              else a) a xs)) = length (pathDimList a)" for a xs
    by (induction xs arbitrary: a) auto
  ultimately show ?thesis using assms Some by (auto simp: analyzeSignalDimensions_def)
qed (use assms in \<open>auto simp: analyzeSignalDimensions_def split: if_splits\<close>)

lemma start_sessions_take:
  "start_sessions xs s = (ys, s') \<Longrightarrow> set ys \<subseteq> set xs \<and> s' = s + length ys
    \<and> (s \<le> Suc MAXCLSESSIONS \<longrightarrow> s' \<le> Suc MAXCLSESSIONS)"
proof (induction xs arbitrary: s ys s')
  case (Cons x xs)
  show ?case
  proof (cases "MAXCLSESSIONS < s")
    case False
    obtain zs where zs: "start_sessions xs (Suc s) = (zs, s')" "ys = x # zs"
      using Cons.prems False by (auto simp: Let_def split: prod.splits)
    show ?thesis using Cons.IH [OF zs(1)] zs(2) False by auto
  qed (use Cons.prems in auto)
qed simp

lemma server_shape:
  assumes "curveLoggingServer dims paths s = Some c"
  obtains d1 d2 d3 s1 s2 where "populateDimLists dims paths = Some (d1, d2, d3)"
    "start_sessions d1 s = (started1 c, s1)" "start_sessions d2 s1 = (started2 c, s2)"
    "start_sessions d3 s2 = (started3 c, numOfClSessions c)"
proof -
  obtain d1 d2 d3 where d: "populateDimLists dims paths = Some (d1, d2, d3)"
    using assms by (auto simp: curveLoggingServer_def)
  obtain a s1 where a: "start_sessions d1 s = (a, s1)" by fastforce
  obtain b s2 where b: "start_sessions d2 s1 = (b, s2)" by fastforce
  obtain e s3 where e: "start_sessions d3 s2 = (e, s3)" by fastforce
  show thesis by (rule that [of d1 d2 d3]) (use assms d a b e in \<open>auto simp: curveLoggingServer_def\<close>)
qed

lemma populated_fit:
  assumes "analyzeSignalDimensions paths dims = Some l" and "populateDimLists dims paths = Some (d1, d2, d3)"
  shows "d3 = [] \<and> (\<forall>p \<in> set d1. \<exists>i < length l. p = paths ! i \<and> Dim (l ! i) = 1)
    \<and> (\<forall>(p, q) \<in> set d2. (\<exists>i < length l. p = paths ! i \<and> Dim (l ! i) = 2)
          \<and> (\<exists>j < length l. q = paths ! j \<and> Dim (l ! j) = 2))"
proof -
  let ?d = "foldl (populate_step paths) \<lparr>dim1s = [], dim2s = [], dim3s = [], dimElems = l\<rparr> [0..<length paths]"
  have "lists_fit paths l ?d"
  proof (rule foldl_inv)
    show "lists_fit paths l (populate_step paths d i)" if "lists_fit paths l d" "i \<in> set [0..<length paths]" for d i
      using populate_step_fits [OF that(1)] that(2) length_analyze [OF assms(1)] by simp
  qed (simp add: lists_fit_def same_dims_def)
  moreover have "d1 = dim1s ?d" "d2 = dim2s ?d" "d3 = []"
    using assms by (auto simp: populateDimLists_def Let_def)
  ultimately show ?thesis by (simp add: lists_fit_def)
qed



section \<open>The number of captures\<close>

text \<open>The subscriptions with curve logging in the life of the server, one after the other.\<close>

fun curve_life :: "dimension_lists option \<Rightarrow> string list list \<Rightarrow> nat \<Rightarrow> curve_start list option" where
  "curve_life dims [] sessions = Some []"
| "curve_life dims (paths # rest) sessions = do {
     c \<leftarrow> curveLoggingServer dims paths sessions;
     cs \<leftarrow> curve_life dims rest (numOfClSessions c);
     Some (c # cs) }"

definition captures_started :: "curve_start \<Rightarrow> nat" where
  "captures_started c = length (started1 c) + length (started2 c) + length (started3 c)"

lemma server_count:
  assumes "curveLoggingServer dims paths s = Some c" and "s \<le> Suc MAXCLSESSIONS"
  shows "numOfClSessions c = s + captures_started c \<and> numOfClSessions c \<le> Suc MAXCLSESSIONS"
proof -
  obtain d1 d2 d3 s1 s2 where "start_sessions d1 s = (started1 c, s1)" "start_sessions d2 s1 = (started2 c, s2)"
    "start_sessions d3 s2 = (started3 c, numOfClSessions c)"
    by (rule server_shape [OF assms(1)])
  from this [THEN start_sessions_take] show ?thesis using assms(2) by (simp add: captures_started_def)
qed

lemma life_count:
  assumes "curve_life dims pss s = Some cs" and "s \<le> Suc MAXCLSESSIONS"
  shows "s + sum_list (map captures_started cs) \<le> Suc MAXCLSESSIONS"
  using assms
proof (induction pss arbitrary: s cs)
  case (Cons paths rest)
  obtain c cs' where c: "curveLoggingServer dims paths s = Some c" "curve_life dims rest (numOfClSessions c) = Some cs'"
    "cs = c # cs'" using Cons.prems(1) by (auto simp: bind_eq_Some_conv)
  show ?case using server_count [OF c(1) Cons.prems(2)] Cons.IH [OF c(2)] c(3) by auto
qed simp



section \<open>The rounds of a capture\<close>

definition readable :: "curve_env \<Rightarrow> string \<times> string \<Rightarrow> bool" where
  "readable env p \<longleftrightarrow> parse64 env (fst p) \<noteq> None \<and> isoNanos env (snd p) \<noteq> None"

text \<open>The ring holds the log of all data points written, and has fewer of them pending than its size.\<close>

definition capture_inv :: "curve_env \<Rightarrow> int \<Rightarrow> (string \<times> string) list \<Rightarrow> int \<Rightarrow> capture1 \<Rightarrow> bool" where
  "capture_inv env n ws c st \<longleftrightarrow> ring_holds (ringBuffer st) ws \<and> bufSize (ringBuffer st) = n + 1
     \<and> ring_count (ringBuffer st) c \<and> c < n \<and> nat c \<le> length ws \<and> list_all (readable env) ws
     \<and> length (PostProc st) = 3"

lemma ring_reads: "ring_holds r ws \<Longrightarrow> int k < bufSize r \<Longrightarrow> k < length ws \<Longrightarrow> readRing r (int k) = Some (ws ! k)"
  by (simp add: ring_holds_def)

lemma ring_reads_any: "ring_holds r ws \<Longrightarrow> - 1 \<le> i \<Longrightarrow> i < bufSize r \<Longrightarrow> readRing r i \<noteq> None"
  by (auto simp: ring_holds_def readRing_def ring_index_def Let_def nat_less_eq_zless)

lemma transform_readable:
  assumes "\<And>k. k \<in> set ks \<Longrightarrow> \<exists>p. readRing r (int k) = Some p \<and> readable env p"
  shows "\<exists>es. transform_from env r base ks = Some (Some es) \<and> length es = length ks"
  using assms
proof (induction ks)
  case (Cons k ks)
  obtain val ts where k: "readRing r (int k) = Some (val, ts)" "readable env (val, ts)"
    using Cons.prems [of k] by auto
  then obtain e where "transformDataPoint env r (int k) base = Some (e, True)"
    by (auto simp: transformDataPoint_def readable_def)
  moreover obtain es where "transform_from env r base ks = Some (Some es)" "length es = length ks"
    using Cons.IH Cons.prems by auto
  ultimately show ?case by simp
qed simp

lemma read_elements_some: "(\<And>k. k \<in> set ks \<Longrightarrow> readRing r (int k) \<noteq> None) \<Longrightarrow> read_elements r ks \<noteq> None"
proof (induction ks)
  case (Cons k ks)
  obtain p where "readRing r (int k) = Some p" using Cons.prems [of k] by auto
  then show ?case using Cons by (simp add: read_elements_def)
qed (simp add: read_elements_def)

text \<open>The analysis of readable data points: it may not end, but it does not panic.\<close>

lemma analysis_safe:
  assumes "ring_holds r ws" and "0 \<le> n" "n < bufSize r" "nat n \<le> length ws" and "list_all (readable env) ws"
  shows "clAnalyze1dim env r n e = Diverges \<or> (\<exists>data lastSelected firstSelected.
    clAnalyze1dim env r n e = Returned (data, lastSelected, firstSelected)
    \<and> 0 \<le> lastSelected \<and> lastSelected \<le> max 0 (n - 2) \<and> 0 \<le> firstSelected \<and> firstSelected \<le> max 0 (n - 2))"
proof -
  have rd: "\<exists>p. readRing r (int k) = Some p \<and> readable env p" if "k < nat n" for k
    using ring_reads [OF assms(1), of k] that assms by (auto simp: list_all_length)
  obtain v0 ts0 where first: "readRing r (n - 1) = Some (v0, ts0)" using ring_reads_any [OF assms(1), of "n - 1"] assms(2,3) by auto
  obtain p0 where zero: "readRing r 0 = Some p0" using ring_reads_any [OF assms(1), of 0] assms(1) by (auto simp: ring_holds_def)
  obtain es where tf: "transform_from env r (case isoNanos env ts0 of None \<Rightarrow> 0 | Some t \<Rightarrow> t) [0..<nat n] = Some (Some es)"
    "length es = nat n"
    using transform_readable [of "[0..<nat n]" r env] rd by force
  then have es: "transformDataPoints env r n = Some es" "length es = nat n"
    using first by (simp_all add: transformDataPoints_def)
  let ?red = "clReduction1Dim (round64 env) es 0 (nat (n - 1)) e"
  have np: "?red \<noteq> Panics" by (rule clReduction1Dim_no_panic) (use es(2) in linarith)
  show ?thesis
  proof (cases ?red)
    case (Returned saved)
    show ?thesis
    proof (cases saved)
      case Nil
      then show ?thesis using es Returned zero by (simp add: clAnalyze1dim_def of_option_def)
    next
      case (Cons k ks)
      let ?ks = "rev (sort saved)"
      have inside: "set saved \<subseteq> {0<..<nat (n - 1)}" by (rule clReduction1Dim_inside [OF Returned])
      have "?ks \<noteq> []" using Cons by (metis Nil_is_rev_conv length_0_conv length_sort list.distinct(1))
      then have "last ?ks \<in> set saved" "hd ?ks \<in> set saved" by (metis last_in_set set_rev set_sort, metis hd_in_set set_rev set_sort)
      moreover have "int k \<le> n - 2" if "k \<in> set saved" for k
      proof -
        have "k < nat (n - 1)" using inside that by auto
        then show ?thesis by linarith
      qed
      ultimately have b: "int (last ?ks) \<le> n - 2" "int (hd ?ks) \<le> n - 2" by blast+
      have "read_elements r ?ks \<noteq> None"
      proof (rule read_elements_some)
        fix k assume "k \<in> set ?ks"
        then have "k < nat (n - 1)" using inside by auto
        then have "k < nat n" by linarith
        then show "readRing r (int k) \<noteq> None" using rd [of k] by auto
      qed
      then obtain ps where "read_elements r ?ks = Some ps" by auto
      then show ?thesis
        using es Returned Cons b by (auto simp: clAnalyze1dim_def of_option_def Let_def)
    qed
  qed (use es np in \<open>simp_all add: clAnalyze1dim_def\<close>)
qed

lemma write_post_some:
  "readRing r sel \<noteq> None \<Longrightarrow> \<exists>q. writePostProcElement1dim env now r sel pp pos = Some q \<and> length q = length pp"
  by (auto simp: writePostProcElement1dim_def transformDataPoint_def split: option.splits prod.splits)

lemma post_process_safe:
  assumes "readRing r firstSelected \<noteq> None" and "readRing r lastSelected \<noteq> None"
  shows "\<exists>extra q. postProcess1dim env now later r firstSelected lastSelected pp e = Some (extra, q) \<and> length q = length pp"
proof -
  obtain a b where w: "\<And>pos. \<exists>q. writePostProcElement1dim env now r lastSelected pp pos = Some q \<and> length q = length pp"
    using write_post_some [OF assms(2)] by blast
  obtain q2 where q2: "writePostProcElement1dim env now r firstSelected pp 2 = Some q2" "length q2 = length pp"
    using write_post_some [OF assms(1)] by blast
  obtain q3 where q3: "writePostProcElement1dim env later r lastSelected q2 0 = Some q3" "length q3 = length pp"
    using write_post_some [OF assms(2), of env later q2 0] q2(2) by auto
  show ?thesis
    using w [of 0] w [of "if firstSelected = 0 then 1 else 0"] q2 q3
    by (auto simp: postProcess1dim_def set_type_def movePostProcElement1dim_def Let_def)
qed

text \<open>A data point that \<open>MapRequest\<close> reads, with a value and a time stamp that can be read.\<close>

definition good_point :: "curve_env \<Rightarrow> gomap \<Rightarrow> bool" where
  "good_point env m \<longleftrightarrow> (\<exists>v ts. gget m ''value'' = GoStr v \<and> gget m ''ts'' = GoStr ts \<and> readable env (v, ts))"

lemma record_point_inv:
  assumes "capture_inv env n ws c st" and "good_point env m"
  shows "\<exists>r ws' c'. record_point m (ringBuffer st) = Some r \<and> ring_holds r ws' \<and> bufSize r = n + 1 \<and> ring_count r c'
    \<and> c' \<le> n \<and> nat c' \<le> length ws' \<and> list_all (readable env) ws'"
proof -
  let ?r = "ringBuffer st"
  have inv: "ring_holds ?r ws" "bufSize ?r = n + 1" "ring_count ?r c" "c < n" "nat c \<le> length ws" "list_all (readable env) ws"
    using assms(1) by (simp_all add: capture_inv_def)
  obtain v ts where m: "gget m ''value'' = GoStr v" "gget m ''ts'' = GoStr ts" "readable env (v, ts)"
    using assms(2) by (auto simp: good_point_def)
  obtain v0 ts0 where zero: "readRing ?r 0 = Some (v0, ts0)"
    using ring_reads_any [OF inv(1), of 0] inv(1) by (auto simp: ring_holds_def)
  show ?thesis
  proof (cases "ts0 = ts")
    case True
    then have "record_point m ?r = Some ?r" using m zero by (simp add: record_point_def)
    then show ?thesis using inv by (intro exI [of _ ?r] exI [of _ ws] exI [of _ c]) auto
  next
    case False
    have "c + 1 < bufSize ?r" using inv(2,4) by simp
    from ring_count_write [OF inv(1,3) this, of v ts]
    obtain r where r: "writeRing ?r v ts = Some r" "ring_holds r ((v, ts) # ws)" "bufSize r = n + 1" "ring_count r (c + 1)"
      using inv(2) by auto
    have "record_point m ?r = Some r" using False m zero r(1) by (simp add: record_point_def)
    moreover have "nat (c + 1) \<le> length ((v, ts) # ws)" using inv(5) by simp
    ultimately show ?thesis using r inv(4,6) m(3)
      by (intro exI [of _ r] exI [of _ "(v, ts) # ws"] exI [of _ "c + 1"]) auto
  qed
qed

lemma round_inv:
  assumes "capture_inv env n ws c st" and "2 \<le> n" and "good_point env (decode_into env dp (latestMap st))"
  shows "capture1_round env now later path n e closing dp st = Diverges \<or>
    (\<exists>st' packs ws' c'. capture1_round env now later path n e closing dp st = Returned (st', packs)
      \<and> (\<not> closing \<longrightarrow> capture_inv env n ws' c' st'))"
proof -
  let ?m = "decode_into env dp (latestMap st)"
  obtain r ws' c' where r: "record_point ?m (ringBuffer st) = Some r" "ring_holds r ws'" "bufSize r = n + 1" "ring_count r c'"
    "c' \<le> n" "nat c' \<le> length ws'" "list_all (readable env) ws'"
    using record_point_inv [OF assms(1,3)] by blast
  have pp: "length (PostProc st) = 3" using assms(1) by (simp add: capture_inv_def)
  note cnt = ring_count_populated [OF r(4)]
  have c0: "0 \<le> c'" using r(4) by (simp add: ring_count_def)
  let ?st1 = "st\<lparr>ringBuffer := r, latestMap := ?m\<rparr>"
  show ?thesis
  proof (cases "c' \<noteq> n \<and> \<not> closing")
    case True
    then have "capture_inv env n ws' c' ?st1" using r pp by (simp add: capture_inv_def)
    then show ?thesis using True r(1) cnt by (simp add: capture1_round_def Let_def) blast
  next
    case False
    have "c' < bufSize r" using r(3,5) by simp
    from analysis_safe [OF r(2) c0 this r(6,7), of e] show ?thesis
    proof (elim disjE exE conjE)
      assume "clAnalyze1dim env r c' e = Diverges"
      then show ?thesis using False r(1) cnt by (auto simp: capture1_round_def Let_def)
    next
      fix data la fi
      assume a: "clAnalyze1dim env r c' e = Returned (data, la, fi)" "0 \<le> la" "la \<le> max 0 (c' - 2)" "0 \<le> fi" "fi \<le> max 0 (c' - 2)"
      have sel: "la + 1 < n" "fi < n" using a r(5) assms(2) by auto
      have rd: "readRing r fi \<noteq> None" "readRing r la \<noteq> None" using ring_reads_any [OF r(2)] a sel r(3) by auto
      obtain extra q where q: "postProcess1dim env now later r fi la (PostProc st) e = Some (extra, q)" "length q = 3"
        using post_process_safe [OF rd, of env now later "PostProc st" e] pp by auto
      let ?st' = "?st1\<lparr>ringBuffer := setRingTail r la, PostProc := q\<rparr>"
      let ?packs = "(if extra \<noteq> [] then [curve_pack path extra] else []) @ (if 0 < la then [curve_pack path data] else [])"
      have run: "capture1_round env now later path n e closing dp st = Returned (?st', ?packs)"
        using False r(1) cnt a(1) q(1) by (auto simp: capture1_round_def Let_def of_option_def)
      have "ring_count (setRingTail r la) (la + 1)" using ring_count_tail [OF r(2) a(2)] sel r(3) by simp
      moreover have "ring_holds (setRingTail r la) ws'" by (rule ring_tail [OF r(2)])
      moreover have "bufSize (setRingTail r la) = n + 1" using r(3) by (simp add: setRingTail_def)
      moreover have "nat (la + 1) \<le> length ws'" if "\<not> closing"
      proof -
        have "la + 1 \<le> c'" using a(3) False that assms(2) by auto
        then show ?thesis using r(6) by linarith
      qed
      ultimately have "\<not> closing \<longrightarrow> capture_inv env n ws' (la + 1) ?st'" using sel r(7) q(2) by (simp add: capture_inv_def)
      then show ?thesis using run by blast
    qed
  qed
qed

text \<open>The rounds of a capture until it is closed, with any data points and clocks.\<close>

inductive capture_reach :: "curve_env \<Rightarrow> string \<Rightarrow> int \<Rightarrow> float64 \<Rightarrow> capture1 \<Rightarrow> bool" for env path n e where
  begun: "start_capture1 n = Some st \<Longrightarrow> capture_reach env path n e st"
| round: "capture_reach env path n e st \<Longrightarrow> good_point env (decode_into env dp (latestMap st)) \<Longrightarrow>
    capture1_round env now later path n e False dp st = Returned (st', packs) \<Longrightarrow> capture_reach env path n e st'"

lemma capture_reach_inv:
  assumes "capture_reach env path n e st" and "2 \<le> n"
  shows "\<exists>ws c. capture_inv env n ws c st"
  using assms(1)
proof (induction rule: capture_reach.induct)
  case (begun st)
  obtain r where "createRingBuffer (n + 1) = Some r" "ring_holds r []" "bufSize r = n + 1" "Head r = 0" "Tail r = 0"
    using ring_created [of "n + 1"] assms(2) by auto
  then have "capture_inv env n [] 0 st" using begun assms(2) by (auto simp: start_capture1_def capture_inv_def ring_count_def)
  then show ?case by blast
next
  case (round st dp now later st' packs)
  then obtain ws c where "capture_inv env n ws c st" by blast
  from round_inv [OF this assms(2) round.hyps(2), of now later path e False] round.hyps(3)
  show ?case by auto
qed

text \<open>
  C20: A capture of a readable signal is safe. For a buffer of two data points or more, in every
  round of a capture, with any allowed error, clock and rounding, when the data points read so far
  have values and time stamps that can be read, nothing panics: no index leaves the ring, the
  buffer of the analysis or the lists; fewer data points than the size of the buffer are pending,
  and all of them are ones that were written.
\<close>

theorem capture_safe:
  assumes "capture_reach env path n e st" and "2 \<le> n"
    and "good_point env (decode_into env dp (latestMap st))"
  shows "capture1_round env now later path n e closing dp st \<noteq> Panics
    \<and> 0 \<le> getNumOfPopulatedRingElements (ringBuffer st) \<and> getNumOfPopulatedRingElements (ringBuffer st) < n
    \<and> (\<exists>ws. \<forall>k. int k < getNumOfPopulatedRingElements (ringBuffer st) \<longrightarrow>
          k < length ws \<and> readRing (ringBuffer st) (int k) = Some (ws ! k) \<and> readable env (ws ! k))"
proof -
  obtain ws c where inv: "capture_inv env n ws c st" using capture_reach_inv [OF assms(1,2)] by blast
  then have r: "ring_holds (ringBuffer st) ws" "bufSize (ringBuffer st) = n + 1" "ring_count (ringBuffer st) c" "c < n"
    "nat c \<le> length ws" "list_all (readable env) ws" by (simp_all add: capture_inv_def)
  note cnt = ring_count_populated [OF r(3)]
  have "0 \<le> c" using r(3) by (simp add: ring_count_def)
  moreover have "\<forall>k. int k < c \<longrightarrow> k < length ws \<and> readRing (ringBuffer st) (int k) = Some (ws ! k) \<and> readable env (ws ! k)"
  proof (intro allI impI)
    fix k assume k: "int k < c"
    then have "k < length ws" using r(5) by linarith
    then show "k < length ws \<and> readRing (ringBuffer st) (int k) = Some (ws ! k) \<and> readable env (ws ! k)"
      using ring_reads [OF r(1), of k] k r(2,4,6) by (simp add: list_all_length)
  qed
  moreover have "capture1_round env now later path n e closing dp st \<noteq> Panics"
    using round_inv [OF inv assms(2,3), of now later path e closing] by auto
  ultimately show ?thesis using r(4) unfolding cnt by blast
qed

definition parked_point :: string where
  "parked_point = element_text (''0'', ''a'')"

lemma parked_decoded: "decode_into parked parked_point [] = [(''value'', GoStr ''0''), (''ts'', GoStr ''a'')]"
  by code_simp

theorem capture_safe_witness:
  "\<exists>st. start_capture1 3 = Some st \<and> capture1_round parked 0 0 ''Speed'' 3 (Fin 1) True parked_point st \<noteq> Panics"
proof -
  obtain st where st: "start_capture1 3 = Some st" "latestMap st = []"
    by (auto simp: start_capture1_def createRingBuffer_def)
  have "good_point parked (decode_into parked parked_point (latestMap st))"
    unfolding st(2) parked_decoded by (simp add: good_point_def gget_def readable_def parked_def)
  from capture_safe [OF capture_reach.begun [OF st(1)] _ this, of 0 0 "''Speed''" "Fin 1" True] st(1)
  show ?thesis by auto
qed

text \<open>
  C23: A signal that is not a number ends the server. As soon as a full buffer of three data
  points or more holds a value that does not parse as a number, as the values of a boolean or a text
  signal do not, the analysis panics; nothing is checked when the subscription is made.
\<close>

theorem unreadable_value_panics:
  assumes "3 \<le> n" and "\<forall>i. int i < n \<longrightarrow> readRing r (int i) \<noteq> None"
    and "int k < n" and "readRing r (int k) = Some (val, ts)" and "parse64 env val = None"
  shows "clAnalyze1dim env r n e = Panics"
proof -
  have "transform_from env r base ks = Some None" if "k \<in> set ks" "\<forall>i \<in> set ks. int i < n" for ks base
    using that
  proof (induction ks)
    case (Cons i ks)
    obtain p where p: "readRing r (int i) = Some p" using assms(2) Cons.prems(2) by fastforce
    then obtain q status where d: "transformDataPoint env r (int i) base = Some (q, status)"
      by (cases "transformDataPoint env r (int i) base") (auto simp: transformDataPoint_def)
    have "\<not> status" if "i = k" using d assms(4,5) that by (simp add: transformDataPoint_def)
    then show ?case using d Cons by (cases "i = k") auto
  qed simp
  moreover have "k \<in> set [0..<nat n]" "\<forall>i \<in> set [0..<nat n]. int i < n" using assms(3) by auto
  ultimately have tf: "transform_from env r base [0..<nat n] = Some None" for base by blast
  have "n - 1 = int (nat (n - 1))" "int (nat (n - 1)) < n" using assms(1) by auto
  then obtain v0 ts0 where "readRing r (n - 1) = Some (v0, ts0)" using assms(2) by (metis option.exhaust surj_pair)
  then have "transformDataPoints env r n = Some []" using tf by (simp add: transformDataPoints_def)
  moreover have "clReduction1Dim (round64 env) [] 0 (nat (n - 1)) e = Panics"
    using assms(1) by (simp add: clReduction1Dim_def run_reduction_def)
  ultimately show ?thesis by (simp add: clAnalyze1dim_def)
qed

definition door_ring :: RingBuffer where
  "door_ring = \<lparr>bufSize = 4, RingElem = map (\<lambda>p. \<lparr>ElemValue = fst p, Timestamp = snd p\<rparr>)
     [(''true'', ''a''), (''true'', ''b''), (''false'', ''c''), ([], [])], Head = 3, Tail = 0\<rparr>"

theorem unreadable_value_panics_witness: "clAnalyze1dim parked door_ring 3 (Fin 1) = Panics"
proof -
  have "readRing door_ring (int i) \<noteq> None" if "int i < 3" for i
  proof -
    have "i = 0 \<or> i = 1 \<or> i = 2" using that by linarith
    then show ?thesis by (auto simp: door_ring_def readRing_def ring_index_def)
  qed
  then show ?thesis
    by (intro unreadable_value_panics [of 3 door_ring 0 "''false''" "''c''"])
      (simp_all add: door_ring_def readRing_def ring_index_def parked_def)
qed

text \<open>The tail that decides on the last data point of two signals never changes.\<close>

lemma capture2_tail:
  assumes "capture2_round env path1 path2 n e closing dp1 dp2 st = Returned (st', packs)"
  shows "updatedTail st' = updatedTail st"
  using assms
  by (auto simp: capture2_round_def Let_def split: option.splits prod.splits if_splits go_run.splits)

lemma capture2_no_last_point:
  "start_capture2 n = Some st \<Longrightarrow> capture2_end path1 path2 dp1 dp2 st = []"
  by (auto simp: start_capture2_def capture2_end_def)

end
