(* ===== verification/Spec2Isabelle.thy ===== *)
theory Spec2Isabelle
  imports Wire_Roundtrip Js_Roundtrip W3c_Session Speedometer Popper_Props
    Bs_Carousel Bs_Modal Bs_Scrollspy Bs_Tab Bs_Dropdown Bs_Collapse Bs_Button Bs_Tooltip
    Server_Core_Props Ats_Props Svc_Channel Svc_History Svc_Curve_Props
begin

text \<open>
  The W3C automotive VISS repository: a vehicle signal server in Go, clients of its WebSocket and
  HTTP interfaces, and the browser code of the demonstration pages. This development models the
  compressed wire format of the server and of the web client, the serving of requests by the
  server core, the access token server, the demonstration clients with their speedometer, and the
  two libraries the pages load, the positioning library and the plugin library. All paths below
  are under \<open>src/\<close>.

  \<^bold>\<open>How the parts interact.\<close> A page of \<open>client/w3cDemo\<close> drives a client class, which sends a
  request as JSON text over a socket or an HTTP call. A transport manager adds the routing data
  (\<open>AddRoutingForwardRequest\<close>) and hands it to the server core, which checks its text
  (\<open>validRequest\<close>), searches the tree for its paths, has the access token server judge the token
  where the tree asks for one, and passes it on to the service manager or answers with an error
  (\<open>serveRequest\<close>). The answer goes back by its routing data
  (\<open>serviceDataSession\<close>, \<open>RemoveInternalData\<close>). A client gets its token from the access token
  server, which may ask a consent framework first. Messages to thin clients are compressed by \<open>CompressMessage\<close>;
  \<open>client/client-1.0/Javascript\<close> decodes them in the browser with the list of leaf paths that
  both sides hold. The client class shows what it receives in the speedometer. The pages are
  built on the plugin library, whose dropdowns are placed by the positioning library.

  \<^bold>\<open>Shared vocabulary.\<close>
  \<^item> \<open>Prelude\<close>: bytes (\<open>8 word\<close>), decimal numerals, Go slices with the run-time panic as
    \<open>None\<close>, Go's binary search, JavaScript's operators on 32-bit integers.
  \<^item> \<open>Js_Number\<close>: the numbers of browser code, a real, an infinity or NaN. Rounding is not
    modelled. \<open>Js_Text\<close>: \<open>trim\<close>, \<open>split\<close>, \<open>parseFloat\<close> and so on. \<open>Js_Sort\<close>:
    \<open>Array.prototype.sort\<close> and its agreement with the library's sorting.
  \<^item> \<open>Machines\<close>: the contracts of the state machines, as locales: a step that keeps an
    invariant, one that conserves what it processes, and one that refines an abstract machine.

  \<^bold>\<open>The wire format.\<close>
  \<^item> \<open>Wire_Codes\<close> and \<open>Path_List\<close>: the code list of \<open>utils/computils.go\<close> and of
    \<open>uuiddata.js\<close>, and the path list of \<open>vsspathlist.js\<close>, entry by entry. The list is
    proved sorted, which the server's binary search needs.
  \<^item> \<open>Wire_Encode\<close> and \<open>Wire_Decode\<close>: \<open>CompressMessage\<close> and \<open>DecompressMessage\<close>
    function by function. The loops have the length of the message as their measure; the
    conversion of text to a 32-bit float is an argument.
  \<^item> \<open>Js_Decompress\<close>: \<open>decompressMessage\<close> of \<open>w3cdecompress.js\<close>, whose loops
    are shown to advance; the current year and the rendering of a float are arguments.
  \<^item> \<open>Wire_Roundtrip\<close> and \<open>Js_Roundtrip\<close>: what the server decodes of what it encodes, and
    what the browser does. Several theorems give the exact condition under which a value
    survives, because it does not always.

  \<^bold>\<open>The server.\<close> A run-time panic, which ends the server, is \<open>None\<close>.
  \<^item> \<open>Go_Json\<close> and \<open>Go_Json_Props\<close>: what the code relies on of Go's \<open>encoding/json\<close>, a reader and a
    writer of texts. The reader has fuel, of which twice the length of the text and one is shown
    to be enough; what is written is shown to be read back.
  \<^item> \<open>Server_Utils\<close>: \<open>utils/common.go\<close> and the message surgery of \<open>utils/managerhandlers.go\<close>.
    \<open>Jwt\<close>: the tokens of \<open>utils/datatypes.go\<close>, whose keyed hash is an argument.
  \<^item> \<open>Server_Core\<close>: one message through \<open>serveRequest\<close>, with the tree library, the token server
    and the clock in a record. \<open>Server_Core_Props\<close>: what is forwarded is authorised, with the
    exact way round it; answers find their client, with the exception; which requests panic.
  \<^item> \<open>Ats\<close>: \<open>atServer/atServer.go\<close>, one step per message, tick or end of a used proof.
    \<open>Ats_Props\<close>: tokens read back, access follows the purpose list, a proof is good once, and
    what goes wrong with consent. Reachable states are the runs of \<open>ats_step\<close>.
  \<^item> \<open>Svc_Data\<close> and \<open>Svc_Subs\<close>: \<open>serviceMgr/serviceMgr.go\<close>, data points and the conditions of
    subscriptions, then the loop of \<open>ServiceMgrInit\<close> with a step per request, tick or message. A
    handler returns, panics or does not end; the one loop that may not end is a partial function.
    \<open>Svc_Props\<close>: the invariant of the reachable states. \<open>Svc_Claims\<close>: which subscriptions end, and
    how many answers a request gets. \<open>Svc_Channel\<close>: the thread in front of the loop with the
    unbuffered channels between them, and when both stop for good.
  \<^item> \<open>Svc_History\<close>: the history server of \<open>serviceMgr.go\<close>, a step per capture, control message or
    request; what its buffers record, and what a request for a period gets.
  \<^item> \<open>Svc_Ring\<close>, \<open>Svc_Reduce\<close> and \<open>Svc_Curve\<close>: \<open>curvelog.go\<close>, the ring buffers, the recursion that
    selects data points, and the rounds of a capture. Floats have infinities and NaN, and their
    rounding is an argument; the recursion is a partial function, shown to end when the errors
    at the ends of a line are within the limit, a locale that exact arithmetic interprets for one,
    two and three signals. \<open>Svc_Curve_Props\<close>: rounds that do not panic, and the ways in which curve
    logging ends the server or stays silent.

  \<^bold>\<open>Requests and the demonstration clients.\<close>
  \<^item> \<open>Server_Validate\<close>: \<open>validRequest\<close> and its helpers, of
    \<open>server/vissv2server/vissv2server.go\<close>.
  \<^item> \<open>W3c_Clients\<close>: \<open>w3c-client.js\<close>, \<open>ws-w3c.js\<close> and \<open>rest-w3c.js\<close>, each method as a
    run, the list of its effects and the exception that ended it. \<open>JSON.parse\<close> is an
    argument. \<open>W3c_Session\<close> has the messages that the server accepts and the sessions of a page,
    a step relation on calls and socket events.
  \<^item> \<open>Speedometer\<close>: \<open>speedometer.js\<close>, the defaults, the scale, and the update.

  \<^bold>\<open>The positioning library\<close> (\<open>Popper\<close>, in \<open>client/w3cDemo/js/bootstrap.bundle.js\<close>).
  \<^item> \<open>Popper_Dom\<close> and \<open>Popper_Rect\<close>: the document and what the library measures on it. What
    the browser answers is the record \<open>dom\<close>; an exception is \<open>None\<close>.
  \<^item> \<open>Popper_Data\<close>, \<open>Popper_Modifiers\<close>, \<open>Popper_Update\<close>: the data object, the ten modifiers
    and the loop that runs them. The \<open>flip\<close> modifier runs the modifiers before it again, so
    that loop is a partial function: \<open>None\<close> is a call that throws or does not return.
  \<^item> \<open>Popper_Life\<close>: the constructor, listeners, debounced updates and destruction, with the
    step relation of an instance. \<open>Popper_Demo\<close> is a concrete page for witnesses;
    \<open>Popper_Props\<close> holds the properties.

  \<^bold>\<open>The plugin library\<close> (\<open>client/w3cDemo/js/bootstrap.js\<close>).
  \<^item> \<open>Bs_Util\<close>: \<open>Util\<close>, the options and their type tables, and the emulated end of a
    transition, a machine that loses no callback and runs none twice.
  \<^item> \<open>Bs_Carousel\<close>: a carousel and everything that can happen to it. One item is active in
    every state, and the calls refine steps on a ring.
  \<^item> \<open>Bs_Modal\<close>: a dialog with its backdrop and the styles it changes. The reachable
    states are an inductive predicate, with the invariant by rule induction.
  \<^item> \<open>Bs_Scrollspy\<close>: the offsets, and the links a scroll activates.
  \<^item> \<open>Bs_Page\<close>: the elements of a page as jQuery reads and writes them; \<open>Bs_Tab\<close>,
    \<open>Bs_Dropdown\<close>, \<open>Bs_Collapse\<close> and \<open>Bs_Button\<close> extend its record with the state of their
    plugin. Handlers of events can be prevented by the page: that is an argument everywhere.
  \<^item> \<open>Bs_Tooltip\<close>: a tooltip or popover with its timers, transitions and poppers. What every
    operation keeps of them is proved once, in a locale on the primitive changes.

  \<^bold>\<open>Loops.\<close> But for the reader of JSON no definition has fuel. A loop that ends is structural or has a measure; one that
  may run on (the walks up the document, the drawing of the scale, the search for a fresh
  identifier) is a partial function with the value \<open>None\<close> where it does not end, and that it
  returns is proved as such, or that it does not (\<open>createIndicators_diverges\<close>).

  \<^bold>\<open>Not modelled.\<close> The disposal and the jQuery interface of most plugins; jQuery itself and the minified bundles, which are
  third-party code; the start-up of the service manager, and the capture of three signals, which is never
  started; of the transport managers all but their work on messages; the files, connections and asymmetric keys of the token servers; feeders, command
  line clients, generated protocol code, tools, and the theme of the tutorial site.
\<close>

end
